(* ===== verification/Prelude.thy ===== *)
theory Prelude
  imports Main
begin

text \<open>
  The prelude of the development: the fact collections, the result type of Go calls
  (\<open>Inl\<close> an error, \<open>Inr\<close> the values returned beside a nil error), the small
  state-and-error monad in which the code's sequences of fallible calls are written, and the
  generic lemmas on association by predicate (SQL-like updates of a list of rows) that the
  components share.
\<close>

named_theorems monad_defs \<open>definitions of the state-and-error combinators\<close>
named_theorems row_simps \<open>facts on updates of rows selected by a predicate\<close>

section \<open>Calls that read and change a state and may fail\<close>

type_synonym ('s, 'e, 'a) call = "'s \<Rightarrow> ('e + 'a) \<times> 's"

definition ret :: "'a \<Rightarrow> ('s, 'e, 'a) call" where
  [monad_defs]: "ret x = (\<lambda>s. (Inr x, s))"

definition fail :: "'e \<Rightarrow> ('s, 'e, 'a) call" where
  [monad_defs]: "fail e = (\<lambda>s. (Inl e, s))"

text \<open>The Go idiom \<open>x, err := m(); if err != nil { return err }; f(x)\<close>.\<close>

definition bindE :: "('s, 'e, 'a) call \<Rightarrow> ('a \<Rightarrow> ('s, 'e, 'b) call) \<Rightarrow> ('s, 'e, 'b) call" where
  [monad_defs]: "bindE m f = (\<lambda>s. case m s of
     (Inl e, s') \<Rightarrow> (Inl e, s')
   | (Inr x, s') \<Rightarrow> f x s')"

text \<open>The Go idiom \<open>if !ok { return err }\<close>.\<close>

definition guardE :: "bool \<Rightarrow> 'e \<Rightarrow> ('s, 'e, unit) call" where
  [monad_defs]: "guardE b e = (if b then ret () else fail e)"

text \<open>The error of a call made visible, for code that looks at it instead of returning it.\<close>

definition tryE :: "('s, 'e, 'a) call \<Rightarrow> ('s, 'e, 'e + 'a) call" where
  [monad_defs]: "tryE m = (\<lambda>s. case m s of (r, s') \<Rightarrow> (Inr r, s'))"

definition gets :: "('s \<Rightarrow> 'a) \<Rightarrow> ('s, 'e, 'a) call" where
  [monad_defs]: "gets f = (\<lambda>s. (Inr (f s), s))"

definition modifies :: "('s \<Rightarrow> 's) \<Rightarrow> ('s, 'e, unit) call" where
  [monad_defs]: "modifies f = (\<lambda>s. (Inr (), f s))"

text \<open>Wrapping: \<open>fmt.Errorf\<close> and \<open>normalizeStoreError\<close> map the error, not the state.\<close>

definition map_err :: "('e \<Rightarrow> 'd) \<Rightarrow> ('s, 'e, 'a) call \<Rightarrow> ('s, 'd, 'a) call" where
  [monad_defs]: "map_err g m = (\<lambda>s. case m s of
     (Inl e, s') \<Rightarrow> (Inl (g e), s')
   | (Inr x, s') \<Rightarrow> (Inr x, s'))"

lemma bindE_Inr: "m s = (Inr x, s') \<Longrightarrow> bindE m f s = f x s'"
  by (simp add: bindE_def)

lemma bindE_Inl: "m s = (Inl e, s') \<Longrightarrow> bindE m f s = (Inl e, s')"
  by (simp add: bindE_def)

lemma bindE_ret [simp]: "bindE (ret x) f = f x"
  by (simp add: monad_defs)

lemma bindE_fail [simp]: "bindE (fail e) f = fail e"
  by (simp add: monad_defs)

lemma bindE_assoc: "bindE (bindE m f) g = bindE m (\<lambda>x. bindE (f x) g)"
  by (auto simp: bindE_def fun_eq_iff split: prod.splits sum.splits)

lemma bindE_InrE:
  assumes "bindE m f s = (Inr y, t)"
  obtains x u where "m s = (Inr x, u)" and "f x u = (Inr y, t)"
  using assms by (auto simp: bindE_def split: prod.splits sum.splits)

lemma bindE_cases:
  assumes "bindE m f s = (r, t)"
  obtains (first_fails) e where "m s = (Inl e, t)" and "r = Inl e"
    | (both) x u where "m s = (Inr x, u)" and "f x u = (r, t)"
  using assms by (auto simp: bindE_def split: prod.splits sum.splits)

lemma ret_eq [simp]: "ret x s = (Inr y, t) \<longleftrightarrow> x = y \<and> t = s"
  by (auto simp: monad_defs)

lemma ret_not_Inl [simp]: "ret x s \<noteq> (Inl e, t)"
  by (simp add: monad_defs)

lemma fail_eq [simp]: "fail e s = (Inl d, t) \<longleftrightarrow> e = d \<and> t = s"
  by (auto simp: monad_defs)

lemma fail_not_Inr [simp]: "fail e s \<noteq> (Inr y, t)"
  by (simp add: monad_defs)

lemma guardE_Inr [simp]: "guardE b e s = (Inr u, t) \<longleftrightarrow> b \<and> t = s"
  by (auto simp: monad_defs)

lemma guardE_Inl [simp]: "guardE b e s = (Inl d, t) \<longleftrightarrow> \<not> b \<and> d = e \<and> t = s"
  by (auto simp: monad_defs)

text \<open>Running a sequence one call at a time.\<close>

named_theorems call_eval \<open>one step of a sequence of calls\<close>

lemma bind_guard_eval [call_eval]: "bindE (guardE b e) f s = (if b then f () s else (Inl e, s))"
  by (simp add: monad_defs)

lemma bind_gets_eval [call_eval]: "bindE (gets g) f s = f (g s) s"
  by (simp add: monad_defs)

lemma bind_modifies_eval [call_eval]: "bindE (modifies g) f s = f () (g s)"
  by (simp add: monad_defs)

lemma guard_eval [call_eval]: "guardE b e s = (if b then Inr () else Inl e, s)"
  by (simp add: monad_defs)

lemma ret_eval [call_eval]: "ret x s = (Inr x, s)"
  by (simp add: monad_defs)

lemma fail_eval [call_eval]: "fail e s = (Inl e, s)"
  by (simp add: monad_defs)

lemma gets_eval [call_eval]: "gets g s = (Inr (g s), s)"
  by (simp add: monad_defs)

lemma modifies_eval [call_eval]: "modifies g s = (Inr (), g s)"
  by (simp add: monad_defs)

section \<open>What a call may do to the state: relations it keeps\<close>

text \<open>
  A relation between the state before and after a call that is reflexive and transitive
  (nothing else is assumed of it) is kept by a composed call when the calls it is made of
  keep it. The locale is interpreted on every frame and monotonicity relation of the
  store; its lemmas are what makes those proofs one-liners.
\<close>

definition keeps :: "('s \<Rightarrow> 's \<Rightarrow> bool) \<Rightarrow> ('s, 'e, 'a) call \<Rightarrow> bool" where
  "keeps R m \<longleftrightarrow> (\<forall>s. R s (snd (m s)))"

lemma keepsI: "(\<And>s r t. m s = (r, t) \<Longrightarrow> R s t) \<Longrightarrow> keeps R m"
  unfolding keeps_def by (metis surjective_pairing)

lemma keepsD: "keeps R m \<Longrightarrow> m s = (r, t) \<Longrightarrow> R s t"
  by (metis keeps_def snd_conv)

locale state_preorder =
  fixes R :: "'s \<Rightarrow> 's \<Rightarrow> bool"
  assumes R_refl: "R s s"
    and R_trans: "R s t \<Longrightarrow> R t u \<Longrightarrow> R s u"
begin

lemma keeps_ret: "keeps R (ret x)"
  by (simp add: keeps_def monad_defs R_refl)

lemma keeps_fail: "keeps R (fail e)"
  by (simp add: keeps_def monad_defs R_refl)

lemma keeps_guardE: "keeps R (guardE b e)"
  by (simp add: guardE_def keeps_ret keeps_fail)

lemma keeps_gets: "keeps R (gets f)"
  by (simp add: keeps_def monad_defs R_refl)

lemma keeps_bindE:
  assumes "keeps R m" and "\<And>x. keeps R (f x)"
  shows "keeps R (bindE m f)"
proof (rule keepsI)
  fix s r t assume "bindE m f s = (r, t)"
  then show "R s t"
    by (rule bindE_cases) (meson assms keepsD R_trans)+
qed

text \<open>The continuation may rely on what its argument came from.\<close>

lemma keeps_bindE_result:
  assumes "keeps R m" and "\<And>x s t. m s = (Inr x, t) \<Longrightarrow> keeps R (f x)"
  shows "keeps R (bindE m f)"
proof (rule keepsI)
  fix s r t assume "bindE m f s = (r, t)"
  then show "R s t"
    by (rule bindE_cases) (meson assms keepsD R_trans)+
qed

lemma keeps_tryE: "keeps R m \<Longrightarrow> keeps R (tryE m)"
  by (auto simp: keeps_def tryE_def split: prod.splits dest: spec) (metis snd_conv)

lemma keeps_map_err: "keeps R m \<Longrightarrow> keeps R (map_err g m)"
  by (auto simp: keeps_def map_err_def split: prod.splits sum.splits) (metis snd_conv)+

lemma keeps_if: "keeps R m \<Longrightarrow> keeps R n \<Longrightarrow> keeps R (if b then m else n)"
  by simp

lemma keeps_option:
  "(v = None \<Longrightarrow> keeps R m) \<Longrightarrow> (\<And>x. v = Some x \<Longrightarrow> keeps R (f x)) \<Longrightarrow> keeps R (case v of None \<Rightarrow> m | Some x \<Rightarrow> f x)"
  by (cases v) auto

lemma keeps_sum:
  "(\<And>x. v = Inl x \<Longrightarrow> keeps R (f x)) \<Longrightarrow> (\<And>x. v = Inr x \<Longrightarrow> keeps R (g x)) \<Longrightarrow> keeps R (case v of Inl x \<Rightarrow> f x | Inr x \<Rightarrow> g x)"
  by (cases v) auto

lemma keeps_prod: "(\<And>a b. v = (a, b) \<Longrightarrow> keeps R (f a b)) \<Longrightarrow> keeps R (case v of (a, b) \<Rightarrow> f a b)"
  by (cases v) auto

lemma keeps_list:
  "(v = [] \<Longrightarrow> keeps R m) \<Longrightarrow> (\<And>x xs. v = x # xs \<Longrightarrow> keeps R (f x xs)) \<Longrightarrow> keeps R (case v of [] \<Rightarrow> m | x # xs \<Rightarrow> f x xs)"
  by (cases v) auto

lemmas keeps_intros =
  keeps_ret keeps_fail keeps_guardE keeps_gets keeps_bindE
  keeps_tryE keeps_map_err keeps_if keeps_option keeps_sum keeps_prod keeps_list

end

section \<open>Rows selected by a predicate\<close>

definition update_where :: "('r \<Rightarrow> bool) \<Rightarrow> ('r \<Rightarrow> 'r) \<Rightarrow> 'r list \<Rightarrow> 'r list" where
  "update_where P f rs = map (\<lambda>r. if P r then f r else r) rs"

definition count_where :: "('r \<Rightarrow> bool) \<Rightarrow> 'r list \<Rightarrow> nat" where
  "count_where P rs = length (filter P rs)"

lemma update_where_id [row_simps]: "\<forall>r \<in> set rs. \<not> P r \<Longrightarrow> update_where P f rs = rs"
  by (simp add: update_where_def map_idI)

lemma count_where_0 [row_simps]: "count_where P rs = 0 \<longleftrightarrow> (\<forall>r \<in> set rs. \<not> P r)"
  by (auto simp: count_where_def filter_empty_conv)

lemma update_where_none [row_simps]: "count_where P rs = 0 \<Longrightarrow> update_where P f rs = rs"
  by (simp add: row_simps)

lemma map_update_where [row_simps]:
  "(\<And>r. k (f r) = k r) \<Longrightarrow> map k (update_where P f rs) = map k rs"
  by (simp add: update_where_def)

lemma set_update_where:
  "set (update_where P f rs) = f ` {r \<in> set rs. P r} \<union> {r \<in> set rs. \<not> P r}"
  by (auto simp: update_where_def)

lemma find_update_where [row_simps]:
  assumes "\<And>r. Q (f r) = Q r"
  shows "find Q (update_where P f rs) = map_option (\<lambda>r. if P r then f r else r) (find Q rs)"
  by (induction rs) (auto simp: update_where_def assms)

lemma length_update_where [simp]: "length (update_where P f rs) = length rs"
  by (simp add: update_where_def)

lemma update_where_Nil [simp]: "update_where P f [] = []"
  by (simp add: update_where_def)

lemma update_where_append: "update_where P f (xs @ ys) = update_where P f xs @ update_where P f ys"
  by (simp add: update_where_def)

lemma find_append: "find P (xs @ ys) = (case find P xs of None \<Rightarrow> find P ys | Some x \<Rightarrow> Some x)"
  by (induction xs) auto

lemma find_SomeD: "find P xs = Some x \<Longrightarrow> x \<in> set xs \<and> P x"
  by (induction xs) (auto split: if_splits)

lemma find_key_unique:
  "distinct (map k xs) \<Longrightarrow> x \<in> set xs \<Longrightarrow> find (\<lambda>y. k y = k x) xs = Some x"
  by (induction xs) auto

lemma find_filter_None: "find P xs = None \<Longrightarrow> filter P xs = []"
  by (auto simp: find_None_iff filter_empty_conv)

end
