(* ===== verification/GoStrings.thy ===== *)
theory GoStrings
  imports Prelude
begin

text \<open>
  What the code uses of Go's string library. A Go string is a sequence of bytes, here a
  \<open>string\<close> (its characters are the bytes); runes are code points, here \<open>nat\<close>.
  UTF-8 decoding follows \<open>unicode/utf8\<close> byte by byte, with U+FFFD and width 1 for every
  invalid byte. \<open>strings.ToLower\<close> is modelled on ASCII letters: the code applies it to
  status words, hexadecimal digests, user names and column names.
\<close>

section \<open>UTF-8\<close>

definition rune_error :: nat where
  "rune_error = 65533"

abbreviation cont_byte :: "nat \<Rightarrow> bool" where
  "cont_byte b \<equiv> 128 \<le> b \<and> b < 192"

fun decode_bytes :: "nat list \<Rightarrow> nat \<times> nat" where
  "decode_bytes (a # b # c # d # bs) =
    (if a < 128 then (a, 1)
     else if 194 \<le> a \<and> a < 224 \<and> cont_byte b then ((a - 192) * 64 + (b - 128), 2)
     else if 224 \<le> a \<and> a < 240 \<and> (if a = 224 then 160 \<le> b \<and> b < 192 else if a = 237 then 128 \<le> b \<and> b < 160
            else cont_byte b) \<and> cont_byte c
       then ((a - 224) * 4096 + (b - 128) * 64 + (c - 128), 3)
     else if 240 \<le> a \<and> a < 245 \<and> (if a = 240 then 144 \<le> b \<and> b < 192 else if a = 244 then 128 \<le> b \<and> b < 144
            else cont_byte b) \<and> cont_byte c \<and> cont_byte d
       then ((a - 240) * 262144 + (b - 128) * 4096 + (c - 128) * 64 + (d - 128), 4)
     else (rune_error, 1))"
| "decode_bytes [a, b, c] =
    (if a < 128 then (a, 1)
     else if 194 \<le> a \<and> a < 224 \<and> cont_byte b then ((a - 192) * 64 + (b - 128), 2)
     else if 224 \<le> a \<and> a < 240 \<and> (if a = 224 then 160 \<le> b \<and> b < 192 else if a = 237 then 128 \<le> b \<and> b < 160
            else cont_byte b) \<and> cont_byte c
       then ((a - 224) * 4096 + (b - 128) * 64 + (c - 128), 3)
     else (rune_error, 1))"
| "decode_bytes [a, b] =
    (if a < 128 then (a, 1)
     else if 194 \<le> a \<and> a < 224 \<and> cont_byte b then ((a - 192) * 64 + (b - 128), 2)
     else (rune_error, 1))"
| "decode_bytes [a] = (if a < 128 then (a, 1) else (rune_error, 1))"
| "decode_bytes [] = (rune_error, 0)"

definition byte_of :: "char \<Rightarrow> nat" where
  "byte_of c = of_char c"

definition decode_rune :: "string \<Rightarrow> nat \<times> nat" where
  "decode_rune s = decode_bytes (map byte_of (take 4 s))"

definition valid_rune :: "nat \<Rightarrow> bool" where
  "valid_rune r \<longleftrightarrow> r < 55296 \<or> (57344 \<le> r \<and> r < 1114112)"

definition encode_bytes :: "nat \<Rightarrow> nat list" where
  "encode_bytes r =
    (if r < 128 then [r]
     else if r < 2048 then [192 + r div 64, 128 + r mod 64]
     else if \<not> valid_rune r then [239, 191, 189]
     else if r < 65536 then [224 + r div 4096, 128 + r div 64 mod 64, 128 + r mod 64]
     else [240 + r div 262144, 128 + r div 4096 mod 64, 128 + r div 64 mod 64, 128 + r mod 64])"

definition encode_rune :: "nat \<Rightarrow> string" where
  "encode_rune r = map char_of (encode_bytes r)"

text \<open>The byte segments \<open>for _, r := range s\<close> visits, and the runes \<open>[]rune(s)\<close>.\<close>

fun segments :: "string \<Rightarrow> string list" where
  "segments [] = []"
| "segments (c # cs) =
    (let k = snd (decode_rune (c # cs)) - 1 in (c # take k cs) # segments (drop k cs))"

definition runes :: "string \<Rightarrow> nat list" where
  "runes s = map (\<lambda>seg. fst (decode_rune seg)) (segments s)"

definition string_of_runes :: "nat list \<Rightarrow> string" where
  "string_of_runes rs = concat (map encode_rune rs)"

definition rune_count :: "string \<Rightarrow> nat" where
  "rune_count s = length (segments s)"

text \<open>\<open>unicode.IsSpace\<close>.\<close>

definition is_space :: "nat \<Rightarrow> bool" where
  "is_space r \<longleftrightarrow> (9 \<le> r \<and> r \<le> 13) \<or> r = 32 \<or> r = 133 \<or> r = 160 \<or> r = 5760 \<or>
     (8192 \<le> r \<and> r \<le> 8202) \<or> r = 8232 \<or> r = 8233 \<or> r = 8239 \<or> r = 8287 \<or> r = 12288"

definition trim_segments :: "string list \<Rightarrow> string list" where
  "trim_segments xs =
    (let sp = (\<lambda>seg. is_space (fst (decode_rune seg)))
     in rev (dropWhile sp (rev (dropWhile sp xs))))"

definition trim_space :: "string \<Rightarrow> string" where
  "trim_space s = concat (trim_segments (segments s))"

definition to_lower_char :: "char \<Rightarrow> char" where
  "to_lower_char c = (let b = byte_of c in if 65 \<le> b \<and> b \<le> 90 then char_of (b + 32) else c)"

definition to_lower :: "string \<Rightarrow> string" where
  "to_lower s = map to_lower_char s"

text \<open>\<open>strings.EqualFold\<close>, on ASCII letters.\<close>

definition equal_fold :: "string \<Rightarrow> string \<Rightarrow> bool" where
  "equal_fold s t \<longleftrightarrow> to_lower s = to_lower t"

section \<open>Facts\<close>

lemma byte_of_bound [simp]: "byte_of c < 256"
  unfolding byte_of_def by (metis of_char_mod_256 mod_less_divisor zero_less_numeral)

lemma byte_of_char_of [simp]: "n < 256 \<Longrightarrow> byte_of (char_of n) = n"
  by (simp add: byte_of_def)

lemma char_of_byte_of [simp]: "char_of (byte_of c) = c"
  by (simp add: byte_of_def)

lemma concat_segments [simp]: "concat (segments s) = s"
  by (induction s rule: segments.induct) (simp_all add: Let_def)

lemma segments_eq_Nil [simp]: "segments s = [] \<longleftrightarrow> s = []"
  by (cases s) (simp_all add: Let_def)

lemma encode_bytes_byte: "b \<in> set (encode_bytes r) \<Longrightarrow> b < 256"
  by (auto simp: encode_bytes_def valid_rune_def split: if_splits)

lemma map_byte_of_encode_rune [simp]: "map byte_of (encode_rune r) = encode_bytes r"
  by (auto simp: encode_rune_def encode_bytes_byte intro: map_idI)

lemma length_encode_rune [simp]: "length (encode_rune r) = length (encode_bytes r)"
  by (simp add: encode_rune_def)

lemma encode_bytes_length: "1 \<le> length (encode_bytes r) \<and> length (encode_bytes r) \<le> 4"
  by (simp add: encode_bytes_def)

lemma decode_encode_two: "128 \<le> r \<Longrightarrow> r < 2048 \<Longrightarrow> decode_bytes ((192 + r div 64) # (128 + r mod 64) # bs) = (r, 2)"
proof -
  assume r: "128 \<le> r" "r < 2048"
  have "r div 64 < 32" "2 \<le> r div 64" "r mod 64 < 64" using r by auto
  then show ?thesis
    by (cases bs rule: decode_bytes.cases; simp; presburger)
qed

lemma decode_three:
  "\<lbrakk>a < 16; b < 64; c < 64; a = 0 \<longrightarrow> 32 \<le> b; a = 13 \<longrightarrow> b < 32\<rbrakk> \<Longrightarrow>
   decode_bytes ((224 + a) # (128 + b) # (128 + c) # bs) = (a * 4096 + b * 64 + c, 3)"
  by (cases bs) auto

lemma decode_four:
  "\<lbrakk>a < 5; b < 64; c < 64; d < 64; a = 0 \<longrightarrow> 16 \<le> b; a = 4 \<longrightarrow> b < 16\<rbrakk> \<Longrightarrow>
   decode_bytes ((240 + a) # (128 + b) # (128 + c) # (128 + d) # bs) = (a * 262144 + b * 4096 + c * 64 + d, 4)"
  by auto

lemma base64_digits3: "(r::nat) div 4096 * 4096 + r div 64 mod 64 * 64 + r mod 64 = r"
proof -
  have "r div 4096 = r div 64 div 64" by (simp add: div_mult2_eq [symmetric])
  moreover have "r = r div 64 * 64 + r mod 64" "r div 64 = r div 64 div 64 * 64 + r div 64 mod 64" by simp_all
  ultimately show ?thesis by linarith
qed

lemma base64_digits4:
  "(r::nat) div 262144 * 262144 + r div 4096 mod 64 * 4096 + r div 64 mod 64 * 64 + r mod 64 = r"
proof -
  have "r div 262144 = r div 4096 div 64" by (simp add: div_mult2_eq [symmetric])
  moreover have "r div 4096 = r div 4096 div 64 * 64 + r div 4096 mod 64" by simp
  ultimately show ?thesis using base64_digits3 [of r] by linarith
qed

lemma decode_encode_three:
  assumes "2048 \<le> r" "r < 65536" "valid_rune r"
  shows "decode_bytes ((224 + r div 4096) # (128 + r div 64 mod 64) # (128 + r mod 64) # bs) = (r, 3)"
proof (subst decode_three)
  have r: "r div 4096 * 4096 + r div 64 mod 64 * 64 + r mod 64 = r" by (rule base64_digits3)
  have bnd: "r div 64 mod 64 < 64" "r mod 64 < 64" by simp_all
  show "r div 4096 < 16" using assms(2) by auto
  show "r div 4096 = 0 \<longrightarrow> 32 \<le> r div 64 mod 64" using assms(1) r bnd by auto
  show "r div 4096 = 13 \<longrightarrow> r div 64 mod 64 < 32"
    using assms(3) r bnd unfolding valid_rune_def by linarith
qed (simp_all only: base64_digits3 mod_less_divisor zero_less_numeral)

lemma decode_encode_four:
  assumes "65536 \<le> r" "valid_rune r"
  shows "decode_bytes ((240 + r div 262144) # (128 + r div 4096 mod 64) # (128 + r div 64 mod 64) # (128 + r mod 64) # bs) = (r, 4)"
proof (subst decode_four)
  have r: "r div 262144 * 262144 + r div 4096 mod 64 * 4096 + r div 64 mod 64 * 64 + r mod 64 = r"
    by (rule base64_digits4)
  have bnd: "r div 4096 mod 64 < 64" "r div 64 mod 64 < 64" "r mod 64 < 64" by simp_all
  have top: "r < 1114112" using assms by (auto simp: valid_rune_def)
  show "r div 262144 < 5" using top by auto
  show "r div 262144 = 0 \<longrightarrow> 16 \<le> r div 4096 mod 64" using assms(1) r bnd by linarith
  show "r div 262144 = 4 \<longrightarrow> r div 4096 mod 64 < 16" using top r bnd by linarith
qed (simp_all only: base64_digits4 mod_less_divisor zero_less_numeral)

lemma decode_ascii: "a < 128 \<Longrightarrow> decode_bytes (a # bs) = (a, 1)"
  by (cases "a # bs" rule: decode_bytes.cases) auto

lemma decode_encode: "valid_rune r \<Longrightarrow> decode_bytes (encode_bytes r @ bs) = (r, length (encode_bytes r))"
  by (simp del: decode_bytes.simps add: encode_bytes_def decode_ascii decode_encode_two
      decode_encode_three decode_encode_four)

lemma decode_bytes_take4: "decode_bytes (take 4 bs) = decode_bytes bs"
  by (cases bs rule: decode_bytes.cases) (auto simp: numeral_eq_Suc)

lemma decode_rune_all: "decode_rune s = decode_bytes (map byte_of s)"
  using decode_bytes_take4 [of "map byte_of s"] by (simp add: decode_rune_def take_map)

lemma decode_rune_encode: "valid_rune r \<Longrightarrow> decode_rune (encode_rune r @ s) = (r, length (encode_rune r))"
  by (simp add: decode_rune_all decode_encode)

lemma encode_rune_Cons: "\<exists>c cs. encode_rune r = c # cs"
  using encode_bytes_length [of r] by (cases "encode_rune r") (auto simp: encode_rune_def)

lemma segments_encode: "valid_rune r \<Longrightarrow> segments (encode_rune r @ s) = encode_rune r # segments s"
proof -
  assume v: "valid_rune r"
  obtain c cs where e: "encode_rune r = c # cs" using encode_rune_Cons by blast
  from decode_rune_encode [OF v, of s] show ?thesis by (simp add: e)
qed

lemma segments_string_of_runes:
  "\<forall>r \<in> set rs. valid_rune r \<Longrightarrow> segments (string_of_runes rs) = map encode_rune rs"
  by (induction rs) (simp_all add: string_of_runes_def segments_encode)

lemma runes_string_of_runes: "\<forall>r \<in> set rs. valid_rune r \<Longrightarrow> runes (string_of_runes rs) = rs"
  unfolding runes_def using decode_rune_encode [of _ "[]"]
  by (auto simp: segments_string_of_runes intro!: map_idI)

lemma rune_count_string_of_runes [simp]:
  "\<forall>r \<in> set rs. valid_rune r \<Longrightarrow> rune_count (string_of_runes rs) = length rs"
  by (simp add: rune_count_def segments_string_of_runes)

lemma decode_bytes_valid: "list_all (\<lambda>b. b < 256) bs \<Longrightarrow> valid_rune (fst (decode_bytes bs))"
  by (cases bs rule: decode_bytes.cases) (auto simp: valid_rune_def rune_error_def split: if_splits)

lemma runes_valid: "r \<in> set (runes s) \<Longrightarrow> valid_rune r"
  by (auto simp: runes_def decode_rune_all list_all_iff intro!: decode_bytes_valid)

lemma length_runes: "length (runes s) = rune_count s"
  by (simp add: runes_def rune_count_def)

text \<open>Cutting a string to at most \<open>n\<close> runes, as \<open>string([]rune(s)[:n])\<close>.\<close>

lemma rune_count_take_runes [simp]: "rune_count (string_of_runes (take n (runes s))) = min (rune_count s) n"
  by (subst rune_count_string_of_runes) (auto dest: in_set_takeD runes_valid simp: length_runes min.commute)

section \<open>ASCII strings\<close>

definition ascii :: "string \<Rightarrow> bool" where
  "ascii s \<longleftrightarrow> list_all (\<lambda>c. byte_of c < 128) s"

lemma segments_ascii: "ascii s \<Longrightarrow> segments s = map (\<lambda>c. [c]) s"
  by (induction s) (auto simp: ascii_def decode_rune_all decode_ascii)

lemma trim_space_Nil [simp]: "trim_space [] = []"
  by (simp add: trim_space_def trim_segments_def Let_def)

lemma to_lower_idem [simp]: "to_lower (to_lower s) = to_lower s"
  by (simp add: to_lower_def to_lower_char_def Let_def byte_of_def)

definition graphic :: "string \<Rightarrow> bool" where
  "graphic s \<longleftrightarrow> list_all (\<lambda>c. 33 \<le> byte_of c \<and> byte_of c < 127) s"

lemma graphic_ascii: "graphic s \<Longrightarrow> ascii s"
  by (auto simp: graphic_def ascii_def list_all_iff)

lemma decode_rune_single: "byte_of c < 128 \<Longrightarrow> decode_rune [c] = (byte_of c, 1)"
  by (simp add: decode_rune_all)

lemma trim_graphic: "graphic s \<Longrightarrow> trim_space s = s"
proof -
  assume g: "graphic s"
  have sp: "\<not> is_space (fst (decode_rune [c]))" if "c \<in> set s" for c
    using g that by (auto simp: graphic_def list_all_iff decode_rune_single is_space_def)
  have same: "dropWhile (\<lambda>seg. is_space (fst (decode_rune seg))) xs = xs"
    if "set xs \<subseteq> (\<lambda>c. [c]) ` set s" for xs
    using that sp by (cases xs) auto
  show ?thesis
    by (simp add: trim_space_def trim_segments_def Let_def segments_ascii [OF graphic_ascii [OF g]] same)
qed

lemma runes_ascii: "ascii s \<Longrightarrow> runes s = map byte_of s"
  by (induction s) (auto simp: runes_def segments_ascii decode_rune_all decode_ascii ascii_def)

lemma dropWhile_singletons:
  "ascii s \<Longrightarrow> dropWhile (\<lambda>seg. is_space (fst (decode_rune seg))) (map (\<lambda>c. [c]) s) =
     map (\<lambda>c. [c]) (dropWhile (\<lambda>c. is_space (byte_of c)) s)"
  by (induction s) (auto simp: ascii_def decode_rune_single)

lemma trim_ascii:
  assumes "ascii s"
  shows "trim_space s = rev (dropWhile (\<lambda>c. is_space (byte_of c)) (rev (dropWhile (\<lambda>c. is_space (byte_of c)) s)))"
proof -
  let ?r = "rev (dropWhile (\<lambda>c. is_space (byte_of c)) s)"
  have r: "ascii ?r" using assms by (auto simp: ascii_def list_all_iff dest: set_dropWhileD)
  have single: "concat (map (\<lambda>c. [c]) xs) = xs" for xs :: string by (induction xs) auto
  have "trim_space s = concat (rev (dropWhile (\<lambda>seg. is_space (fst (decode_rune seg))) (map (\<lambda>c. [c]) ?r)))"
    by (simp add: trim_space_def trim_segments_def Let_def segments_ascii [OF assms] dropWhile_singletons [OF assms] rev_map)
  then show ?thesis by (simp only: rev_map dropWhile_singletons [OF r] single)
qed

end
