(* ===== verification/AgentModel.thy ===== *)
theory AgentModel
  imports GoStrings
begin

text \<open>
  The durable data of the Agent subsystem (\<open>src/model/agent.go\<close>): the status words as
  datatypes, a task row and a step row as records with the Go struct's fields in its order.
  A \<open>*time.Time\<close> column is a \<open>time option\<close> (\<open>None\<close> is SQL NULL), a
  \<open>time.Time\<close> is a \<open>time\<close> in nanoseconds since 1970 UTC, a \<open>longblob\<close> is
  a byte string that is \<open>[]\<close> when NULL. \<open>run_version\<close> and
  \<open>checkpoint_version\<close> are unsigned BIGINT columns that MySQL refuses to increment past
  their range instead of wrapping, so they are \<open>nat\<close>. A task row does not hold its steps:
  they are rows of their own, and a loaded task is a pair of a row and its ordered steps.
\<close>

type_synonym time = int

definition second :: time where "second = 1000000000"
definition minute :: time where "minute = 60 * second"

text \<open>Go's zero \<open>time.Time\<close>, January 1 of year 1.\<close>

definition zero_time :: time where "zero_time = -62135596800 * 1000000000"

datatype task_status =
    TaskPending | TaskPlanning | TaskRunning | TaskWaitingApproval | TaskRequiresReview
  | TaskSucceeded | TaskFailed | TaskRejected | TaskCancelled

text \<open>\<open>KindUnset\<close> and \<open>DecisionUnset\<close> are the empty string, Go's zero value.\<close>

datatype step_kind = KindUnset | KindPlan | KindTool | KindFinal

datatype step_status =
    StepPending | StepRunning | StepWaitingApproval | StepApproved | StepRejected
  | StepSucceeded | StepFailed | StepExecutionUnknown | StepSkipped

datatype decision = DecisionUnset | DecisionPending | DecisionApproved | DecisionRejected

record agent_task =
  t_id :: string
  t_user :: string
  t_session :: string
  t_goal :: string
  t_model :: string
  t_status :: task_status
  t_current_step :: string
  t_plan_summary :: string
  t_final_answer :: string
  t_error :: string
  t_checkpoint :: string
  t_checkpoint_version :: nat
  t_run_version :: nat
  t_attempts :: nat
  t_lease_owner :: string
  t_lease_until :: "time option"
  t_heartbeat_at :: "time option"
  t_started_at :: "time option"
  t_finished_at :: "time option"
  t_created_at :: time
  t_updated_at :: time

record agent_step =
  s_id :: string
  s_task :: string
  s_user :: string
  s_seq :: nat
  s_kind :: step_kind
  s_node :: string
  s_title :: string
  s_instruction :: string
  s_status :: step_status
  s_attempts :: nat
  s_error :: string
  s_tool :: string
  s_args_json :: string
  s_args_digest :: string
  s_args_preview :: string
  s_output_json :: string
  s_result :: string
  s_risk :: string
  s_requires_approval :: bool
  s_read_only :: bool
  s_idempotent :: bool
  s_destructive :: bool
  s_decision :: decision
  s_decision_reason :: string
  s_decided_at :: "time option"
  s_request_id :: string
  s_operation_id :: string
  s_started_at :: "time option"
  s_finished_at :: "time option"
  s_created_at :: time
  s_updated_at :: time

type_synonym loaded_task = "agent_task \<times> agent_step list"

text \<open>The zero values of the two structs, from which literals name the fields they set.\<close>

definition zero_task :: agent_task where
  "zero_task = \<lparr>t_id = [], t_user = [], t_session = [], t_goal = [], t_model = [],
     t_status = TaskPending, t_current_step = [], t_plan_summary = [], t_final_answer = [],
     t_error = [], t_checkpoint = [], t_checkpoint_version = 0, t_run_version = 0,
     t_attempts = 0, t_lease_owner = [], t_lease_until = None, t_heartbeat_at = None,
     t_started_at = None, t_finished_at = None, t_created_at = zero_time, t_updated_at = zero_time\<rparr>"

definition zero_step :: agent_step where
  "zero_step = \<lparr>s_id = [], s_task = [], s_user = [], s_seq = 0, s_kind = KindUnset, s_node = [],
     s_title = [], s_instruction = [], s_status = StepPending, s_attempts = 0, s_error = [],
     s_tool = [], s_args_json = [], s_args_digest = [], s_args_preview = [], s_output_json = [],
     s_result = [], s_risk = [], s_requires_approval = False, s_read_only = False,
     s_idempotent = False, s_destructive = False, s_decision = DecisionUnset,
     s_decision_reason = [], s_decided_at = None, s_request_id = [], s_operation_id = [],
     s_started_at = None, s_finished_at = None, s_created_at = zero_time, s_updated_at = zero_time\<rparr>"

end
