(* ===== verification/Database.thy ===== *)
theory Database
  imports AgentModel "HOL-Library.Product_Lexorder" "HOL-Library.List_Lexorder" "HOL-Library.Char_ord"
begin

text \<open>
  The database the Agent store talks to: the two tables as lists of rows, and the SQL the code
  issues as operations on them. Every statement may fail: the environment says so in
  \<open>d_faults\<close>, one entry per statement (an empty schedule is a healthy connection), and a
  failed statement changes nothing. \<open>d_polls\<close> answers the code's \<open>ctx.Err()\<close>
  checks, \<open>d_clock\<close> is what \<open>store.now()\<close> returns, and \<open>d_uuid\<close> is the sequence
  of identifiers \<open>uuid.NewString()\<close> returns, a parameter of the model. A transaction rolls
  both tables back on every error. Row locks (\<open>SELECT ... FOR UPDATE\<close>) serialise the
  transactions on a task, so a transaction is one step; rows are compared by exact equality of
  identifiers; \<open>RowsAffected\<close> counts the rows the WHERE clause selects (each UPDATE of the
  code also writes \<open>updated_at\<close>).
\<close>

datatype driver_fault = DriverError | ContextCanceled

text \<open>The sentinel errors of \<open>dao/agent\<close>, GORM's not-found error, and driver errors.\<close>

datatype dao_error = DatabaseUnavailable | InvalidInput | Conflict | RecordNotFound | Driver driver_fault

record world =
  d_connected :: bool
  d_tasks :: "agent_task list"
  d_steps :: "agent_step list"
  d_clock :: time
  d_faults :: "driver_fault option list"
  d_polls :: "bool list"
  d_uuid :: "nat \<Rightarrow> string"
  d_uuid_next :: nat

type_synonym ('z, 'a) db_call = "('z world_scheme, dao_error, 'a) call"

section \<open>Statements and transactions\<close>

definition statement :: "('z, 'a) db_call \<Rightarrow> ('z, 'a) db_call" where
  "statement body = (\<lambda>w. case d_faults w of
     [] \<Rightarrow> body w
   | None # fs \<Rightarrow> body (w\<lparr>d_faults := fs\<rparr>)
   | Some e # fs \<Rightarrow> (Inl (Driver e), w\<lparr>d_faults := fs\<rparr>))"

definition atomic :: "('z, 'a) db_call \<Rightarrow> ('z, 'a) db_call" where
  "atomic m = (\<lambda>w. case m w of
     (Inl e, w') \<Rightarrow> (Inl e, w'\<lparr>d_tasks := d_tasks w, d_steps := d_steps w\<rparr>)
   | (Inr x, w') \<Rightarrow> (Inr x, w'))"

text \<open>\<open>db.Transaction(f)\<close>: BEGIN, the body, COMMIT; any error rolls back.\<close>

definition transaction :: "('z, 'a) db_call \<Rightarrow> ('z, 'a) db_call" where
  "transaction m = atomic (bindE (statement (ret ())) (\<lambda>_.
     bindE m (\<lambda>x. bindE (statement (ret ())) (\<lambda>_. ret x))))"

definition database :: "('z, unit) db_call" where
  "database = bindE (gets d_connected) (\<lambda>up. guardE up DatabaseUnavailable)"

definition current_time :: "('z, time) db_call" where
  "current_time = gets d_clock"

definition ctx_err :: "('z, bool) db_call" where
  "ctx_err = (\<lambda>w. case d_polls w of
     [] \<Rightarrow> (Inr False, w)
   | b # bs \<Rightarrow> (Inr b, w\<lparr>d_polls := bs\<rparr>))"

definition fresh_uuid :: "('z, string) db_call" where
  "fresh_uuid = (\<lambda>w. (Inr (d_uuid w (d_uuid_next w)), w\<lparr>d_uuid_next := Suc (d_uuid_next w)\<rparr>))"

section \<open>The statements\<close>

definition select_tasks :: "(agent_task list \<Rightarrow> 'a) \<Rightarrow> ('z, 'a) db_call" where
  "select_tasks q = statement (gets (\<lambda>w. q (d_tasks w)))"

definition select_steps :: "(agent_step list \<Rightarrow> 'a) \<Rightarrow> ('z, 'a) db_call" where
  "select_steps q = statement (gets (\<lambda>w. q (d_steps w)))"

text \<open>\<open>UPDATE ... SET f WHERE P\<close>, returning \<open>RowsAffected\<close>.\<close>

definition update_tasks :: "(agent_task \<Rightarrow> bool) \<Rightarrow> (agent_task \<Rightarrow> agent_task) \<Rightarrow> ('z, nat) db_call" where
  "update_tasks P f = statement (\<lambda>w.
     (Inr (count_where P (d_tasks w)), w\<lparr>d_tasks := update_where P f (d_tasks w)\<rparr>))"

definition update_steps :: "(agent_step \<Rightarrow> bool) \<Rightarrow> (agent_step \<Rightarrow> agent_step) \<Rightarrow> ('z, nat) db_call" where
  "update_steps P f = statement (\<lambda>w.
     (Inr (count_where P (d_steps w)), w\<lparr>d_steps := update_where P f (d_steps w)\<rparr>))"

definition delete_steps :: "(agent_step \<Rightarrow> bool) \<Rightarrow> ('z, unit) db_call" where
  "delete_steps P = statement (\<lambda>w. (Inr (), w\<lparr>d_steps := filter (Not \<circ> P) (d_steps w)\<rparr>))"

text \<open>INSERT checks the primary key and, on steps, the unique index on (task, sequence).\<close>

definition step_key :: "agent_step \<Rightarrow> string \<times> nat" where
  "step_key s = (s_task s, s_seq s)"

definition insertable :: "agent_step list \<Rightarrow> agent_step list \<Rightarrow> bool" where
  "insertable rows ss \<longleftrightarrow> distinct (map s_id (rows @ ss)) \<and> distinct (map step_key (rows @ ss))"

definition insert_task :: "agent_task \<Rightarrow> ('z, unit) db_call" where
  "insert_task t = statement (\<lambda>w.
     if t_id t \<in> t_id ` set (d_tasks w) then (Inl (Driver DriverError), w)
     else (Inr (), w\<lparr>d_tasks := d_tasks w @ [t]\<rparr>))"

definition insert_steps :: "agent_step list \<Rightarrow> ('z, unit) db_call" where
  "insert_steps ss = statement (\<lambda>w.
     if insertable (d_steps w) ss
     then (Inr (), w\<lparr>d_steps := d_steps w @ ss\<rparr>)
     else (Inl (Driver DriverError), w))"

text \<open>GORM fills \<open>created_at\<close> and \<open>updated_at\<close> of a new row when they are zero.\<close>

definition stamp_task :: "time \<Rightarrow> agent_task \<Rightarrow> agent_task" where
  "stamp_task now t = t\<lparr>t_created_at := (if t_created_at t = zero_time then now else t_created_at t),
     t_updated_at := (if t_updated_at t = zero_time then now else t_updated_at t)\<rparr>"

definition stamp_step :: "time \<Rightarrow> agent_step \<Rightarrow> agent_step" where
  "stamp_step now s = s\<lparr>s_created_at := (if s_created_at s = zero_time then now else s_created_at s),
     s_updated_at := (if s_updated_at s = zero_time then now else s_updated_at s)\<rparr>"

text \<open>\<open>First(&row)\<close>: the first selected row, or \<open>gorm.ErrRecordNotFound\<close>.\<close>

definition first_task :: "(agent_task \<Rightarrow> bool) \<Rightarrow> ('z, agent_task) db_call" where
  "first_task P = bindE (select_tasks (find P)) (\<lambda>r.
     case r of None \<Rightarrow> fail RecordNotFound | Some t \<Rightarrow> ret t)"

text \<open>\<open>First(&task)\<close> followed by the code's mapping of not-found to \<open>ErrConflict\<close>.\<close>

definition first_task_or_conflict :: "(agent_task \<Rightarrow> bool) \<Rightarrow> ('z, agent_task) db_call" where
  "first_task_or_conflict P = map_err (\<lambda>e. if e = RecordNotFound then Conflict else e) (first_task P)"

text \<open>\<open>sequence ASC, created_at ASC, id ASC\<close>.\<close>

definition order_steps :: "agent_step list \<Rightarrow> agent_step list" where
  "order_steps = sort_key (\<lambda>s. (s_seq s, s_created_at s, s_id s))"

text \<open>The tables of a world, which is all a rollback restores.\<close>

definition tables :: "'z world_scheme \<Rightarrow> agent_task list \<times> agent_step list" where
  "tables w = (d_tasks w, d_steps w)"

section \<open>Facts\<close>

named_theorems sql_defs \<open>definitions of statements\<close>

lemmas [sql_defs] = select_tasks_def select_steps_def update_tasks_def update_steps_def
  delete_steps_def insert_task_def insert_steps_def current_time_def database_def ctx_err_def
  fresh_uuid_def first_task_def first_task_or_conflict_def

lemma statement_cases:
  assumes "statement body w = (r, w')"
  obtains (fault) e fs where "r = Inl (Driver e)" and "w' = w\<lparr>d_faults := fs\<rparr>"
    | (runs) fs where "body (w\<lparr>d_faults := fs\<rparr>) = (r, w')"
proof (cases "d_faults w")
  case Nil
  have same: "w\<lparr>d_faults := []\<rparr> = w" using Nil by (cases w) simp
  from assms Nil have "body w = (r, w')" by (simp add: statement_def)
  then have "body (w\<lparr>d_faults := []\<rparr>) = (r, w')" unfolding same .
  then show ?thesis by (rule runs)
next
  case (Cons f fs)
  with assms show ?thesis
    by (cases f) (auto simp: statement_def intro: fault runs)
qed

lemma statement_healthy: "d_faults w = [] \<Longrightarrow> statement body w = body w"
  by (simp add: statement_def)

lemma tables_eq_iff: "tables w = tables v \<longleftrightarrow> d_tasks w = d_tasks v \<and> d_steps w = d_steps v"
  by (simp add: tables_def)

lemma tables_upd [simp]:
  "tables (w\<lparr>d_faults := fs\<rparr>) = tables w" "tables (w\<lparr>d_polls := ps\<rparr>) = tables w"
  "tables (w\<lparr>d_uuid_next := n\<rparr>) = tables w"
  by (simp_all add: tables_def)

lemma atomic_Inl: "atomic m w = (Inl e, w') \<Longrightarrow> tables w' = tables w"
  by (auto simp: atomic_def tables_def split: prod.splits sum.splits)

text \<open>Atomicity: a transaction that returns an error has changed no row.\<close>

lemma transaction_Inl: "transaction m w = (Inl e, w') \<Longrightarrow> tables w' = tables w"
  unfolding transaction_def by (rule atomic_Inl)

text \<open>A transaction that succeeds has run its body from the same rows.\<close>

lemma statement_ret_Inr: "statement (ret x) w = (Inr y, w') \<Longrightarrow> y = x \<and> (\<exists>fs. w' = w\<lparr>d_faults := fs\<rparr>)"
  by (erule statement_cases) auto

lemma transaction_Inr:
  assumes "transaction m w = (Inr x, w')"
  obtains fs fs' u where "m (w\<lparr>d_faults := fs\<rparr>) = (Inr x, u)" and "w' = u\<lparr>d_faults := fs'\<rparr>"
proof -
  from assms have "bindE (statement (ret ())) (\<lambda>_. bindE m (\<lambda>x. bindE (statement (ret ())) (\<lambda>_. ret x))) w = (Inr x, w')"
    by (auto simp: transaction_def atomic_def split: prod.splits sum.splits)
  then show ?thesis
    by (auto elim!: bindE_InrE dest!: statement_ret_Inr intro: that)
qed

lemma select_tasks_Inr: "select_tasks q w = (Inr x, w') \<Longrightarrow> x = q (d_tasks w) \<and> tables w' = tables w"
  by (auto simp: select_tasks_def gets_def elim!: statement_cases)

lemma select_steps_Inr: "select_steps q w = (Inr x, w') \<Longrightarrow> x = q (d_steps w) \<and> tables w' = tables w"
  by (auto simp: select_steps_def gets_def elim!: statement_cases)

lemma first_task_Inr:
  "first_task P w = (Inr t, w') \<Longrightarrow> find P (d_tasks w) = Some t \<and> tables w' = tables w"
  unfolding first_task_def
  by (erule bindE_InrE) (auto dest!: select_tasks_Inr split: option.splits)

lemma first_task_or_conflict_Inr:
  "first_task_or_conflict P w = (Inr t, w') \<Longrightarrow> find P (d_tasks w) = Some t \<and> tables w' = tables w"
  by (auto simp: first_task_or_conflict_def map_err_def dest: first_task_Inr split: prod.splits sum.splits)

lemma first_task_sat: "first_task P w = (Inr t, w') \<Longrightarrow> P t"
  by (auto dest!: first_task_Inr find_SomeD)

lemma first_task_or_conflict_sat: "first_task_or_conflict P w = (Inr t, w') \<Longrightarrow> P t"
  by (auto dest!: first_task_or_conflict_Inr find_SomeD)

end
