(* ===== verification/AgentStore.thy ===== *)
theory AgentStore
  imports Database
begin

text \<open>
  The durable Agent store, \<open>src/dao/agent/agent.go\<close>: one definition per operation, in the
  order of the file, each statement of the Go code one statement here.
\<close>

section \<open>Contexts and fencing tokens\<close>

text \<open>
  The part of a \<open>context.Context\<close> the store reads: the fencing token bound by
  \<open>WithWorkerFencingToken\<close>.
\<close>

record fencing_token =
  tok_task :: string
  tok_version :: nat
  tok_worker :: string

record ctx =
  c_token :: "fencing_token option"

definition background :: ctx where
  "background = \<lparr>c_token = None\<rparr>"

definition with_worker_fencing_token :: "('c) ctx_scheme \<Rightarrow> string \<Rightarrow> nat \<Rightarrow> string \<Rightarrow> ('c) ctx_scheme" where
  "with_worker_fencing_token c taskID v workerID =
     c\<lparr>c_token := Some \<lparr>tok_task = taskID, tok_version = v, tok_worker = trim_space workerID\<rparr>\<rparr>"

definition with_fencing_token :: "('c) ctx_scheme \<Rightarrow> string \<Rightarrow> nat \<Rightarrow> ('c) ctx_scheme" where
  "with_fencing_token c taskID v = with_worker_fencing_token c taskID v []"

definition worker_fencing_token_from_context :: "('c) ctx_scheme \<Rightarrow> (string \<times> nat \<times> string) option" where
  "worker_fencing_token_from_context c = (case c_token c of
     None \<Rightarrow> None
   | Some tok \<Rightarrow> if tok_task tok = [] \<or> tok_version tok = 0 then None
                 else Some (tok_task tok, tok_version tok, tok_worker tok))"

definition fencing_token_from_context :: "('c) ctx_scheme \<Rightarrow> (string \<times> nat) option" where
  "fencing_token_from_context c = (case c_token c of
     None \<Rightarrow> None
   | Some tok \<Rightarrow> if tok_task tok = [] \<or> tok_version tok = 0 then None
                 else Some (tok_task tok, tok_version tok))"

definition active_lease_fence :: "('c) ctx_scheme \<Rightarrow> string \<Rightarrow> nat \<Rightarrow> string option" where
  "active_lease_fence c taskID v = (case worker_fencing_token_from_context c of
     None \<Rightarrow> None
   | Some (tokTask, tokVersion, workerID) \<Rightarrow>
       if tokTask \<noteq> taskID \<or> tokVersion \<noteq> v \<or> workerID = [] then None else Some workerID)"

text \<open>\<open>lease_until > now\<close>; SQL NULL compares as false.\<close>

definition lease_live :: "time \<Rightarrow> agent_task \<Rightarrow> bool" where
  "lease_live now t \<longleftrightarrow> (case t_lease_until t of None \<Rightarrow> False | Some u \<Rightarrow> now < u)"

text \<open>The WHERE clause of \<open>activeLeaseFencedTaskQuery\<close>.\<close>

definition fenced_row :: "('c) ctx_scheme \<Rightarrow> string \<Rightarrow> nat \<Rightarrow> time \<Rightarrow> agent_task \<Rightarrow> bool" where
  "fenced_row c taskID v now t \<longleftrightarrow> t_id t = taskID \<and> t_run_version t = v \<and>
     (case active_lease_fence c taskID v of
        None \<Rightarrow> True
      | Some workerID \<Rightarrow> t_lease_owner t = workerID \<and> lease_live now t)"

definition truncate_runes :: "string \<Rightarrow> nat \<Rightarrow> string" where
  "truncate_runes value maximum =
     (if maximum = 0 \<or> value = [] then []
      else if rune_count value \<le> maximum then value
      else string_of_runes (take maximum (runes value)))"

section \<open>Creating and reading tasks\<close>

definition initial_task :: "agent_task \<Rightarrow> agent_task" where
  "initial_task task = task\<lparr>t_status := TaskPending, t_current_step := [], t_plan_summary := [],
     t_final_answer := [], t_error := [], t_checkpoint := [], t_checkpoint_version := 0,
     t_run_version := 0, t_attempts := 0, t_lease_owner := [], t_lease_until := None,
     t_heartbeat_at := None, t_started_at := None, t_finished_at := None\<rparr>"

definition initial_plan_step :: "agent_task \<Rightarrow> agent_step \<Rightarrow> agent_step" where
  "initial_plan_step task step = step\<lparr>s_task := t_id task, s_user := t_user task, s_seq := 0,
     s_kind := KindPlan, s_status := StepPending, s_attempts := 0, s_error := [], s_tool := [],
     s_args_json := [], s_args_digest := [], s_args_preview := [], s_output_json := [],
     s_result := [], s_risk := [], s_requires_approval := False, s_read_only := False,
     s_idempotent := False, s_destructive := False, s_decision := DecisionPending,
     s_decision_reason := [], s_decided_at := None, s_request_id := [], s_operation_id := [],
     s_started_at := None, s_finished_at := None\<rparr>"

text \<open>\<open>if step.ID == "" { step.ID = uuid.NewString() }\<close>\<close>

definition with_step_id :: "agent_step \<Rightarrow> ('z, agent_step) db_call" where
  "with_step_id step = (if s_id step = [] then bindE fresh_uuid (\<lambda>i. ret (step\<lparr>s_id := i\<rparr>)) else ret step)"

definition create_task_with_initial_step ::
    "agent_task option \<Rightarrow> agent_step option \<Rightarrow> ('z, loaded_task) db_call" where
  "create_task_with_initial_step taskp stepp = bindE database (\<lambda>_.
     case (taskp, stepp) of
       (Some task, Some step) \<Rightarrow>
         bindE (guardE (trim_space (t_id task) \<noteq> [] \<and> trim_space (t_user task) \<noteq> []) InvalidInput) (\<lambda>_.
         bindE (guardE (s_task step = [] \<or> s_task step = t_id task) Conflict) (\<lambda>_.
         bindE (guardE (s_user step = [] \<or> s_user step = t_user task) Conflict) (\<lambda>_.
         bindE (with_step_id step) (\<lambda>step1.
         bindE current_time (\<lambda>now.
           let plan = stamp_step now (initial_plan_step task step1);
               row = stamp_task now (initial_task task\<lparr>t_current_step := s_id plan\<rparr>)
           in bindE (transaction (bindE (insert_task row) (\<lambda>_. insert_steps [plan]))) (\<lambda>_.
              ret (row, [plan])))))))
     | _ \<Rightarrow> fail InvalidInput)"

definition load_task :: "(agent_task \<Rightarrow> bool) \<Rightarrow> ('z, loaded_task) db_call" where
  "load_task P = bindE (first_task P) (\<lambda>t.
     bindE (select_steps (\<lambda>ss. order_steps (filter (\<lambda>s. s_task s = t_id t) ss))) (\<lambda>ss. ret (t, ss)))"

definition get_owned_task :: "string \<Rightarrow> string \<Rightarrow> ('z, loaded_task) db_call" where
  "get_owned_task userName taskID = bindE database (\<lambda>_.
     bindE (guardE (trim_space userName \<noteq> [] \<and> trim_space taskID \<noteq> []) InvalidInput) (\<lambda>_.
     load_task (\<lambda>t. t_id t = taskID \<and> t_user t = userName)))"

definition get_task_by_id :: "string \<Rightarrow> ('z, loaded_task) db_call" where
  "get_task_by_id taskID = bindE database (\<lambda>_.
     bindE (guardE (trim_space taskID \<noteq> []) InvalidInput) (\<lambda>_.
     load_task (\<lambda>t. t_id t = taskID)))"

definition default_task_list_limit :: int where "default_task_list_limit = 50"
definition max_task_list_limit :: int where "max_task_list_limit = 200"
definition default_pending_limit :: int where "default_pending_limit = 20"

definition clamp_limit :: "int \<Rightarrow> int \<Rightarrow> nat" where
  "clamp_limit dflt limit =
     (let l1 = (if limit \<le> 0 then dflt else limit)
      in nat (if l1 > max_task_list_limit then max_task_list_limit else l1))"

definition list_owned_tasks :: "string \<Rightarrow> int \<Rightarrow> int \<Rightarrow> ('z, agent_task list \<times> nat) db_call" where
  "list_owned_tasks userName0 offset limit = bindE database (\<lambda>_.
     let userName = trim_space userName0;
         off = nat (if offset < 0 then 0 else offset);
         lim = clamp_limit default_task_list_limit limit
     in bindE (guardE (userName \<noteq> []) InvalidInput) (\<lambda>_.
        bindE (select_tasks (count_where (\<lambda>t. t_user t = userName))) (\<lambda>total.
        bindE (select_tasks (\<lambda>ts. take lim (drop off
            (rev (sort_key (\<lambda>t. (t_created_at t, t_id t)) (filter (\<lambda>t. t_user t = userName) ts)))))) (\<lambda>page.
        ret (page, total)))))"

definition list_pending_task_ids :: "int \<Rightarrow> ('z, string list) db_call" where
  "list_pending_task_ids limit = bindE database (\<lambda>_.
     select_tasks (\<lambda>ts. map t_id (take (clamp_limit default_pending_limit limit)
       (sort_key (\<lambda>t. (t_created_at t, t_id t)) (filter (\<lambda>t. t_status t = TaskPending) ts)))))"

section \<open>Claims and leases\<close>

definition default_lease_duration :: time where "default_lease_duration = 2 * minute"

definition lease_of :: "time \<Rightarrow> time" where
  "lease_of d = (if d \<le> 0 then default_lease_duration else d)"

definition claimed_task :: "time \<Rightarrow> string \<Rightarrow> time \<Rightarrow> agent_task \<Rightarrow> agent_task" where
  "claimed_task now workerID lease t = t\<lparr>t_status := TaskRunning, t_attempts := t_attempts t + 1,
     t_run_version := t_run_version t + 1, t_lease_owner := workerID, t_lease_until := Some (now + lease),
     t_heartbeat_at := Some now,
     t_started_at := (case t_started_at t of None \<Rightarrow> Some now | Some u \<Rightarrow> Some u),
     t_finished_at := None, t_error := [], t_updated_at := now\<rparr>"

definition claim_task :: "string \<Rightarrow> string \<Rightarrow> time \<Rightarrow> ('z, loaded_task option) db_call" where
  "claim_task taskID workerID leaseDuration = bindE database (\<lambda>_.
     bindE (guardE (trim_space taskID \<noteq> [] \<and> trim_space workerID \<noteq> []) InvalidInput) (\<lambda>_.
     bindE current_time (\<lambda>now.
     bindE (update_tasks (\<lambda>t. t_id t = taskID \<and> t_status t = TaskPending)
              (claimed_task now workerID (lease_of leaseDuration))) (\<lambda>n.
     if n = 0 then ret None
     else bindE (get_task_by_id taskID) (\<lambda>t. ret (Some t))))))"

definition lease_renewable :: "task_status \<Rightarrow> bool" where
  "lease_renewable s \<longleftrightarrow> s \<in> {TaskRunning, TaskPlanning}"

definition renew_lease_fenced :: "string \<Rightarrow> nat \<Rightarrow> string \<Rightarrow> time \<Rightarrow> ('z, unit) db_call" where
  "renew_lease_fenced taskID runVersion workerID leaseDuration = bindE database (\<lambda>_.
     bindE (guardE (trim_space taskID \<noteq> [] \<and> runVersion \<noteq> 0 \<and> trim_space workerID \<noteq> []) InvalidInput) (\<lambda>_.
     bindE current_time (\<lambda>now.
     bindE (update_tasks (\<lambda>t. t_id t = taskID \<and> t_run_version t = runVersion \<and> t_lease_owner t = workerID \<and>
                lease_live now t \<and> lease_renewable (t_status t))
              (\<lambda>t. t\<lparr>t_lease_until := Some (now + lease_of leaseDuration), t_heartbeat_at := Some now,
                     t_updated_at := now\<rparr>)) (\<lambda>n.
     guardE (n \<noteq> 0) Conflict))))"

section \<open>Saving a plan\<close>

definition normalize_plan_step :: "agent_task \<Rightarrow> nat \<Rightarrow> agent_step \<Rightarrow> agent_step" where
  "normalize_plan_step task sequence step = step\<lparr>s_task := t_id task, s_user := t_user task,
     s_seq := sequence, s_kind := (if s_kind step = KindUnset then KindTool else s_kind step),
     s_status := StepPending, s_attempts := 0, s_error := [], s_decision := DecisionPending,
     s_decision_reason := [], s_decided_at := None, s_request_id := [], s_operation_id := [],
     s_output_json := [], s_result := [], s_started_at := None, s_finished_at := None,
     s_created_at := zero_time, s_updated_at := zero_time\<rparr>"

fun normalize_plan_steps :: "agent_task \<Rightarrow> nat \<Rightarrow> agent_step list \<Rightarrow> ('z, agent_step list) db_call" where
  "normalize_plan_steps task index [] = ret []"
| "normalize_plan_steps task index (step # steps) =
     bindE (with_step_id step) (\<lambda>step1.
     bindE (normalize_plan_steps task (Suc index) steps) (\<lambda>rest.
     ret (normalize_plan_step task (Suc index) step1 # rest)))"

definition completed_plan_step :: "time \<Rightarrow> agent_step \<Rightarrow> agent_step" where
  "completed_plan_step now s = s\<lparr>s_status := StepSucceeded,
     s_started_at := (case s_started_at s of None \<Rightarrow> Some now | Some u \<Rightarrow> Some u),
     s_finished_at := Some now, s_error := [], s_updated_at := now\<rparr>"

definition save_plan :: "('c) ctx_scheme \<Rightarrow> string \<Rightarrow> nat \<Rightarrow> string option \<Rightarrow> agent_step list \<Rightarrow> ('z, unit) db_call" where
  "save_plan c taskID runVersion summary steps = bindE database (\<lambda>_.
     bindE (guardE (trim_space taskID \<noteq> [] \<and> runVersion \<noteq> 0) InvalidInput) (\<lambda>_.
     bindE current_time (\<lambda>now.
     transaction (
       bindE (first_task_or_conflict (fenced_row c taskID runVersion now)) (\<lambda>task.
       bindE (guardE (t_status task = TaskRunning \<or> t_status task = TaskPlanning) Conflict) (\<lambda>_.
       bindE (delete_steps (\<lambda>s. s_task s = taskID \<and> 0 < s_seq s)) (\<lambda>_.
       bindE (update_steps (\<lambda>s. s_task s = taskID \<and> s_seq s = 0 \<and> s_kind s = KindPlan)
                (completed_plan_step now)) (\<lambda>n.
       bindE (guardE (n \<noteq> 0) Conflict) (\<lambda>_.
       bindE (normalize_plan_steps task 0 steps) (\<lambda>normalized.
       bindE (if normalized = [] then ret () else insert_steps (map (stamp_step now) normalized)) (\<lambda>_.
       bindE (update_tasks (fenced_row c taskID runVersion now)
                (\<lambda>t. t\<lparr>t_status := TaskRunning,
                       t_current_step := (case normalized of [] \<Rightarrow> [] | s # _ \<Rightarrow> s_id s),
                       t_error := [], t_updated_at := now,
                       t_plan_summary := (case summary of None \<Rightarrow> t_plan_summary t | Some x \<Rightarrow> x)\<rparr>)) (\<lambda>m.
       guardE (m \<noteq> 0) Conflict))))))))))))"

definition save_plan_with_summary :: "('c) ctx_scheme \<Rightarrow> string \<Rightarrow> nat \<Rightarrow> string \<Rightarrow> agent_step list \<Rightarrow> ('z, unit) db_call" where
  "save_plan_with_summary c taskID runVersion summary steps = save_plan c taskID runVersion (Some summary) steps"

definition create_steps_fenced :: "string \<Rightarrow> nat \<Rightarrow> agent_step list \<Rightarrow> ('z, unit) db_call" where
  "create_steps_fenced taskID runVersion steps = bindE database (\<lambda>_.
     bindE (guardE (trim_space taskID \<noteq> [] \<and> runVersion \<noteq> 0 \<and> steps \<noteq> []) InvalidInput) (\<lambda>_.
     transaction (
       bindE (first_task_or_conflict (\<lambda>t. t_id t = taskID \<and> t_run_version t = runVersion)) (\<lambda>task.
       bindE (select_steps (\<lambda>ss. fold max (map s_seq (filter (\<lambda>s. s_task s = taskID) ss)) 0)) (\<lambda>maximum.
       bindE (normalize_plan_steps task maximum steps) (\<lambda>normalized.
       bindE current_time (\<lambda>now.
       insert_steps (map (stamp_step now) normalized))))))))"

definition get_steps :: "string \<Rightarrow> ('z, agent_step list) db_call" where
  "get_steps taskID = bindE database (\<lambda>_.
     bindE (guardE (trim_space taskID \<noteq> []) InvalidInput) (\<lambda>_.
     select_steps (\<lambda>ss. order_steps (filter (\<lambda>s. s_task s = taskID) ss))))"

definition get_owned_steps :: "string \<Rightarrow> string \<Rightarrow> ('z, agent_step list) db_call" where
  "get_owned_steps userName taskID = bindE database (\<lambda>_.
     bindE (guardE (trim_space userName \<noteq> [] \<and> trim_space taskID \<noteq> []) InvalidInput) (\<lambda>_.
     select_steps (\<lambda>ss. order_steps (filter (\<lambda>s. s_task s = taskID \<and> s_user s = userName) ss))))"

section \<open>Updates given as a map of columns\<close>

text \<open>
  \<open>map[string]any\<close>, in the order GORM writes it. A key names a column by its SQL name
  (compared without case, as MySQL does) or by its Go field name; a key that names no column, or
  a value of a type the column does not take, is an error of the statement.
\<close>

datatype col_value =
    VNull | VStr string | VNat nat | VBool bool | VTime time
  | VTaskStatus task_status | VStepStatus step_status | VKind step_kind | VDecision decision

type_synonym updates = "(string \<times> col_value) list"

datatype task_column =
    TcId | TcUserName | TcSessionID | TcGoal | TcModelID | TcStatus
  |  TcCurrentStepID | TcPlanSummary | TcFinalAnswer | TcErrorMessage | TcCheckpoint | TcCheckpointVersion
  |  TcRunVersion | TcAttempts | TcLeaseOwner | TcLeaseUntil | TcHeartbeatAt | TcStartedAt
  |  TcFinishedAt | TcCreatedAt | TcUpdatedAt

datatype step_column =
    ScId | ScTaskID | ScUserName | ScSequence | ScKind | ScNodeKey
  |  ScTitle | ScInstruction | ScStatus | ScAttempts | ScErrorMessage | ScToolName
  |  ScToolArgumentsJSON | ScArgumentsDigest | ScArgumentsPreview | ScToolOutputJSON | ScResultSummary | ScRiskLevel
  |  ScRequiresApproval | ScReadOnly | ScIdempotent | ScDestructive | ScApprovalDecision | ScApprovalReason
  |  ScApprovalDecidedAt | ScMCPRequestID | ScOperationID | ScStartedAt | ScFinishedAt | ScCreatedAt
  |  ScUpdatedAt

definition with_str :: "col_value \<Rightarrow> (string \<Rightarrow> 'r) \<Rightarrow> 'r option" where
  "with_str v k = (case v of VStr x \<Rightarrow> Some (k x) | VNull \<Rightarrow> Some (k []) | _ \<Rightarrow> None)"

definition with_nat :: "col_value \<Rightarrow> (nat \<Rightarrow> 'r) \<Rightarrow> 'r option" where
  "with_nat v k = (case v of VNat x \<Rightarrow> Some (k x) | _ \<Rightarrow> None)"

definition with_bool :: "col_value \<Rightarrow> (bool \<Rightarrow> 'r) \<Rightarrow> 'r option" where
  "with_bool v k = (case v of VBool x \<Rightarrow> Some (k x) | _ \<Rightarrow> None)"

definition with_time :: "col_value \<Rightarrow> (time \<Rightarrow> 'r) \<Rightarrow> 'r option" where
  "with_time v k = (case v of VTime x \<Rightarrow> Some (k x) | _ \<Rightarrow> None)"

definition with_ptime :: "col_value \<Rightarrow> (time option \<Rightarrow> 'r) \<Rightarrow> 'r option" where
  "with_ptime v k = (case v of VTime x \<Rightarrow> Some (k (Some x)) | VNull \<Rightarrow> Some (k None) | _ \<Rightarrow> None)"

definition with_task_status :: "col_value \<Rightarrow> (task_status \<Rightarrow> 'r) \<Rightarrow> 'r option" where
  "with_task_status v k = (case v of VTaskStatus x \<Rightarrow> Some (k x) | _ \<Rightarrow> None)"

definition with_step_status :: "col_value \<Rightarrow> (step_status \<Rightarrow> 'r) \<Rightarrow> 'r option" where
  "with_step_status v k = (case v of VStepStatus x \<Rightarrow> Some (k x) | _ \<Rightarrow> None)"

definition with_kind :: "col_value \<Rightarrow> (step_kind \<Rightarrow> 'r) \<Rightarrow> 'r option" where
  "with_kind v k = (case v of VKind x \<Rightarrow> Some (k x) | _ \<Rightarrow> None)"

definition with_decision :: "col_value \<Rightarrow> (decision \<Rightarrow> 'r) \<Rightarrow> 'r option" where
  "with_decision v k = (case v of VDecision x \<Rightarrow> Some (k x) | _ \<Rightarrow> None)"

definition task_columns :: "(string \<times> string \<times> task_column) list" where
  "task_columns = [
     (''id'', ''ID'', TcId), (''user_name'', ''UserName'', TcUserName), (''session_id'', ''SessionID'', TcSessionID),
     (''goal'', ''Goal'', TcGoal), (''model_id'', ''ModelID'', TcModelID), (''status'', ''Status'', TcStatus),
     (''current_step_id'', ''CurrentStepID'', TcCurrentStepID), (''plan_summary'', ''PlanSummary'', TcPlanSummary), (''final_answer'', ''FinalAnswer'', TcFinalAnswer),
     (''error_message'', ''ErrorMessage'', TcErrorMessage), (''checkpoint'', ''Checkpoint'', TcCheckpoint), (''checkpoint_version'', ''CheckpointVersion'', TcCheckpointVersion),
     (''run_version'', ''RunVersion'', TcRunVersion), (''attempts'', ''Attempts'', TcAttempts), (''lease_owner'', ''LeaseOwner'', TcLeaseOwner),
     (''lease_until'', ''LeaseUntil'', TcLeaseUntil), (''heartbeat_at'', ''HeartbeatAt'', TcHeartbeatAt), (''started_at'', ''StartedAt'', TcStartedAt),
     (''finished_at'', ''FinishedAt'', TcFinishedAt), (''created_at'', ''CreatedAt'', TcCreatedAt), (''updated_at'', ''UpdatedAt'', TcUpdatedAt)]"

definition step_columns :: "(string \<times> string \<times> step_column) list" where
  "step_columns = [
     (''id'', ''ID'', ScId), (''task_id'', ''TaskID'', ScTaskID), (''user_name'', ''UserName'', ScUserName),
     (''sequence'', ''Sequence'', ScSequence), (''kind'', ''Kind'', ScKind), (''node_key'', ''NodeKey'', ScNodeKey),
     (''title'', ''Title'', ScTitle), (''instruction'', ''Instruction'', ScInstruction), (''status'', ''Status'', ScStatus),
     (''attempts'', ''Attempts'', ScAttempts), (''error_message'', ''ErrorMessage'', ScErrorMessage), (''tool_name'', ''ToolName'', ScToolName),
     (''tool_arguments_json'', ''ToolArgumentsJSON'', ScToolArgumentsJSON), (''arguments_digest'', ''ArgumentsDigest'', ScArgumentsDigest), (''arguments_preview'', ''ArgumentsPreview'', ScArgumentsPreview),
     (''tool_output_json'', ''ToolOutputJSON'', ScToolOutputJSON), (''result_summary'', ''ResultSummary'', ScResultSummary), (''risk_level'', ''RiskLevel'', ScRiskLevel),
     (''requires_approval'', ''RequiresApproval'', ScRequiresApproval), (''read_only'', ''ReadOnly'', ScReadOnly), (''idempotent'', ''Idempotent'', ScIdempotent),
     (''destructive'', ''Destructive'', ScDestructive), (''approval_decision'', ''ApprovalDecision'', ScApprovalDecision), (''approval_reason'', ''ApprovalReason'', ScApprovalReason),
     (''approval_decided_at'', ''ApprovalDecidedAt'', ScApprovalDecidedAt), (''mcp_request_id'', ''MCPRequestID'', ScMCPRequestID), (''operation_id'', ''OperationID'', ScOperationID),
     (''started_at'', ''StartedAt'', ScStartedAt), (''finished_at'', ''FinishedAt'', ScFinishedAt), (''created_at'', ''CreatedAt'', ScCreatedAt),
     (''updated_at'', ''UpdatedAt'', ScUpdatedAt)]"

definition resolve_column :: "(string \<times> string \<times> 'c) list \<Rightarrow> string \<Rightarrow> 'c option" where
  "resolve_column cols key =
     map_option (\<lambda>(_, _, c). c) (find (\<lambda>(db, fld, c). to_lower key = db \<or> key = fld) cols)"

definition write_task_column :: "task_column \<Rightarrow> col_value \<Rightarrow> agent_task \<Rightarrow> agent_task option" where
  "write_task_column c v t = (case c of
     TcId \<Rightarrow> with_str v (\<lambda>x. t\<lparr>t_id := x\<rparr>)
   | TcUserName \<Rightarrow> with_str v (\<lambda>x. t\<lparr>t_user := x\<rparr>)
   | TcSessionID \<Rightarrow> with_str v (\<lambda>x. t\<lparr>t_session := x\<rparr>)
   | TcGoal \<Rightarrow> with_str v (\<lambda>x. t\<lparr>t_goal := x\<rparr>)
   | TcModelID \<Rightarrow> with_str v (\<lambda>x. t\<lparr>t_model := x\<rparr>)
   | TcStatus \<Rightarrow> with_task_status v (\<lambda>x. t\<lparr>t_status := x\<rparr>)
   | TcCurrentStepID \<Rightarrow> with_str v (\<lambda>x. t\<lparr>t_current_step := x\<rparr>)
   | TcPlanSummary \<Rightarrow> with_str v (\<lambda>x. t\<lparr>t_plan_summary := x\<rparr>)
   | TcFinalAnswer \<Rightarrow> with_str v (\<lambda>x. t\<lparr>t_final_answer := x\<rparr>)
   | TcErrorMessage \<Rightarrow> with_str v (\<lambda>x. t\<lparr>t_error := x\<rparr>)
   | TcCheckpoint \<Rightarrow> with_str v (\<lambda>x. t\<lparr>t_checkpoint := x\<rparr>)
   | TcCheckpointVersion \<Rightarrow> with_nat v (\<lambda>x. t\<lparr>t_checkpoint_version := x\<rparr>)
   | TcRunVersion \<Rightarrow> with_nat v (\<lambda>x. t\<lparr>t_run_version := x\<rparr>)
   | TcAttempts \<Rightarrow> with_nat v (\<lambda>x. t\<lparr>t_attempts := x\<rparr>)
   | TcLeaseOwner \<Rightarrow> with_str v (\<lambda>x. t\<lparr>t_lease_owner := x\<rparr>)
   | TcLeaseUntil \<Rightarrow> with_ptime v (\<lambda>x. t\<lparr>t_lease_until := x\<rparr>)
   | TcHeartbeatAt \<Rightarrow> with_ptime v (\<lambda>x. t\<lparr>t_heartbeat_at := x\<rparr>)
   | TcStartedAt \<Rightarrow> with_ptime v (\<lambda>x. t\<lparr>t_started_at := x\<rparr>)
   | TcFinishedAt \<Rightarrow> with_ptime v (\<lambda>x. t\<lparr>t_finished_at := x\<rparr>)
   | TcCreatedAt \<Rightarrow> with_time v (\<lambda>x. t\<lparr>t_created_at := x\<rparr>)
   | TcUpdatedAt \<Rightarrow> with_time v (\<lambda>x. t\<lparr>t_updated_at := x\<rparr>))"

definition write_step_column :: "step_column \<Rightarrow> col_value \<Rightarrow> agent_step \<Rightarrow> agent_step option" where
  "write_step_column c v s = (case c of
     ScId \<Rightarrow> with_str v (\<lambda>x. s\<lparr>s_id := x\<rparr>)
   | ScTaskID \<Rightarrow> with_str v (\<lambda>x. s\<lparr>s_task := x\<rparr>)
   | ScUserName \<Rightarrow> with_str v (\<lambda>x. s\<lparr>s_user := x\<rparr>)
   | ScSequence \<Rightarrow> with_nat v (\<lambda>x. s\<lparr>s_seq := x\<rparr>)
   | ScKind \<Rightarrow> with_kind v (\<lambda>x. s\<lparr>s_kind := x\<rparr>)
   | ScNodeKey \<Rightarrow> with_str v (\<lambda>x. s\<lparr>s_node := x\<rparr>)
   | ScTitle \<Rightarrow> with_str v (\<lambda>x. s\<lparr>s_title := x\<rparr>)
   | ScInstruction \<Rightarrow> with_str v (\<lambda>x. s\<lparr>s_instruction := x\<rparr>)
   | ScStatus \<Rightarrow> with_step_status v (\<lambda>x. s\<lparr>s_status := x\<rparr>)
   | ScAttempts \<Rightarrow> with_nat v (\<lambda>x. s\<lparr>s_attempts := x\<rparr>)
   | ScErrorMessage \<Rightarrow> with_str v (\<lambda>x. s\<lparr>s_error := x\<rparr>)
   | ScToolName \<Rightarrow> with_str v (\<lambda>x. s\<lparr>s_tool := x\<rparr>)
   | ScToolArgumentsJSON \<Rightarrow> with_str v (\<lambda>x. s\<lparr>s_args_json := x\<rparr>)
   | ScArgumentsDigest \<Rightarrow> with_str v (\<lambda>x. s\<lparr>s_args_digest := x\<rparr>)
   | ScArgumentsPreview \<Rightarrow> with_str v (\<lambda>x. s\<lparr>s_args_preview := x\<rparr>)
   | ScToolOutputJSON \<Rightarrow> with_str v (\<lambda>x. s\<lparr>s_output_json := x\<rparr>)
   | ScResultSummary \<Rightarrow> with_str v (\<lambda>x. s\<lparr>s_result := x\<rparr>)
   | ScRiskLevel \<Rightarrow> with_str v (\<lambda>x. s\<lparr>s_risk := x\<rparr>)
   | ScRequiresApproval \<Rightarrow> with_bool v (\<lambda>x. s\<lparr>s_requires_approval := x\<rparr>)
   | ScReadOnly \<Rightarrow> with_bool v (\<lambda>x. s\<lparr>s_read_only := x\<rparr>)
   | ScIdempotent \<Rightarrow> with_bool v (\<lambda>x. s\<lparr>s_idempotent := x\<rparr>)
   | ScDestructive \<Rightarrow> with_bool v (\<lambda>x. s\<lparr>s_destructive := x\<rparr>)
   | ScApprovalDecision \<Rightarrow> with_decision v (\<lambda>x. s\<lparr>s_decision := x\<rparr>)
   | ScApprovalReason \<Rightarrow> with_str v (\<lambda>x. s\<lparr>s_decision_reason := x\<rparr>)
   | ScApprovalDecidedAt \<Rightarrow> with_ptime v (\<lambda>x. s\<lparr>s_decided_at := x\<rparr>)
   | ScMCPRequestID \<Rightarrow> with_str v (\<lambda>x. s\<lparr>s_request_id := x\<rparr>)
   | ScOperationID \<Rightarrow> with_str v (\<lambda>x. s\<lparr>s_operation_id := x\<rparr>)
   | ScStartedAt \<Rightarrow> with_ptime v (\<lambda>x. s\<lparr>s_started_at := x\<rparr>)
   | ScFinishedAt \<Rightarrow> with_ptime v (\<lambda>x. s\<lparr>s_finished_at := x\<rparr>)
   | ScCreatedAt \<Rightarrow> with_time v (\<lambda>x. s\<lparr>s_created_at := x\<rparr>)
   | ScUpdatedAt \<Rightarrow> with_time v (\<lambda>x. s\<lparr>s_updated_at := x\<rparr>))"

text \<open>
  One assignment of the SET clause; assignments the statement would refuse are filtered by
  \<open>assignable\<close> before any row is touched.
\<close>

definition assign :: "(string \<times> string \<times> 'c) list \<Rightarrow> ('c \<Rightarrow> col_value \<Rightarrow> 'r \<Rightarrow> 'r option) \<Rightarrow>
    string \<times> col_value \<Rightarrow> 'r \<Rightarrow> 'r option" where
  "assign cols write kv r = (case resolve_column cols (fst kv) of
     None \<Rightarrow> None | Some c \<Rightarrow> write c (snd kv) r)"

definition assign_all :: "(string \<times> string \<times> 'c) list \<Rightarrow> ('c \<Rightarrow> col_value \<Rightarrow> 'r \<Rightarrow> 'r option) \<Rightarrow>
    updates \<Rightarrow> 'r \<Rightarrow> 'r" where
  "assign_all cols write us r = fold (\<lambda>kv r. case assign cols write kv r of None \<Rightarrow> r | Some r' \<Rightarrow> r') us r"

definition assignable :: "(string \<times> string \<times> 'c) list \<Rightarrow> ('c \<Rightarrow> col_value \<Rightarrow> 'r \<Rightarrow> 'r option) \<Rightarrow>
    'r \<Rightarrow> updates \<Rightarrow> bool" where
  "assignable cols write zero us \<longleftrightarrow> list_all (\<lambda>kv. assign cols write kv zero \<noteq> None) us"

definition assign_task :: "updates \<Rightarrow> agent_task \<Rightarrow> agent_task" where
  "assign_task us t = assign_all task_columns write_task_column us t"

definition assign_step :: "updates \<Rightarrow> agent_step \<Rightarrow> agent_step" where
  "assign_step us s = assign_all step_columns write_step_column us s"

text \<open>
  The declared widths of the VARCHAR columns (the \<open>gorm\<close> tags of \<open>model/agent.go\<close>),
  in characters: MySQL in its default strict mode refuses a longer value instead of storing it.
\<close>

definition task_column_width :: "task_column \<Rightarrow> nat option" where
  "task_column_width c = (case c of
     TcId \<Rightarrow> Some 36 | TcUserName \<Rightarrow> Some 50 | TcSessionID \<Rightarrow> Some 36 | TcModelID \<Rightarrow> Some 100
   | TcCurrentStepID \<Rightarrow> Some 36 | TcErrorMessage \<Rightarrow> Some 1000 | TcLeaseOwner \<Rightarrow> Some 100 | _ \<Rightarrow> None)"

definition step_column_width :: "step_column \<Rightarrow> nat option" where
  "step_column_width c = (case c of
     ScId \<Rightarrow> Some 36 | ScTaskID \<Rightarrow> Some 36 | ScUserName \<Rightarrow> Some 50 | ScNodeKey \<Rightarrow> Some 100
   | ScTitle \<Rightarrow> Some 255 | ScErrorMessage \<Rightarrow> Some 1000 | ScToolName \<Rightarrow> Some 191
   | ScArgumentsDigest \<Rightarrow> Some 64 | ScRiskLevel \<Rightarrow> Some 16 | ScApprovalReason \<Rightarrow> Some 500
   | ScMCPRequestID \<Rightarrow> Some 36 | ScOperationID \<Rightarrow> Some 36 | _ \<Rightarrow> None)"

definition fits :: "(string \<times> string \<times> 'c) list \<Rightarrow> ('c \<Rightarrow> nat option) \<Rightarrow> string \<times> col_value \<Rightarrow> bool" where
  "fits cols width kv = (case (resolve_column cols (fst kv), snd kv) of
     (Some c, VStr x) \<Rightarrow> (case width c of None \<Rightarrow> True | Some n \<Rightarrow> rune_count x \<le> n)
   | _ \<Rightarrow> True)"

definition check_task_updates :: "updates \<Rightarrow> ('z, unit) db_call" where
  "check_task_updates us = guardE (assignable task_columns write_task_column zero_task us \<and>
     list_all (fits task_columns task_column_width) us) (Driver DriverError)"

definition check_step_updates :: "updates \<Rightarrow> ('z, unit) db_call" where
  "check_step_updates us = guardE (assignable step_columns write_step_column zero_step us \<and>
     list_all (fits step_columns step_column_width) us) (Driver DriverError)"

definition immutable_task_columns :: "string list" where
  "immutable_task_columns = [''id'', ''user_name'', ''username'', ''created_at'', ''createdat'',
     ''run_version'', ''runversion'', ''checkpoint'', ''checkpoint_version'', ''checkpointversion'']"

definition immutable_step_columns :: "string list" where
  "immutable_step_columns = [''id'', ''task_id'', ''taskid'', ''user_name'', ''username'',
     ''sequence'', ''created_at'', ''createdat'', ''tool_name'', ''toolname'',
     ''tool_arguments_json'', ''toolargumentsjson'', ''arguments_digest'', ''argumentsdigest'',
     ''risk_level'', ''risklevel'', ''requires_approval'', ''requiresapproval'',
     ''read_only'', ''readonly'', ''idempotent'', ''destructive'',
     ''approval_decision'', ''approvaldecision'']"

definition sanitized_updates :: "updates \<Rightarrow> string list \<Rightarrow> updates" where
  "sanitized_updates source immutable = filter (\<lambda>(key, _).
     let normalized = to_lower (trim_space key)
     in normalized \<noteq> [] \<and> normalized \<notin> set immutable) source"

text \<open>\<open>updates["updated_at"] = now\<close> on the sanitized map.\<close>

definition stamped :: "time \<Rightarrow> updates \<Rightarrow> updates" where
  "stamped now us = filter (\<lambda>(k, _). k \<noteq> ''updated_at'') us @ [(''updated_at'', VTime now)]"

end
