(* ===== verification/AgentTransitions.thy ===== *)
theory AgentTransitions
  imports AgentStore
begin

text \<open>
  The second half of \<open>src/dao/agent/agent.go\<close>: fenced updates, the transitions that pause a
  task for review, the human decisions (approve, reject, resume, cancel), crash recovery and the
  checkpoint column.
\<close>

section \<open>Fenced updates\<close>

definition update_task_fenced :: "('c) ctx_scheme \<Rightarrow> string \<Rightarrow> nat \<Rightarrow> updates \<Rightarrow> ('z, unit) db_call" where
  "update_task_fenced c taskID runVersion updates0 = bindE database (\<lambda>_.
     bindE (guardE (trim_space taskID \<noteq> [] \<and> runVersion \<noteq> 0 \<and> updates0 \<noteq> []) InvalidInput) (\<lambda>_.
     let us = sanitized_updates updates0 immutable_task_columns
     in bindE (guardE (us \<noteq> []) InvalidInput) (\<lambda>_.
        bindE current_time (\<lambda>now.
        bindE (check_task_updates us) (\<lambda>_.
        bindE (update_tasks (fenced_row c taskID runVersion now) (assign_task (stamped now us))) (\<lambda>n.
        guardE (n \<noteq> 0) Conflict))))))"

definition update_step_fenced :: "('c) ctx_scheme \<Rightarrow> string \<Rightarrow> string \<Rightarrow> nat \<Rightarrow> updates \<Rightarrow> ('z, unit) db_call" where
  "update_step_fenced c taskID stepID runVersion updates0 = bindE database (\<lambda>_.
     bindE (guardE (trim_space taskID \<noteq> [] \<and> trim_space stepID \<noteq> [] \<and> runVersion \<noteq> 0 \<and> updates0 \<noteq> []) InvalidInput) (\<lambda>_.
     let us = sanitized_updates updates0 immutable_step_columns
     in bindE (guardE (us \<noteq> []) InvalidInput) (\<lambda>_.
        bindE current_time (\<lambda>now.
        transaction (
          bindE (first_task_or_conflict (fenced_row c taskID runVersion now)) (\<lambda>_.
          bindE (check_step_updates us) (\<lambda>_.
          bindE (update_steps (\<lambda>s. s_id s = stepID \<and> s_task s = taskID) (assign_step (stamped now us))) (\<lambda>n.
          guardE (n \<noteq> 0) RecordNotFound))))))))"

section \<open>Pausing a task for review\<close>

definition unknown_default_message :: string where
  "unknown_default_message = ''tool execution outcome is unknown; manual review is required''"

definition policy_default_message :: string where
  "policy_default_message = ''MCP tool safety policy changed; manual review is required''"

definition bounded_message :: "string \<Rightarrow> string \<Rightarrow> string" where
  "bounded_message dflt message =
     (let m = truncate_runes (trim_space message) 1000 in if m = [] then dflt else m)"

definition paused_task :: "time \<Rightarrow> string \<Rightarrow> string \<Rightarrow> agent_task \<Rightarrow> agent_task" where
  "paused_task now stepID message t = t\<lparr>t_status := TaskRequiresReview, t_current_step := stepID,
     t_run_version := t_run_version t + 1, t_lease_owner := [], t_lease_until := None,
     t_heartbeat_at := None, t_finished_at := None, t_error := message, t_updated_at := now\<rparr>"

definition running_tool_row :: "string \<Rightarrow> string \<Rightarrow> agent_step \<Rightarrow> bool" where
  "running_tool_row taskID stepID s \<longleftrightarrow>
     s_id s = stepID \<and> s_task s = taskID \<and> s_kind s = KindTool \<and> s_status s = StepRunning"

definition unknown_step :: "time \<Rightarrow> string \<Rightarrow> agent_step \<Rightarrow> agent_step" where
  "unknown_step now message s = s\<lparr>s_status := StepExecutionUnknown, s_finished_at := Some now,
     s_error := message, s_updated_at := now\<rparr>"

definition mark_execution_unknown_fenced ::
    "('c) ctx_scheme \<Rightarrow> string \<Rightarrow> string \<Rightarrow> nat \<Rightarrow> string \<Rightarrow> ('z, unit) db_call" where
  "mark_execution_unknown_fenced c taskID stepID runVersion message0 = bindE database (\<lambda>_.
     bindE (guardE (trim_space taskID \<noteq> [] \<and> trim_space stepID \<noteq> [] \<and> runVersion \<noteq> 0) InvalidInput) (\<lambda>_.
     bindE current_time (\<lambda>now.
     let message = bounded_message unknown_default_message message0
     in transaction (
        bindE (first_task_or_conflict (\<lambda>t. fenced_row c taskID runVersion now t \<and> t_status t = TaskRunning)) (\<lambda>task.
        bindE (update_steps (running_tool_row taskID stepID) (unknown_step now message)) (\<lambda>n.
        bindE (guardE (n \<noteq> 0) Conflict) (\<lambda>_.
        bindE (update_tasks (\<lambda>t. fenced_row c taskID runVersion now t \<and> t_status t = t_status task)
                 (paused_task now stepID message)) (\<lambda>m.
        guardE (m \<noteq> 0) Conflict))))))))"

record policy =
  p_risk :: string
  p_requires_approval :: bool
  p_read_only :: bool
  p_idempotent :: bool
  p_destructive :: bool

definition reviewed_step :: "time \<Rightarrow> string \<Rightarrow> policy \<Rightarrow> agent_step \<Rightarrow> agent_step" where
  "reviewed_step now message p s = s\<lparr>s_status := StepExecutionUnknown, s_risk := p_risk p,
     s_requires_approval := p_requires_approval p, s_read_only := p_read_only p,
     s_idempotent := p_idempotent p, s_destructive := p_destructive p,
     s_decision := DecisionPending, s_decision_reason := [], s_decided_at := None,
     s_finished_at := Some now, s_error := message, s_updated_at := now\<rparr>"

definition mark_policy_review_fenced ::
    "('c) ctx_scheme \<Rightarrow> string \<Rightarrow> string \<Rightarrow> nat \<Rightarrow> string \<Rightarrow> policy \<Rightarrow> ('z, unit) db_call" where
  "mark_policy_review_fenced c taskID stepID runVersion message0 p0 = bindE database (\<lambda>_.
     bindE (guardE (trim_space taskID \<noteq> [] \<and> trim_space stepID \<noteq> [] \<and> runVersion \<noteq> 0) InvalidInput) (\<lambda>_.
     bindE current_time (\<lambda>now.
     let message = bounded_message policy_default_message message0;
         p = p0\<lparr>p_risk := truncate_runes (trim_space (p_risk p0)) 16\<rparr>
     in transaction (
        bindE (first_task_or_conflict (\<lambda>t. fenced_row c taskID runVersion now t \<and> t_status t = TaskRunning)) (\<lambda>task.
        bindE (update_steps (running_tool_row taskID stepID) (reviewed_step now message p)) (\<lambda>n.
        bindE (guardE (n \<noteq> 0) Conflict) (\<lambda>_.
        bindE (update_tasks (\<lambda>t. fenced_row c taskID runVersion now t \<and> t_status t = t_status task)
                 (paused_task now stepID message)) (\<lambda>m.
        guardE (m \<noteq> 0) Conflict))))))))"

section \<open>Decisions of the owner\<close>

definition update_owned_task :: "string \<Rightarrow> string \<Rightarrow> updates \<Rightarrow> ('z, unit) db_call" where
  "update_owned_task userName taskID updates0 = bindE database (\<lambda>_.
     bindE (guardE (trim_space userName \<noteq> [] \<and> trim_space taskID \<noteq> [] \<and> updates0 \<noteq> []) InvalidInput) (\<lambda>_.
     let us = sanitized_updates updates0 immutable_task_columns
     in bindE (guardE (us \<noteq> []) InvalidInput) (\<lambda>_.
        bindE current_time (\<lambda>now.
        bindE (check_task_updates us) (\<lambda>_.
        bindE (update_tasks (\<lambda>t. t_id t = taskID \<and> t_user t = userName) (assign_task (stamped now us))) (\<lambda>n.
        guardE (n \<noteq> 0) RecordNotFound))))))"

definition parse_decision :: "string \<Rightarrow> decision option" where
  "parse_decision d = (if d = ''approved'' then Some DecisionApproved
     else if d = ''rejected'' then Some DecisionRejected else None)"

definition decision_invalidates_run :: "decision \<Rightarrow> bool" where
  "decision_invalidates_run d \<longleftrightarrow> d = DecisionRejected"

definition decided_step :: "time \<Rightarrow> decision \<Rightarrow> string \<Rightarrow> agent_step \<Rightarrow> agent_step" where
  "decided_step now d reason s = s\<lparr>
     s_status := (if d = DecisionRejected then StepRejected else StepApproved), s_decision := d,
     s_decision_reason := reason, s_decided_at := Some now,
     s_finished_at := (if d = DecisionRejected then Some now else None), s_updated_at := now\<rparr>"

definition decided_task :: "time \<Rightarrow> decision \<Rightarrow> string \<Rightarrow> agent_task \<Rightarrow> agent_task" where
  "decided_task now d stepID t = t\<lparr>
     t_status := (if d = DecisionRejected then TaskRejected else TaskPending), t_current_step := stepID,
     t_lease_owner := [], t_lease_until := None, t_heartbeat_at := None,
     t_finished_at := (if d = DecisionRejected then Some now else None),
     t_error := (if d = DecisionRejected then ''tool execution was rejected'' else []),
     t_updated_at := now, t_checkpoint := [], t_checkpoint_version := t_checkpoint_version t + 1,
     t_run_version := (if decision_invalidates_run d then t_run_version t + 1 else t_run_version t)\<rparr>"

definition decidable_step :: "string \<Rightarrow> string \<Rightarrow> string \<Rightarrow> decision \<Rightarrow> string \<Rightarrow> agent_step \<Rightarrow> bool" where
  "decidable_step userName taskID stepID d digest s \<longleftrightarrow>
     s_id s = stepID \<and> s_task s = taskID \<and> s_user s = userName \<and> s_status s = StepWaitingApproval \<and>
     s_decision s \<in> {DecisionUnset, DecisionPending} \<and>
     (d = DecisionApproved \<longrightarrow> s_args_digest s = digest)"

definition max_approval_reason_runes :: nat where "max_approval_reason_runes = 500"

definition update_owned_step_decision ::
    "string \<Rightarrow> string \<Rightarrow> string \<Rightarrow> string \<Rightarrow> string \<Rightarrow> string \<Rightarrow> ('z, agent_step) db_call" where
  "update_owned_step_decision userName0 taskID stepID decision0 reason0 expectedDigest0 = bindE database (\<lambda>_.
     let userName = trim_space userName0; digest = to_lower (trim_space expectedDigest0)
     in case parse_decision (trim_space (to_lower decision0)) of
       None \<Rightarrow> fail InvalidInput
     | Some d \<Rightarrow>
        bindE (guardE (userName \<noteq> [] \<and> trim_space taskID \<noteq> [] \<and> trim_space stepID \<noteq> []) InvalidInput) (\<lambda>_.
        bindE (guardE (\<not> (d = DecisionApproved \<and> digest = [])) InvalidInput) (\<lambda>_.
        bindE current_time (\<lambda>now.
        let reason = truncate_runes (trim_space reason0) max_approval_reason_runes
        in transaction (
           bindE (first_task (\<lambda>t. t_id t = taskID \<and> t_user t = userName)) (\<lambda>task.
           bindE (guardE (t_status task = TaskWaitingApproval) Conflict) (\<lambda>_.
           bindE (update_steps (decidable_step userName taskID stepID d digest) (decided_step now d reason)) (\<lambda>n.
           bindE (guardE (n \<noteq> 0) Conflict) (\<lambda>_.
           bindE (update_tasks (\<lambda>t. t_id t = taskID \<and> t_user t = userName \<and> t_status t = TaskWaitingApproval)
                    (decided_task now d stepID)) (\<lambda>m.
           bindE (guardE (m \<noteq> 0) Conflict) (\<lambda>_.
           bindE (select_steps (find (\<lambda>s. s_id s = stepID \<and> s_task s = taskID \<and> s_user s = userName))) (\<lambda>r.
           case r of None \<Rightarrow> fail RecordNotFound | Some s \<Rightarrow> ret s)))))))))))) "

definition task_can_resume :: "task_status \<Rightarrow> bool \<Rightarrow> bool" where
  "task_can_resume s retryUnknown \<longleftrightarrow> s = TaskFailed \<or> (s = TaskRequiresReview \<and> retryUnknown)"

definition step_can_resume :: "step_status \<Rightarrow> bool \<Rightarrow> bool" where
  "step_can_resume s retryUnknown \<longleftrightarrow> s = StepFailed \<or> (s = StepExecutionUnknown \<and> retryUnknown)"

definition resumed_step :: "time \<Rightarrow> agent_step \<Rightarrow> agent_step" where
  "resumed_step now s = s\<lparr>s_status := StepPending, s_started_at := None, s_finished_at := None,
     s_error := [], s_updated_at := now\<rparr>"

definition requeued_task :: "time \<Rightarrow> string \<Rightarrow> agent_task \<Rightarrow> agent_task" where
  "requeued_task now stepID t = t\<lparr>t_status := TaskPending, t_current_step := stepID,
     t_run_version := t_run_version t + 1, t_checkpoint := [],
     t_checkpoint_version := t_checkpoint_version t + 1, t_lease_owner := [], t_lease_until := None,
     t_heartbeat_at := None, t_finished_at := None, t_error := [], t_updated_at := now\<rparr>"

definition resume_candidates :: "string \<Rightarrow> string \<Rightarrow> bool \<Rightarrow> string \<Rightarrow> agent_step list \<Rightarrow> agent_step list" where
  "resume_candidates userName taskID retryUnknown current ss =
     sort_key (\<lambda>s. (s_seq s, s_id s)) (filter (\<lambda>s. s_task s = taskID \<and> s_user s = userName \<and>
       s_status s \<in> set (StepFailed # (if retryUnknown then [StepExecutionUnknown] else [])) \<and>
       (current = [] \<or> s_id s = current)) ss)"

definition resume_owned_task :: "string \<Rightarrow> string \<Rightarrow> bool \<Rightarrow> ('z, unit) db_call" where
  "resume_owned_task userName0 taskID retryUnknown = bindE database (\<lambda>_.
     let userName = trim_space userName0
     in bindE (guardE (userName \<noteq> [] \<and> trim_space taskID \<noteq> []) InvalidInput) (\<lambda>_.
     bindE current_time (\<lambda>now.
     transaction (
       bindE (first_task (\<lambda>t. t_id t = taskID \<and> t_user t = userName)) (\<lambda>task.
       bindE (guardE (task_can_resume (t_status task) retryUnknown) Conflict) (\<lambda>_.
       bindE (select_steps (resume_candidates userName taskID retryUnknown (t_current_step task))) (\<lambda>candidates.
       case candidates of
         [] \<Rightarrow> fail Conflict
       | step # _ \<Rightarrow>
         bindE (guardE (step_can_resume (s_status step) retryUnknown) Conflict) (\<lambda>_.
         bindE (update_steps (\<lambda>s. s_id s = s_id step \<and> s_task s = taskID \<and> s_user s = userName \<and>
                    s_status s = s_status step) (resumed_step now)) (\<lambda>n.
         bindE (guardE (n \<noteq> 0) Conflict) (\<lambda>_.
         bindE (update_tasks (\<lambda>t. t_id t = taskID \<and> t_user t = userName \<and> t_status t = t_status task \<and>
                    t_run_version t = t_run_version task) (requeued_task now (s_id step))) (\<lambda>m.
         guardE (m \<noteq> 0) Conflict)))))))))))"

definition step_can_replay_after_crash :: "agent_step \<Rightarrow> bool" where
  "step_can_replay_after_crash s \<longleftrightarrow>
     (if s_kind s = KindPlan \<or> s_kind s = KindFinal then True
      else \<not> s_destructive s \<and> (s_read_only s \<or> s_idempotent s))"

definition step_active :: "step_status \<Rightarrow> bool" where
  "step_active s \<longleftrightarrow> s \<in> {StepPending, StepRunning, StepWaitingApproval, StepApproved}"

definition step_uncertain :: "agent_step \<Rightarrow> bool" where
  "step_uncertain s \<longleftrightarrow> s_status s = StepRunning \<and> \<not> step_can_replay_after_crash s"

definition cancelled_step :: "time \<Rightarrow> agent_step \<Rightarrow> agent_step \<Rightarrow> agent_step" where
  "cancelled_step now step s = s\<lparr>
     s_status := (if step_uncertain step then StepExecutionUnknown else StepSkipped),
     s_finished_at := Some now,
     s_error := (if step_uncertain step then ''tool execution outcome is unknown after cancellation'' else []),
     s_updated_at := now\<rparr>"

fun cancel_steps :: "string \<Rightarrow> string \<Rightarrow> time \<Rightarrow> agent_step list \<Rightarrow> ('z, bool) db_call" where
  "cancel_steps userName taskID now [] = ret False"
| "cancel_steps userName taskID now (step # steps) =
     bindE (update_steps (\<lambda>s. s_id s = s_id step \<and> s_task s = taskID \<and> s_user s = userName \<and>
              s_status s = s_status step) (cancelled_step now step)) (\<lambda>_.
     bindE (cancel_steps userName taskID now steps) (\<lambda>uncertain.
     ret (step_uncertain step \<or> uncertain)))"

definition uncertain_cancel_message :: string where
  "uncertain_cancel_message =
     ''task was cancelled while a non-idempotent tool was running; its outcome may be unknown''"

definition cancelled_task :: "time \<Rightarrow> string \<Rightarrow> agent_task \<Rightarrow> agent_task" where
  "cancelled_task now message t = t\<lparr>t_status := TaskCancelled, t_run_version := t_run_version t + 1,
     t_lease_owner := [], t_lease_until := None, t_heartbeat_at := None, t_finished_at := Some now,
     t_error := message, t_updated_at := now\<rparr>"

text \<open>The part of the transaction after the checks on the task's status.\<close>

definition cancel_active_steps :: "string \<Rightarrow> string \<Rightarrow> time \<Rightarrow> agent_task \<Rightarrow> ('z, unit) db_call" where
  "cancel_active_steps userName taskID now task =
     bindE (select_steps (filter (\<lambda>s. s_task s = taskID \<and> s_user s = userName \<and> step_active (s_status s)))) (\<lambda>active.
     bindE (cancel_steps userName taskID now active) (\<lambda>uncertain.
     bindE (update_tasks (\<lambda>t. t_id t = taskID \<and> t_user t = userName \<and> t_status t = t_status task \<and>
                t_run_version t = t_run_version task)
              (cancelled_task now (if uncertain then uncertain_cancel_message else []))) (\<lambda>m.
     guardE (m \<noteq> 0) Conflict)))"

definition cancel_owned_task :: "string \<Rightarrow> string \<Rightarrow> ('z, unit) db_call" where
  "cancel_owned_task userName0 taskID = bindE database (\<lambda>_.
     let userName = trim_space userName0
     in bindE (guardE (userName \<noteq> [] \<and> trim_space taskID \<noteq> []) InvalidInput) (\<lambda>_.
     bindE current_time (\<lambda>now.
     transaction (
       bindE (first_task (\<lambda>t. t_id t = taskID \<and> t_user t = userName)) (\<lambda>task.
       if t_status task = TaskCancelled then ret ()
       else if t_status task = TaskSucceeded \<or> t_status task = TaskRejected then fail Conflict
       else cancel_active_steps userName taskID now task)))))"

section \<open>Crash recovery\<close>

definition recover_stale_batch_size :: nat where "recover_stale_batch_size = 50"
definition recover_stale_max_rounds :: nat where "recover_stale_max_rounds = 20"

definition stale_recoverable :: "task_status \<Rightarrow> bool" where
  "stale_recoverable s \<longleftrightarrow> s \<in> {TaskRunning, TaskPlanning}"

definition coalesced_activity :: "agent_task \<Rightarrow> time" where
  "coalesced_activity t = (case t_heartbeat_at t of Some h \<Rightarrow> h | None \<Rightarrow>
     (case t_started_at t of Some u \<Rightarrow> u | None \<Rightarrow> t_updated_at t))"

definition stale_task :: "time \<Rightarrow> time \<Rightarrow> agent_task \<Rightarrow> bool" where
  "stale_task now before t \<longleftrightarrow> stale_recoverable (t_status t) \<and>
     (case t_lease_until t of Some u \<Rightarrow> u < now | None \<Rightarrow> coalesced_activity t < before)"

definition interrupted_step :: "time \<Rightarrow> agent_step \<Rightarrow> agent_step" where
  "interrupted_step now = unknown_step now ''tool execution outcome is unknown after worker interruption''"

text \<open>The loop of \<open>recoverLockedTask\<close> over the running steps: (current step, unsafe found).\<close>

fun recover_steps :: "string \<Rightarrow> time \<Rightarrow> agent_step list \<Rightarrow> string \<Rightarrow> bool \<Rightarrow> ('z, string \<times> bool) db_call" where
  "recover_steps taskID now [] current unsafe = ret (current, unsafe)"
| "recover_steps taskID now (step # steps) current unsafe =
     (let current1 = (if current = [] then s_id step else current);
          row = (\<lambda>s. s_id s = s_id step \<and> s_task s = taskID \<and> s_status s = StepRunning)
      in if step_can_replay_after_crash step
         then bindE (update_steps row (resumed_step now)) (\<lambda>_.
                recover_steps taskID now steps current1 unsafe)
         else bindE (update_steps row (interrupted_step now)) (\<lambda>_.
                recover_steps taskID now steps (s_id step) True))"

definition recovered_task :: "time \<Rightarrow> string \<Rightarrow> bool \<Rightarrow> agent_task \<Rightarrow> agent_task" where
  "recovered_task now current unsafe t = t\<lparr>
     t_status := (if unsafe then TaskRequiresReview else TaskPending), t_current_step := current,
     t_run_version := t_run_version t + 1, t_checkpoint := [],
     t_checkpoint_version := t_checkpoint_version t + 1, t_lease_owner := [], t_lease_until := None,
     t_heartbeat_at := None,
     t_error := (if unsafe then ''a non-idempotent tool may have executed; manual review is required'' else []),
     t_updated_at := now\<rparr>"

definition recover_locked_task :: "agent_task \<Rightarrow> time \<Rightarrow> ('z, unit) db_call" where
  "recover_locked_task task now =
     bindE (select_steps (\<lambda>ss. sort_key (\<lambda>s. (s_seq s, s_id s))
              (filter (\<lambda>s. s_task s = t_id task \<and> s_status s = StepRunning) ss))) (\<lambda>running.
     bindE (recover_steps (t_id task) now running (t_current_step task) False) (\<lambda>(current, unsafe).
     bindE (update_tasks (\<lambda>t. t_id t = t_id task \<and> t_status t = t_status task \<and>
                t_run_version t = t_run_version task) (recovered_task now current unsafe)) (\<lambda>n.
     guardE (n \<noteq> 0) Conflict)))"

text \<open>One candidate: \<open>False\<close> when it is no longer stale, which is not an error.\<close>

definition recover_candidate :: "time \<Rightarrow> time \<Rightarrow> string \<Rightarrow> ('z, bool) db_call" where
  "recover_candidate now before taskID = transaction (
     bindE (tryE (first_task (\<lambda>t. stale_task now before t \<and> t_id t = taskID))) (\<lambda>r.
     case r of
       Inl e \<Rightarrow> if e = RecordNotFound then ret False else fail e
     | Inr task \<Rightarrow> bindE (recover_locked_task task now) (\<lambda>_. ret True)))"

definition keep_first :: "dao_error \<Rightarrow> dao_error option \<Rightarrow> dao_error option" where
  "keep_first e firstErr = (if e \<noteq> Conflict \<and> firstErr = None then Some e else firstErr)"

fun recover_candidates :: "time \<Rightarrow> time \<Rightarrow> string list \<Rightarrow> nat \<Rightarrow> dao_error option \<Rightarrow>
    ('z, nat \<times> dao_error option) db_call" where
  "recover_candidates now before [] recovered firstErr = ret (recovered, firstErr)"
| "recover_candidates now before (taskID # ids) recovered firstErr =
     bindE ctx_err (\<lambda>stop. if stop then fail (Driver ContextCanceled)
     else bindE (tryE (recover_candidate now before taskID)) (\<lambda>r. case r of
         Inl e \<Rightarrow> recover_candidates now before ids recovered (keep_first e firstErr)
       | Inr transitioned \<Rightarrow>
           recover_candidates now before ids (if transitioned then recovered + 1 else recovered) firstErr))"

definition first_error :: "dao_error option \<Rightarrow> ('z, unit) db_call" where
  "first_error firstErr = (case firstErr of None \<Rightarrow> ret () | Some e \<Rightarrow> fail e)"

definition stale_ids :: "time \<Rightarrow> time \<Rightarrow> agent_task list \<Rightarrow> string list" where
  "stale_ids now before ts = map t_id (take recover_stale_batch_size
     (sort_key (\<lambda>t. (t_updated_at t, t_id t)) (filter (stale_task now before) ts)))"

fun recover_rounds :: "nat \<Rightarrow> time \<Rightarrow> time \<Rightarrow> dao_error option \<Rightarrow> ('z, unit) db_call" where
  "recover_rounds 0 now before firstErr = first_error firstErr"
| "recover_rounds (Suc rounds) now before firstErr =
     bindE (tryE (select_tasks (stale_ids now before))) (\<lambda>r. case r of
       Inl e \<Rightarrow> first_error (if firstErr = None then Some e else firstErr)
     | Inr ids \<Rightarrow>
         if ids = [] then first_error firstErr
         else bindE (recover_candidates now before ids 0 firstErr) (\<lambda>(recovered, firstErr1).
           if recovered = 0 \<or> length ids < recover_stale_batch_size then first_error firstErr1
           else recover_rounds rounds now before firstErr1))"

definition recover_stale_tasks :: "time \<Rightarrow> ('z, unit) db_call" where
  "recover_stale_tasks before = bindE database (\<lambda>_.
     bindE (guardE (before \<noteq> zero_time) InvalidInput) (\<lambda>_.
     bindE current_time (\<lambda>now. recover_rounds recover_stale_max_rounds now before None)))"

section \<open>Checkpoints\<close>

definition checkpoint_schema_version :: string where
  "checkpoint_schema_version = ''gopherai_task_agent_v1''"

definition checkpoint_envelope_prefix :: string where
  "checkpoint_envelope_prefix = checkpoint_schema_version @ [CHR 0x0A]"

definition encode_checkpoint_envelope :: "string \<Rightarrow> string" where
  "encode_checkpoint_envelope checkpoint =
     (if checkpoint = [] then [] else checkpoint_envelope_prefix @ checkpoint)"

definition has_prefix :: "string \<Rightarrow> string \<Rightarrow> bool" where
  "has_prefix pre s \<longleftrightarrow> take (length pre) s = pre"

definition decode_checkpoint_envelope :: "string \<Rightarrow> string option" where
  "decode_checkpoint_envelope stored =
     (if \<not> has_prefix checkpoint_envelope_prefix stored then None
      else let payload = drop (length checkpoint_envelope_prefix) stored
           in if payload = [] then None else Some payload)"

text \<open>\<open>None\<close> stands for the pair \<open>(nil, false)\<close>: no checkpoint to resume from.\<close>

definition get_checkpoint :: "string \<Rightarrow> ('z, string option) db_call" where
  "get_checkpoint taskID = bindE database (\<lambda>_.
     bindE (guardE (trim_space taskID \<noteq> []) InvalidInput) (\<lambda>_.
     bindE (first_task (\<lambda>t. t_id t = taskID)) (\<lambda>t.
     ret (if t_checkpoint t = [] then None else decode_checkpoint_envelope (t_checkpoint t)))))"

definition set_checkpoint :: "('c) ctx_scheme \<Rightarrow> string \<Rightarrow> string \<Rightarrow> ('z, unit) db_call" where
  "set_checkpoint c taskID checkpoint = bindE database (\<lambda>_.
     bindE (guardE (trim_space taskID \<noteq> []) InvalidInput) (\<lambda>_.
     let fence = fencing_token_from_context c
     in bindE (guardE (case fence of None \<Rightarrow> True | Some (i, _) \<Rightarrow> i = taskID) Conflict) (\<lambda>_.
        bindE current_time (\<lambda>now.
        bindE (update_tasks (\<lambda>t. t_id t = taskID \<and> (case fence of None \<Rightarrow> True | Some (_, v) \<Rightarrow> t_run_version t = v))
                 (\<lambda>t. t\<lparr>t_checkpoint := encode_checkpoint_envelope checkpoint,
                        t_checkpoint_version := t_checkpoint_version t + 1, t_updated_at := now\<rparr>)) (\<lambda>n.
        guardE (n \<noteq> 0) (if fence = None then RecordNotFound else Conflict))))))"

end
