(* ===== verification/AgentRelations.thy ===== *)
theory AgentRelations
  imports AgentTransitions
begin

text \<open>
  What the store operations do to the tables, in general: the locales that lift a relation on
  rows to a relation on worlds kept by composed calls, the operations of the store as one
  datatype of steps, and the fact that each of them keeps every relation its row updates keep.
\<close>

section \<open>Relations on worlds that depend on the tables only\<close>

locale table_preorder = state_preorder R for R :: "'z world_scheme \<Rightarrow> 'z world_scheme \<Rightarrow> bool" +
  assumes R_tables: "tables s = tables t \<Longrightarrow> R s t"
begin

lemma keeps_same_tables: "(\<And>s r t. m s = (r, t) \<Longrightarrow> tables t = tables s) \<Longrightarrow> keeps R m"
  by (metis R_tables keepsI)

lemma keeps_statement:
  assumes "keeps R body"
  shows "keeps R (statement body)"
proof (rule keepsI)
  fix s r t assume "statement body s = (r, t)"
  then show "R s t"
  proof (cases rule: statement_cases)
    case (fault e fs)
    then show ?thesis by (simp add: R_tables)
  next
    case (runs fs)
    have "R s (s\<lparr>d_faults := fs\<rparr>)" by (simp add: R_tables)
    then show ?thesis using keepsD [OF assms runs] by (rule R_trans)
  qed
qed

lemma keeps_atomic:
  assumes "keeps R m"
  shows "keeps R (atomic m)"
proof (rule keepsI)
  fix s r t assume a: "atomic m s = (r, t)"
  show "R s t"
  proof (cases r)
    case (Inl e)
    with a have "tables t = tables s" by (simp add: atomic_Inl)
    then show ?thesis by (simp add: R_tables)
  next
    case (Inr x)
    with a have "m s = (Inr x, t)" by (auto simp: atomic_def split: prod.splits sum.splits)
    then show ?thesis by (rule keepsD [OF assms])
  qed
qed

lemma keeps_transaction: "keeps R m \<Longrightarrow> keeps R (transaction m)"
  unfolding transaction_def by (intro keeps_atomic keeps_intros keeps_statement)

lemma keeps_select_tasks: "keeps R (select_tasks q)"
  unfolding select_tasks_def by (intro keeps_statement keeps_gets)

lemma keeps_select_steps: "keeps R (select_steps q)"
  unfolding select_steps_def by (intro keeps_statement keeps_gets)

lemma keeps_database: "keeps R database"
  unfolding database_def by (intro keeps_intros)

lemma keeps_current_time: "keeps R current_time"
  unfolding current_time_def by (intro keeps_intros)

lemma keeps_ctx_err: "keeps R ctx_err"
  by (rule keeps_same_tables) (auto simp: ctx_err_def split: list.splits)

lemma keeps_fresh_uuid: "keeps R fresh_uuid"
  by (rule keeps_same_tables) (auto simp: fresh_uuid_def)

lemma keeps_first_task: "keeps R (first_task P)"
  unfolding first_task_def by (intro keeps_intros keeps_select_tasks)

lemma keeps_first_task_or_conflict: "keeps R (first_task_or_conflict P)"
  unfolding first_task_or_conflict_def by (intro keeps_intros keeps_first_task)

lemma keeps_check_task_updates: "keeps R (check_task_updates us)"
  unfolding check_task_updates_def by (rule keeps_guardE)

lemma keeps_check_step_updates: "keeps R (check_step_updates us)"
  unfolding check_step_updates_def by (rule keeps_guardE)

lemma keeps_first_error: "keeps R (first_error fe)"
  unfolding first_error_def by (intro keeps_intros)

lemma keeps_load_task: "keeps R (load_task P)"
  unfolding load_task_def by (intro keeps_intros keeps_first_task keeps_select_steps)

lemma keeps_get_task_by_id: "keeps R (get_task_by_id i)"
  unfolding get_task_by_id_def by (intro keeps_intros keeps_database keeps_load_task)

lemma keeps_with_step_id: "keeps R (with_step_id s)"
  unfolding with_step_id_def by (intro keeps_intros keeps_fresh_uuid)

lemma keeps_normalize_plan_steps: "keeps R (normalize_plan_steps t i ss)"
proof (induction ss arbitrary: i)
  case Nil
  show ?case by (simp add: keeps_ret)
next
  case (Cons s ss)
  then show ?case by (simp add: keeps_bindE keeps_with_step_id keeps_ret)
qed

lemma keeps_update_tasks:
  assumes "\<And>w. R w (w\<lparr>d_tasks := update_where P f (d_tasks w)\<rparr>)"
  shows "keeps R (update_tasks P f)"
  unfolding update_tasks_def by (intro keeps_statement keepsI) (auto simp: assms)

lemma keeps_update_steps:
  assumes "\<And>w. R w (w\<lparr>d_steps := update_where P f (d_steps w)\<rparr>)"
  shows "keeps R (update_steps P f)"
  unfolding update_steps_def by (intro keeps_statement keepsI) (auto simp: assms)

lemma keeps_delete_steps:
  assumes "\<And>w. R w (w\<lparr>d_steps := filter (Not \<circ> P) (d_steps w)\<rparr>)"
  shows "keeps R (delete_steps P)"
  unfolding delete_steps_def by (intro keeps_statement keepsI) (auto simp: assms)

lemma keeps_insert_task:
  assumes "\<And>w. t_id t \<notin> t_id ` set (d_tasks w) \<Longrightarrow> R w (w\<lparr>d_tasks := d_tasks w @ [t]\<rparr>)"
  shows "keeps R (insert_task t)"
  unfolding insert_task_def by (intro keeps_statement keepsI) (auto simp: assms R_refl split: if_splits)

lemma keeps_insert_steps:
  assumes "\<And>w. insertable (d_steps w) ss \<Longrightarrow> R w (w\<lparr>d_steps := d_steps w @ ss\<rparr>)"
  shows "keeps R (insert_steps ss)"
  unfolding insert_steps_def by (intro keeps_statement keepsI) (auto simp: assms R_refl split: if_splits)

lemmas keeps_reads =
  keeps_select_tasks keeps_select_steps keeps_database keeps_current_time keeps_ctx_err keeps_fresh_uuid
  keeps_first_task keeps_first_task_or_conflict keeps_check_task_updates keeps_check_step_updates
  keeps_first_error keeps_load_task keeps_get_task_by_id keeps_with_step_id keeps_normalize_plan_steps

end

end
