(* ===== verification/AgentColumns.thy ===== *)
theory AgentColumns
  imports AgentRelations
begin

text \<open>
  The generic update path of the store (\<open>UpdateTaskFenced\<close>, \<open>UpdateStepFenced\<close>,
  \<open>UpdateOwnedTask\<close>) takes a map of columns from its caller. This theory shows what no such
  map can reach, whatever spelling its keys use.
\<close>

section \<open>Keys that name a column survive trimming\<close>

lemma graphic_to_lower_char: "33 \<le> byte_of (to_lower_char c) \<and> byte_of (to_lower_char c) < 127 \<Longrightarrow>
    33 \<le> byte_of c \<and> byte_of c < 127"
  by (auto simp: to_lower_char_def Let_def split: if_splits)

lemma graphic_to_lower: "graphic (to_lower s) \<Longrightarrow> graphic s"
  unfolding graphic_def to_lower_def list.pred_map comp_def
  by (erule list.pred_mono_strong) (rule graphic_to_lower_char)

section \<open>No key resolves to a protected column\<close>

definition columns_guarded :: "(string \<times> string \<times> 'c) list \<Rightarrow> ('c \<Rightarrow> bool) \<Rightarrow> string list \<Rightarrow> bool" where
  "columns_guarded cols protected immutable \<longleftrightarrow> list_all (\<lambda>(db, fld, c).
     graphic db \<and> graphic fld \<and> (protected c \<longrightarrow> db \<in> set immutable \<and> to_lower fld \<in> set immutable)) cols"

lemma sanitized_not_protected:
  assumes "columns_guarded cols protected immutable"
    and "(k, v) \<in> set (sanitized_updates us immutable)"
    and "resolve_column cols k = Some c"
  shows "\<not> protected c"
proof
  assume p: "protected c"
  from assms(3) obtain db fld where f: "(db, fld, c) \<in> set cols" "to_lower k = db \<or> k = fld"
    by (auto simp: resolve_column_def dest!: find_SomeD)
  from f(1) assms(1) p have g: "graphic db" "graphic fld" "db \<in> set immutable" "to_lower fld \<in> set immutable"
    by (auto simp: columns_guarded_def list_all_iff)
  have "graphic k" using f(2) g(1,2) graphic_to_lower by blast
  then have "to_lower (trim_space k) \<in> set immutable" using f(2) g(3,4) by (auto simp: trim_graphic)
  with assms(2) show False by (auto simp: sanitized_updates_def Let_def)
qed

definition protected_task_column :: "task_column \<Rightarrow> bool" where
  "protected_task_column c \<longleftrightarrow> c \<in> {TcId, TcUserName, TcCreatedAt, TcRunVersion, TcCheckpoint, TcCheckpointVersion}"

definition protected_step_column :: "step_column \<Rightarrow> bool" where
  "protected_step_column c \<longleftrightarrow> c \<in> {ScId, ScTaskID, ScUserName, ScSequence, ScCreatedAt, ScToolName,
     ScToolArgumentsJSON, ScArgumentsDigest, ScRiskLevel, ScRequiresApproval, ScReadOnly,
     ScIdempotent, ScDestructive, ScApprovalDecision}"

lemma task_columns_guarded: "columns_guarded task_columns protected_task_column immutable_task_columns"
  unfolding columns_guarded_def graphic_def protected_task_column_def by code_simp

lemma step_columns_guarded: "columns_guarded step_columns protected_step_column immutable_step_columns"
  unfolding columns_guarded_def graphic_def protected_step_column_def by code_simp

section \<open>What a sanitized update leaves alone\<close>

definition task_identity :: "agent_task \<Rightarrow> string \<times> string \<times> time \<times> nat \<times> string \<times> nat" where
  "task_identity t = (t_id t, t_user t, t_created_at t, t_run_version t, t_checkpoint t, t_checkpoint_version t)"

text \<open>Identity, the reviewed payload, the trusted policy snapshot and the decision of a step.\<close>

definition step_identity :: "agent_step \<Rightarrow> string \<times> string \<times> string \<times> nat \<times> time" where
  "step_identity s = (s_id s, s_task s, s_user s, s_seq s, s_created_at s)"

definition step_payload :: "agent_step \<Rightarrow> string \<times> string \<times> string \<times> decision" where
  "step_payload s = (s_tool s, s_args_json s, s_args_digest s, s_decision s)"

definition step_policy :: "agent_step \<Rightarrow> policy" where
  "step_policy s = \<lparr>p_risk = s_risk s, p_requires_approval = s_requires_approval s,
     p_read_only = s_read_only s, p_idempotent = s_idempotent s, p_destructive = s_destructive s\<rparr>"

lemmas with_defs = with_str_def with_nat_def with_bool_def with_time_def with_ptime_def
  with_task_status_def with_step_status_def with_kind_def with_decision_def

lemma write_task_column_identity:
  "write_task_column c v t = Some t' \<Longrightarrow> \<not> protected_task_column c \<Longrightarrow> task_identity t' = task_identity t"
  by (cases c) (auto simp: write_task_column_def with_defs protected_task_column_def task_identity_def
      split: col_value.splits)

lemma write_step_column_identity:
  "write_step_column c v s = Some s' \<Longrightarrow> \<not> protected_step_column c \<Longrightarrow>
   step_identity s' = step_identity s \<and> step_payload s' = step_payload s \<and> step_policy s' = step_policy s"
  by (cases c) (auto simp: write_step_column_def with_defs protected_step_column_def step_identity_def
      step_payload_def step_policy_def split: col_value.splits)

lemma assign_all_invariant:
  assumes "\<And>k v c r r'. (k, v) \<in> set us \<Longrightarrow> resolve_column cols k = Some c \<Longrightarrow> write c v r = Some r' \<Longrightarrow> g r' = g r"
  shows "g (assign_all cols write us r) = g r"
  using assms
proof (induction us arbitrary: r)
  case Nil
  show ?case by (simp add: assign_all_def)
next
  case (Cons kv us)
  let ?r1 = "case assign cols write kv r of None \<Rightarrow> r | Some r' \<Rightarrow> r'"
  have step: "g ?r1 = g r"
    using Cons.prems [of "fst kv" "snd kv"] by (auto simp: assign_def split: option.splits)
  have "g (assign_all cols write us ?r1) = g ?r1"
    using Cons.prems by (intro Cons.IH) (meson list.set_intros(2))
  then show ?case by (simp add: assign_all_def step)
qed

lemma stamped_cases:
  "(k, v) \<in> set (stamped now us) \<Longrightarrow> (k, v) \<in> set us \<or> k = ''updated_at''"
  by (auto simp: stamped_def)

lemma updated_at_columns:
  "resolve_column task_columns ''updated_at'' = Some TcUpdatedAt"
  "resolve_column step_columns ''updated_at'' = Some ScUpdatedAt"
  by code_simp+

lemma stamped_task_not_protected:
  "(k, v) \<in> set (stamped now (sanitized_updates us immutable_task_columns)) \<Longrightarrow>
   resolve_column task_columns k = Some c \<Longrightarrow> \<not> protected_task_column c"
  using stamped_cases sanitized_not_protected [OF task_columns_guarded] updated_at_columns
  by (metis option.inject protected_task_column_def task_column.distinct insert_iff empty_iff)

lemma stamped_step_not_protected:
  "(k, v) \<in> set (stamped now (sanitized_updates us immutable_step_columns)) \<Longrightarrow>
   resolve_column step_columns k = Some c \<Longrightarrow> \<not> protected_step_column c"
  using stamped_cases [of k v now] sanitized_not_protected [OF step_columns_guarded] updated_at_columns(2)
  by (fastforce simp: protected_step_column_def)

definition safe_task_write :: "time \<Rightarrow> updates \<Rightarrow> agent_task \<Rightarrow> agent_task" where
  "safe_task_write now us = assign_task (stamped now (sanitized_updates us immutable_task_columns))"

definition safe_step_write :: "time \<Rightarrow> updates \<Rightarrow> agent_step \<Rightarrow> agent_step" where
  "safe_step_write now us = assign_step (stamped now (sanitized_updates us immutable_step_columns))"

lemma safe_task_write_identity: "task_identity (safe_task_write now us t) = task_identity t"
  unfolding safe_task_write_def assign_task_def
  by (rule assign_all_invariant) (meson write_task_column_identity stamped_task_not_protected)

lemma safe_step_write_identity:
  "step_identity (safe_step_write now us s) = step_identity s"
  "step_payload (safe_step_write now us s) = step_payload s"
  "step_policy (safe_step_write now us s) = step_policy s"
  unfolding safe_step_write_def assign_step_def
  by (rule assign_all_invariant, meson write_step_column_identity stamped_step_not_protected)+

lemma safe_task_write_fields [simp]:
  "t_id (safe_task_write now us t) = t_id t" "t_user (safe_task_write now us t) = t_user t"
  "t_run_version (safe_task_write now us t) = t_run_version t"
  "t_checkpoint (safe_task_write now us t) = t_checkpoint t"
  "t_checkpoint_version (safe_task_write now us t) = t_checkpoint_version t"
  using safe_task_write_identity [of now us t] by (simp_all add: task_identity_def)

lemma safe_step_write_fields [simp]:
  "s_id (safe_step_write now us s) = s_id s" "s_task (safe_step_write now us s) = s_task s"
  "s_user (safe_step_write now us s) = s_user s" "s_seq (safe_step_write now us s) = s_seq s"
  "s_args_digest (safe_step_write now us s) = s_args_digest s"
  "s_decision (safe_step_write now us s) = s_decision s"
  using safe_step_write_identity [of now us s] by (simp_all add: step_identity_def step_payload_def)

end
