(* ===== verification/AgentSteps.thy ===== *)
theory AgentSteps
  imports AgentColumns
begin

text \<open>
  The abstract view of the Agent store: a transition system on single rows. \<open>store_op\<close> lists
  every operation of the store that writes, with its arguments; \<open>task_write op\<close> and
  \<open>step_write op\<close> are the changes that operation may make to one row, with the condition its
  WHERE clauses impose on that row. The refinement theorem at the end says that whatever the
  detailed operation does to the tables (faults, rollbacks and early returns included) is a
  sequence of such row changes, plus the insertion of new rows.
\<close>

datatype store_op =
    OpCreate "agent_task option" "agent_step option"
  | OpClaim string string time
  | OpRenew string nat string time
  | OpSavePlan ctx string nat "string option" "agent_step list"
  | OpCreateSteps string nat "agent_step list"
  | OpUpdateTask ctx string nat updates
  | OpUpdateStep ctx string string nat updates
  | OpMarkUnknown ctx string string nat string
  | OpMarkPolicy ctx string string nat string policy
  | OpUpdateOwned string string updates
  | OpDecide string string string string string string
  | OpResume string string bool
  | OpCancel string string
  | OpRecover time
  | OpSetCheckpoint ctx string string
  | OpEnvironment nat "driver_fault option list" "bool list"

text \<open>The tables after the operation, whatever it returned.\<close>

fun exec_op :: "store_op \<Rightarrow> 'z world_scheme \<Rightarrow> 'z world_scheme" where
  "exec_op (OpCreate t s) w = snd (create_task_with_initial_step t s w)"
| "exec_op (OpClaim i wk l) w = snd (claim_task i wk l w)"
| "exec_op (OpRenew i v wk l) w = snd (renew_lease_fenced i v wk l w)"
| "exec_op (OpSavePlan c i v sm ss) w = snd (save_plan c i v sm ss w)"
| "exec_op (OpCreateSteps i v ss) w = snd (create_steps_fenced i v ss w)"
| "exec_op (OpUpdateTask c i v us) w = snd (update_task_fenced c i v us w)"
| "exec_op (OpUpdateStep c i j v us) w = snd (update_step_fenced c i j v us w)"
| "exec_op (OpMarkUnknown c i j v m) w = snd (mark_execution_unknown_fenced c i j v m w)"
| "exec_op (OpMarkPolicy c i j v m p) w = snd (mark_policy_review_fenced c i j v m p w)"
| "exec_op (OpUpdateOwned u i us) w = snd (update_owned_task u i us w)"
| "exec_op (OpDecide u i j d r dg) w = snd (update_owned_step_decision u i j d r dg w)"
| "exec_op (OpResume u i b) w = snd (resume_owned_task u i b w)"
| "exec_op (OpCancel u i) w = snd (cancel_owned_task u i w)"
| "exec_op (OpRecover before) w = snd (recover_stale_tasks before w)"
| "exec_op (OpSetCheckpoint c i cp) w = snd (set_checkpoint c i cp w)"
| "exec_op (OpEnvironment dt fs ps) w = w\<lparr>d_clock := d_clock w + int dt, d_faults := fs, d_polls := ps\<rparr>"

definition run_ops :: "store_op list \<Rightarrow> 'z world_scheme \<Rightarrow> 'z world_scheme" where
  "run_ops ops w = fold exec_op ops w"

section \<open>Changes to one row\<close>

inductive task_write :: "store_op \<Rightarrow> agent_task \<Rightarrow> agent_task \<Rightarrow> bool" where
  claimed: "t_id t = i \<Longrightarrow> t_status t = TaskPending \<Longrightarrow>
     task_write (OpClaim i wk l) t (claimed_task now wk (lease_of l) t)"
| renewed: "t_id t = i \<Longrightarrow> t_run_version t = v \<Longrightarrow> t_lease_owner t = wk \<Longrightarrow> lease_live now t \<Longrightarrow>
     lease_renewable (t_status t) \<Longrightarrow>
     task_write (OpRenew i v wk l) t (t\<lparr>t_lease_until := Some (now + lease_of l), t_heartbeat_at := Some now,
       t_updated_at := now\<rparr>)"
| planned: "fenced_row c i v now t \<Longrightarrow>
     task_write (OpSavePlan c i v sm ss) t (t\<lparr>t_status := TaskRunning, t_current_step := cur, t_error := [],
       t_updated_at := now, t_plan_summary := (case sm of None \<Rightarrow> t_plan_summary t | Some x \<Rightarrow> x)\<rparr>)"
| updated: "fenced_row c i v now t \<Longrightarrow>
     task_write (OpUpdateTask c i v us) t (safe_task_write now us t)"
| paused: "fenced_row c i v now t \<Longrightarrow> t_status t = TaskRunning \<Longrightarrow>
     task_write (OpMarkUnknown c i j v m) t (paused_task now j m' t)"
| reviewed: "fenced_row c i v now t \<Longrightarrow> t_status t = TaskRunning \<Longrightarrow>
     task_write (OpMarkPolicy c i j v m p) t (paused_task now j m' t)"
| owned: "t_id t = i \<Longrightarrow> t_user t = u \<Longrightarrow>
     task_write (OpUpdateOwned u i us) t (safe_task_write now us t)"
| decided: "t_id t = i \<Longrightarrow> t_user t = trim_space u \<Longrightarrow> t_status t = TaskWaitingApproval \<Longrightarrow>
     parse_decision (trim_space (to_lower d0)) = Some d \<Longrightarrow>
     task_write (OpDecide u i j d0 r dg) t (decided_task now d j t)"
| resumed: "t_id t = i \<Longrightarrow> t_user t = trim_space u \<Longrightarrow> task_can_resume (t_status t) b \<Longrightarrow>
     task_write (OpResume u i b) t (requeued_task now j t)"
| cancelled: "t_id t = i \<Longrightarrow> t_user t = trim_space u \<Longrightarrow>
     t_status t \<notin> {TaskCancelled, TaskSucceeded, TaskRejected} \<Longrightarrow>
     task_write (OpCancel u i) t (cancelled_task now m t)"
| recovered: "stale_recoverable (t_status t) \<Longrightarrow>
     task_write (OpRecover before) t (recovered_task now cur unsafe t)"
| checkpointed: "t_id t = i \<Longrightarrow>
     (case fencing_token_from_context c of None \<Rightarrow> True | Some (_, v) \<Rightarrow> t_run_version t = v) \<Longrightarrow>
     task_write (OpSetCheckpoint c i cp) t (t\<lparr>t_checkpoint := encode_checkpoint_envelope cp,
       t_checkpoint_version := t_checkpoint_version t + 1, t_updated_at := now\<rparr>)"

inductive step_write :: "store_op \<Rightarrow> agent_step \<Rightarrow> agent_step \<Rightarrow> bool" where
  plan_completed: "s_task s = i \<Longrightarrow> s_kind s = KindPlan \<Longrightarrow>
     step_write (OpSavePlan c i v sm ss) s (completed_plan_step now s)"
| updated: "s_id s = j \<Longrightarrow> s_task s = i \<Longrightarrow>
     step_write (OpUpdateStep c i j v us) s (safe_step_write now us s)"
| unknown: "running_tool_row i j s \<Longrightarrow>
     step_write (OpMarkUnknown c i j v m) s (unknown_step now m' s)"
| reviewed: "running_tool_row i j s \<Longrightarrow>
     step_write (OpMarkPolicy c i j v m p) s (reviewed_step now m' p' s)"
| decided: "parse_decision (trim_space (to_lower d0)) = Some d \<Longrightarrow>
     decidable_step (trim_space u) i j d (to_lower (trim_space dg)) s \<Longrightarrow>
     step_write (OpDecide u i j d0 r dg) s (decided_step now d r' s)"
| resumed: "s_task s = i \<Longrightarrow> s_user s = trim_space u \<Longrightarrow> step_can_resume (s_status s) b \<Longrightarrow>
     step_write (OpResume u i b) s (resumed_step now s)"
| cancelled: "s_task s = i \<Longrightarrow> s_user s = trim_space u \<Longrightarrow> step_active (s_status s) \<Longrightarrow>
     step_write (OpCancel u i) s (cancelled_step now s s)"
| replayed: "s_status s = StepRunning \<Longrightarrow> step_can_replay_after_crash s \<Longrightarrow>
     step_write (OpRecover before) s (resumed_step now s)"
| interrupted: "s_status s = StepRunning \<Longrightarrow> \<not> step_can_replay_after_crash s \<Longrightarrow>
     step_write (OpRecover before) s (interrupted_step now s)"

text \<open>A row an operation inserts: pending, undecided, never started.\<close>

definition fresh_step :: "agent_step \<Rightarrow> bool" where
  "fresh_step s \<longleftrightarrow> s_status s = StepPending \<and> s_decision s = DecisionPending \<and> s_attempts s = 0 \<and>
     s_operation_id s = [] \<and> s_started_at s = None \<and> s_finished_at s = None"

section \<open>Well-formed tables\<close>

definition wf_tables :: "'z world_scheme \<Rightarrow> bool" where
  "wf_tables w \<longleftrightarrow> distinct (map t_id (d_tasks w)) \<and> distinct (map s_id (d_steps w)) \<and>
     distinct (map step_key (d_steps w))"

definition task_row :: "string \<Rightarrow> 'z world_scheme \<Rightarrow> agent_task option" where
  "task_row i w = find (\<lambda>t. t_id t = i) (d_tasks w)"

definition step_row :: "string \<Rightarrow> 'z world_scheme \<Rightarrow> agent_step option" where
  "step_row j w = find (\<lambda>s. s_id s = j) (d_steps w)"

text \<open>Every task row is still there, changed by the operation's writes only.\<close>

definition tasks_evolve :: "store_op \<Rightarrow> 'z world_scheme \<Rightarrow> 'z world_scheme \<Rightarrow> bool" where
  "tasks_evolve op w w' \<longleftrightarrow> (\<forall>i t. task_row i w = Some t \<longrightarrow>
     (\<exists>t'. task_row i w' = Some t' \<and> (task_write op)\<^sup>*\<^sup>* t t'))"

text \<open>
  Every step row there is comes from an old row or a fresh one, by the operation's writes; and
  no step row is lost, except by \<open>SavePlan\<close>, which replaces the plan.
\<close>

fun replaces_plan :: "store_op \<Rightarrow> bool" where
  "replaces_plan (OpSavePlan c i v sm ss) = True"
| "replaces_plan _ = False"

definition steps_from :: "store_op \<Rightarrow> 'z world_scheme \<Rightarrow> 'z world_scheme \<Rightarrow> bool" where
  "steps_from op w w' \<longleftrightarrow> (\<forall>j s'. step_row j w' = Some s' \<longrightarrow>
     (\<exists>s. (step_row j w = Some s \<or> fresh_step s) \<and> (step_write op)\<^sup>*\<^sup>* s s'))"

definition steps_kept :: "store_op \<Rightarrow> 'z world_scheme \<Rightarrow> 'z world_scheme \<Rightarrow> bool" where
  "steps_kept op w w' \<longleftrightarrow> replaces_plan op \<or> (\<forall>j s. step_row j w = Some s \<longrightarrow>
     (\<exists>s'. step_row j w' = Some s' \<and> (step_write op)\<^sup>*\<^sup>* s s'))"

definition steps_evolve :: "store_op \<Rightarrow> 'z world_scheme \<Rightarrow> 'z world_scheme \<Rightarrow> bool" where
  "steps_evolve op w w' \<longleftrightarrow> steps_from op w w' \<and> steps_kept op w w'"

definition evolves :: "store_op \<Rightarrow> 'z world_scheme \<Rightarrow> 'z world_scheme \<Rightarrow> bool" where
  "evolves op w w' \<longleftrightarrow> (wf_tables w \<longrightarrow> wf_tables w' \<and> tasks_evolve op w w' \<and> steps_evolve op w w')"

lemma row_ids [simp]:
  "t_id (claimed_task now wk l t) = t_id t" "t_id (paused_task now j m t) = t_id t"
  "t_id (decided_task now d j t) = t_id t" "t_id (requeued_task now j t) = t_id t"
  "t_id (cancelled_task now m t) = t_id t" "t_id (recovered_task now cur b t) = t_id t"
  "s_id (completed_plan_step now s) = s_id s" "s_id (unknown_step now m s) = s_id s"
  "s_id (reviewed_step now m p s) = s_id s" "s_id (decided_step now d r s) = s_id s"
  "s_id (resumed_step now s) = s_id s" "s_id (cancelled_step now s' s) = s_id s"
  "s_id (interrupted_step now s) = s_id s"
  by (simp_all add: claimed_task_def paused_task_def decided_task_def requeued_task_def
      cancelled_task_def recovered_task_def completed_plan_step_def unknown_step_def reviewed_step_def
      decided_step_def resumed_step_def cancelled_step_def interrupted_step_def)

lemma row_keys [simp]:
  "s_task (completed_plan_step now s) = s_task s" "s_seq (completed_plan_step now s) = s_seq s"
  "s_task (unknown_step now m s) = s_task s" "s_seq (unknown_step now m s) = s_seq s"
  "s_task (reviewed_step now m p s) = s_task s" "s_seq (reviewed_step now m p s) = s_seq s"
  "s_task (decided_step now d r s) = s_task s" "s_seq (decided_step now d r s) = s_seq s"
  "s_task (resumed_step now s) = s_task s" "s_seq (resumed_step now s) = s_seq s"
  "s_task (cancelled_step now s' s) = s_task s" "s_seq (cancelled_step now s' s) = s_seq s"
  "s_task (interrupted_step now s) = s_task s" "s_seq (interrupted_step now s) = s_seq s"
  by (simp_all add: completed_plan_step_def unknown_step_def reviewed_step_def decided_step_def
      resumed_step_def cancelled_step_def interrupted_step_def)

end
