(* ===== verification/AgentExamples.thy ===== *)
theory AgentExamples
  imports AgentSteps
begin

text \<open>
  A small store on which the properties are evaluated: a task of alice in its second run, held by
  worker \<open>w2\<close>, with a completed plan step, a running tool step that must not be replayed
  blindly and a tool step awaiting approval; and a task of bob that waits to be claimed.
\<close>

definition demo_task :: agent_task where
  "demo_task = zero_task\<lparr>t_id := ''t1'', t_user := ''alice'', t_goal := ''g'', t_status := TaskRunning,
     t_run_version := 2, t_lease_owner := ''w2'', t_lease_until := Some 100, t_heartbeat_at := Some 10,
     t_started_at := Some 5, t_current_step := ''s1''\<rparr>"

definition demo_pending :: agent_task where
  "demo_pending = zero_task\<lparr>t_id := ''t2'', t_user := ''bob'', t_goal := ''h'', t_status := TaskPending\<rparr>"

definition demo_waiting :: agent_task where
  "demo_waiting = zero_task\<lparr>t_id := ''t3'', t_user := ''alice'', t_goal := ''k'',
     t_status := TaskWaitingApproval, t_run_version := 1, t_current_step := ''s3''\<rparr>"

definition demo_plan_step :: agent_step where
  "demo_plan_step = zero_step\<lparr>s_id := ''s0'', s_task := ''t1'', s_user := ''alice'', s_kind := KindPlan,
     s_status := StepSucceeded\<rparr>"

definition demo_tool_step :: agent_step where
  "demo_tool_step = zero_step\<lparr>s_id := ''s1'', s_task := ''t1'', s_user := ''alice'', s_seq := 1,
     s_kind := KindTool, s_status := StepRunning, s_tool := ''mail'', s_destructive := True,
     s_decision := DecisionApproved, s_args_digest := ''dd''\<rparr>"

definition demo_waiting_step :: agent_step where
  "demo_waiting_step = zero_step\<lparr>s_id := ''s3'', s_task := ''t3'', s_user := ''alice'', s_seq := 1,
     s_kind := KindTool, s_status := StepWaitingApproval, s_tool := ''mail'', s_destructive := True,
     s_decision := DecisionPending, s_args_digest := ''ee''\<rparr>"

definition demo_uuid :: "nat \<Rightarrow> string" where
  "demo_uuid n = replicate (n + 1) (CHR ''u'')"

definition demo_world :: world where
  "demo_world = \<lparr>d_connected = True, d_tasks = [demo_task, demo_pending, demo_waiting],
     d_steps = [demo_plan_step, demo_tool_step, demo_waiting_step], d_clock = 50, d_faults = [],
     d_polls = [], d_uuid = demo_uuid, d_uuid_next = 0\<rparr>"

lemmas demo_rows = demo_task_def demo_pending_def demo_waiting_def demo_plan_step_def
  demo_tool_step_def demo_waiting_step_def zero_task_def zero_step_def

lemma demo_wf: "wf_tables demo_world"
  by (simp add: wf_tables_def demo_world_def demo_rows step_key_def)

lemma demo_task_row:
  "task_row ''t1'' demo_world = Some demo_task" "task_row ''t2'' demo_world = Some demo_pending"
  "task_row ''t3'' demo_world = Some demo_waiting"
  by (simp_all add: task_row_def demo_world_def demo_rows)

lemma demo_step_row:
  "step_row ''s1'' demo_world = Some demo_tool_step" "step_row ''s3'' demo_world = Some demo_waiting_step"
  by (simp_all add: step_row_def demo_world_def demo_rows)

text \<open>What evaluating an operation on the sample store unfolds.\<close>

lemmas run_defs = monad_defs sql_defs transaction_def atomic_def statement_def Let_def update_where_def
  count_where_def demo_world_def demo_rows

lemma demo_trim [simp]:
  "trim_space ''alice'' = ''alice''" "trim_space ''bob'' = ''bob''" "trim_space ''t1'' = ''t1''"
  "trim_space ''t2'' = ''t2''" "trim_space ''t3'' = ''t3''" "trim_space ''s1'' = ''s1''"
  "trim_space ''s3'' = ''s3''" "trim_space ''w1'' = ''w1''" "trim_space ''w2'' = ''w2''"
  "trim_space ''ee'' = ''ee''" "trim_space ''EE'' = ''EE''" "trim_space ''approved'' = ''approved''"
  by (simp_all add: trim_graphic graphic_def byte_of_def)

lemma demo_lower_chars [simp]: "char_of (97 :: nat) = CHR ''a''" "char_of (101 :: nat) = CHR ''e''"
  by code_simp+

lemma demo_to_lower [simp]: "to_lower ''Approved'' = ''approved''" "to_lower ''approved'' = ''approved''"
  "to_lower ''EE'' = ''ee''" "to_lower ''ee'' = ''ee''"
  by (simp_all add: to_lower_def to_lower_char_def byte_of_def Let_def)

end
