(* ===== verification/AgentRefinement.thy ===== *)
theory AgentRefinement
  imports AgentSteps
begin

text \<open>
  The refinement proof: each operation of the store, as the code writes it, changes the tables by
  the row writes \<open>AgentSteps\<close> allows it, keeps the unique keys, and never drops a task row.
\<close>

section \<open>\<open>evolves op\<close> is a preorder on tables\<close>

lemma rows_tables: "tables w = tables w' \<Longrightarrow> task_row i w = task_row i w' \<and> step_row j w = step_row j w' \<and>
    wf_tables w = wf_tables w'"
  by (simp add: tables_def task_row_def step_row_def wf_tables_def)

lemma tasks_evolve_refl: "tables w = tables w' \<Longrightarrow> tasks_evolve op w w'"
  by (auto simp: tasks_evolve_def task_row_def tables_def)

lemma steps_evolve_refl: "d_steps w = d_steps w' \<Longrightarrow> steps_evolve op w w'"
  by (auto simp: steps_evolve_def steps_from_def steps_kept_def step_row_def)

lemma tasks_evolve_trans: "tasks_evolve op w v \<Longrightarrow> tasks_evolve op v u \<Longrightarrow> tasks_evolve op w u"
  unfolding tasks_evolve_def by (meson rtranclp_trans)

lemma steps_evolve_trans: "steps_evolve op w v \<Longrightarrow> steps_evolve op v u \<Longrightarrow> steps_evolve op w u"
  unfolding steps_evolve_def steps_from_def steps_kept_def by (meson rtranclp_trans)

interpretation ev: table_preorder "evolves op" for op
proof
  show "evolves op s s" for s :: "'z world_scheme"
    by (simp add: evolves_def tasks_evolve_refl steps_evolve_refl)
  show "evolves op s u" if "evolves op s t" "evolves op t u" for s t u :: "'z world_scheme"
    using that tasks_evolve_trans steps_evolve_trans unfolding evolves_def by blast
  show "evolves op s t" if "tables s = tables t" for s t :: "'z world_scheme"
    using that rows_tables [OF that]
    by (auto simp: evolves_def tables_def intro: tasks_evolve_refl steps_evolve_refl)
qed

section \<open>Single row changes\<close>

lemma evolves_update_tasks:
  assumes "\<And>t. P t \<Longrightarrow> task_write op t (f t)" and "\<And>t. t_id (f t) = t_id t"
  shows "evolves op w (w\<lparr>d_tasks := update_where P f (d_tasks w)\<rparr>)"
proof -
  have "task_row i (w\<lparr>d_tasks := update_where P f (d_tasks w)\<rparr>) =
      map_option (\<lambda>t. if P t then f t else t) (task_row i w)" for i
    by (simp add: task_row_def find_update_where assms(2))
  moreover have "(task_write op)\<^sup>*\<^sup>* t (if P t then f t else t)" for t
    using assms(1) by auto
  ultimately show ?thesis
    by (auto simp: evolves_def wf_tables_def map_update_where assms(2) tasks_evolve_def
        intro!: steps_evolve_refl)
qed

lemma evolves_update_steps:
  assumes "\<And>s. P s \<Longrightarrow> step_write op s (f s)"
    and "\<And>s. s_id (f s) = s_id s" "\<And>s. s_task (f s) = s_task s" "\<And>s. s_seq (f s) = s_seq s"
  shows "evolves op w (w\<lparr>d_steps := update_where P f (d_steps w)\<rparr>)"
proof -
  have "step_row j (w\<lparr>d_steps := update_where P f (d_steps w)\<rparr>) =
      map_option (\<lambda>s. if P s then f s else s) (step_row j w)" for j
    by (simp add: step_row_def find_update_where assms(2))
  moreover have "(step_write op)\<^sup>*\<^sup>* s (if P s then f s else s)" for s
    using assms(1) by auto
  ultimately have "steps_evolve op w (w\<lparr>d_steps := update_where P f (d_steps w)\<rparr>)"
    unfolding steps_evolve_def steps_from_def steps_kept_def by (simp only: map_option_eq_Some) blast
  then show ?thesis
    by (auto simp: evolves_def wf_tables_def map_update_where assms(2-) step_key_def tasks_evolve_def
        task_row_def)
qed

lemma distinct_map_filter_key: "distinct (map k xs) \<Longrightarrow> distinct (map k (filter P xs))"
  by (rule distinct_map_filter)

lemma find_filter_key:
  "distinct (map k xs) \<Longrightarrow> find (\<lambda>x. k x = i) (filter P xs) = Some y \<Longrightarrow> find (\<lambda>x. k x = i) xs = Some y"
  by (drule find_SomeD) (auto dest: find_key_unique)

lemma evolves_delete_steps: "replaces_plan op \<Longrightarrow> evolves op w (w\<lparr>d_steps := filter (Not \<circ> P) (d_steps w)\<rparr>)"
  by (auto simp: evolves_def wf_tables_def distinct_map_filter_key tasks_evolve_def task_row_def
      steps_evolve_def steps_from_def steps_kept_def step_row_def dest: find_filter_key)

lemma evolves_insert_task:
  "t_id t \<notin> t_id ` set (d_tasks w) \<Longrightarrow> evolves op w (w\<lparr>d_tasks := d_tasks w @ [t]\<rparr>)"
  by (auto simp: evolves_def wf_tables_def tasks_evolve_def task_row_def find_append intro!: steps_evolve_refl)

lemma evolves_insert_steps:
  assumes "\<forall>s \<in> set ss. fresh_step s" and "insertable (d_steps w) ss"
  shows "evolves op w (w\<lparr>d_steps := d_steps w @ ss\<rparr>)"
proof -
  have "step_row j w = Some s \<or> fresh_step s"
    if "step_row j (w\<lparr>d_steps := d_steps w @ ss\<rparr>) = Some s" for j s
    using that assms(1) by (auto simp: step_row_def find_append split: option.splits dest: find_SomeD)
  then have "steps_from op w (w\<lparr>d_steps := d_steps w @ ss\<rparr>)" by (auto simp: steps_from_def)
  moreover have "steps_kept op w (w\<lparr>d_steps := d_steps w @ ss\<rparr>)"
    by (auto simp: steps_kept_def step_row_def find_append)
  ultimately show ?thesis using assms(2)
    by (auto simp: evolves_def wf_tables_def insertable_def tasks_evolve_def task_row_def steps_evolve_def)
qed

lemmas evolves_rows = evolves_update_tasks evolves_update_steps evolves_delete_steps
  evolves_insert_task evolves_insert_steps

section \<open>The operations\<close>

lemma evolve_create: "keeps (evolves (OpCreate t s)) (create_task_with_initial_step t s)"
  unfolding create_task_with_initial_step_def Let_def
  by (intro ev.keeps_intros ev.keeps_reads ev.keeps_transaction ev.keeps_insert_task ev.keeps_insert_steps)
   (auto intro!: evolves_insert_task evolves_insert_steps simp: fresh_step_def stamp_step_def initial_plan_step_def)

lemma evolve_claim: "keeps (evolves (OpClaim i wk l)) (claim_task i wk l)"
  unfolding claim_task_def
  by (intro ev.keeps_intros ev.keeps_reads ev.keeps_update_tasks evolves_update_tasks)
   (auto intro: task_write.claimed)

lemma evolve_renew: "keeps (evolves (OpRenew i v wk l)) (renew_lease_fenced i v wk l)"
  unfolding renew_lease_fenced_def
  by (intro ev.keeps_intros ev.keeps_reads ev.keeps_update_tasks evolves_update_tasks)
   (auto intro: task_write.renewed)

lemma fresh_normalized: "fresh_step (normalize_plan_step task n s)"
  by (simp add: fresh_step_def normalize_plan_step_def)

lemma normalize_plan_steps_fresh:
  "normalize_plan_steps task n ss w = (Inr rs, w') \<Longrightarrow> \<forall>s \<in> set rs. fresh_step s"
  by (induction ss arbitrary: n rs w w') (auto elim!: bindE_InrE simp: fresh_normalized)

lemma fresh_stamp: "fresh_step (stamp_step now s) = fresh_step s"
  by (simp add: fresh_step_def stamp_step_def)

lemma evolve_save_plan: "keeps (evolves (OpSavePlan c i v sm ss)) (save_plan c i v sm ss)"
  unfolding save_plan_def
  apply (intro ev.keeps_intros(1-4,6-) ev.keeps_bindE_result ev.keeps_reads ev.keeps_transaction
      ev.keeps_delete_steps evolves_delete_steps ev.keeps_update_steps evolves_update_steps
      ev.keeps_update_tasks evolves_update_tasks ev.keeps_insert_steps evolves_insert_steps)
  apply (auto intro: step_write.plan_completed task_write.planned simp: fresh_stamp dest: normalize_plan_steps_fresh)
  done

lemma evolve_create_steps: "keeps (evolves (OpCreateSteps i v ss)) (create_steps_fenced i v ss)"
  unfolding create_steps_fenced_def
  by (intro ev.keeps_intros(1-4,6-) ev.keeps_bindE_result ev.keeps_reads ev.keeps_transaction
      ev.keeps_insert_steps evolves_insert_steps)
   (auto simp: fresh_stamp dest: normalize_plan_steps_fresh)

lemma evolve_update_task: "keeps (evolves (OpUpdateTask c i v us)) (update_task_fenced c i v us)"
  unfolding update_task_fenced_def Let_def safe_task_write_def [symmetric]
  by (intro ev.keeps_intros ev.keeps_reads ev.keeps_update_tasks evolves_update_tasks)
   (auto intro: task_write.updated)

lemma evolve_update_step: "keeps (evolves (OpUpdateStep c i j v us)) (update_step_fenced c i j v us)"
  unfolding update_step_fenced_def Let_def safe_step_write_def [symmetric]
  by (intro ev.keeps_intros ev.keeps_reads ev.keeps_transaction ev.keeps_update_steps evolves_update_steps)
   (auto intro: step_write.updated)

lemma evolve_mark_unknown: "keeps (evolves (OpMarkUnknown c i j v m)) (mark_execution_unknown_fenced c i j v m)"
  unfolding mark_execution_unknown_fenced_def Let_def
  by (intro ev.keeps_intros(1-4,6-) ev.keeps_bindE_result ev.keeps_reads ev.keeps_transaction
      ev.keeps_update_steps evolves_update_steps ev.keeps_update_tasks evolves_update_tasks)
   (auto intro: step_write.unknown task_write.paused dest!: first_task_or_conflict_sat)

lemma evolve_mark_policy: "keeps (evolves (OpMarkPolicy c i j v m p)) (mark_policy_review_fenced c i j v m p)"
  unfolding mark_policy_review_fenced_def Let_def
  by (intro ev.keeps_intros(1-4,6-) ev.keeps_bindE_result ev.keeps_reads ev.keeps_transaction
      ev.keeps_update_steps evolves_update_steps ev.keeps_update_tasks evolves_update_tasks)
   (auto intro: step_write.reviewed task_write.reviewed dest!: first_task_or_conflict_sat)

lemma evolve_update_owned: "keeps (evolves (OpUpdateOwned u i us)) (update_owned_task u i us)"
  unfolding update_owned_task_def Let_def safe_task_write_def [symmetric]
  by (intro ev.keeps_intros ev.keeps_reads ev.keeps_update_tasks evolves_update_tasks)
   (auto intro: task_write.owned)

lemma evolve_decide: "keeps (evolves (OpDecide u i j d r dg)) (update_owned_step_decision u i j d r dg)"
proof (cases "parse_decision (trim_space (to_lower d))")
  case None
  then show ?thesis unfolding update_owned_step_decision_def Let_def
    by (simp, intro ev.keeps_intros ev.keeps_reads)
next
  case (Some dd)
  then show ?thesis unfolding update_owned_step_decision_def Let_def
    by (simp, intro ev.keeps_intros(1-4,6-) ev.keeps_bindE_result ev.keeps_reads ev.keeps_transaction
        ev.keeps_update_steps evolves_update_steps ev.keeps_update_tasks evolves_update_tasks)
     (auto intro: step_write.decided task_write.decided)
qed

lemma evolve_resume: "keeps (evolves (OpResume u i b)) (resume_owned_task u i b)"
  unfolding resume_owned_task_def Let_def
  by (intro ev.keeps_intros(1-4,6-) ev.keeps_bindE_result ev.keeps_reads ev.keeps_transaction
      ev.keeps_update_steps evolves_update_steps ev.keeps_update_tasks evolves_update_tasks)
   (auto intro: step_write.resumed task_write.resumed)

lemma evolve_set_checkpoint: "keeps (evolves (OpSetCheckpoint c i cp)) (set_checkpoint c i cp)"
  unfolding set_checkpoint_def Let_def
  by (intro ev.keeps_intros ev.keeps_reads ev.keeps_update_tasks evolves_update_tasks)
   (auto intro!: task_write.checkpointed simp del: One_nat_def)

section \<open>Cancellation and recovery: loops over the selected rows\<close>

text \<open>
  Both transitions select step rows, then update them one by one by identifier, deciding on the
  selected copy. Identifiers are unique, so the copy and the row agree.
\<close>

lemma evolves_bind:
  assumes "evolves op w (snd (m w))" and "\<And>x. keeps (evolves op) (f x)"
  shows "evolves op w (snd (bindE m f w))"
proof -
  obtain r t where b: "bindE m f w = (r, t)" by fastforce
  from b show ?thesis
    by (cases rule: bindE_cases) (use assms b in \<open>auto dest: keepsD intro: ev.R_trans\<close>)
qed

lemma keeps_select_then:
  assumes "\<And>w. wf_tables w \<Longrightarrow> evolves op w (snd (f (q (d_steps w)) w))"
  shows "keeps (evolves op) (bindE (select_steps q) f)"
proof (rule keepsI)
  fix w r t assume "bindE (select_steps q) f w = (r, t)"
  then show "evolves op w t"
  proof (cases rule: bindE_cases)
    case (first_fails e)
    then show ?thesis using keepsD [OF ev.keeps_select_steps] by blast
  next
    case (both x u)
    then have u: "evolves op w u" "x = q (d_steps u)"
      by (auto dest!: select_steps_Inr simp: tables_def intro!: ev.R_tables)
    have "evolves op u t"
      using assms [of u] both(2) u(2) by (cases "wf_tables u") (auto simp: evolves_def)
    with u(1) show ?thesis by (rule ev.R_trans)
  qed
qed

lemma same_row: "wf_tables w \<Longrightarrow> s \<in> set (d_steps w) \<Longrightarrow> s' \<in> set (d_steps w) \<Longrightarrow> s_id s = s_id s' \<Longrightarrow> s = s'"
  by (auto simp: wf_tables_def inj_on_def distinct_map)

text \<open>Updating the row of a selected copy by identifier, with the copy's data.\<close>

lemma evolves_update_copy:
  assumes wf: "wf_tables w" and inw: "step \<in> set (d_steps w)"
    and P: "\<And>s. P s \<Longrightarrow> s_id s = s_id step"
    and wr: "P step \<Longrightarrow> step_write op step (f step)"
    and ids: "\<And>s. s_id (f s) = s_id s" "\<And>s. s_task (f s) = s_task s" "\<And>s. s_seq (f s) = s_seq s"
    and upd: "update_steps P f w = (r, w')"
  shows "evolves op w w' \<and> wf_tables w' \<and> (\<forall>s \<in> set (d_steps w). s_id s \<noteq> s_id step \<longrightarrow> s \<in> set (d_steps w'))"
  using upd unfolding update_steps_def
proof (cases rule: statement_cases)
  case (fault e fs)
  then show ?thesis using wf by (simp add: ev.R_tables) (simp add: wf_tables_def)
next
  case (runs fs)
  let ?Q = "\<lambda>s. P s \<and> s = step"
  have eq: "update_where P f (d_steps w) = update_where ?Q f (d_steps w)"
    unfolding update_where_def using same_row [OF wf _ inw P] by (intro map_cong refl) metis
  have "evolves op w (w\<lparr>d_steps := update_where ?Q f (d_steps w)\<rparr>)"
    using wr ids by (intro evolves_update_steps) auto
  then have ev: "evolves op w (w\<lparr>d_steps := update_where P f (d_steps w)\<rparr>)" by (simp only: eq)
  have same: "tables w' = tables (w\<lparr>d_steps := update_where P f (d_steps w)\<rparr>)"
    using runs by (auto simp: tables_def)
  have e: "evolves op w w'"
    using ev ev.R_tables [OF same [symmetric]] by (rule ev.R_trans)
  have "s \<in> set (d_steps w')" if "s \<in> set (d_steps w)" "s_id s \<noteq> s_id step" for s
  proof -
    have "\<not> P s" using that(2) P by blast
    then have "s \<in> set (update_where P f (d_steps w))" using that(1) by (auto simp: set_update_where)
    then show ?thesis using same by (simp add: tables_def)
  qed
  with e wf show ?thesis by (auto simp: evolves_def)
qed

text \<open>The copies still to be visited are rows of the table with distinct identifiers.\<close>

definition pending_copies :: "agent_step list \<Rightarrow> 'z world_scheme \<Rightarrow> bool" where
  "pending_copies steps w \<longleftrightarrow> wf_tables w \<and> distinct (map s_id steps) \<and> set steps \<subseteq> set (d_steps w)"

lemma pending_copies_select:
  "wf_tables w \<Longrightarrow> pending_copies (filter P (d_steps w)) w"
  by (auto simp: pending_copies_def wf_tables_def distinct_map_filter)

lemma pending_copies_sorted:
  "pending_copies xs w \<Longrightarrow> pending_copies (sort_key (k :: agent_step \<Rightarrow> 'k::linorder) xs) w"
  by (simp add: pending_copies_def distinct_map)

lemma evolves_visit_copy:
  assumes "pending_copies (step # steps) w"
    and "\<And>s. P s \<Longrightarrow> s_id s = s_id step" and "P step \<Longrightarrow> step_write op step (f step)"
    and "\<And>s. s_id (f s) = s_id s" "\<And>s. s_task (f s) = s_task s" "\<And>s. s_seq (f s) = s_seq s"
    and "\<And>x w'. pending_copies steps w' \<Longrightarrow> evolves op w' (snd (g x w'))"
  shows "evolves op w (snd (bindE (update_steps P f) g w))"
proof -
  obtain r t where b: "bindE (update_steps P f) g w = (r, t)" by fastforce
  have pre: "wf_tables w" "step \<in> set (d_steps w)" using assms(1) by (auto simp: pending_copies_def)
  from b show ?thesis
  proof (cases rule: bindE_cases)
    case (first_fails e)
    then show ?thesis using evolves_update_copy [OF pre assms(2-6)] b by simp
  next
    case (both x u)
    then have u: "evolves op w u" "wf_tables u"
        "\<forall>s \<in> set (d_steps w). s_id s \<noteq> s_id step \<longrightarrow> s \<in> set (d_steps u)"
      using evolves_update_copy [OF pre assms(2-6)] by blast+
    then have "pending_copies steps u"
      using assms(1) by (auto simp: pending_copies_def) (metis image_eqI subsetD)
    then have "evolves op u t" using assms(7) [of u x] both(2) by simp
    with u(1) b show ?thesis by (auto intro: ev.R_trans)
  qed
qed

lemma evolves_cancel_steps:
  assumes "pending_copies steps w" and "\<forall>s \<in> set steps. s_task s = i \<and> s_user s = trim_space u \<and> step_active (s_status s)"
  shows "evolves (OpCancel u i) w (snd (cancel_steps (trim_space u) i now steps w))"
  using assms
proof (induction steps arbitrary: w)
  case Nil
  then show ?case by (simp add: ret_def ev.R_refl)
next
  case (Cons step steps)
  show ?case unfolding cancel_steps.simps
  proof (rule evolves_visit_copy [OF Cons.prems(1)])
    show "step_write (OpCancel u i) step (cancelled_step now step step)"
      using Cons.prems(2) by (auto intro: step_write.cancelled)
    show "evolves (OpCancel u i) w' (snd (bindE (cancel_steps (trim_space u) i now steps)
        (\<lambda>uncertain. ret (step_uncertain step \<or> uncertain)) w'))"
      if "pending_copies steps w'" for w' :: "'a world_scheme"
      using Cons.prems(2) that by (intro evolves_bind Cons.IH ev.keeps_ret) auto
  qed auto
qed

lemma evolve_cancel_active:
  assumes "t_status task \<notin> {TaskCancelled, TaskSucceeded, TaskRejected}"
  shows "keeps (evolves (OpCancel u i)) (cancel_active_steps (trim_space u) i now task)"
  unfolding cancel_active_steps_def
  by (intro keeps_select_then evolves_bind evolves_cancel_steps pending_copies_select
      ev.keeps_bindE ev.keeps_update_tasks evolves_update_tasks ev.keeps_guardE)
    (use assms in \<open>auto intro: task_write.cancelled\<close>)

lemma evolve_cancel: "keeps (evolves (OpCancel u i)) (cancel_owned_task u i)"
proof -
  have "keeps (evolves (OpCancel u i))
      (if t_status task = TaskCancelled then ret ()
       else if t_status task = TaskSucceeded \<or> t_status task = TaskRejected then fail Conflict
       else cancel_active_steps (trim_space u) i now task)" for task now
    by (auto intro: ev.keeps_ret ev.keeps_fail evolve_cancel_active)
  then show ?thesis
    unfolding cancel_owned_task_def Let_def
    by (intro ev.keeps_bindE ev.keeps_database ev.keeps_guardE ev.keeps_current_time
        ev.keeps_transaction ev.keeps_first_task)
qed

lemma evolves_recover_steps:
  assumes "pending_copies steps w" and "\<forall>s \<in> set steps. s_status s = StepRunning"
  shows "evolves (OpRecover b) w (snd (recover_steps i now steps cur unsafe w))"
  using assms
proof (induction steps arbitrary: w cur unsafe)
  case Nil
  then show ?case by (simp add: ret_def ev.R_refl)
next
  case (Cons step steps)
  have run: "s_status step = StepRunning" using Cons.prems(2) by simp
  show ?case
  proof (cases "step_can_replay_after_crash step")
    case True
    have "step_write (OpRecover b) step (resumed_step now step)" using run True by (rule step_write.replayed)
    then show ?thesis using True Cons.prems(2) unfolding recover_steps.simps Let_def
      by (simp only: if_True) (rule evolves_visit_copy [OF Cons.prems(1)]; auto intro: Cons.IH)
  next
    case False
    have "step_write (OpRecover b) step (interrupted_step now step)" using run False by (rule step_write.interrupted)
    then show ?thesis using False Cons.prems(2) unfolding recover_steps.simps Let_def
      by (simp only: if_False) (rule evolves_visit_copy [OF Cons.prems(1)]; auto intro: Cons.IH)
  qed
qed

lemma evolve_recover_locked_task:
  assumes "stale_recoverable (t_status task)"
  shows "keeps (evolves (OpRecover b)) (recover_locked_task task now)"
  unfolding recover_locked_task_def
  by (intro keeps_select_then evolves_bind evolves_recover_steps pending_copies_sorted pending_copies_select
      ev.keeps_prod ev.keeps_bindE ev.keeps_update_tasks evolves_update_tasks ev.keeps_guardE)
    (use assms in \<open>auto intro: task_write.recovered\<close>)

lemma evolve_recover_candidate: "keeps (evolves (OpRecover b)) (recover_candidate now before i)"
proof -
  have "keeps (evolves (OpRecover b)) (case r of
       Inl e \<Rightarrow> if e = RecordNotFound then ret False else fail e
     | Inr task \<Rightarrow> bindE (recover_locked_task task now) (\<lambda>_. ret True))"
    if "tryE (first_task (\<lambda>t. stale_task now before t \<and> t_id t = i)) s = (Inr r, t)"
    for r and s t :: "'a world_scheme"
    using that
    by (intro ev.keeps_sum ev.keeps_if ev.keeps_ret ev.keeps_fail ev.keeps_bindE evolve_recover_locked_task)
      (auto simp: tryE_def stale_task_def split: prod.splits sum.splits dest!: first_task_sat)
  then show ?thesis
    unfolding recover_candidate_def
    by (intro ev.keeps_transaction ev.keeps_bindE_result ev.keeps_tryE ev.keeps_first_task)
qed

lemma evolve_recover_candidates: "keeps (evolves (OpRecover b)) (recover_candidates now before ids n fe)"
proof (induction ids arbitrary: n fe)
  case Nil
  then show ?case by (simp add: ev.keeps_ret)
next
  case (Cons i ids)
  then show ?case unfolding recover_candidates.simps
    by (intro ev.keeps_bindE ev.keeps_ctx_err ev.keeps_if ev.keeps_fail ev.keeps_tryE ev.keeps_sum
        evolve_recover_candidate)
qed

lemma evolve_recover_rounds: "keeps (evolves (OpRecover b)) (recover_rounds n now before fe)"
proof (induction n arbitrary: fe)
  case 0
  then show ?case by (simp add: ev.keeps_first_error)
next
  case (Suc n)
  then show ?case unfolding recover_rounds.simps
    by (intro ev.keeps_bindE ev.keeps_tryE ev.keeps_select_tasks ev.keeps_sum ev.keeps_first_error
        ev.keeps_if ev.keeps_prod evolve_recover_candidates)
qed

lemma evolve_recover: "keeps (evolves (OpRecover b)) (recover_stale_tasks b)"
  unfolding recover_stale_tasks_def
  by (intro ev.keeps_intros ev.keeps_reads evolve_recover_rounds)

section \<open>The refinement theorem\<close>

lemmas evolve_ops = evolve_create evolve_claim evolve_renew evolve_save_plan evolve_create_steps
  evolve_update_task evolve_update_step evolve_mark_unknown evolve_mark_policy evolve_update_owned
  evolve_decide evolve_resume evolve_cancel evolve_recover evolve_set_checkpoint

lemma exec_op_evolves: "evolves op w (exec_op op w)"
proof (cases op)
  case (OpEnvironment dt fs ps)
  then show ?thesis by (simp add: ev.R_tables tables_def)
qed (simp_all add: evolve_ops [unfolded keeps_def, rule_format])

end
