(* ===== verification/AgentSafety.thy ===== *)
theory AgentSafety
  imports AgentRefinement AgentExamples
begin

text \<open>
  What the Agent store guarantees its users, from the refinement theorem: fencing tokens, claims,
  approvals, replay safety, isolation between users.
\<close>

section \<open>Runs of operations\<close>

lemma run_ops_Nil [simp]: "run_ops [] w = w"
  and run_ops_Cons [simp]: "run_ops (op # ops) w = run_ops ops (exec_op op w)"
  by (simp_all add: run_ops_def)

lemma run_ops_append: "run_ops (xs @ ys) w = run_ops ys (run_ops xs w)"
  by (simp add: run_ops_def)

lemma exec_op_wf: "wf_tables w \<Longrightarrow> wf_tables (exec_op op w)"
  using exec_op_evolves [of op w] by (simp add: evolves_def)

lemma run_ops_wf: "wf_tables w \<Longrightarrow> wf_tables (run_ops ops w)"
  by (induction ops arbitrary: w) (simp_all add: exec_op_wf)

lemma exec_op_task_row:
  assumes "wf_tables w" and "task_row i w = Some t"
  obtains t' where "task_row i (exec_op op w) = Some t'" and "(task_write op)\<^sup>*\<^sup>* t t'"
  using exec_op_evolves [of op w] assms by (auto simp: evolves_def tasks_evolve_def)

lemma exec_op_step_row:
  assumes "wf_tables w" and "step_row j (exec_op op w) = Some s'"
  obtains (old) s where "step_row j w = Some s" and "(step_write op)\<^sup>*\<^sup>* s s'"
    | (new) s where "fresh_step s" and "(step_write op)\<^sup>*\<^sup>* s s'"
  using exec_op_evolves [of op w] assms(1) old new
  unfolding evolves_def steps_evolve_def steps_from_def using assms(2) by blast

lemma exec_op_step_kept:
  assumes "wf_tables w" and "\<not> replaces_plan op" and "step_row j w = Some s"
  obtains s' where "step_row j (exec_op op w) = Some s'" and "(step_write op)\<^sup>*\<^sup>* s s'"
  using exec_op_evolves [of op w] assms unfolding evolves_def steps_evolve_def steps_kept_def by blast

text \<open>
  A relation on task rows that every row write respects holds between the rows of a run: the
  interface between the row automaton and the properties of runs.
\<close>

locale task_order =
  fixes Q :: "agent_task \<Rightarrow> agent_task \<Rightarrow> bool" and allowed :: "store_op \<Rightarrow> bool"
  assumes Q_refl: "Q t t"
    and Q_trans: "Q t u \<Longrightarrow> Q u v \<Longrightarrow> Q t v"
    and Q_write: "allowed op \<Longrightarrow> task_write op t u \<Longrightarrow> Q t u"
begin

lemma Q_writes:
  assumes "(task_write op)\<^sup>*\<^sup>* t u" and "allowed op"
  shows "Q t u"
  using assms(1)
proof induction
  case base
  show ?case by (rule Q_refl)
next
  case (step u v)
  then show ?case using Q_write [OF assms(2)] by (blast intro: Q_trans)
qed

lemma exec_Q:
  assumes "wf_tables w" "allowed op" "task_row i w = Some t"
  shows "\<exists>t'. task_row i (exec_op op w) = Some t' \<and> Q t t'"
  using assms by (meson exec_op_task_row Q_writes)

lemma run_Q:
  assumes "wf_tables w" "\<forall>op \<in> set ops. allowed op" "task_row i w = Some t"
  shows "\<exists>t'. task_row i (run_ops ops w) = Some t' \<and> Q t t'"
  using assms
proof (induction ops arbitrary: w t)
  case Nil
  then show ?case by (auto intro: Q_refl)
next
  case (Cons op ops)
  then obtain t1 where "task_row i (exec_op op w) = Some t1" "Q t t1"
    using exec_Q by (metis list.set_intros(1))
  moreover have "wf_tables (exec_op op w)" using Cons.prems(1) by (rule exec_op_wf)
  ultimately obtain t2 where "task_row i (run_ops ops (exec_op op w)) = Some t2" "Q t1 t2"
    using Cons.IH Cons.prems(2) by (meson list.set_intros(2))
  with \<open>Q t t1\<close> show ?case by (auto intro: Q_trans)
qed

end

section \<open>Run versions never go back\<close>

definition version_grows :: "agent_task \<Rightarrow> agent_task \<Rightarrow> bool" where
  "version_grows t t' \<longleftrightarrow> t_id t' = t_id t \<and> t_user t' = t_user t \<and>
     t_run_version t \<le> t_run_version t' \<and> t_checkpoint_version t \<le> t_checkpoint_version t'"

lemma version_grows_trans: "version_grows t u \<Longrightarrow> version_grows u v \<Longrightarrow> version_grows t v"
  by (auto simp: version_grows_def)

lemma task_write_version: "task_write op t t' \<Longrightarrow> version_grows t t'"
  by (induction rule: task_write.induct)
    (auto simp: version_grows_def claimed_task_def paused_task_def decided_task_def requeued_task_def
      cancelled_task_def recovered_task_def)

interpretation versions: task_order version_grows "\<lambda>_. True"
  by unfold_locales (auto simp: version_grows_def dest: task_write_version [unfolded version_grows_def])

text \<open>whatever operations run on the store, in whatever order and with whatever faults, a
  task row is never lost, never changes its owner, and its run version and checkpoint version
  never decrease.\<close>

lemma run_version_monotone:
  assumes "wf_tables w" and "task_row i w = Some t"
  shows "\<exists>t'. task_row i (run_ops ops w) = Some t' \<and> t_user t' = t_user t \<and>
    t_run_version t \<le> t_run_version t' \<and> t_checkpoint_version t \<le> t_checkpoint_version t'"
  using versions.run_Q [OF assms(1) _ assms(2)] by (auto simp: version_grows_def)

section \<open>Fencing\<close>

text \<open>The task and run version an operation is fenced by.\<close>

fun fence_of :: "store_op \<Rightarrow> (string \<times> nat) option" where
  "fence_of (OpRenew i v wk l) = Some (i, v)"
| "fence_of (OpSavePlan c i v sm ss) = Some (i, v)"
| "fence_of (OpCreateSteps i v ss) = Some (i, v)"
| "fence_of (OpUpdateTask c i v us) = Some (i, v)"
| "fence_of (OpUpdateStep c i j v us) = Some (i, v)"
| "fence_of (OpMarkUnknown c i j v m) = Some (i, v)"
| "fence_of (OpMarkPolicy c i j v m p) = Some (i, v)"
| "fence_of (OpSetCheckpoint c i cp) = map_option (\<lambda>(_, v). (i, v)) (fencing_token_from_context c)"
| "fence_of _ = None"

lemma run_version_monotone_witness:
  "\<exists>t'. task_row ''t1'' (run_ops [OpCancel ''alice'' ''t1''] demo_world) = Some t' \<and> t_user t' = ''alice'' \<and>
    2 \<le> t_run_version t' \<and> 0 \<le> t_checkpoint_version t'"
  using run_version_monotone [OF demo_wf demo_task_row(1), of "[OpCancel ''alice'' ''t1'']"]
  by (simp add: demo_task_def zero_task_def)

end
