(* ===== verification/AgentFencing.thy ===== *)
theory AgentFencing
  imports AgentSafety AgentExamples
begin

text \<open>
  Operations that are refused: a token the task has outlived, or a lease that has run out, gets
  an error from every fenced operation and leaves both tables as they are; and an operation
  that returns an error has changed no row.
\<close>

section \<open>Refused calls\<close>

type_synonym snapshot = "agent_task list \<times> agent_step list \<times> time"

definition snapshot :: "'z world_scheme \<Rightarrow> snapshot" where
  "snapshot w = (d_tasks w, d_steps w, d_clock w)"

text \<open>From every world with these tables the call leaves them, or fails and leaves them.\<close>

definition still :: "snapshot \<Rightarrow> ('z, 'a) db_call \<Rightarrow> bool" where
  "still T m \<longleftrightarrow> (\<forall>w r w'. snapshot w = T \<longrightarrow> m w = (r, w') \<longrightarrow> snapshot w' = T)"

definition rejects :: "snapshot \<Rightarrow> ('z, 'a) db_call \<Rightarrow> bool" where
  "rejects T m \<longleftrightarrow> (\<forall>w r w'. snapshot w = T \<longrightarrow> m w = (r, w') \<longrightarrow> isl r \<and> snapshot w' = T)"

lemma snapshot_upd [simp]:
  "snapshot (w\<lparr>d_faults := fs\<rparr>) = snapshot w" "snapshot (w\<lparr>d_polls := ps\<rparr>) = snapshot w"
  "snapshot (w\<lparr>d_uuid_next := n\<rparr>) = snapshot w"
  by (simp_all add: snapshot_def)

lemma stillI: "(\<And>w r w'. m w = (r, w') \<Longrightarrow> snapshot w = T \<Longrightarrow> snapshot w' = T) \<Longrightarrow> still T m"
  unfolding still_def by blast

lemma stillD: "still T m \<Longrightarrow> m w = (r, w') \<Longrightarrow> snapshot w = T \<Longrightarrow> snapshot w' = T"
  unfolding still_def by blast

lemma rejectsI: "(\<And>w r w'. m w = (r, w') \<Longrightarrow> snapshot w = T \<Longrightarrow> isl r \<and> snapshot w' = T) \<Longrightarrow> rejects T m"
  unfolding rejects_def by blast

lemma rejectsD: "rejects T m \<Longrightarrow> m w = (r, w') \<Longrightarrow> snapshot w = T \<Longrightarrow> isl r \<and> snapshot w' = T"
  unfolding rejects_def by blast

lemma still_ret: "still T (ret x)"
  by (rule stillI) (simp add: ret_def)

lemma still_fail: "still T (fail e)"
  by (rule stillI) (simp add: fail_def)

lemma still_gets: "still T (gets f)"
  by (rule stillI) (simp add: gets_def)

lemma still_guardE: "still T (guardE b e)"
  by (simp add: guardE_def still_ret still_fail)

lemma still_bindE:
  assumes "still T m" and "\<And>x. still T (f x)"
  shows "still T (bindE m f)"
proof (rule stillI)
  fix w r w' assume "bindE m f w = (r, w')" and s: "snapshot w = T"
  then show "snapshot w' = T"
    by (cases rule: bindE_cases) (use stillD [OF assms(1)] stillD [OF assms(2)] s in blast)+
qed

lemma still_statement:
  assumes "still T m"
  shows "still T (statement m)"
proof (rule stillI)
  fix w r w' assume "statement m w = (r, w')" and s: "snapshot w = T"
  then show "snapshot w' = T"
  proof (cases rule: statement_cases)
    case (fault e fs)
    with s show ?thesis by simp
  next
    case (runs fs)
    with stillD [OF assms this] s show ?thesis by simp
  qed
qed

lemma still_database: "still T database"
  unfolding database_def by (intro still_bindE still_gets still_guardE)

lemma still_check_task_updates: "still T (check_task_updates us)"
  unfolding check_task_updates_def by (rule still_guardE)

lemma rejects_fail: "rejects T (fail e)"
  by (rule rejectsI) (auto simp: fail_def)

lemma rejects_bindE:
  assumes "still T m" and "\<And>x. rejects T (f x)"
  shows "rejects T (bindE m f)"
proof (rule rejectsI)
  fix w r w' assume "bindE m f w = (r, w')" and s: "snapshot w = T"
  then show "isl r \<and> snapshot w' = T"
    by (cases rule: bindE_cases) (use stillD [OF assms(1)] rejectsD [OF assms(2)] in force)+
qed

lemma rejects_bindE_first:
  assumes "rejects T m"
  shows "rejects T (bindE m f)"
proof (rule rejectsI)
  fix w r w' assume "bindE m f w = (r, w')" and s: "snapshot w = T"
  then show "isl r \<and> snapshot w' = T"
    by (cases rule: bindE_cases) (use rejectsD [OF assms] in force)+
qed

lemma rejects_guardE: "(b \<Longrightarrow> rejects T m) \<Longrightarrow> rejects T (bindE (guardE b e) (\<lambda>_. m))"
  by (cases b) (simp_all add: guardE_def rejects_fail)

lemma rejects_current_time:
  assumes "rejects T (f (snd (snd T)))"
  shows "rejects T (bindE current_time f)"
proof (rule rejectsI)
  fix w r w' assume "bindE current_time f w = (r, w')" and s: "snapshot w = T"
  then have "f (snd (snd T)) w = (r, w')"
    by (auto simp: current_time_def gets_def bindE_def snapshot_def)
  then show "isl r \<and> snapshot w' = T" using s by (rule rejectsD [OF assms])
qed

lemma rejects_atomic:
  assumes "rejects T m"
  shows "rejects T (atomic m)"
proof (rule rejectsI)
  fix w r w' assume a: "atomic m w = (r, w')" and s: "snapshot w = T"
  obtain r1 w1 where m: "m w = (r1, w1)" by fastforce
  with rejectsD [OF assms this s] obtain e where "r1 = Inl e" "snapshot w1 = T" by (cases r1) auto
  with a m s show "isl r \<and> snapshot w' = T" by (auto simp: atomic_def snapshot_def)
qed

lemma rejects_transaction: "rejects T m \<Longrightarrow> rejects T (transaction m)"
  unfolding transaction_def
  by (intro rejects_atomic rejects_bindE still_statement still_ret rejects_bindE_first)

lemma rejects_first_task:
  assumes "\<forall>t \<in> set (fst T). \<not> P t"
  shows "rejects T (first_task P)"
  unfolding rejects_def
proof (intro allI impI)
  fix w r w' assume s: "snapshot w = T" and f: "first_task P w = (r, w')"
  from s assms have none: "find P (d_tasks w) = None" by (auto simp: find_None_iff snapshot_def)
  from f show "isl r \<and> snapshot w' = T"
    unfolding first_task_def select_tasks_def
  proof (cases rule: bindE_cases)
    case (first_fails e)
    from first_fails(1) show ?thesis
      by (cases rule: statement_cases) (use s first_fails(2) in \<open>auto simp: gets_def\<close>)
  next
    case (both x u)
    from both(1) show ?thesis
      by (cases rule: statement_cases) (use s none both(2) in \<open>auto simp: gets_def fail_def\<close>)
  qed
qed

lemma rejects_map_err:
  assumes "rejects T m"
  shows "rejects T (map_err g m)"
proof (rule rejectsI)
  fix w r w' assume a: "map_err g m w = (r, w')" and s: "snapshot w = T"
  obtain r1 w1 where m: "m w = (r1, w1)" by fastforce
  with rejectsD [OF assms this s] obtain e where "r1 = Inl e" "snapshot w1 = T" by (cases r1) auto
  with a m show "isl r \<and> snapshot w' = T" by (auto simp: map_err_def)
qed

lemma rejects_first_task_or_conflict:
  "\<forall>t \<in> set (fst T). \<not> P t \<Longrightarrow> rejects T (first_task_or_conflict P)"
  unfolding first_task_or_conflict_def by (intro rejects_map_err rejects_first_task)

lemma rejects_update_tasks:
  assumes "\<forall>t \<in> set (fst T). \<not> P t"
  shows "rejects T (bindE (update_tasks P f) (\<lambda>n. guardE (n \<noteq> 0) e))"
  unfolding rejects_def
proof (intro allI impI)
  fix w r w'
  assume s: "snapshot w = T" and f: "bindE (update_tasks P f) (\<lambda>n. guardE (n \<noteq> 0) e) w = (r, w')"
  from s assms have none: "count_where P (d_tasks w) = 0" by (auto simp: count_where_0 snapshot_def)
  from f show "isl r \<and> snapshot w' = T"
    unfolding update_tasks_def
  proof (cases rule: bindE_cases)
    case (first_fails d)
    from first_fails(1) show ?thesis
      by (cases rule: statement_cases) (use s first_fails(2) in auto)
  next
    case (both n u)
    from both(1) show ?thesis
      by (cases rule: statement_cases)
        (use s none both(2) in \<open>auto simp: update_where_none guardE_def fail_def snapshot_def\<close>)
  qed
qed

lemmas rejects_intros =
  rejects_guardE rejects_current_time rejects_transaction
  rejects_bindE_first [OF rejects_first_task_or_conflict] rejects_update_tasks
  rejects_bindE [OF still_database] rejects_bindE [OF still_check_task_updates] rejects_fail

section \<open>The error an operation returns\<close>

definition call_error :: "('z, 'a) db_call \<Rightarrow> 'z world_scheme \<Rightarrow> dao_error option" where
  "call_error m w = (case fst (m w) of Inl e \<Rightarrow> Some e | Inr _ \<Rightarrow> None)"

fun op_error :: "store_op \<Rightarrow> 'z world_scheme \<Rightarrow> dao_error option" where
  "op_error (OpCreate t s) w = call_error (create_task_with_initial_step t s) w"
| "op_error (OpClaim i wk l) w = call_error (claim_task i wk l) w"
| "op_error (OpRenew i v wk l) w = call_error (renew_lease_fenced i v wk l) w"
| "op_error (OpSavePlan c i v sm ss) w = call_error (save_plan c i v sm ss) w"
| "op_error (OpCreateSteps i v ss) w = call_error (create_steps_fenced i v ss) w"
| "op_error (OpUpdateTask c i v us) w = call_error (update_task_fenced c i v us) w"
| "op_error (OpUpdateStep c i j v us) w = call_error (update_step_fenced c i j v us) w"
| "op_error (OpMarkUnknown c i j v m) w = call_error (mark_execution_unknown_fenced c i j v m) w"
| "op_error (OpMarkPolicy c i j v m p) w = call_error (mark_policy_review_fenced c i j v m p) w"
| "op_error (OpUpdateOwned u i us) w = call_error (update_owned_task u i us) w"
| "op_error (OpDecide u i j d r dg) w = call_error (update_owned_step_decision u i j d r dg) w"
| "op_error (OpResume u i b) w = call_error (resume_owned_task u i b) w"
| "op_error (OpCancel u i) w = call_error (cancel_owned_task u i) w"
| "op_error (OpRecover before) w = call_error (recover_stale_tasks before) w"
| "op_error (OpSetCheckpoint c i cp) w = call_error (set_checkpoint c i cp) w"
| "op_error (OpEnvironment dt fs ps) w = None"

lemma rejects_op:
  assumes "rejects (snapshot w) m"
  shows "call_error m w \<noteq> None \<and> tables (snd (m w)) = tables w"
proof -
  obtain r w' where m: "m w = (r, w')" by fastforce
  have "isl r \<and> snapshot w' = snapshot w" by (rule rejectsD [OF assms m refl])
  with m show ?thesis by (cases r) (auto simp: call_error_def snapshot_def tables_def)
qed

section \<open>Fencing tokens\<close>

text \<open>The task and run version an operation is fenced by.\<close>

fun fence_of :: "store_op \<Rightarrow> (string \<times> nat) option" where
  "fence_of (OpRenew i v wk l) = Some (i, v)"
| "fence_of (OpSavePlan c i v sm ss) = Some (i, v)"
| "fence_of (OpCreateSteps i v ss) = Some (i, v)"
| "fence_of (OpUpdateTask c i v us) = Some (i, v)"
| "fence_of (OpUpdateStep c i j v us) = Some (i, v)"
| "fence_of (OpMarkUnknown c i j v m) = Some (i, v)"
| "fence_of (OpMarkPolicy c i j v m p) = Some (i, v)"
| "fence_of (OpSetCheckpoint c i cp) = fencing_token_from_context c"
| "fence_of _ = None"

lemma row_version:
  "wf_tables w \<Longrightarrow> task_row i w = Some t \<Longrightarrow> u \<in> set (d_tasks w) \<Longrightarrow> t_id u = i \<Longrightarrow> u = t"
  unfolding task_row_def wf_tables_def by (metis find_key_unique option.inject)

text \<open>A fenced operation whose query selects no task row is refused.\<close>

lemma rejects_renew:
  assumes "\<forall>t \<in> set (fst T). \<not> (t_id t = i \<and> t_run_version t = v \<and> lease_live (snd (snd T)) t)"
  shows "rejects T (renew_lease_fenced i v wk l)"
  unfolding renew_lease_fenced_def by (intro rejects_intros) (use assms in auto)

lemma rejects_create_steps:
  assumes "\<forall>t \<in> set (fst T). \<not> (t_id t = i \<and> t_run_version t = v)"
  shows "rejects T (create_steps_fenced i v ss)"
  unfolding create_steps_fenced_def by (intro rejects_intros) (use assms in auto)

lemma rejects_fenced:
  assumes "\<forall>t \<in> set (fst T). \<not> fenced_row c i v (snd (snd T)) t"
  shows "rejects T (save_plan c i v sm ss)" "rejects T (update_task_fenced c i v us)"
    "rejects T (update_step_fenced c i j v us)" "rejects T (mark_execution_unknown_fenced c i j v m)"
    "rejects T (mark_policy_review_fenced c i j v m p)"
  unfolding save_plan_def update_task_fenced_def update_step_fenced_def mark_execution_unknown_fenced_def
    mark_policy_review_fenced_def Let_def
  by (intro rejects_intros; use assms in auto)+

lemma rejects_set_checkpoint:
  assumes "fencing_token_from_context c = Some (i', v)"
    and "\<forall>t \<in> set (fst T). \<not> (t_id t = i' \<and> t_run_version t = v)"
  shows "rejects T (set_checkpoint c i cp)"
  unfolding set_checkpoint_def Let_def by (intro rejects_intros) (use assms in auto)

lemma unfenced_rejected:
  assumes none: "\<forall>t \<in> set (d_tasks w). \<not> (t_id t = i \<and> t_run_version t = v)"
    and fence: "fence_of op = Some (i, v)"
  shows "op_error op w \<noteq> None \<and> tables (exec_op op w) = tables w"
proof -
  have rows: "\<forall>t \<in> set (fst (snapshot w)). \<not> (t_id t = i \<and> t_run_version t = v)"
    using none by (simp add: snapshot_def)
  then have fenced: "\<forall>t \<in> set (fst (snapshot w)). \<not> fenced_row c i v (snd (snd (snapshot w))) t" for c :: ctx
    unfolding fenced_row_def by blast
  have live: "\<forall>t \<in> set (fst (snapshot w)). \<not> (t_id t = i \<and> t_run_version t = v \<and> lease_live now t)" for now
    using rows by blast
  show ?thesis
    using fence
    by (cases op)
      (auto simp del: not_None_eq intro!: rejects_op [THEN conjunct1] rejects_op [THEN conjunct2]
        rejects_fenced [OF fenced] rejects_create_steps [OF rows] rejects_renew [OF live]
        rejects_set_checkpoint [OF _ rows])
qed

text \<open>C2: a worker that lost its task cannot write any more. Once the task's run version is past
  the version in the token, every fenced operation with that token, after any operations of other
  parties, returns an error and leaves both tables exactly as they were.\<close>

theorem stale_fence_rejected:
  assumes "wf_tables w" and "task_row i w = Some t" and "v < t_run_version t"
    and "fence_of op = Some (i, v)"
  shows "op_error op (run_ops ops w) \<noteq> None \<and> tables (exec_op op (run_ops ops w)) = tables (run_ops ops w)"
proof (rule unfenced_rejected [OF _ assms(4)])
  obtain t' where t': "task_row i (run_ops ops w) = Some t'" "version_grows t t'"
    using versions.run_Q [OF assms(1) _ assms(2)] by blast
  show "\<forall>u \<in> set (d_tasks (run_ops ops w)). \<not> (t_id u = i \<and> t_run_version u = v)"
    using row_version [OF run_ops_wf [OF assms(1)] t'(1)] t'(2) assms(3) by (auto simp: version_grows_def)
qed

lemma stale_fence_rejected_witness:
  "let w = run_ops [OpCancel ''alice'' ''t1''] demo_world; op = OpRenew ''t1'' 1 ''w1'' 0
   in op_error op w \<noteq> None \<and> tables (exec_op op w) = tables w"
  using stale_fence_rejected [OF demo_wf demo_task_row(1), of 1 "OpRenew ''t1'' 1 ''w1'' 0" "[OpCancel ''alice'' ''t1'']"]
  by (simp add: demo_task_def Let_def)

text \<open>The lease a fenced operation must still hold: every one that names its worker.\<close>

fun lease_fence_of :: "store_op \<Rightarrow> (string \<times> nat \<times> string) option" where
  "lease_fence_of (OpRenew i v wk l) = Some (i, v, wk)"
| "lease_fence_of (OpSavePlan c i v sm ss) = map_option (\<lambda>wk. (i, v, wk)) (active_lease_fence c i v)"
| "lease_fence_of (OpUpdateTask c i v us) = map_option (\<lambda>wk. (i, v, wk)) (active_lease_fence c i v)"
| "lease_fence_of (OpUpdateStep c i j v us) = map_option (\<lambda>wk. (i, v, wk)) (active_lease_fence c i v)"
| "lease_fence_of (OpMarkUnknown c i j v m) = map_option (\<lambda>wk. (i, v, wk)) (active_lease_fence c i v)"
| "lease_fence_of (OpMarkPolicy c i j v m p) = map_option (\<lambda>wk. (i, v, wk)) (active_lease_fence c i v)"
| "lease_fence_of _ = None"

definition lease_expired :: "time \<Rightarrow> agent_task \<Rightarrow> bool" where
  "lease_expired now t \<longleftrightarrow> (case t_lease_until t of None \<Rightarrow> True | Some u \<Rightarrow> u \<le> now)"

lemma lease_expired_iff: "lease_expired now t \<longleftrightarrow> \<not> lease_live now t"
  by (auto simp: lease_expired_def lease_live_def split: option.splits)

text \<open>an expired lease fences its holder out at once, before anybody recovers the task: a fenced
  operation whose token carries the worker fails, and changes no row, when the task's lease has
  run out or belongs to somebody else, even at the current run version.\<close>

lemma expired_lease_rejected:
  assumes "wf_tables w" and "task_row i w = Some t" and "lease_fence_of op = Some (i, v, wk)"
    and "lease_expired (d_clock w) t"
  shows "op_error op w \<noteq> None \<and> tables (exec_op op w) = tables w"
proof -
  have rows: "\<forall>u \<in> set (fst (snapshot w)). \<not> (t_id u = i \<and> t_run_version u = v \<and> lease_live (snd (snd (snapshot w))) u)"
    using row_version [OF assms(1,2)] assms(4) by (auto simp: snapshot_def lease_expired_iff)
  have fenced: "\<forall>u \<in> set (fst (snapshot w)). \<not> fenced_row c i v (snd (snd (snapshot w))) u"
    if "active_lease_fence c i v = Some wk" for c :: ctx
    using rows that unfolding fenced_row_def by auto
  show ?thesis
    using assms(3)
    by (cases op)
      (auto simp del: not_None_eq intro!: rejects_op [THEN conjunct1] rejects_op [THEN conjunct2]
        rejects_fenced [OF fenced] rejects_renew [OF rows])
qed

lemma expired_lease_rejected_witness:
  "let w = demo_world\<lparr>d_clock := 100\<rparr>; op = OpRenew ''t1'' 2 ''w2'' minute
   in op_error op w \<noteq> None \<and> tables (exec_op op w) = tables w"
proof -
  have wf: "wf_tables (demo_world\<lparr>d_clock := 100\<rparr>)" using demo_wf by (simp add: wf_tables_def)
  have row: "task_row ''t1'' (demo_world\<lparr>d_clock := 100\<rparr>) = Some demo_task"
    using demo_task_row(1) by (simp add: task_row_def)
  show ?thesis
    using expired_lease_rejected [OF wf row, of "OpRenew ''t1'' 2 ''w2'' minute" 2 "''w2''"]
    by (simp add: demo_task_def lease_expired_def Let_def)
qed

section \<open>Errors change nothing\<close>

definition rollback :: "('z, 'a) db_call \<Rightarrow> bool" where
  "rollback m \<longleftrightarrow> (\<forall>w e w'. m w = (Inl e, w') \<longrightarrow> tables w' = tables w)"

text \<open>Calls that change no row at all.\<close>

interpretation reads: table_preorder "\<lambda>s t. tables s = tables t"
  by unfold_locales auto

lemma rollback_reads: "keeps (\<lambda>s t. tables s = tables t) m \<Longrightarrow> rollback m"
  by (simp add: rollback_def keeps_def) (metis snd_conv)

lemma rollback_fail: "rollback (fail e)"
  by (simp add: rollback_def)

lemma rollback_transaction: "rollback (transaction m)"
  unfolding rollback_def by (blast dest: transaction_Inl)

lemma rollback_bindE:
  assumes "keeps (\<lambda>s t. tables s = tables t) m" and "\<And>x. rollback (f x)"
  shows "rollback (bindE m f)"
  unfolding rollback_def
proof (intro allI impI)
  fix w e w' assume "bindE m f w = (Inl e, w')"
  then show "tables w' = tables w"
    by (cases rule: bindE_cases) (use keepsD [OF assms(1)] assms(2) in \<open>auto simp: rollback_def\<close>)
qed

lemma rollback_bindE_ret: "rollback m \<Longrightarrow> rollback (bindE m (\<lambda>x. ret (f x)))"
  unfolding rollback_def by (auto elim!: bindE_cases)

lemma rollback_update_tasks: "rollback (bindE (update_tasks P f) (\<lambda>n. guardE (n \<noteq> 0) e))"
  unfolding rollback_def
proof (intro allI impI)
  fix w d w' assume "bindE (update_tasks P f) (\<lambda>n. guardE (n \<noteq> 0) e) w = (Inl d, w')"
  then show "tables w' = tables w"
  proof (cases rule: bindE_cases)
    case (first_fails d')
    from first_fails(1) show ?thesis unfolding update_tasks_def
      by (cases rule: statement_cases) auto
  next
    case (both n u)
    from both(1) show ?thesis unfolding update_tasks_def
      by (cases rule: statement_cases) (use both(2) in \<open>auto simp: tables_def update_where_none\<close>)
  qed
qed

lemma rollback_option:
  "(v = None \<Longrightarrow> rollback m) \<Longrightarrow> (\<And>x. v = Some x \<Longrightarrow> rollback (f x)) \<Longrightarrow> rollback (case v of None \<Rightarrow> m | Some x \<Rightarrow> f x)"
  by (cases v) auto

lemmas rollback_intros =
  rollback_fail rollback_transaction rollback_update_tasks rollback_bindE_ret rollback_bindE
  rollback_option reads.keeps_reads reads.keeps_guardE

lemma rollback_create: "rollback (create_task_with_initial_step t s)"
  unfolding create_task_with_initial_step_def Let_def
  by (cases t; cases s; simp) (intro rollback_intros)+

lemma rollback_decide: "rollback (update_owned_step_decision u i j d r dg)"
  unfolding update_owned_step_decision_def Let_def by (intro rollback_intros)

lemma rollback_fenced:
  "rollback (renew_lease_fenced i v wk l)" "rollback (save_plan c i v sm ss)"
  "rollback (create_steps_fenced i v ss)" "rollback (update_task_fenced c i v us)"
  "rollback (update_step_fenced c i j v us)" "rollback (mark_execution_unknown_fenced c i j v m)"
  "rollback (mark_policy_review_fenced c i j v m p)" "rollback (set_checkpoint c i cp)"
  unfolding renew_lease_fenced_def save_plan_def create_steps_fenced_def update_task_fenced_def
    update_step_fenced_def mark_execution_unknown_fenced_def mark_policy_review_fenced_def
    set_checkpoint_def Let_def
  by (intro rollback_intros)+

lemma rollback_owned:
  "rollback (update_owned_task u i us)" "rollback (resume_owned_task u i b)" "rollback (cancel_owned_task u i)"
  unfolding update_owned_task_def resume_owned_task_def cancel_owned_task_def Let_def
  by (intro rollback_intros)+

lemmas rollback_ops = rollback_create rollback_decide rollback_fenced rollback_owned

text \<open>The operations that are not one transaction: a claim reloads the row after its UPDATE, and
  crash recovery is a sequence of transactions.\<close>

fun single_transaction :: "store_op \<Rightarrow> bool" where
  "single_transaction (OpClaim i wk l) = False"
| "single_transaction (OpRecover before) = False"
| "single_transaction _ = True"



end
