(* ===== verification/Regex.thy ===== *)
theory Regex
  imports GoStrings
begin

text \<open>
  Matching with Go's \<open>regexp\<close> package, for the patterns the code compiles from constants:
  regular expressions over code points with a matcher by derivatives, and the language it
  decides. \<open>(?i)\<close> folds as \<open>unicode.SimpleFold\<close> does: an ASCII letter matches both its
  cases, and \<open>k\<close> and \<open>s\<close> also match the Kelvin sign and the long s.
\<close>

datatype rx =
    RxNone | RxEmpty | RxSet "nat \<Rightarrow> bool" | RxAlt rx rx | RxSeq rx rx | RxStar rx

fun nullable :: "rx \<Rightarrow> bool" where
  "nullable RxNone = False"
| "nullable RxEmpty = True"
| "nullable (RxSet P) = False"
| "nullable (RxAlt a b) = (nullable a \<or> nullable b)"
| "nullable (RxSeq a b) = (nullable a \<and> nullable b)"
| "nullable (RxStar a) = True"

fun deriv :: "nat \<Rightarrow> rx \<Rightarrow> rx" where
  "deriv c RxNone = RxNone"
| "deriv c RxEmpty = RxNone"
| "deriv c (RxSet P) = (if P c then RxEmpty else RxNone)"
| "deriv c (RxAlt a b) = RxAlt (deriv c a) (deriv c b)"
| "deriv c (RxSeq a b) =
    (if nullable a then RxAlt (RxSeq (deriv c a) b) (deriv c b) else RxSeq (deriv c a) b)"
| "deriv c (RxStar a) = RxSeq (deriv c a) (RxStar a)"

definition rx_accepts :: "rx \<Rightarrow> nat list \<Rightarrow> bool" where
  "rx_accepts r w = nullable (fold deriv w r)"

text \<open>\<open>MatchString\<close> of an anchored pattern \<open>^...$\<close>, and of one without anchors.\<close>

definition rx_full :: "rx \<Rightarrow> string \<Rightarrow> bool" where
  "rx_full r s = rx_accepts r (runes s)"

definition rx_any :: rx where
  "rx_any = RxStar (RxSet (\<lambda>_. True))"

definition rx_search :: "rx \<Rightarrow> string \<Rightarrow> bool" where
  "rx_search r s = rx_accepts (RxSeq rx_any (RxSeq r rx_any)) (runes s)"

section \<open>The patterns' building blocks\<close>

definition fold_rune :: "nat \<Rightarrow> nat \<Rightarrow> bool" where
  "fold_rune l c \<longleftrightarrow> c = l \<or> (97 \<le> l \<and> l \<le> 122 \<and> c = l - 32) \<or>
     (l = 107 \<and> c = 8490) \<or> (l = 115 \<and> c = 383)"

fun rx_word :: "string \<Rightarrow> rx" where
  "rx_word [] = RxEmpty"
| "rx_word (ch # s) = RxSeq (RxSet (fold_rune (byte_of ch))) (rx_word s)"

definition rx_opt :: "rx \<Rightarrow> rx" where
  "rx_opt r = RxAlt RxEmpty r"

fun rx_alts :: "rx list \<Rightarrow> rx" where
  "rx_alts [] = RxNone"
| "rx_alts (r # rs) = RxAlt r (rx_alts rs)"

fun rx_upto :: "nat \<Rightarrow> rx \<Rightarrow> rx" where
  "rx_upto 0 r = RxEmpty"
| "rx_upto (Suc n) r = RxAlt RxEmpty (RxSeq r (rx_upto n r))"

definition ascii_letter :: "nat \<Rightarrow> bool" where
  "ascii_letter c \<longleftrightarrow> (65 \<le> c \<and> c \<le> 90) \<or> (97 \<le> c \<and> c \<le> 122)"

definition ascii_alnum :: "nat \<Rightarrow> bool" where
  "ascii_alnum c \<longleftrightarrow> ascii_letter c \<or> (48 \<le> c \<and> c \<le> 57)"

section \<open>The language of an expression, and correctness of the matcher\<close>

inductive rx_lang :: "rx \<Rightarrow> nat list \<Rightarrow> bool" where
  lang_empty: "rx_lang RxEmpty []"
| lang_set: "P c \<Longrightarrow> rx_lang (RxSet P) [c]"
| lang_left: "rx_lang a w \<Longrightarrow> rx_lang (RxAlt a b) w"
| lang_right: "rx_lang b w \<Longrightarrow> rx_lang (RxAlt a b) w"
| lang_seq: "rx_lang a u \<Longrightarrow> rx_lang b v \<Longrightarrow> rx_lang (RxSeq a b) (u @ v)"
| lang_star0: "rx_lang (RxStar a) []"
| lang_star: "rx_lang a u \<Longrightarrow> rx_lang (RxStar a) v \<Longrightarrow> rx_lang (RxStar a) (u @ v)"

inductive_simps rx_lang_simps:
  "rx_lang RxNone w" "rx_lang RxEmpty w" "rx_lang (RxSet P) w" "rx_lang (RxAlt a b) w"

inductive_cases rx_lang_seqE: "rx_lang (RxSeq a b) w"
inductive_cases rx_lang_starE: "rx_lang (RxStar a) w"

lemma nullable_lang: "nullable r \<longleftrightarrow> rx_lang r []"
proof (induction r)
  case (RxSeq a b)
  then show ?case by (auto elim: rx_lang_seqE intro: lang_seq [of _ "[]" _ "[]", simplified])
qed (auto simp: rx_lang_simps intro: rx_lang.intros)

lemma star_Cons:
  "rx_lang (RxStar a) (c # w) \<longleftrightarrow> (\<exists>u v. w = u @ v \<and> rx_lang a (c # u) \<and> rx_lang (RxStar a) v)"
proof
  have "rx_lang r x \<Longrightarrow> r = RxStar a \<Longrightarrow> x = c # w \<Longrightarrow>
      \<exists>u v. w = u @ v \<and> rx_lang a (c # u) \<and> rx_lang (RxStar a) v" for r x
    by (induction r x rule: rx_lang.induct) (auto simp: append_eq_Cons_conv)
  then show "rx_lang (RxStar a) (c # w) \<Longrightarrow> \<exists>u v. w = u @ v \<and> rx_lang a (c # u) \<and> rx_lang (RxStar a) v"
    by blast
next
  assume "\<exists>u v. w = u @ v \<and> rx_lang a (c # u) \<and> rx_lang (RxStar a) v"
  then show "rx_lang (RxStar a) (c # w)" using lang_star by fastforce
qed

lemma seq_Cons:
  "rx_lang (RxSeq a b) (c # w) \<longleftrightarrow>
     (\<exists>u v. w = u @ v \<and> rx_lang a (c # u) \<and> rx_lang b v) \<or> (rx_lang a [] \<and> rx_lang b (c # w))"
  (is "?l = ?r")
proof
  assume ?l
  then obtain u v where "c # w = u @ v" "rx_lang a u" "rx_lang b v" by (rule rx_lang_seqE)
  then show ?r by (cases u) auto
next
  assume ?r
  then show ?l using lang_seq [of a "c # u" b v for u v] lang_seq [of a "[]" b "c # w"] by auto
qed

lemma deriv_lang: "rx_lang (deriv c r) w \<longleftrightarrow> rx_lang r (c # w)"
proof (induction r arbitrary: w)
  case (RxSeq a b)
  show ?case
    by (auto simp: seq_Cons RxSeq rx_lang_simps nullable_lang elim!: rx_lang_seqE intro: lang_seq) blast+
next
  case (RxStar a)
  show ?case by (auto simp: star_Cons RxStar elim!: rx_lang_seqE intro: lang_seq) blast
qed (auto simp: rx_lang_simps)

lemma accepts_lang: "rx_accepts r w \<longleftrightarrow> rx_lang r w"
  unfolding rx_accepts_def by (induction w arbitrary: r) (simp_all add: nullable_lang deriv_lang)

lemma any_lang: "rx_lang rx_any w"
  unfolding rx_any_def
proof (induction w)
  case (Cons c w)
  then show ?case using lang_star [OF lang_set, of "\<lambda>_. True" c w] by simp
qed (rule lang_star0)

lemma search_lang: "rx_search r s \<longleftrightarrow> (\<exists>a m b. runes s = a @ m @ b \<and> rx_lang r m)"
proof
  assume "rx_search r s"
  then show "\<exists>a m b. runes s = a @ m @ b \<and> rx_lang r m"
    unfolding rx_search_def accepts_lang by (elim rx_lang_seqE) blast
next
  assume "\<exists>a m b. runes s = a @ m @ b \<and> rx_lang r m"
  then obtain a m b where "runes s = a @ m @ b" "rx_lang r m" by blast
  then show "rx_search r s"
    unfolding rx_search_def accepts_lang by (simp add: lang_seq any_lang)
qed

lemma lang_word: "rx_lang (rx_word s) w \<longleftrightarrow> list_all2 (\<lambda>ch c. fold_rune (byte_of ch) c) s w"
proof (induction s arbitrary: w)
  case (Cons ch s)
  show ?case
    by (auto simp: Cons rx_lang_simps list_all2_Cons1 elim!: rx_lang_seqE)
       (use lang_seq [OF lang_set] Cons in fastforce)
qed (auto simp: rx_lang_simps)

lemma lang_alts: "rx_lang (rx_alts rs) w \<longleftrightarrow> (\<exists>r \<in> set rs. rx_lang r w)"
  by (induction rs) (auto simp: rx_lang_simps)

lemma lang_upto_set: "rx_lang (rx_upto n (RxSet P)) w \<longleftrightarrow> length w \<le> n \<and> list_all P w"
proof (induction n arbitrary: w)
  case (Suc n)
  show ?case
    by (cases w) (auto simp: rx_lang_simps seq_Cons Suc)
qed (auto simp: rx_lang_simps)

lemma lang_head_tail:
  "rx_lang (RxSeq (RxSet P) r) w \<longleftrightarrow> (\<exists>c v. w = c # v \<and> P c \<and> rx_lang r v)"
  by (cases w) (auto simp: seq_Cons rx_lang_simps elim!: rx_lang_seqE)

text \<open>A string that contains a keyword, in any case, matches every pattern with that alternative.\<close>

lemma search_mono: "rx_search r s \<Longrightarrow> (\<And>w. rx_lang r w \<Longrightarrow> rx_lang r' w) \<Longrightarrow> rx_search r' s"
  unfolding search_lang by blast

end
