(* ===== verification/Json.thy ===== *)
theory Json
  imports Regex "HOL-Library.AList" "HOL-Library.Multiset" "HOL-Library.List_Lexorder" "HOL-Library.Char_ord"
begin

text \<open>
  JSON values as \<open>encoding/json\<close> decodes them into \<open>any\<close> with \<open>UseNumber\<close>: numbers are
  their literals, objects are maps, written as lists of fields. \<open>marshal\<close> is
  \<open>json.Marshal\<close> (sorted keys, HTML escaping, U+FFFD for invalid bytes) and \<open>decode\<close> one
  call of \<open>Decoder.Decode\<close>, which leaves the rest of the input for the next.
\<close>

datatype json =
    JNull | JBool bool | JNum string | JStr string | JArr "json list" | JObj "(string \<times> json) list"

section \<open>Characters and numbers\<close>

definition ch :: "nat \<Rightarrow> char" where
  "ch n = char_of n"

definition is_digit :: "char \<Rightarrow> bool" where
  "is_digit c \<longleftrightarrow> 48 \<le> byte_of c \<and> byte_of c \<le> 57"

text \<open>\<open>(literal, rest)\<close> of the number an input starts with, by the JSON grammar.\<close>

definition scan_int :: "string \<Rightarrow> (string \<times> string) option" where
  "scan_int s = (case s of
     [] \<Rightarrow> None
   | c # r \<Rightarrow> if c = CHR ''0'' then Some ([c], r)
             else if is_digit c then Some (takeWhile is_digit s, dropWhile is_digit s) else None)"

definition scan_digits :: "string \<Rightarrow> (string \<times> string) option" where
  "scan_digits s = (if takeWhile is_digit s = [] then None else Some (takeWhile is_digit s, dropWhile is_digit s))"

definition scan_fraction :: "string \<Rightarrow> (string \<times> string) option" where
  "scan_fraction s = (case s of
     c # r \<Rightarrow> if c = CHR ''.'' then map_option (\<lambda>(d, t). (c # d, t)) (scan_digits r) else Some ([], s)
   | [] \<Rightarrow> Some ([], []))"

definition scan_exponent :: "string \<Rightarrow> (string \<times> string) option" where
  "scan_exponent s = (case s of
     c # r \<Rightarrow> if c = CHR ''e'' \<or> c = CHR ''E'' then
         (case r of
            g # t \<Rightarrow> if g = CHR ''+'' \<or> g = CHR ''-'' then map_option (\<lambda>(d, u). (c # g # d, u)) (scan_digits t)
                    else map_option (\<lambda>(d, u). (c # d, u)) (scan_digits r)
          | [] \<Rightarrow> None)
       else Some ([], s)
   | [] \<Rightarrow> Some ([], []))"

definition scan_number :: "string \<Rightarrow> (string \<times> string) option" where
  "scan_number s =
     (let (sign, s0) = (case s of c # r \<Rightarrow> if c = CHR ''-'' then ([c], r) else ([], s) | [] \<Rightarrow> ([], s))
      in case scan_int s0 of None \<Rightarrow> None | Some (i, s1) \<Rightarrow>
        (case scan_fraction s1 of None \<Rightarrow> None | Some (f, s2) \<Rightarrow>
          (case scan_exponent s2 of None \<Rightarrow> None | Some (e, s3) \<Rightarrow> Some (sign @ i @ f @ e, s3))))"

definition valid_number :: "string \<Rightarrow> bool" where
  "valid_number s \<longleftrightarrow> scan_number s = Some (s, [])"

definition hex_digit :: "nat \<Rightarrow> char" where
  "hex_digit n = (if n < 10 then ch (48 + n) else ch (87 + n))"

definition hex4 :: "nat \<Rightarrow> string" where
  "hex4 n = [hex_digit (n div 4096 mod 16), hex_digit (n div 256 mod 16), hex_digit (n div 16 mod 16), hex_digit (n mod 16)]"

section \<open>Encoding\<close>

definition escape :: "string \<Rightarrow> string" where
  "escape seg = (let r = fst (decode_rune seg); u = (\<lambda>n. CHR 0x5C # CHR ''u'' # hex4 n) in
     if seg = [CHR 0x22] \<or> seg = [CHR 0x5C] then CHR 0x5C # seg
     else if r = 8 then [CHR 0x5C, CHR ''b''] else if r = 12 then [CHR 0x5C, CHR ''f'']
     else if r = 10 then [CHR 0x5C, CHR ''n''] else if r = 13 then [CHR 0x5C, CHR ''r'']
     else if r = 9 then [CHR 0x5C, CHR ''t'']
     else if r < 32 \<or> r = 60 \<or> r = 62 \<or> r = 38 \<or> r = 8232 \<or> r = 8233 then u r
     else if r = rune_error \<and> length seg = 1 then u rune_error
     else seg)"

definition quote :: "string \<Rightarrow> string" where
  "quote s = CHR 0x22 # concat (map escape (segments s)) @ [CHR 0x22]"

fun join :: "string \<Rightarrow> string list \<Rightarrow> string" where
  "join sep [] = []"
| "join sep [x] = x"
| "join sep (x # xs) = x @ sep @ join sep xs"

fun marshal :: "json \<Rightarrow> string option" and
    marshal_list :: "json list \<Rightarrow> string list option" and
    marshal_fields :: "(string \<times> json) list \<Rightarrow> (string \<times> string) list option" where
  "marshal JNull = Some ''null''"
| "marshal (JBool b) = Some (if b then ''true'' else ''false'')"
| "marshal (JNum n) = (if n = [] then Some ''0'' else if valid_number n then Some n else None)"
| "marshal (JStr s) = Some (quote s)"
| "marshal (JArr xs) = map_option (\<lambda>es. ''['' @ join '','' es @ '']'') (marshal_list xs)"
| "marshal (JObj fs) = map_option (\<lambda>es. ''{'' @
     join '','' (map (\<lambda>(k, e). quote k @ '':'' @ e) (sort_key fst es)) @ ''}'') (marshal_fields fs)"
| "marshal_list [] = Some []"
| "marshal_list (x # xs) = (case marshal x of None \<Rightarrow> None | Some e \<Rightarrow> map_option ((#) e) (marshal_list xs))"
| "marshal_fields [] = Some []"
| "marshal_fields (f # fs) = (case marshal (snd f) of None \<Rightarrow> None
     | Some e \<Rightarrow> map_option ((#) (fst f, e)) (marshal_fields fs))"

definition same_json :: "json \<Rightarrow> json \<Rightarrow> bool" where
  "same_json a b \<longleftrightarrow> (case (marshal a, marshal b) of (Some x, Some y) \<Rightarrow> x = y | _ \<Rightarrow> False)"

section \<open>Decoding\<close>

definition skip_space :: "string \<Rightarrow> string" where
  "skip_space = dropWhile (\<lambda>c. c \<in> {CHR '' '', CHR 0x09, CHR 0x0A, CHR 0x0D})"

definition hex_value :: "char \<Rightarrow> nat option" where
  "hex_value c = (let b = byte_of c in
     if 48 \<le> b \<and> b \<le> 57 then Some (b - 48) else if 97 \<le> b \<and> b \<le> 102 then Some (b - 87)
     else if 65 \<le> b \<and> b \<le> 70 then Some (b - 55) else None)"

definition hex_quad :: "char \<Rightarrow> char \<Rightarrow> char \<Rightarrow> char \<Rightarrow> nat option" where
  "hex_quad a b c d = (case (hex_value a, hex_value b, hex_value c, hex_value d) of
     (Some w, Some x, Some y, Some z) \<Rightarrow> Some (w * 4096 + x * 256 + y * 16 + z) | _ \<Rightarrow> None)"

definition simple_escape :: "char \<Rightarrow> char option" where
  "simple_escape c =
     (if c = CHR 0x22 \<or> c = CHR 0x5C \<or> c = CHR ''/'' then Some c
      else map_of [(CHR ''b'', CHR 0x08), (CHR ''f'', CHR 0x0C), (CHR ''n'', CHR 0x0A),
                   (CHR ''r'', CHR 0x0D), (CHR ''t'', CHR 0x09)] c)"

text \<open>
  The characters of a string literal after its opening quote. A high surrogate escape that no
  low surrogate escape follows stands for U+FFFD, as \<open>utf16.DecodeRune\<close> has it.
\<close>

definition is_high :: "nat \<Rightarrow> bool" where "is_high n \<longleftrightarrow> 55296 \<le> n \<and> n < 56320"
definition is_low :: "nat \<Rightarrow> bool" where "is_low n \<longleftrightarrow> 56320 \<le> n \<and> n < 57344"

definition low_escape :: "string \<Rightarrow> (nat \<times> string) option" where
  "low_escape s = (case s of
     p # q # a # b # c # d # r \<Rightarrow>
       if p = CHR 0x5C \<and> q = CHR ''u'' then
         (case hex_quad a b c d of Some n \<Rightarrow> if is_low n then Some (n, r) else None | None \<Rightarrow> None)
       else None
   | _ \<Rightarrow> None)"

lemma low_escape_shorter: "low_escape s = Some (n, r) \<Longrightarrow> length r < length s"
  by (auto simp: low_escape_def split: list.splits if_splits option.splits)

definition add_chars :: "string \<Rightarrow> (string \<times> string) option \<Rightarrow> (string \<times> string) option" where
  "add_chars cs = map_option (\<lambda>(x, r). (cs @ x, r))"

function (sequential) scan_chars :: "string \<Rightarrow> (string \<times> string) option" where
  "scan_chars [] = None"
| "scan_chars (c # s) =
    (if c = CHR 0x22 then Some ([], s)
     else if byte_of c < 32 then None
     else if c \<noteq> CHR 0x5C then add_chars [c] (scan_chars s)
     else case s of [] \<Rightarrow> None
       | e # s1 \<Rightarrow>
         if e = CHR ''u'' then
           (case s1 of a # b # x # d # s2 \<Rightarrow>
              (case hex_quad a b x d of None \<Rightarrow> None
               | Some n \<Rightarrow>
                   if is_high n then
                     (case low_escape s2 of
                        Some (m, s3) \<Rightarrow> add_chars (encode_rune (65536 + (n - 55296) * 1024 + (m - 56320))) (scan_chars s3)
                      | None \<Rightarrow> add_chars (encode_rune rune_error) (scan_chars s2))
                   else add_chars (encode_rune (if is_low n then rune_error else n)) (scan_chars s2))
            | _ \<Rightarrow> None)
         else case simple_escape e of None \<Rightarrow> None | Some x \<Rightarrow> add_chars [x] (scan_chars s1))"
  by pat_completeness auto
termination
  by (relation "measure length") (auto dest: low_escape_shorter)

definition valid_utf8 :: "string \<Rightarrow> string" where
  "valid_utf8 s = string_of_runes (runes s)"

definition scan_string :: "string \<Rightarrow> (string \<times> string) option" where
  "scan_string s = map_option (\<lambda>(x, r). (valid_utf8 x, r)) (scan_chars s)"

definition max_json_depth :: nat where "max_json_depth = 10000"

definition keyword :: "string \<Rightarrow> json \<Rightarrow> string \<Rightarrow> (json \<times> string) option" where
  "keyword lit v s = (if take (length lit) s = lit then Some (v, drop (length lit) s) else None)"

text \<open>
  Values, elements after \<open>[\<close> or a comma, members after \<open>{\<close> or a comma. The first argument
  bounds the calls (two per character are enough), the second is the nesting depth.
\<close>

fun scan_value :: "nat \<Rightarrow> nat \<Rightarrow> string \<Rightarrow> (json \<times> string) option" and
    scan_elems :: "nat \<Rightarrow> nat \<Rightarrow> json list \<Rightarrow> string \<Rightarrow> (json \<times> string) option" and
    scan_members :: "nat \<Rightarrow> nat \<Rightarrow> (string \<times> json) list \<Rightarrow> string \<Rightarrow> (json \<times> string) option" where
  "scan_value 0 d s = None"
| "scan_value (Suc n) d s = (case skip_space s of
     [] \<Rightarrow> None
   | c # r \<Rightarrow>
       if c = CHR 0x22 then map_option (\<lambda>(x, t). (JStr x, t)) (scan_string r)
       else if c = CHR ''['' then
         (if max_json_depth \<le> d then None
          else case skip_space r of
              e # t \<Rightarrow> if e = CHR '']'' then Some (JArr [], t) else scan_elems n (Suc d) [] r
            | [] \<Rightarrow> None)
       else if c = CHR ''{'' then
         (if max_json_depth \<le> d then None
          else case skip_space r of
              e # t \<Rightarrow> if e = CHR ''}'' then Some (JObj [], t) else scan_members n (Suc d) [] r
            | [] \<Rightarrow> None)
       else if c = CHR ''t'' then keyword ''true'' (JBool True) (c # r)
       else if c = CHR ''f'' then keyword ''false'' (JBool False) (c # r)
       else if c = CHR ''n'' then keyword ''null'' JNull (c # r)
       else map_option (\<lambda>(x, t). (JNum x, t)) (scan_number (c # r)))"
| "scan_elems 0 d acc s = None"
| "scan_elems (Suc n) d acc s = (case scan_value n d s of None \<Rightarrow> None
     | Some (v, r) \<Rightarrow>
        (case skip_space r of
           e # t \<Rightarrow> if e = CHR '','' then scan_elems n d (acc @ [v]) t
                   else if e = CHR '']'' then Some (JArr (acc @ [v]), t) else None
         | [] \<Rightarrow> None))"
| "scan_members 0 d acc s = None"
| "scan_members (Suc n) d acc s = (case skip_space s of
     q # r0 \<Rightarrow> if q \<noteq> CHR 0x22 then None else
       (case scan_string r0 of None \<Rightarrow> None
        | Some (k, r1) \<Rightarrow>
          (case skip_space r1 of
             colon # r2 \<Rightarrow> if colon \<noteq> CHR '':'' then None else
               (case scan_value n d r2 of None \<Rightarrow> None
                | Some (v, r3) \<Rightarrow>
                   (case skip_space r3 of
                      e # t \<Rightarrow> if e = CHR '','' then scan_members n d (AList.update k v acc) t
                              else if e = CHR ''}'' then Some (JObj (AList.update k v acc), t) else None
                    | [] \<Rightarrow> None))
           | [] \<Rightarrow> None))
   | [] \<Rightarrow> None)"

definition decode :: "string \<Rightarrow> (json \<times> string) option" where
  "decode s = scan_value (2 * length s + 2) 0 s"

text \<open>\<open>Decode(&m)\<close> into a \<open>map[string]any\<close> that is nil before: null leaves it nil.\<close>

definition decode_object :: "string \<Rightarrow> ((string \<times> json) list option \<times> string) option" where
  "decode_object s = (case decode s of
     Some (JObj fs, r) \<Rightarrow> Some (Some fs, r)
   | Some (JNull, r) \<Rightarrow> Some (None, r)
   | _ \<Rightarrow> None)"

section \<open>Facts\<close>

lemma marshal_fields_map:
  "marshal_fields fs = (if \<forall>f \<in> set fs. marshal (snd f) \<noteq> None
     then Some (map (\<lambda>(k, v). (k, the (marshal v))) fs) else None)"
  by (induction fs) (auto split: option.splits)

lemma insort_key_fst_map:
  "insort_key fst (k, h v) (map (\<lambda>(k, v). (k, h v)) ys) = map (\<lambda>(k, v). (k, h v)) (insort_key fst (k, v) ys)"
  by (induction ys) auto

lemma sort_key_fst_map: "sort_key fst (map (\<lambda>(k, v). (k, h v)) xs) = map (\<lambda>(k, v). (k, h v)) (sort_key fst xs)"
  by (induction xs) (auto simp: insort_key_fst_map)

text \<open>The encoding of an object does not depend on the order of its fields.\<close>

lemma marshal_order:
  assumes perm: "mset fs = mset gs" and keys: "distinct (map fst fs)"
  shows "marshal (JObj fs) = marshal (JObj gs)"
proof -
  have "sort_key fst fs = sort_key fst gs"
    using perm keys by (intro sort_key_inj_key_eq) (simp_all add: distinct_map)
  then show ?thesis
    by (simp add: marshal_fields_map sort_key_fst_map mset_eq_setD [OF perm])
qed

lemma same_json_refl: "marshal a \<noteq> None \<Longrightarrow> same_json a a"
  by (auto simp: same_json_def)

section \<open>Plain text\<close>

lemma valid_utf8_ascii: "ascii s \<Longrightarrow> valid_utf8 s = s"
  by (induction s) (auto simp: valid_utf8_def string_of_runes_def runes_ascii ascii_def encode_rune_def encode_bytes_def)

definition plain_char :: "char \<Rightarrow> bool" where
  "plain_char c \<longleftrightarrow> 32 \<le> byte_of c \<and> byte_of c < 128 \<and> byte_of c \<notin> {34, 38, 60, 62, 92}"

lemma quote_plain:
  assumes "list_all plain_char s" shows "quote s = CHR 0x22 # s @ [CHR 0x22]"
proof -
  have "ascii s" using assms by (auto simp: ascii_def plain_char_def list_all_iff)
  moreover have "escape [c] = [c]" if "c \<in> set s" for c
    using assms that by (auto simp: escape_def plain_char_def list_all_iff decode_rune_single Let_def byte_of_def rune_error_def)
  then have "concat (map (\<lambda>c. escape [c]) s) = s" by (induction s) auto
  ultimately show ?thesis by (simp add: quote_def segments_ascii comp_def)
qed

lemmas decode_eval = decode_def decode_object_def eval_nat_numeral skip_space_def max_json_depth_def scan_string_def
  valid_utf8_ascii ascii_def add_chars_def byte_of_def keyword_def

lemmas encode_eval = quote_plain plain_char_def byte_of_def sort_key_fst_map

end
