(* ===== verification/McpSchema.thy ===== *)
theory McpSchema
  imports Complex_Main Json "HOL-Library.Log_Nat"
begin

text \<open>
  The JSON Schema subset of \<open>src/common/mcphub/schema.go\<close>: validation of a tool's schema when
  it is discovered, and of a call's arguments before it is sent. Numbers are compared as the
  \<open>float64\<close> values Go parses their literals to (rationals here). A nil map and a map without
  fields are read alike. \<open>regexp.Compile\<close> on a pattern of an upstream schema is the parameter
  \<open>rx\<close>: the predicate of a pattern that compiles.
\<close>

type_synonym fields = "(string \<times> json) list"
type_synonym rx_compiler = "string \<Rightarrow> (string \<Rightarrow> bool) option"

section \<open>float64 values of number literals\<close>

definition digits_value :: "string \<Rightarrow> nat" where
  "digits_value ds = foldl (\<lambda>n c. n * 10 + (byte_of c - 48)) 0 ds"

definition pow10 :: "int \<Rightarrow> rat" where
  "pow10 e = (if 0 \<le> e then 10 ^ nat e else 1 / 10 ^ nat (- e))"

definition pow2 :: "int \<Rightarrow> rat" where
  "pow2 e = (if 0 \<le> e then 2 ^ nat e else 1 / 2 ^ nat (- e))"

definition drop_sign :: "string \<Rightarrow> bool \<times> string" where
  "drop_sign s = (case s of c # r \<Rightarrow> if c = CHR ''-'' then (True, r) else if c = CHR ''+'' then (False, r) else (False, s)
     | [] \<Rightarrow> (False, []))"

definition literal_value :: "string \<Rightarrow> rat option" where
  "literal_value s = (if \<not> valid_number s then None else
     let (neg, s0) = drop_sign s;
         mant = takeWhile (\<lambda>c. c \<noteq> CHR ''e'' \<and> c \<noteq> CHR ''E'') s0;
         (eneg, edigits) = drop_sign (drop 1 (dropWhile (\<lambda>c. c \<noteq> CHR ''e'' \<and> c \<noteq> CHR ''E'') s0));
         whole = takeWhile (\<lambda>c. c \<noteq> CHR ''.'') mant;
         frac = drop 1 (dropWhile (\<lambda>c. c \<noteq> CHR ''.'') mant);
         e = (if eneg then - int (digits_value edigits) else int (digits_value edigits));
         m = of_nat (digits_value (whole @ frac)) * pow10 (e - int (length frac))
     in Some (if neg then - m else m))"

definition floor_log2 :: "rat \<Rightarrow> int" where
  "floor_log2 x = (let (p, q) = quotient_of x; k = bitlen p - bitlen q
     in if pow2 k * of_int q \<le> of_int p then k else k - 1)"

definition round_even :: "rat \<Rightarrow> int" where
  "round_even x = (let n = \<lfloor>x\<rfloor>; d = x - of_int n
     in if d < 1/2 then n else if d > 1/2 then n + 1 else if even n then n else n + 1)"

text \<open>The nearest \<open>float64\<close>, ties to even; \<open>None\<close> past the largest (\<open>strconv.ErrRange\<close>).\<close>

definition float64_of :: "rat \<Rightarrow> rat option" where
  "float64_of x = (if x = 0 then Some 0 else
     let a = \<bar>x\<bar>; e = max (-1074) (floor_log2 a - 52); v = of_int (round_even (a / pow2 e)) * pow2 e
     in if v \<ge> pow2 1024 then None else Some (if x < 0 then - v else v))"

definition number_value :: "json \<Rightarrow> rat option" where
  "number_value v = (case v of JNum s \<Rightarrow> Option.bind (literal_value s) float64_of | _ \<Rightarrow> None)"

definition integral :: "rat \<Rightarrow> bool" where
  "integral x \<longleftrightarrow> x = of_int \<lfloor>x\<rfloor>"

text \<open>
  \<open>number > math.MaxInt\<close> compares with 2^63, so 2^63 passes; converting it to \<open>int\<close> is
  outside the type and yields the smallest \<open>int\<close> on amd64.
\<close>

definition integer_keyword :: "json option \<Rightarrow> int option" where
  "integer_keyword v = (case Option.bind v number_value of
     None \<Rightarrow> None
   | Some x \<Rightarrow> if x < 0 \<or> \<not> integral x \<or> x > 2 ^ 63 then None
              else if x = 2 ^ 63 then Some (- (2 ^ 63)) else Some \<lfloor>x\<rfloor>)"

section \<open>Reading schemas\<close>

definition field :: "string \<Rightarrow> fields \<Rightarrow> json option" where
  "field k fs = map_of fs k"

definition as_object :: "json option \<Rightarrow> fields option" where
  "as_object v = (case v of Some (JObj fs) \<Rightarrow> Some fs | _ \<Rightarrow> None)"

definition object_or_nil :: "json option \<Rightarrow> fields" where
  "object_or_nil v = (case as_object v of Some fs \<Rightarrow> fs | None \<Rightarrow> [])"

definition str_of :: "json option \<Rightarrow> string option" where
  "str_of v = (case v of Some (JStr s) \<Rightarrow> Some s | _ \<Rightarrow> None)"

definition arr_of :: "json option \<Rightarrow> json list option" where
  "arr_of v = (case v of Some (JArr xs) \<Rightarrow> Some xs | _ \<Rightarrow> None)"

datatype schema_error =
    SchemaTooLarge | SchemaNotObject | SchemaTrailingData | SchemaRootNotObject | SchemaTooDeep
  | SchemaBadReference | SchemaBadType | SchemaBadPattern | SchemaBadProperties | SchemaBadRequired
  | SchemaUndefinedRequired string | SchemaBadProperty string | SchemaBadItems | SchemaBadAdditional
  | SchemaBadBranches string | SchemaNotEncodable

fun string_entries :: "string list \<Rightarrow> json list \<Rightarrow> schema_error + string list" where
  "string_entries seen [] = Inr []"
| "string_entries seen (x # xs) = (case x of
     JStr name \<Rightarrow> if name = [] \<or> name \<in> set seen then Inl SchemaBadRequired
       else (case string_entries (name # seen) xs of Inl e \<Rightarrow> Inl e | Inr ns \<Rightarrow> Inr (name # ns))
   | _ \<Rightarrow> Inl SchemaBadRequired)"

definition string_list :: "json option \<Rightarrow> schema_error + string list" where
  "string_list v = (case v of
     None \<Rightarrow> Inr [] | Some JNull \<Rightarrow> Inr []
   | Some (JArr xs) \<Rightarrow> string_entries [] xs
   | _ \<Rightarrow> Inl SchemaBadRequired)"

fun split_on :: "char \<Rightarrow> string \<Rightarrow> string list" where
  "split_on c [] = [[]]"
| "split_on c (x # xs) = (if x = c then [] # split_on c xs
     else case split_on c xs of t # ts \<Rightarrow> (x # t) # ts | [] \<Rightarrow> [[x]])"

fun replace_pair :: "char \<Rightarrow> char \<Rightarrow> char \<Rightarrow> string \<Rightarrow> string" where
  "replace_pair a b c (x # y # s) =
     (if x = a \<and> y = b then c # replace_pair a b c s else x # replace_pair a b c (y # s))"
| "replace_pair a b c s = s"

fun walk_ref :: "string list \<Rightarrow> json \<Rightarrow> fields option" where
  "walk_ref [] v = (case v of JObj fs \<Rightarrow> Some fs | _ \<Rightarrow> None)"
| "walk_ref (t # ts) v = (case v of
     JObj fs \<Rightarrow> (case field (replace_pair (CHR ''~'') (CHR ''0'') (CHR ''~'')
                    (replace_pair (CHR ''~'') (CHR ''1'') (CHR ''/'') t)) fs of
          None \<Rightarrow> None | Some w \<Rightarrow> walk_ref ts w)
   | _ \<Rightarrow> None)"

definition resolve_local_ref :: "fields \<Rightarrow> string \<Rightarrow> fields option" where
  "resolve_local_ref doc ref = (if take 2 ref \<noteq> ''#/'' then None
     else walk_ref (split_on (CHR ''/'') (drop 2 ref)) (JObj doc))"

definition type_names :: "string list" where
  "type_names = [''object'', ''array'', ''string'', ''number'', ''integer'', ''boolean'', ''null'']"

definition schema_type_ok :: "json \<Rightarrow> bool" where
  "schema_type_ok v = (case v of
     JStr s \<Rightarrow> s \<in> set type_names
   | JArr xs \<Rightarrow> xs \<noteq> [] \<and> list_all (\<lambda>x. case x of JStr s \<Rightarrow> s \<in> set type_names | _ \<Rightarrow> False) xs
   | _ \<Rightarrow> False)"

definition schema_allows_type :: "fields \<Rightarrow> string \<Rightarrow> bool" where
  "schema_allows_type sch wanted = (case field ''type'' sch of
     Some (JStr s) \<Rightarrow> s = wanted
   | Some (JArr xs) \<Rightarrow> JStr wanted \<in> set xs
   | _ \<Rightarrow> False)"

definition schema_types :: "fields \<Rightarrow> string list" where
  "schema_types sch = (case field ''type'' sch of
     Some (JStr s) \<Rightarrow> [s]
   | Some (JArr xs) \<Rightarrow> List.map_filter (\<lambda>x. case x of JStr s \<Rightarrow> Some s | _ \<Rightarrow> None) xs
   | _ \<Rightarrow> [])"

section \<open>Checks in sequence\<close>

text \<open>The first error of a sequence of checks, \<open>None\<close> when all pass.\<close>

fun first_failure :: "'e option list \<Rightarrow> 'e option" where
  "first_failure [] = None"
| "first_failure (None # cs) = first_failure cs"
| "first_failure (Some e # cs) = Some e"

definition check :: "bool \<Rightarrow> 'e \<Rightarrow> 'e option" where
  "check b e = (if b then None else Some e)"

lemma first_failure_None [simp]: "first_failure cs = None \<longleftrightarrow> (\<forall>c \<in> set cs. c = None)"
  by (induction cs rule: first_failure.induct) auto

lemma check_None [simp]: "check b e = None \<longleftrightarrow> b"
  by (simp add: check_def)

section \<open>Validation of a schema\<close>

definition max_schema_depth :: nat where "max_schema_depth = 32"
definition max_tool_schema_bytes :: nat where "max_tool_schema_bytes = 262144"
definition max_arguments_bytes :: nat where "max_arguments_bytes = 1048576"

definition branch_keywords :: "string list" where
  "branch_keywords = [''allOf'', ''anyOf'', ''oneOf'']"

text \<open>One node, given the check of its children (one level deeper).\<close>

definition schema_node :: "rx_compiler \<Rightarrow> fields \<Rightarrow> (fields \<Rightarrow> schema_error option) \<Rightarrow> fields \<Rightarrow> schema_error option" where
  "schema_node rx doc child node = first_failure [
     (case str_of (field ''$ref'' node) of None \<Rightarrow> None
      | Some r \<Rightarrow> check (resolve_local_ref doc r \<noteq> None) SchemaBadReference),
     (case field ''type'' node of None \<Rightarrow> None | Some t \<Rightarrow> check (schema_type_ok t) SchemaBadType),
     (case str_of (field ''pattern'' node) of None \<Rightarrow> None
      | Some p \<Rightarrow> check (rx p \<noteq> None) SchemaBadPattern),
     check (field ''properties'' node \<in> {None, Some JNull} \<or> as_object (field ''properties'' node) \<noteq> None)
       SchemaBadProperties,
     (case string_list (field ''required'' node) of
        Inl e \<Rightarrow> Some e
      | Inr names \<Rightarrow> first_failure (map (\<lambda>name.
          check (field name (object_or_nil (field ''properties'' node)) \<noteq> None) (SchemaUndefinedRequired name)) names)),
     first_failure (map (\<lambda>(name, raw). case raw of JObj c \<Rightarrow> child c | _ \<Rightarrow> Some (SchemaBadProperty name))
       (object_or_nil (field ''properties'' node))),
     (case field ''items'' node of None \<Rightarrow> None
      | Some (JObj c) \<Rightarrow> child c | Some _ \<Rightarrow> Some SchemaBadItems),
     (case field ''additionalProperties'' node of None \<Rightarrow> None
      | Some (JBool _) \<Rightarrow> None | Some (JObj c) \<Rightarrow> child c | Some _ \<Rightarrow> Some SchemaBadAdditional),
     first_failure (map (\<lambda>kw. case field kw node of None \<Rightarrow> None
       | Some (JArr bs) \<Rightarrow> if bs = [] then Some (SchemaBadBranches kw)
           else first_failure (map (\<lambda>b. case b of JObj c \<Rightarrow> child c | _ \<Rightarrow> Some (SchemaBadBranches kw)) bs)
       | Some _ \<Rightarrow> Some (SchemaBadBranches kw)) branch_keywords)]"

text \<open>The first argument is the number of levels left; a call at depth \<open>d\<close> has \<open>33 - d\<close>.\<close>

primrec validate_schema_node :: "rx_compiler \<Rightarrow> fields \<Rightarrow> nat \<Rightarrow> fields \<Rightarrow> schema_error option" where
  "validate_schema_node rx doc 0 = (\<lambda>node. Some SchemaTooDeep)"
| "validate_schema_node rx doc (Suc n) = schema_node rx doc (validate_schema_node rx doc n)"

definition decode_single :: "string \<Rightarrow> schema_error + fields option" where
  "decode_single raw = (case decode_object raw of
     None \<Rightarrow> Inl SchemaNotObject
   | Some (v, rest) \<Rightarrow> if skip_space rest = [] then Inr v else Inl SchemaTrailingData)"

definition with_default_type :: "fields \<Rightarrow> fields" where
  "with_default_type sch = (if field ''type'' sch = None \<and> field ''properties'' sch \<noteq> None
     then sch @ [(''type'', JStr ''object'')] else sch)"

definition normalize_schema :: "rx_compiler \<Rightarrow> string \<Rightarrow> bool \<Rightarrow> schema_error + (string \<times> fields)" where
  "normalize_schema rx raw requireObject =
     (if raw = [] \<or> max_tool_schema_bytes < length raw then Inl SchemaTooLarge
      else case decode_single raw of Inl e \<Rightarrow> Inl e
      | Inr decoded0 \<Rightarrow>
         let decoded = (case decoded0 of None \<Rightarrow> [] | Some fs \<Rightarrow> with_default_type fs) in
         if requireObject \<and> \<not> schema_allows_type decoded ''object'' then Inl SchemaRootNotObject
         else case validate_schema_node rx decoded (Suc max_schema_depth) decoded of
             Some e \<Rightarrow> Inl e
           | None \<Rightarrow> (case marshal (case decoded0 of None \<Rightarrow> JNull | Some _ \<Rightarrow> JObj decoded) of
               None \<Rightarrow> Inl SchemaNotEncodable | Some c \<Rightarrow> Inr (c, decoded)))"

section \<open>Validation of arguments\<close>

datatype mismatch =
    TooNested | BadReference | NoAllowedSchema | NotExactlyOne | NotInEnum | NotConstant | WrongType
  | RequiredMissing string | PropertyNotAllowed string | TooFewProperties | TooManyProperties
  | TooFewItems | TooManyItems | TooShort | TooLong | BadFormat | NotNumeric | NotInteger
  | BelowMinimum | AboveMaximum | BelowExclusiveMinimum | AboveExclusiveMaximum

datatype path_part = Prop string | Index nat

type_synonym mismatch_at = "path_part list \<times> mismatch"

definition matches_type :: "json \<Rightarrow> string \<Rightarrow> bool" where
  "matches_type v expected \<longleftrightarrow>
     (expected = ''null'' \<and> v = JNull) \<or>
     (expected = ''object'' \<and> (case v of JObj _ \<Rightarrow> True | _ \<Rightarrow> False)) \<or>
     (expected = ''array'' \<and> (case v of JArr _ \<Rightarrow> True | _ \<Rightarrow> False)) \<or>
     (expected = ''string'' \<and> (case v of JStr _ \<Rightarrow> True | _ \<Rightarrow> False)) \<or>
     (expected = ''boolean'' \<and> (case v of JBool _ \<Rightarrow> True | _ \<Rightarrow> False)) \<or>
     (expected = ''number'' \<and> number_value v \<noteq> None) \<or>
     (expected = ''integer'' \<and> (case number_value v of Some x \<Rightarrow> integral x | None \<Rightarrow> False))"

definition matches_types :: "json \<Rightarrow> string list \<Rightarrow> bool" where
  "matches_types v ts \<longleftrightarrow> (\<exists>t \<in> set ts. matches_type v t)"

definition at_least :: "json option \<Rightarrow> nat \<Rightarrow> bool" where
  "at_least kw n = (case integer_keyword kw of None \<Rightarrow> True | Some m \<Rightarrow> m \<le> int n)"

definition at_most :: "json option \<Rightarrow> nat \<Rightarrow> bool" where
  "at_most kw n = (case integer_keyword kw of None \<Rightarrow> True | Some m \<Rightarrow> int n \<le> m)"

definition validate_string :: "rx_compiler \<Rightarrow> path_part list \<Rightarrow> string \<Rightarrow> fields \<Rightarrow> mismatch_at option" where
  "validate_string rx path s sch = first_failure [
     check (at_least (field ''minLength'' sch) (rune_count s)) (path, TooShort),
     check (at_most (field ''maxLength'' sch) (rune_count s)) (path, TooLong),
     (case str_of (field ''pattern'' sch) of None \<Rightarrow> None
      | Some p \<Rightarrow> check (case rx p of None \<Rightarrow> False | Some m \<Rightarrow> m s) (path, BadFormat))]"

definition bound :: "fields \<Rightarrow> string \<Rightarrow> (rat \<Rightarrow> bool) \<Rightarrow> bool" where
  "bound sch kw P = (case Option.bind (field kw sch) number_value of None \<Rightarrow> True | Some b \<Rightarrow> P b)"

definition validate_number :: "path_part list \<Rightarrow> json \<Rightarrow> fields \<Rightarrow> mismatch_at option" where
  "validate_number path v sch = (case number_value v of
     None \<Rightarrow> Some (path, NotNumeric)
   | Some x \<Rightarrow> first_failure [
       check (\<not> (schema_allows_type sch ''integer'' \<and> \<not> schema_allows_type sch ''number'' \<and> \<not> integral x)) (path, NotInteger),
       check (bound sch ''minimum'' (\<lambda>b. b \<le> x)) (path, BelowMinimum),
       check (bound sch ''maximum'' (\<lambda>b. x \<le> b)) (path, AboveMaximum),
       check (bound sch ''exclusiveMinimum'' (\<lambda>b. b < x)) (path, BelowExclusiveMinimum),
       check (bound sch ''exclusiveMaximum'' (\<lambda>b. x < b)) (path, AboveExclusiveMaximum)])"

type_synonym validator = "path_part list \<Rightarrow> json \<Rightarrow> fields \<Rightarrow> mismatch_at option"

definition validate_member :: "validator \<Rightarrow> path_part list \<Rightarrow> fields \<Rightarrow> string \<times> json \<Rightarrow> mismatch_at option" where
  "validate_member child path sch = (\<lambda>(name, v).
     case field name (object_or_nil (field ''properties'' sch)) of
       Some raw \<Rightarrow> child (path @ [Prop name]) v (object_or_nil (Some raw))
     | None \<Rightarrow> (case field ''additionalProperties'' sch of
         Some (JBool b) \<Rightarrow> check b (path, PropertyNotAllowed name)
       | Some (JObj s) \<Rightarrow> child (path @ [Prop name]) v s
       | _ \<Rightarrow> None))"

definition required_names :: "fields \<Rightarrow> string list" where
  "required_names sch = (case string_list (field ''required'' sch) of Inl _ \<Rightarrow> [] | Inr ns \<Rightarrow> ns)"

definition validate_object :: "validator \<Rightarrow> path_part list \<Rightarrow> fields \<Rightarrow> fields \<Rightarrow> mismatch_at option" where
  "validate_object child path value sch = first_failure [
     first_failure (map (\<lambda>name. check (field name value \<noteq> None) (path, RequiredMissing name)) (required_names sch)),
     first_failure (map (validate_member child path sch) value),
     check (at_least (field ''minProperties'' sch) (length value)) (path, TooFewProperties),
     check (at_most (field ''maxProperties'' sch) (length value)) (path, TooManyProperties)]"

definition validate_array :: "validator \<Rightarrow> path_part list \<Rightarrow> json list \<Rightarrow> fields \<Rightarrow> mismatch_at option" where
  "validate_array child path value sch = first_failure [
     check (at_least (field ''minItems'' sch) (length value)) (path, TooFewItems),
     check (at_most (field ''maxItems'' sch) (length value)) (path, TooManyItems),
     (case as_object (field ''items'' sch) of None \<Rightarrow> None
      | Some items \<Rightarrow> first_failure (map (\<lambda>(i, v). child (path @ [Index i]) v items) (enumerate 0 value)))]"

definition by_kind :: "rx_compiler \<Rightarrow> validator \<Rightarrow> validator" where
  "by_kind rx child path v sch = (case v of
     JObj fs \<Rightarrow> validate_object child path fs sch
   | JArr xs \<Rightarrow> validate_array child path xs sch
   | JStr s \<Rightarrow> validate_string rx path s sch
   | JNum _ \<Rightarrow> validate_number path v sch
   | _ \<Rightarrow> None)"

definition check_value :: "rx_compiler \<Rightarrow> fields \<Rightarrow> validator \<Rightarrow> validator" where
  "check_value rx doc child path v sch = (case str_of (field ''$ref'' sch) of
     Some r \<Rightarrow> (case resolve_local_ref doc r of
        None \<Rightarrow> Some (path, BadReference) | Some resolved \<Rightarrow> child path v resolved)
   | None \<Rightarrow> first_failure [
       (case arr_of (field ''allOf'' sch) of None \<Rightarrow> None
        | Some bs \<Rightarrow> first_failure (map (\<lambda>b. child path v (object_or_nil (Some b))) bs)),
       (case arr_of (field ''anyOf'' sch) of None \<Rightarrow> None
        | Some bs \<Rightarrow> check (list_ex (\<lambda>b. child path v (object_or_nil (Some b)) = None) bs) (path, NoAllowedSchema)),
       (case arr_of (field ''oneOf'' sch) of None \<Rightarrow> None
        | Some bs \<Rightarrow> check (length (filter (\<lambda>b. child path v (object_or_nil (Some b)) = None) bs) = 1) (path, NotExactlyOne)),
       (case arr_of (field ''enum'' sch) of None \<Rightarrow> None
        | Some cs \<Rightarrow> check (list_ex (same_json v) cs) (path, NotInEnum)),
       (case field ''const'' sch of None \<Rightarrow> None | Some c \<Rightarrow> check (same_json v c) (path, NotConstant)),
       check (schema_types sch = [] \<or> matches_types v (schema_types sch)) (path, WrongType),
       by_kind rx child path v sch])"

primrec validate_json_value :: "rx_compiler \<Rightarrow> fields \<Rightarrow> nat \<Rightarrow> validator" where
  "validate_json_value rx doc 0 = (\<lambda>path v sch. Some (path, TooNested))"
| "validate_json_value rx doc (Suc n) = check_value rx doc (validate_json_value rx doc n)"

datatype argument_error = ArgumentsTooLarge | SchemaUnavailable | ArgumentsMismatch mismatch_at

definition validate_arguments :: "rx_compiler \<Rightarrow> string \<Rightarrow> fields \<Rightarrow> argument_error option" where
  "validate_arguments rx inputSchema arguments = (case marshal (JObj arguments) of
     None \<Rightarrow> Some ArgumentsTooLarge
   | Some encoded \<Rightarrow> if max_arguments_bytes < length encoded then Some ArgumentsTooLarge
       else case decode_object inputSchema of
         None \<Rightarrow> Some SchemaUnavailable
       | Some (doc0, _) \<Rightarrow>
           let doc = (case doc0 of None \<Rightarrow> [] | Some fs \<Rightarrow> fs) in
           map_option ArgumentsMismatch
             (validate_json_value rx doc (Suc max_schema_depth) [] (JObj arguments) doc))"

section \<open>What acceptance means\<close>

text \<open>
  The reference: which values a schema describes, without paths, error kinds or an order of
  checks. \<open>sub\<close> says the same one level deeper.
\<close>

definition member_allowed :: "(json \<Rightarrow> fields \<Rightarrow> bool) \<Rightarrow> fields \<Rightarrow> string \<times> json \<Rightarrow> bool" where
  "member_allowed sub sch = (\<lambda>(name, v).
     case field name (object_or_nil (field ''properties'' sch)) of
       Some raw \<Rightarrow> sub v (object_or_nil (Some raw))
     | None \<Rightarrow> field ''additionalProperties'' sch \<noteq> Some (JBool False) \<and>
         (\<forall>s. field ''additionalProperties'' sch = Some (JObj s) \<longrightarrow> sub v s))"

definition shape_ok :: "rx_compiler \<Rightarrow> (json \<Rightarrow> fields \<Rightarrow> bool) \<Rightarrow> json \<Rightarrow> fields \<Rightarrow> bool" where
  "shape_ok rx sub v sch = (case v of
     JObj fs \<Rightarrow> set (required_names sch) \<subseteq> fst ` set fs \<and> (\<forall>m \<in> set fs. member_allowed sub sch m) \<and>
       at_least (field ''minProperties'' sch) (length fs) \<and> at_most (field ''maxProperties'' sch) (length fs)
   | JArr xs \<Rightarrow> at_least (field ''minItems'' sch) (length xs) \<and> at_most (field ''maxItems'' sch) (length xs) \<and>
       (\<forall>items. as_object (field ''items'' sch) = Some items \<longrightarrow> (\<forall>x \<in> set xs. sub x items))
   | JStr s \<Rightarrow> validate_string rx [] s sch = None
   | JNum _ \<Rightarrow> validate_number [] v sch = None
   | _ \<Rightarrow> True)"

definition describes :: "rx_compiler \<Rightarrow> fields \<Rightarrow> (json \<Rightarrow> fields \<Rightarrow> bool) \<Rightarrow> json \<Rightarrow> fields \<Rightarrow> bool" where
  "describes rx doc sub v sch = (case str_of (field ''$ref'' sch) of
     Some r \<Rightarrow> (\<exists>resolved. resolve_local_ref doc r = Some resolved \<and> sub v resolved)
   | None \<Rightarrow>
       (\<forall>bs. arr_of (field ''allOf'' sch) = Some bs \<longrightarrow> (\<forall>b \<in> set bs. sub v (object_or_nil (Some b)))) \<and>
       (\<forall>bs. arr_of (field ''anyOf'' sch) = Some bs \<longrightarrow> (\<exists>b \<in> set bs. sub v (object_or_nil (Some b)))) \<and>
       (\<forall>bs. arr_of (field ''oneOf'' sch) = Some bs \<longrightarrow> length (filter (\<lambda>b. sub v (object_or_nil (Some b))) bs) = 1) \<and>
       (\<forall>cs. arr_of (field ''enum'' sch) = Some cs \<longrightarrow> (\<exists>c \<in> set cs. same_json v c)) \<and>
       (\<forall>c. field ''const'' sch = Some c \<longrightarrow> same_json v c) \<and>
       (schema_types sch = [] \<or> matches_types v (schema_types sch)) \<and>
       shape_ok rx sub v sch)"

primrec conforms :: "rx_compiler \<Rightarrow> fields \<Rightarrow> nat \<Rightarrow> json \<Rightarrow> fields \<Rightarrow> bool" where
  "conforms rx doc 0 = (\<lambda>v sch. False)"
| "conforms rx doc (Suc n) = describes rx doc (conforms rx doc n)"

lemma field_None: "field k fs = None \<longleftrightarrow> k \<notin> fst ` set fs"
  by (auto simp: field_def map_of_eq_None_iff)

lemma validate_string_path: "validate_string rx p s sch = None \<longleftrightarrow> validate_string rx q s sch = None"
  by (auto simp: validate_string_def split: option.splits)

lemma validate_number_path: "validate_number p v sch = None \<longleftrightarrow> validate_number q v sch = None"
  by (auto simp: validate_number_def split: option.splits)

lemma set_enumerate_values: "(\<forall>(i, x) \<in> set (enumerate n xs). P x) \<longleftrightarrow> (\<forall>x \<in> set xs. P x)"
  by (induction xs arbitrary: n) (auto simp: enumerate_simps)

lemma validate_member_allowed:
  assumes "\<And>p v s. child p v s = None \<longleftrightarrow> sub v s"
  shows "validate_member child path sch m = None \<longleftrightarrow> member_allowed sub sch m"
  by (cases m) (auto simp: validate_member_def member_allowed_def assms split: option.splits json.splits)

lemma by_kind_shape:
  assumes sub: "\<And>p v s. child p v s = None \<longleftrightarrow> sub v s"
  shows "by_kind rx child path v sch = None \<longleftrightarrow> shape_ok rx sub v sch"
proof (cases v)
  case (JObj fs)
  show ?thesis
    by (auto simp: JObj by_kind_def validate_object_def shape_ok_def field_None
        validate_member_allowed [OF sub])
next
  case (JArr xs)
  have "(\<forall>c \<in> set (map (\<lambda>(i, x). child (path @ [Index i]) x items) (enumerate 0 xs)). c = None) \<longleftrightarrow> (\<forall>x \<in> set xs. sub x items)" for items
    using set_enumerate_values [of 0 xs "\<lambda>x. sub x items"] by (auto simp: sub split_beta)
  then show ?thesis
    by (auto simp: JArr by_kind_def validate_array_def shape_ok_def split: option.splits)
next
  case (JStr s)
  then show ?thesis using validate_string_path [of rx path s sch "[]"] by (simp add: by_kind_def shape_ok_def)
next
  case (JNum x)
  then show ?thesis using validate_number_path [of path v sch "[]"] by (simp add: by_kind_def shape_ok_def)
qed (simp_all add: by_kind_def shape_ok_def)

lemma check_value_describes:
  assumes sub: "\<And>p v s. child p v s = None \<longleftrightarrow> sub v s"
  shows "check_value rx doc child path v sch = None \<longleftrightarrow> describes rx doc sub v sch"
proof (cases "str_of (field ''$ref'' sch)")
  case (Some r)
  then show ?thesis by (auto simp: check_value_def describes_def sub split: option.splits)
next
  case None
  have all: "(case x of None \<Rightarrow> None | Some bs \<Rightarrow> f bs) = None \<longleftrightarrow> (\<forall>bs. x = Some bs \<longrightarrow> f bs = None)" for x :: "'b option" and f :: "'b \<Rightarrow> 'c option"
    by (cases x) auto
  show ?thesis
    unfolding check_value_def describes_def None option.case by (simp add: all by_kind_shape [OF sub] list_ex_iff sub)
qed

lemma validate_conforms:
  "validate_json_value rx doc n path v sch = None \<longleftrightarrow> conforms rx doc n v sch"
proof (induction n arbitrary: path v sch)
  case (Suc n)
  show ?case using check_value_describes [of "validate_json_value rx doc n" "conforms rx doc n", OF Suc] by simp
qed simp

lemma conforms_order:
  assumes perm: "mset fs = mset gs" and keys: "distinct (map fst fs)"
  shows "conforms rx doc n (JObj fs) sch \<longleftrightarrow> conforms rx doc n (JObj gs) sch"
proof (induction n arbitrary: sch)
  case (Suc n)
  have same: "same_json (JObj fs) c \<longleftrightarrow> same_json (JObj gs) c" for c
    by (simp only: same_json_def marshal_order [OF perm keys])
  have shape: "shape_ok rx sub (JObj fs) sch \<longleftrightarrow> shape_ok rx sub (JObj gs) sch" for sub
    by (simp add: shape_ok_def mset_eq_setD [OF perm] mset_eq_length [OF perm])
  have types: "matches_types (JObj fs) ts \<longleftrightarrow> matches_types (JObj gs) ts" for ts
    by (simp add: matches_types_def matches_type_def number_value_def)
  show ?case by (simp add: describes_def same shape types Suc split: option.split)
qed simp


text \<open>Whether a call's arguments are accepted does not depend on the order in which the map of
  arguments is walked, although the code reports the first mismatch of that walk.
\<close>

lemma argument_order_irrelevant:
  assumes "mset fs = mset gs" and "distinct (map fst fs)"
  shows "validate_arguments rx schema fs = None \<longleftrightarrow> validate_arguments rx schema gs = None"
  using marshal_order [OF assms] conforms_order [OF assms]
  by (simp del: marshal.simps validate_json_value.simps conforms.simps
      add: validate_arguments_def validate_conforms Let_def split: option.split prod.split)

lemma argument_order_irrelevant_witness:
  "validate_arguments (\<lambda>_. None) ''null'' [(''b'', JNull), (''a'', JBool True)] = None \<longleftrightarrow>
   validate_arguments (\<lambda>_. None) ''null'' [(''a'', JBool True), (''b'', JNull)] = None"
  by (rule argument_order_irrelevant) simp_all

text \<open>What the caller of a tool may rely on once \<open>ValidateArguments\<close> has returned nil.\<close>

lemma accepted_arguments:
  assumes ok: "validate_arguments rx schema args = None"
    and doc: "decode_object schema = Some (Some sch, rest)" and plain: "str_of (field ''$ref'' sch) = None"
  shows "set (required_names sch) \<subseteq> fst ` set args"
    and "field ''additionalProperties'' sch = Some (JBool False) \<Longrightarrow>
      fst ` set args \<subseteq> fst ` set (object_or_nil (field ''properties'' sch))"
proof -
  have "conforms rx sch (Suc max_schema_depth) (JObj args) sch"
    using ok doc by (auto simp del: marshal.simps validate_json_value.simps conforms.simps
        simp: validate_arguments_def validate_conforms split: option.splits if_splits)
  then have shape: "shape_ok rx (conforms rx sch max_schema_depth) (JObj args) sch"
    using plain by (simp add: describes_def)
  then show "set (required_names sch) \<subseteq> fst ` set args" by (simp add: shape_ok_def)
  assume closed: "field ''additionalProperties'' sch = Some (JBool False)"
  have "fst m \<in> fst ` set (object_or_nil (field ''properties'' sch))" if "m \<in> set args" for m
  proof -
    have "member_allowed (conforms rx sch max_schema_depth) sch m" using shape that by (simp add: shape_ok_def)
    then show ?thesis using closed
      by (auto simp: member_allowed_def field_def split: option.splits prod.splits dest!: map_of_SomeD) force
  qed
  then show "fst ` set args \<subseteq> fst ` set (object_or_nil (field ''properties'' sch))" by blast
qed

end
