(* ===== verification/McpConfig.thy ===== *)
theory McpConfig
  imports AgentModel McpSchema
begin

text \<open>
  \<open>src/common/mcphub/config.go\<close>, the risk order of \<open>types.go\<close> and the derivation of a
  tool's policy (\<open>convertTool\<close>). The standard library's URL and IP parsers are parameters:
  \<open>parse_url\<close> gives the parts of a URL the code looks at, \<open>loopback_ip\<close> says whether a host
  is a loopback address. A configuration that validates is returned normalised.
\<close>

section \<open>Risk levels\<close>

datatype risk_level = RiskLow | RiskMedium | RiskHigh | RiskCritical | RiskOther string

definition risk_valid :: "risk_level \<Rightarrow> bool" where
  "risk_valid r \<longleftrightarrow> (case r of RiskOther _ \<Rightarrow> False | _ \<Rightarrow> True)"

definition risk_rank :: "risk_level \<Rightarrow> nat" where
  "risk_rank r = (case r of RiskLow \<Rightarrow> 1 | RiskMedium \<Rightarrow> 2 | RiskHigh \<Rightarrow> 3 | RiskCritical \<Rightarrow> 4 | RiskOther _ \<Rightarrow> 0)"

definition max_risk :: "risk_level \<Rightarrow> risk_level \<Rightarrow> risk_level" where
  "max_risk left right = (if risk_rank left < risk_rank right then right else left)"

definition risk_requires_approval :: "risk_level \<Rightarrow> bool" where
  "risk_requires_approval r \<longleftrightarrow> risk_rank RiskMedium \<le> risk_rank r"

definition risk_text :: "risk_level \<Rightarrow> string" where
  "risk_text r = (case r of RiskLow \<Rightarrow> ''low'' | RiskMedium \<Rightarrow> ''medium'' | RiskHigh \<Rightarrow> ''high''
     | RiskCritical \<Rightarrow> ''critical'' | RiskOther s \<Rightarrow> s)"

section \<open>Configuration\<close>

record credential_reference =
  cr_env :: string
  cr_header :: string
  cr_scheme :: string

record server_config =
  sc_id :: string
  sc_url :: string
  sc_enabled :: bool
  sc_timeout_ms :: int
  sc_allow_insecure :: bool
  sc_credential :: "credential_reference option"
  sc_tool_allowlist :: "string list"
  sc_read_only_tools :: "string list"
  sc_approval_required_tools :: "string list"
  sc_risk_levels :: "(string \<times> risk_level) list"
  sc_max_read_only_retries :: int

record hub_config =
  hc_service_allowlist :: "string list"
  hc_approval_ttl_seconds :: int
  hc_servers :: "server_config list"

datatype config_error =
    TooManyServers | BadApprovalTTL | BadServiceAllowlist | BadServerID | DuplicateServerID string
  | BadTimeout | BadRetries | BadURL | BadURLScheme | URLCredentials | URLFragment | InsecureURL
  | SensitiveURLQuery | BadToolAllowlist | EmptyToolAllowlist | TooManyTools | BadReadOnlyTools
  | BadApprovalTools | ReadOnlyNotAllowlisted | ApprovalNotAllowlisted | BadRiskTool
  | RiskNotAllowlisted | BadRiskLevel | BadCredentialEnv | BadCredentialHeader | BadCredentialScheme
  | UnconfiguredService

record parsed_url =
  u_scheme :: string
  u_host :: string
  u_hostname :: string
  u_has_user :: bool
  u_fragment :: string
  u_query_names :: "string list"
  u_text :: string

record url_library =
  parse_url :: "string \<Rightarrow> parsed_url option"
  loopback_ip :: "string \<Rightarrow> bool"

section \<open>Fallible pure computations\<close>

definition and_then :: "'e + 'a \<Rightarrow> ('a \<Rightarrow> 'e + 'b) \<Rightarrow> 'e + 'b" where
  "and_then m f = (case m of Inl e \<Rightarrow> Inl e | Inr x \<Rightarrow> f x)"

definition require :: "bool \<Rightarrow> 'e \<Rightarrow> 'e + unit" where
  "require b e = (if b then Inr () else Inl e)"

lemma and_then_Inr [simp]: "and_then m f = Inr y \<longleftrightarrow> (\<exists>x. m = Inr x \<and> f x = Inr y)"
  by (simp add: and_then_def split: sum.splits)

lemma require_Inr [simp]: "require b e = Inr u \<longleftrightarrow> b"
  by (simp add: require_def)

section \<open>Name patterns\<close>

definition server_id_pattern :: rx where
  "server_id_pattern = RxSeq (RxSet ascii_alnum) (rx_upto 62 (RxSet (\<lambda>c. ascii_alnum c \<or> c = 95 \<or> c = 45)))"

definition env_name_pattern :: rx where
  "env_name_pattern = RxSeq (RxSet (\<lambda>c. ascii_letter c \<or> c = 95)) (RxStar (RxSet (\<lambda>c. ascii_alnum c \<or> c = 95)))"

definition tool_name_pattern :: rx where
  "tool_name_pattern = RxSeq (RxSet ascii_alnum)
     (rx_upto 127 (RxSet (\<lambda>c. ascii_alnum c \<or> c = 95 \<or> c = 46 \<or> c = 58 \<or> c = 45)))"

definition scheme_pattern :: rx where
  "scheme_pattern = RxSeq (RxSet ascii_letter)
     (rx_upto 31 (RxSet (\<lambda>c. ascii_alnum c \<or> c = 46 \<or> c = 95 \<or> c = 45)))"

definition dash_under :: rx where
  "dash_under = rx_opt (RxSet (\<lambda>c. c = 45 \<or> c = 95))"

definition sensitive_name_pattern :: rx where
  "sensitive_name_pattern = rx_alts [
     RxSeq (rx_word ''api'') (RxSeq dash_under (rx_word ''key'')), rx_word ''secret'', rx_word ''token'',
     rx_word ''password'', rx_word ''passwd'', rx_word ''authorization'', rx_word ''cookie'',
     rx_word ''credential'', RxSeq (rx_word ''private'') (RxSeq dash_under (rx_word ''key'')),
     RxSeq (rx_word ''access'') (RxSeq dash_under (rx_word ''key''))]"

definition sensitive_key :: "string \<Rightarrow> bool" where
  "sensitive_key key = rx_search sensitive_name_pattern (trim_space key)"

definition validate_server_id :: "string \<Rightarrow> bool" where
  "validate_server_id value = rx_full server_id_pattern value"

definition validate_tool_name :: "string \<Rightarrow> bool" where
  "validate_tool_name value = rx_full tool_name_pattern (trim_space value)"

section \<open>Sets of names\<close>

definition normalized_set :: "string list \<Rightarrow> (string \<Rightarrow> bool) \<Rightarrow> config_error \<Rightarrow> config_error + string list" where
  "normalized_set values validator e =
     (let names = map trim_space values
      in if list_all validator names then Inr (remdups names) else Inl e)"

definition sorted_keys :: "string list \<Rightarrow> string list" where
  "sorted_keys names = sort (remdups names)"

text \<open>\<open>sort.SearchStrings\<close>: the loop of \<open>sort.Search\<close>, then the test of \<open>contains\<close>.\<close>

function search_strings :: "string list \<Rightarrow> string \<Rightarrow> nat \<Rightarrow> nat \<Rightarrow> nat" where
  "search_strings xs x i j =
    (if i < j then
       (let h = (i + j) div 2
        in if xs ! h < x then search_strings xs x (Suc h) j else search_strings xs x i h)
     else i)"
  by pat_completeness auto
termination
  by (relation "measure (\<lambda>(xs, x, i, j). j - i)") auto

declare search_strings.simps [simp del]

definition contains :: "string list \<Rightarrow> string \<Rightarrow> bool" where
  "contains values target =
     (let index = search_strings values target 0 (length values)
      in index < length values \<and> values ! index = target)"

definition server_allowed :: "hub_config \<Rightarrow> string \<Rightarrow> bool" where
  "server_allowed config i = contains (hc_service_allowlist config) i"

definition tool_allowed :: "server_config \<Rightarrow> string \<Rightarrow> bool" where
  "tool_allowed server name = contains (sc_tool_allowlist server) name"

definition tool_read_only :: "server_config \<Rightarrow> string \<Rightarrow> bool" where
  "tool_read_only server name = contains (sc_read_only_tools server) name"

definition tool_approval_required :: "server_config \<Rightarrow> string \<Rightarrow> bool" where
  "tool_approval_required server name = contains (sc_approval_required_tools server) name"

section \<open>Validation of a server\<close>

definition default_timeout_ms :: int where "default_timeout_ms = 10000"
definition default_approval_ttl :: time where "default_approval_ttl = 5 * minute"
definition max_servers :: nat where "max_servers = 32"
definition max_tools_per_server :: nat where "max_tools_per_server = 256"
definition max_read_only_retry_count :: int where "max_read_only_retry_count = 2"

definition trim_suffix_dot :: "string \<Rightarrow> string" where
  "trim_suffix_dot s = (if s \<noteq> [] \<and> last s = CHR ''.'' then butlast s else s)"

definition is_loopback_host :: "url_library \<Rightarrow> string \<Rightarrow> bool" where
  "is_loopback_host lib host0 = (let host = trim_suffix_dot (to_lower (trim_space host0))
     in host = ''localhost'' \<or> loopback_ip lib host)"

definition header_char :: "nat \<Rightarrow> bool" where
  "header_char c \<longleftrightarrow> ascii_alnum c \<or> c \<in> set (map byte_of ''!#$%&*+-.^_|~'') \<or> c = 39 \<or> c = 96"

definition valid_header_name :: "string \<Rightarrow> bool" where
  "valid_header_name value \<longleftrightarrow> value \<noteq> [] \<and> list_all header_char (runes value)"

text \<open>\<open>http.CanonicalHeaderKey\<close>: unchanged when it has a byte no token may have.\<close>

definition to_upper_char :: "char \<Rightarrow> char" where
  "to_upper_char c = (let b = byte_of c in if 97 \<le> b \<and> b \<le> 122 then char_of (b - 32) else c)"

fun title_words :: "bool \<Rightarrow> string \<Rightarrow> string" where
  "title_words start [] = []"
| "title_words start (c # s) = (if start then to_upper_char c else to_lower_char c) # title_words (c = CHR ''-'') s"

definition canonical_header_key :: "string \<Rightarrow> string" where
  "canonical_header_key s = (if list_all (\<lambda>c. header_char (byte_of c)) s then title_words True s else s)"

definition validate_credential :: "credential_reference \<Rightarrow> config_error + credential_reference" where
  "validate_credential c0 =
     (let env = trim_space (cr_env c0);
          header = canonical_header_key (trim_space (if cr_header c0 = [] then ''Authorization'' else cr_header c0));
          scheme = trim_space (cr_scheme c0)
      in and_then (require (rx_full env_name_pattern env) BadCredentialEnv) (\<lambda>_.
         and_then (require (valid_header_name header) BadCredentialHeader) (\<lambda>_.
         and_then (require (scheme = [] \<or> rx_full scheme_pattern scheme) BadCredentialScheme) (\<lambda>_.
         Inr (c0\<lparr>cr_env := env, cr_header := header,
           cr_scheme := (if scheme = [] \<and> equal_fold header ''Authorization'' then ''Bearer'' else scheme)\<rparr>)))))"

definition validate_url :: "url_library \<Rightarrow> server_config \<Rightarrow> config_error + string" where
  "validate_url lib server = (case parse_url lib (trim_space (sc_url server)) of
     None \<Rightarrow> Inl BadURL
   | Some u \<Rightarrow>
       and_then (require (u_scheme u \<noteq> [] \<and> u_host u \<noteq> []) BadURL) (\<lambda>_.
       and_then (require (u_scheme u = ''https'' \<or> u_scheme u = ''http'') BadURLScheme) (\<lambda>_.
       and_then (require (\<not> u_has_user u) URLCredentials) (\<lambda>_.
       and_then (require (u_fragment u = []) URLFragment) (\<lambda>_.
       and_then (require (\<not> (u_scheme u = ''http'' \<and> \<not> sc_allow_insecure server \<and>
          \<not> is_loopback_host lib (u_hostname u))) InsecureURL) (\<lambda>_.
       and_then (require (\<not> list_ex sensitive_key (u_query_names u)) SensitiveURLQuery) (\<lambda>_.
       Inr (u_text u))))))))"

fun check_risk_levels :: "string list \<Rightarrow> (string \<times> risk_level) list \<Rightarrow> config_error + unit" where
  "check_risk_levels allow [] = Inr ()"
| "check_risk_levels allow ((name, risk) # rest) =
     and_then (require (validate_tool_name name) BadRiskTool) (\<lambda>_.
     and_then (require (name \<in> set allow) RiskNotAllowlisted) (\<lambda>_.
     and_then (require (risk_valid risk) BadRiskLevel) (\<lambda>_. check_risk_levels allow rest)))"

definition validate_server_config :: "url_library \<Rightarrow> server_config \<Rightarrow> config_error + server_config" where
  "validate_server_config lib server0 =
     (let server = server0\<lparr>sc_timeout_ms := (if sc_timeout_ms server0 = 0 then default_timeout_ms else sc_timeout_ms server0)\<rparr>
      in and_then (require (100 \<le> sc_timeout_ms server \<and> sc_timeout_ms server \<le> 120000) BadTimeout) (\<lambda>_.
         and_then (require (0 \<le> sc_max_read_only_retries server \<and>
            sc_max_read_only_retries server \<le> max_read_only_retry_count) BadRetries) (\<lambda>_.
         and_then (validate_url lib server) (\<lambda>url.
         and_then (normalized_set (sc_tool_allowlist server) validate_tool_name BadToolAllowlist) (\<lambda>allow.
         and_then (require (\<not> (sc_enabled server \<and> allow = [])) EmptyToolAllowlist) (\<lambda>_.
         and_then (require (length allow \<le> max_tools_per_server) TooManyTools) (\<lambda>_.
         and_then (normalized_set (sc_read_only_tools server) validate_tool_name BadReadOnlyTools) (\<lambda>readOnly.
         and_then (normalized_set (sc_approval_required_tools server) validate_tool_name BadApprovalTools) (\<lambda>approval.
         and_then (require (set readOnly \<subseteq> set allow) ReadOnlyNotAllowlisted) (\<lambda>_.
         and_then (require (set approval \<subseteq> set allow) ApprovalNotAllowlisted) (\<lambda>_.
         and_then (check_risk_levels allow (sc_risk_levels server)) (\<lambda>_.
         and_then (case sc_credential server of None \<Rightarrow> Inr None
            | Some c \<Rightarrow> and_then (validate_credential c) (\<lambda>c'. Inr (Some c'))) (\<lambda>credential.
         Inr (server\<lparr>sc_url := url, sc_tool_allowlist := sorted_keys allow,
            sc_read_only_tools := sorted_keys readOnly, sc_approval_required_tools := sorted_keys approval,
            sc_credential := credential\<rparr>))))))))))))))"

fun validate_servers :: "url_library \<Rightarrow> string list \<Rightarrow> server_config list \<Rightarrow> config_error + server_config list" where
  "validate_servers lib seen [] = Inr []"
| "validate_servers lib seen (server0 # rest) =
     (let server = server0\<lparr>sc_id := trim_space (sc_id server0)\<rparr>
      in and_then (require (validate_server_id (sc_id server)) BadServerID) (\<lambda>_.
         and_then (require (sc_id server \<notin> set seen) (DuplicateServerID (sc_id server))) (\<lambda>_.
         and_then (validate_server_config lib server) (\<lambda>server'.
         and_then (validate_servers lib (sc_id server # seen) rest) (\<lambda>servers'.
         Inr (server' # servers'))))))"

definition validate_config :: "url_library \<Rightarrow> hub_config \<Rightarrow> config_error + hub_config" where
  "validate_config lib config =
     and_then (require (length (hc_servers config) \<le> max_servers) TooManyServers) (\<lambda>_.
     and_then (require (0 \<le> hc_approval_ttl_seconds config \<and> hc_approval_ttl_seconds config \<le> 1800) BadApprovalTTL) (\<lambda>_.
     and_then (normalized_set (hc_service_allowlist config) validate_server_id BadServiceAllowlist) (\<lambda>allowed.
     and_then (validate_servers lib [] (hc_servers config)) (\<lambda>servers.
     and_then (require (set allowed \<subseteq> sc_id ` set servers) UnconfiguredService) (\<lambda>_.
     Inr (config\<lparr>hc_service_allowlist := sorted_keys allowed, hc_servers := servers\<rparr>))))))"

definition approval_ttl :: "hub_config \<Rightarrow> time" where
  "approval_ttl config = (if hc_approval_ttl_seconds config \<le> 0 then default_approval_ttl
     else hc_approval_ttl_seconds config * second)"

section \<open>Tools\<close>

record tool_definition =
  td_name :: string
  td_server :: string
  td_upstream :: string
  td_description :: string
  td_input_schema :: string
  td_output_schema :: string
  td_read_only :: bool
  td_idempotent :: bool
  td_destructive :: bool
  td_open_world :: bool
  td_risk :: risk_level
  td_requires_approval :: bool

text \<open>What a server reports of a tool; the structured schemas are given by their JSON encoding.\<close>

record upstream_tool =
  ut_name :: string
  ut_description :: string
  ut_raw_input :: string
  ut_input_type :: string
  ut_input_json :: "string option"
  ut_raw_output :: string
  ut_output_type :: string
  ut_output_json :: "string option"
  ut_destructive_hint :: "bool option"
  ut_idempotent_hint :: "bool option"
  ut_open_world_hint :: "bool option"

datatype tool_error = BadToolName | BothSchemas | SchemaMarshal | InputSchema schema_error | OutputSchema schema_error

definition mcp_input_schema :: "upstream_tool \<Rightarrow> tool_error + string" where
  "mcp_input_schema t = (if ut_raw_input t \<noteq> [] then
       (if ut_input_type t \<noteq> [] then Inl BothSchemas else Inr (ut_raw_input t))
     else (case ut_input_json t of None \<Rightarrow> Inl SchemaMarshal | Some s \<Rightarrow> Inr s))"

definition wrap_error :: "('e \<Rightarrow> 'd) \<Rightarrow> 'e + 'a \<Rightarrow> 'd + 'a" where
  "wrap_error f r = (case r of Inl e \<Rightarrow> Inl (f e) | Inr x \<Rightarrow> Inr x)"

definition mcp_output_schema :: "rx_compiler \<Rightarrow> upstream_tool \<Rightarrow> tool_error + string" where
  "mcp_output_schema rx t =
     (if ut_raw_output t \<noteq> [] then wrap_error OutputSchema (and_then (normalize_schema rx (ut_raw_output t) False) (Inr \<circ> fst))
      else if ut_output_type t \<noteq> [] then (case ut_output_json t of None \<Rightarrow> Inl SchemaMarshal
        | Some s \<Rightarrow> wrap_error OutputSchema (and_then (normalize_schema rx s False) (Inr \<circ> fst)))
      else Inr [])"

definition tool_risk :: "server_config \<Rightarrow> string \<Rightarrow> bool \<Rightarrow> bool \<Rightarrow> risk_level" where
  "tool_risk server name readOnly destructive =
     (let r0 = (if readOnly then RiskLow else RiskMedium);
          r1 = (case map_of (sc_risk_levels server) name of Some configured \<Rightarrow> configured | None \<Rightarrow> r0)
      in if destructive then max_risk r1 RiskHigh else r1)"

definition convert_tool :: "rx_compiler \<Rightarrow> server_config \<Rightarrow> upstream_tool \<Rightarrow> tool_error + tool_definition" where
  "convert_tool rx server t =
     and_then (require (validate_tool_name (ut_name t)) BadToolName) (\<lambda>_.
     and_then (mcp_input_schema t) (\<lambda>raw.
     and_then (wrap_error InputSchema (normalize_schema rx raw True)) (\<lambda>(input, inputMap).
     and_then (mcp_output_schema rx t) (\<lambda>output.
       let readOnly = tool_read_only server (ut_name t);
           destructive = (\<not> readOnly \<and> ut_destructive_hint t = Some True);
           risk = tool_risk server (ut_name t) readOnly destructive
       in case validate_schema_node rx inputMap (Suc max_schema_depth) inputMap of
            Some e \<Rightarrow> Inl (InputSchema e)
          | None \<Rightarrow> Inr \<lparr>td_name = sc_id server @ ''.'' @ ut_name t, td_server = sc_id server,
              td_upstream = ut_name t, td_description = trim_space (ut_description t),
              td_input_schema = input, td_output_schema = output, td_read_only = readOnly,
              td_idempotent = (ut_idempotent_hint t = Some True), td_destructive = destructive,
              td_open_world = (ut_open_world_hint t = Some True), td_risk = risk,
              td_requires_approval = (risk_requires_approval risk \<or> tool_approval_required server (ut_name t))\<rparr>))))"

section \<open>Membership by binary search\<close>

lemma search_end: "\<not> i < j \<Longrightarrow> search_strings xs x i j = i"
  by (simp add: search_strings.simps)

lemma search_step:
  "i < j \<Longrightarrow> search_strings xs x i j =
    (if xs ! ((i + j) div 2) < x then search_strings xs x (Suc ((i + j) div 2)) j else search_strings xs x i ((i + j) div 2))"
  by (subst search_strings.simps) (simp add: Let_def)

text \<open>Everything before the index is smaller, nothing from it on is.\<close>

lemma search_strings_split:
  assumes "sorted xs" and "i \<le> j" and "j \<le> length xs"
    and "\<forall>k < i. xs ! k < x" and "\<forall>k < length xs. j \<le> k \<longrightarrow> \<not> xs ! k < x"
  shows "(\<forall>k < search_strings xs x i j. xs ! k < x) \<and>
     (\<forall>k < length xs. search_strings xs x i j \<le> k \<longrightarrow> \<not> xs ! k < x)"
  using assms
proof (induction xs x i j rule: search_strings.induct)
  case (1 xs x i j)
  show ?case
  proof (cases "i < j")
    case True
    define h where "h = (i + j) div 2"
    have h: "i \<le> h" "h < j" using True by (auto simp: h_def)
    show ?thesis
    proof (cases "xs ! h < x")
      case small: True
      have pre: "\<forall>k < Suc h. xs ! k < x"
      proof (intro allI impI)
        fix k assume "k < Suc h"
        then have "xs ! k \<le> xs ! h" using 1(3) h 1(5) by (intro sorted_nth_mono) auto
        then show "xs ! k < x" using small by (rule le_less_trans)
      qed
      have eq: "search_strings xs x i j = search_strings xs x (Suc h) j"
        using True small by (simp add: search_step h_def)
      have le: "Suc h \<le> j" using h by simp
      show ?thesis unfolding eq by (rule 1(1) [OF True h_def small 1(3) le 1(5) pre 1(7)])
    next
      case big: False
      have post: "\<forall>k < length xs. h \<le> k \<longrightarrow> \<not> xs ! k < x"
      proof (intro allI impI)
        fix k assume "k < length xs" "h \<le> k"
        then have "xs ! h \<le> xs ! k" using 1(3) by (intro sorted_nth_mono) auto
        then show "\<not> xs ! k < x" using big by (meson le_less_trans)
      qed
      have eq: "search_strings xs x i j = search_strings xs x i h"
        using True big by (simp add: search_step h_def)
      have le: "h \<le> length xs" using h 1(5) by simp
      show ?thesis unfolding eq by (rule 1(2) [OF True h_def big 1(3) h(1) le 1(6) post])
    qed
  next
    case False
    then show ?thesis using 1(4,6,7) by (simp add: search_end)
  qed
qed

text \<open>On a sorted list the binary search decides membership.\<close>

lemma contains_iff_member:
  assumes "sorted xs"
  shows "contains xs x \<longleftrightarrow> x \<in> set xs"
proof -
  let ?i = "search_strings xs x 0 (length xs)"
  have split: "\<forall>k < ?i. xs ! k < x" "\<forall>k < length xs. ?i \<le> k \<longrightarrow> \<not> xs ! k < x"
    using search_strings_split [of xs 0 "length xs" x] assms by auto
  show ?thesis
  proof
    assume "contains xs x"
    then show "x \<in> set xs" unfolding contains_def Let_def by (metis nth_mem)
  next
    assume "x \<in> set xs"
    then obtain k where k: "k < length xs" "xs ! k = x" by (auto simp: in_set_conv_nth)
    then have "?i \<le> k" using split(1) by (metis less_irrefl not_le)
    then have "xs ! ?i \<le> x" using assms k by (metis sorted_nth_mono)
    moreover have "\<not> xs ! ?i < x" using split(2) \<open>?i \<le> k\<close> k by auto
    ultimately show "contains xs x" using \<open>?i \<le> k\<close> k by (auto simp: contains_def Let_def)
  qed
qed

section \<open>What validation establishes\<close>

lemma tool_name_iff:
  "validate_tool_name s \<longleftrightarrow> (case runes (trim_space s) of [] \<Rightarrow> False
     | c # v \<Rightarrow> ascii_alnum c \<and> length v \<le> 127 \<and> list_all (\<lambda>c. ascii_alnum c \<or> c = 95 \<or> c = 46 \<or> c = 58 \<or> c = 45) v)"
  by (auto simp: validate_tool_name_def rx_full_def tool_name_pattern_def accepts_lang lang_head_tail lang_upto_set
      split: list.split)

lemma server_id_iff:
  "validate_server_id s \<longleftrightarrow> (case runes s of [] \<Rightarrow> False
     | c # v \<Rightarrow> ascii_alnum c \<and> length v \<le> 62 \<and> list_all (\<lambda>c. ascii_alnum c \<or> c = 95 \<or> c = 45) v)"
  by (auto simp: validate_server_id_def rx_full_def server_id_pattern_def accepts_lang lang_head_tail lang_upto_set
      split: list.split)

lemmas name_eval = tool_name_iff server_id_iff ascii_def runes_ascii trim_ascii byte_of_def is_space_def
  ascii_alnum_def ascii_letter_def

definition name_list :: "string list \<Rightarrow> bool" where
  "name_list xs \<longleftrightarrow> sorted xs \<and> distinct xs"

definition wf_server :: "server_config \<Rightarrow> bool" where
  "wf_server s \<longleftrightarrow> validate_server_id (sc_id s) \<and> 100 \<le> sc_timeout_ms s \<and> sc_timeout_ms s \<le> 120000 \<and>
     0 \<le> sc_max_read_only_retries s \<and> sc_max_read_only_retries s \<le> max_read_only_retry_count \<and>
     name_list (sc_tool_allowlist s) \<and> name_list (sc_read_only_tools s) \<and> name_list (sc_approval_required_tools s) \<and>
     (sc_enabled s \<longrightarrow> sc_tool_allowlist s \<noteq> []) \<and> length (sc_tool_allowlist s) \<le> max_tools_per_server \<and>
     list_all validate_tool_name (sc_tool_allowlist s) \<and>
     set (sc_read_only_tools s) \<subseteq> set (sc_tool_allowlist s) \<and>
     set (sc_approval_required_tools s) \<subseteq> set (sc_tool_allowlist s) \<and>
     (\<forall>(name, r) \<in> set (sc_risk_levels s). name \<in> set (sc_tool_allowlist s) \<and> risk_valid r)"

definition wf_config :: "hub_config \<Rightarrow> bool" where
  "wf_config c \<longleftrightarrow> name_list (hc_service_allowlist c) \<and> length (hc_servers c) \<le> max_servers \<and>
     0 \<le> hc_approval_ttl_seconds c \<and> hc_approval_ttl_seconds c \<le> 1800 \<and>
     distinct (map sc_id (hc_servers c)) \<and> list_all wf_server (hc_servers c) \<and>
     set (hc_service_allowlist c) \<subseteq> sc_id ` set (hc_servers c)"

lemma name_list_sorted_keys: "name_list (sorted_keys xs)"
  by (simp add: name_list_def sorted_keys_def)

lemma set_sorted_keys [simp]: "set (sorted_keys xs) = set xs"
  by (simp add: sorted_keys_def)

lemma normalized_set_Inr:
  "normalized_set vs P e = Inr xs \<longleftrightarrow> list_all P (map trim_space vs) \<and> xs = remdups (map trim_space vs)"
  by (auto simp: normalized_set_def Let_def)

lemma check_risk_levels_Inr:
  "check_risk_levels allow rs = Inr u \<Longrightarrow> (n, r) \<in> set rs \<Longrightarrow> n \<in> set allow \<and> risk_valid r"
  by (induction allow rs rule: check_risk_levels.induct) auto

lemma length_sorted_keys: "distinct xs \<Longrightarrow> length (sorted_keys xs) = length xs"
  by (simp add: sorted_keys_def distinct_remdups_id)

lemma validate_server_config_cases:
  assumes "validate_server_config lib s = Inr s'"
  obtains allow readOnly approval url credential timeout where
    "s' = s\<lparr>sc_timeout_ms := timeout, sc_url := url, sc_tool_allowlist := sorted_keys allow,
       sc_read_only_tools := sorted_keys readOnly, sc_approval_required_tools := sorted_keys approval,
       sc_credential := credential\<rparr>"
    and "100 \<le> timeout \<and> timeout \<le> 120000"
    and "0 \<le> sc_max_read_only_retries s \<and> sc_max_read_only_retries s \<le> max_read_only_retry_count"
    and "normalized_set (sc_tool_allowlist s) validate_tool_name BadToolAllowlist = Inr allow"
    and "\<not> (sc_enabled s \<and> allow = [])" and "length allow \<le> max_tools_per_server"
    and "set readOnly \<subseteq> set allow" and "set approval \<subseteq> set allow"
    and "check_risk_levels allow (sc_risk_levels s) = Inr ()"
proof -
  show ?thesis
    using assms
    by (simp only: validate_server_config_def Let_def and_then_Inr require_Inr sum.inject(2) ex_simps HOL.ex_simps)
       (elim exE conjE, drule sym, rule that, assumption, simp_all)
qed

lemma validate_server_config_wf:
  assumes "validate_server_config lib s = Inr s'" and "validate_server_id (sc_id s)"
  shows "wf_server s' \<and> sc_id s' = sc_id s"
  using assms(1)
proof (rule validate_server_config_cases)
  fix allow readOnly approval url credential timeout
  assume s': "s' = s\<lparr>sc_timeout_ms := timeout, sc_url := url, sc_tool_allowlist := sorted_keys allow,
       sc_read_only_tools := sorted_keys readOnly, sc_approval_required_tools := sorted_keys approval,
       sc_credential := credential\<rparr>"
    and ranges: "100 \<le> timeout \<and> timeout \<le> 120000"
      "0 \<le> sc_max_read_only_retries s \<and> sc_max_read_only_retries s \<le> max_read_only_retry_count"
    and allow: "normalized_set (sc_tool_allowlist s) validate_tool_name BadToolAllowlist = Inr allow"
    and sizes: "\<not> (sc_enabled s \<and> allow = [])" "length allow \<le> max_tools_per_server"
    and subs: "set readOnly \<subseteq> set allow" "set approval \<subseteq> set allow"
    and risks: "check_risk_levels allow (sc_risk_levels s) = Inr ()"
  have names: "list_all validate_tool_name allow" "distinct allow"
    using allow by (auto simp: normalized_set_Inr list_all_iff)
  have risks': "\<forall>(n, r) \<in> set (sc_risk_levels s). n \<in> set allow \<and> risk_valid r"
    using check_risk_levels_Inr [OF risks] by blast
  have "sorted_keys allow \<noteq> [] \<longleftrightarrow> allow \<noteq> []" by (metis set_sorted_keys set_empty)
  then show ?thesis
    using s' ranges sizes subs names assms(2) risks'
    by (auto simp: wf_server_def name_list_sorted_keys length_sorted_keys list_all_iff)
qed

lemma validate_servers_wf:
  "validate_servers lib seen ss = Inr ss' \<Longrightarrow>
   list_all wf_server ss' \<and> distinct (map sc_id ss') \<and> sc_id ` set ss' \<inter> set seen = {} \<and> length ss' = length ss"
proof (induction lib seen ss arbitrary: ss' rule: validate_servers.induct)
  case (2 lib seen s rest)
  let ?s = "s\<lparr>sc_id := trim_space (sc_id s)\<rparr>"
  from "2.prems" obtain s' rest' where
    id: "validate_server_id (sc_id ?s)" "sc_id ?s \<notin> set seen" and s': "validate_server_config lib ?s = Inr s'"
    and rest: "validate_servers lib (sc_id ?s # seen) rest = Inr rest'" and ss': "ss' = s' # rest'"
    by (auto simp: Let_def)
  have "list_all wf_server rest' \<and> distinct (map sc_id rest') \<and> sc_id ` set rest' \<inter> set (sc_id ?s # seen) = {} \<and> length rest' = length rest"
    using "2.IH" [of ?s] id s' rest by auto
  moreover have "wf_server s' \<and> sc_id s' = sc_id ?s" using validate_server_config_wf [OF s'] id by auto
  ultimately show ?case using id ss' by auto
qed simp

lemma validate_config_wf:
  assumes "validate_config lib c = Inr c'"
  shows "wf_config c' \<and> (server_allowed c' i \<longleftrightarrow> i \<in> trim_space ` set (hc_service_allowlist c))"
proof -
  obtain servers where v: "validate_servers lib [] (hc_servers c) = Inr servers"
    and c': "c' = c\<lparr>hc_service_allowlist := sorted_keys (remdups (map trim_space (hc_service_allowlist c))), hc_servers := servers\<rparr>"
    and sub: "trim_space ` set (hc_service_allowlist c) \<subseteq> sc_id ` set servers"
    and small: "length (hc_servers c) \<le> max_servers" "0 \<le> hc_approval_ttl_seconds c" "hc_approval_ttl_seconds c \<le> 1800"
    using assms by (auto simp: validate_config_def normalized_set_Inr)
  have ids: "trim_space x \<in> sc_id ` set servers" if "x \<in> set (hc_service_allowlist c)" for x
    using sub that by blast
  have wf: "wf_config c'"
    using c' small validate_servers_wf [OF v] ids by (auto simp: wf_config_def name_list_sorted_keys)
  moreover have "server_allowed c' i \<longleftrightarrow> i \<in> trim_space ` set (hc_service_allowlist c)"
    using wf c' by (auto simp: server_allowed_def wf_config_def name_list_def contains_iff_member)
  ultimately show ?thesis by blast
qed

text \<open>
  C18: a configuration that validates is well formed, and its service allowlist, searched by
  bisection, contains exactly the trimmed names that were configured.
\<close>

theorem validated_config:
  assumes "validate_config lib c = Inr c'"
  shows "wf_config c' \<and> (server_allowed c' i \<longleftrightarrow> i \<in> trim_space ` set (hc_service_allowlist c))"
  by (rule validate_config_wf [OF assms])

definition demo_urls :: url_library where
  "demo_urls = \<lparr>parse_url = (\<lambda>s. Some \<lparr>u_scheme = ''https'', u_host = ''tools'', u_hostname = ''tools'',
     u_has_user = False, u_fragment = [], u_query_names = [], u_text = s\<rparr>), loopback_ip = (\<lambda>_. False)\<rparr>"

definition demo_server :: server_config where
  "demo_server = \<lparr>sc_id = ''srv'', sc_url = ''https://tools/'', sc_enabled = True, sc_timeout_ms = 0,
     sc_allow_insecure = False, sc_credential = None, sc_tool_allowlist = ['' rm '', ''add'', ''ls''],
     sc_read_only_tools = [''ls''], sc_approval_required_tools = [''add''],
     sc_risk_levels = [(''add'', RiskLow)], sc_max_read_only_retries = 1\<rparr>"

definition demo_config :: hub_config where
  "demo_config = \<lparr>hc_service_allowlist = ['' srv''], hc_approval_ttl_seconds = 0, hc_servers = [demo_server]\<rparr>"

definition demo_valid_server :: server_config where
  "demo_valid_server = demo_server\<lparr>sc_timeout_ms := 10000, sc_tool_allowlist := [''add'', ''ls'', ''rm'']\<rparr>"

lemma demo_server_valid: "validate_server_config demo_urls demo_server = Inr demo_valid_server"
  by (simp add: validate_server_config_def demo_server_def demo_valid_server_def demo_urls_def Let_def and_then_def
      require_def validate_url_def default_timeout_ms_def max_read_only_retry_count_def normalized_set_def name_eval
      max_tools_per_server_def sorted_keys_def risk_valid_def)

lemma demo_config_valid:
  "validate_config demo_urls demo_config =
     Inr (demo_config\<lparr>hc_service_allowlist := [''srv''], hc_servers := [demo_valid_server]\<rparr>)"
proof -
  have "trim_space (sc_id demo_server) = sc_id demo_server" "validate_server_id (sc_id demo_server)"
    by (simp_all add: demo_server_def name_eval)
  then have "validate_servers demo_urls [] [demo_server] = Inr [demo_valid_server]"
    using demo_server_valid by (simp add: Let_def and_then_def require_def)
  then show ?thesis
    by (simp add: validate_config_def and_then_def require_def demo_config_def max_servers_def normalized_set_def
        Let_def name_eval sorted_keys_def) (simp add: demo_valid_server_def demo_server_def)
qed

lemma validated_config_witness:
  "wf_config (demo_config\<lparr>hc_service_allowlist := [''srv''], hc_servers := [demo_valid_server]\<rparr>)"
  using validated_config [OF demo_config_valid, of "''srv''"] by blast

section \<open>The policy of a discovered tool\<close>

lemma convert_tool_cases:
  assumes "convert_tool rx server t = Inr d"
  obtains inp inpMap outp where
    "normalize_schema rx inp True = Inr (td_input_schema d, inpMap)" and "td_output_schema d = outp"
    and "td_name d = sc_id server @ ''.'' @ ut_name t" and "td_server d = sc_id server" and "td_upstream d = ut_name t"
    and "td_read_only d = tool_read_only server (ut_name t)"
    and "td_destructive d \<longleftrightarrow> \<not> td_read_only d \<and> ut_destructive_hint t = Some True"
    and "td_risk d = tool_risk server (ut_name t) (td_read_only d) (td_destructive d)"
    and "td_requires_approval d \<longleftrightarrow> risk_requires_approval (td_risk d) \<or> tool_approval_required server (ut_name t)"
  using assms
  by (auto simp: convert_tool_def Let_def wrap_error_def split: option.splits sum.splits prod.splits)

lemma configured_risk_valid:
  "wf_server s \<Longrightarrow> map_of (sc_risk_levels s) name = Some r \<Longrightarrow> risk_valid r"
  by (auto simp: wf_server_def dest!: map_of_SomeD)

lemma tool_risk_valid: "wf_server s \<Longrightarrow> risk_valid (tool_risk s name ro ds)"
  by (auto simp: tool_risk_def Let_def max_risk_def dest: configured_risk_valid split: option.split)
     (auto simp: risk_valid_def)

lemma max_risk_high: "risk_requires_approval (max_risk r RiskHigh)"
  by (cases r) (auto simp: max_risk_def risk_requires_approval_def risk_rank_def)

lemma convert_policy:
  assumes "convert_tool rx server t = Inr d" and "wf_server server"
  shows "td_name d = sc_id server @ ''.'' @ ut_name t \<and>
    (td_read_only d \<longleftrightarrow> ut_name t \<in> set (sc_read_only_tools server)) \<and>
    (td_destructive d \<longrightarrow> \<not> td_read_only d \<and> td_requires_approval d) \<and>
    (\<not> td_requires_approval d \<longrightarrow> td_risk d = RiskLow \<and> \<not> td_destructive d \<and>
       ut_name t \<notin> set (sc_approval_required_tools server))"
proof (rule convert_tool_cases [OF assms(1)])
  fix inp inpMap outp
  assume d: "td_name d = sc_id server @ ''.'' @ ut_name t" "td_read_only d = tool_read_only server (ut_name t)"
    "td_destructive d \<longleftrightarrow> \<not> td_read_only d \<and> ut_destructive_hint t = Some True"
    and risk: "td_risk d = tool_risk server (ut_name t) (td_read_only d) (td_destructive d)"
    and approval: "td_requires_approval d \<longleftrightarrow> risk_requires_approval (td_risk d) \<or> tool_approval_required server (ut_name t)"
  have lists: "sorted (sc_read_only_tools server)" "sorted (sc_approval_required_tools server)"
    using assms(2) by (auto simp: wf_server_def name_list_def)
  have valid: "risk_valid (td_risk d)" unfolding risk by (rule tool_risk_valid [OF assms(2)])
  have low: "\<not> risk_requires_approval r \<Longrightarrow> risk_valid r \<Longrightarrow> r = RiskLow" for r
    by (cases r) (auto simp: risk_requires_approval_def risk_rank_def risk_valid_def)
  have "td_destructive d \<longrightarrow> risk_requires_approval (td_risk d)"
    by (simp add: risk tool_risk_def Let_def max_risk_high)
  then show ?thesis
    using d approval low [OF _ valid] lists
    by (auto simp: tool_read_only_def tool_approval_required_def contains_iff_member)
qed

text \<open>
  The policy of every tool discovered on a validated server: only allowlisted tools are
  read-only, a destructive tool is never read-only and always needs approval, and a tool that
  needs no approval has low risk, is not destructive and is not on the approval list.
\<close>

lemma tool_policy:
  assumes "convert_tool rx server t = Inr d" and "wf_server server"
  shows "td_name d = sc_id server @ ''.'' @ ut_name t \<and>
    (td_read_only d \<longleftrightarrow> ut_name t \<in> set (sc_read_only_tools server)) \<and>
    (td_destructive d \<longrightarrow> \<not> td_read_only d \<and> td_requires_approval d) \<and>
    (\<not> td_requires_approval d \<longrightarrow> td_risk d = RiskLow \<and> \<not> td_destructive d \<and>
       ut_name t \<notin> set (sc_approval_required_tools server))"
  using assms by (rule convert_policy)

definition demo_upstream :: upstream_tool where
  "demo_upstream = \<lparr>ut_name = ''rm'', ut_description = [], ut_raw_input = ''{\"type\":\"object\"}'', ut_input_type = [],
     ut_input_json = None, ut_raw_output = [], ut_output_type = [], ut_output_json = None,
     ut_destructive_hint = Some True, ut_idempotent_hint = None, ut_open_world_hint = None\<rparr>"

definition demo_schema :: fields where
  "demo_schema = [(''type'', JStr ''object'')]"

lemma demo_schema_normal:
  "normalize_schema rx ''{\"type\":\"object\"}'' True = Inr (''{\"type\":\"object\"}'', demo_schema)"
proof -
  have "decode_single ''{\"type\":\"object\"}'' = Inr (Some demo_schema)"
    by (simp add: decode_single_def decode_eval demo_schema_def)
  moreover have "schema_node rx doc child demo_schema = None" for doc child
    by (simp add: schema_node_def demo_schema_def field_def str_of_def schema_type_ok_def type_names_def
        object_or_nil_def as_object_def string_list_def branch_keywords_def)
  moreover have "marshal (JObj demo_schema) = Some ''{\"type\":\"object\"}''"
    by (simp add: demo_schema_def encode_eval)
  ultimately show ?thesis
    by (simp add: normalize_schema_def max_tool_schema_bytes_def with_default_type_def Let_def)
       (simp add: demo_schema_def field_def schema_allows_type_def)
qed

lemma demo_convert:
  "convert_tool rx demo_valid_server demo_upstream =
     Inr \<lparr>td_name = ''srv.rm'', td_server = ''srv'', td_upstream = ''rm'', td_description = [],
       td_input_schema = ''{\"type\":\"object\"}'', td_output_schema = [], td_read_only = False,
       td_idempotent = False, td_destructive = True, td_open_world = False, td_risk = RiskHigh,
       td_requires_approval = True\<rparr>"
proof -
  have "validate_schema_node rx demo_schema (Suc max_schema_depth) demo_schema = None"
    using demo_schema_normal [of rx] by (simp add: normalize_schema_def Let_def split: if_splits sum.splits option.splits)
  then show ?thesis
    using demo_schema_normal [of rx]
    by (simp add: convert_tool_def demo_upstream_def and_then_def require_def name_eval mcp_input_schema_def
        mcp_output_schema_def wrap_error_def Let_def)
       (simp add: demo_valid_server_def demo_server_def tool_read_only_def tool_approval_required_def
        contains_iff_member tool_risk_def Let_def max_risk_def risk_rank_def risk_requires_approval_def)
qed

lemma tool_policy_witness:
  "td_destructive (projr (convert_tool (\<lambda>_. None) demo_valid_server demo_upstream)) \<and>
   td_requires_approval (projr (convert_tool (\<lambda>_. None) demo_valid_server demo_upstream))"
proof -
  have "validate_server_id (sc_id demo_server)" by (simp add: demo_server_def name_eval)
  then have "wf_server demo_valid_server" using validate_server_config_wf [OF demo_server_valid] by blast
  then show ?thesis using tool_policy [OF demo_convert [of "\<lambda>_. None"]] demo_convert [of "\<lambda>_. None"] by simp
qed

end
