(* ===== verification/McpApproval.thy ===== *)
theory McpApproval
  imports McpConfig
begin

text \<open>
  \<open>src/common/mcphub/approval.go\<close>, \<open>errors.go\<close> and the redaction of \<open>redact.go\<close>: the
  in-memory store of approval challenges and single-use tokens. The standard library's SHA-256,
  and the clean-up of free text (regular-expression replacement and URL parsing), are parameters;
  so are the values that \<open>uuid.NewString\<close> and \<open>crypto/rand\<close> produce. A method holds the
  manager's mutex from start to end, so it is one step.
\<close>

section \<open>Errors\<close>

datatype hub_code =
    InvalidConfig | ServerNotAllowed | ServerUnavailable | ToolNotFound | ToolNotAllowed
  | InvalidArguments | ApprovalRequired | ApprovalInvalid | ApprovalNotRequired | TimedOut
  | CallCanceled | ProtocolError | ToolExecution | InternalError

datatype hub_error = HubError hub_code string | OtherError string

definition error_code :: "hub_error \<Rightarrow> hub_code" where
  "error_code e = (case e of HubError c _ \<Rightarrow> c | OtherError _ \<Rightarrow> InternalError)"

definition public_error_message :: "hub_error \<Rightarrow> string" where
  "public_error_message e = (case e of HubError _ m \<Rightarrow> m | OtherError _ \<Rightarrow> ''MCP Hub internal error'')"

section \<open>Digests and redaction\<close>

record mcp_library =
  rx_compile :: rx_compiler
  sha256_hex :: "string \<Rightarrow> string"
  sanitize_text :: "string \<Rightarrow> nat \<Rightarrow> string"

definition arguments_digest :: "'l mcp_library_scheme \<Rightarrow> fields \<Rightarrow> string option" where
  "arguments_digest lib args = map_option (sha256_hex lib) (marshal (JObj args))"

definition max_audit_preview_bytes :: nat where "max_audit_preview_bytes = 4096"
definition max_audit_string_runes :: nat where "max_audit_string_runes = 256"
definition max_audit_error_runes :: nat where "max_audit_error_runes = 512"

text \<open>The first argument is the number of levels left: a value at depth \<open>d\<close> has \<open>13 - d\<close>.\<close>

primrec redact_value :: "nat \<Rightarrow> 'l mcp_library_scheme \<Rightarrow> string \<Rightarrow> json \<Rightarrow> json" where
  "redact_value 0 = (\<lambda>lib key v. if sensitive_key key then JStr ''[REDACTED]'' else JStr ''[MAX_DEPTH]'')"
| "redact_value (Suc n) = (\<lambda>lib key v.
     if sensitive_key key then JStr ''[REDACTED]''
     else case v of
       JObj fs \<Rightarrow> JObj (map (\<lambda>(k, c). (k, redact_value n lib k c)) fs)
     | JArr xs \<Rightarrow> JArr (map (redact_value n lib key) (take 50 xs) @
         (if 50 < length xs then [JStr ''[TRUNCATED]''] else []))
     | JStr s \<Rightarrow> JStr (sanitize_text lib s max_audit_string_runes)
     | _ \<Rightarrow> v)"

definition redacted_arguments :: "'l mcp_library_scheme \<Rightarrow> fields \<Rightarrow> string" where
  "redacted_arguments lib args = (case marshal (redact_value 13 lib [] (JObj args)) of
     None \<Rightarrow> ''{\"redacted\":true}''
   | Some encoded \<Rightarrow> if max_audit_preview_bytes < length encoded then ''{\"truncated\":true}'' else encoded)"

section \<open>The approval manager\<close>

record approval_challenge =
  ac_id :: string
  ac_tool :: string
  ac_risk :: risk_level
  ac_digest :: string
  ac_preview :: string
  ac_expires_at :: time
  ac_approved_at :: "time option"
  ac_consumed_at :: "time option"
  ac_user :: string

record token_record =
  tr_challenge :: string
  tr_user :: string
  tr_tool :: string
  tr_digest :: string
  tr_expires_at :: time

record issued_approval =
  ia_challenge :: string
  ia_token :: string
  ia_expires_at :: time

record approval_manager =
  am_ttl :: time
  am_now :: time
  am_challenges :: "(string \<times> approval_challenge) list"
  am_tokens :: "(string \<times> token_record) list"
  am_uuid :: "nat \<Rightarrow> string"
  am_uuid_next :: nat
  am_random :: "nat \<Rightarrow> string option"
  am_random_next :: nat

type_synonym ('m, 'a) approval_call = "('m approval_manager_scheme, hub_error, 'a) call"

definition new_approval_ttl :: "time \<Rightarrow> time" where
  "new_approval_ttl ttl = (if ttl \<le> 0 then default_approval_ttl else ttl)"

definition cleanup_locked :: "time \<Rightarrow> 'm approval_manager_scheme \<Rightarrow> 'm approval_manager_scheme" where
  "cleanup_locked now m = m\<lparr>
     am_tokens := filter (\<lambda>(_, r). now < tr_expires_at r) (am_tokens m),
     am_challenges := filter (\<lambda>(_, c). now < ac_expires_at c + am_ttl m) (am_challenges m)\<rparr>"

definition clone_challenge :: "approval_challenge \<Rightarrow> approval_challenge" where
  "clone_challenge c = c\<lparr>ac_user := []\<rparr>"

definition new_challenge :: "('l) mcp_library_scheme \<Rightarrow> string \<Rightarrow> tool_definition \<Rightarrow> fields \<Rightarrow> string \<Rightarrow>
    'm approval_manager_scheme \<Rightarrow> approval_challenge" where
  "new_challenge lib userName tool args digest m =
     \<lparr>ac_id = am_uuid m (am_uuid_next m), ac_tool = td_name tool, ac_risk = td_risk tool, ac_digest = digest,
      ac_preview = redacted_arguments lib args, ac_expires_at = am_now m + am_ttl m,
      ac_approved_at = None, ac_consumed_at = None, ac_user = userName\<rparr>"

definition store_challenge :: "approval_challenge \<Rightarrow> 'm approval_manager_scheme \<Rightarrow> 'm approval_manager_scheme" where
  "store_challenge c m = m\<lparr>am_challenges := AList.update (ac_id c) c (am_challenges m)\<rparr>"

definition approval_create :: "('l) mcp_library_scheme \<Rightarrow> string \<Rightarrow> tool_definition \<Rightarrow> fields \<Rightarrow>
    ('m, approval_challenge) approval_call" where
  "approval_create lib userName tool args =
     bindE (guardE (userName \<noteq> []) (HubError ApprovalInvalid ''approval requires an authenticated user'')) (\<lambda>_.
     bindE (guardE (td_requires_approval tool) (HubError ApprovalNotRequired ''this tool does not require approval'')) (\<lambda>_.
     bindE (guardE (validate_arguments (rx_compile lib) (td_input_schema tool) args = None)
        (HubError InvalidArguments ''tool arguments do not match the input schema'')) (\<lambda>_.
     case arguments_digest lib args of
       None \<Rightarrow> fail (HubError InvalidArguments ''tool arguments cannot be approved'')
     | Some digest \<Rightarrow>
         bindE (gets (new_challenge lib userName tool args digest)) (\<lambda>c.
         bindE (modifies (\<lambda>m. store_challenge c
            (cleanup_locked (am_now m) (m\<lparr>am_uuid_next := Suc (am_uuid_next m)\<rparr>)))) (\<lambda>_.
         ret (clone_challenge c))))))"

definition hash_approval_token :: "('l) mcp_library_scheme \<Rightarrow> string \<Rightarrow> string" where
  "hash_approval_token lib token = sha256_hex lib token"

definition token_text :: "string \<Rightarrow> string" where
  "token_text raw = ''mcp_apv_'' @ raw"

definition approvable :: "string \<Rightarrow> time \<Rightarrow> approval_challenge \<Rightarrow> bool" where
  "approvable userName now c \<longleftrightarrow> ac_user c = userName \<and> now < ac_expires_at c"

definition record_of :: "approval_challenge \<Rightarrow> string \<Rightarrow> token_record" where
  "record_of c userName = \<lparr>tr_challenge = ac_id c, tr_user = userName, tr_tool = ac_tool c,
     tr_digest = ac_digest c, tr_expires_at = ac_expires_at c\<rparr>"

definition next_random :: "('m, string) approval_call" where
  "next_random = (\<lambda>m. (case am_random m (am_random_next m) of
       None \<Rightarrow> Inl (HubError InternalError ''approval token cannot be issued'')
     | Some raw \<Rightarrow> Inr raw, m\<lparr>am_random_next := Suc (am_random_next m)\<rparr>))"

definition approval_approve :: "('l) mcp_library_scheme \<Rightarrow> string \<Rightarrow> string \<Rightarrow> ('m, issued_approval) approval_call" where
  "approval_approve lib userName challengeID =
     bindE (gets am_now) (\<lambda>now.
     bindE (modifies (cleanup_locked now)) (\<lambda>_.
     bindE (gets (\<lambda>m. map_of (am_challenges m) challengeID)) (\<lambda>found. case found of
       None \<Rightarrow> fail (HubError ApprovalInvalid ''approval challenge is invalid or expired'')
     | Some c \<Rightarrow>
         bindE (guardE (approvable userName now c)
            (HubError ApprovalInvalid ''approval challenge is invalid or expired'')) (\<lambda>_.
         bindE (guardE (ac_approved_at c = None \<and> ac_consumed_at c = None)
            (HubError ApprovalInvalid ''approval challenge has already been used'')) (\<lambda>_.
         bindE next_random (\<lambda>raw.
         bindE (modifies (\<lambda>m. m\<lparr>
            am_challenges := AList.update challengeID (c\<lparr>ac_approved_at := Some now\<rparr>) (am_challenges m),
            am_tokens := AList.update (hash_approval_token lib (token_text raw)) (record_of c userName) (am_tokens m)\<rparr>)) (\<lambda>_.
         ret \<lparr>ia_challenge = ac_id c, ia_token = token_text raw, ia_expires_at = ac_expires_at c\<rparr>)))))))"

definition consume_challenge :: "string \<Rightarrow> time \<Rightarrow> (string \<times> approval_challenge) list \<Rightarrow>
    (string \<times> approval_challenge) list" where
  "consume_challenge i now cs = (case map_of cs i of None \<Rightarrow> cs
     | Some c \<Rightarrow> AList.update i (c\<lparr>ac_consumed_at := Some now\<rparr>) cs)"

definition token_matches :: "time \<Rightarrow> string \<Rightarrow> string \<Rightarrow> string \<Rightarrow> token_record \<Rightarrow> bool" where
  "token_matches now userName toolName digest r \<longleftrightarrow>
     now < tr_expires_at r \<and> tr_user r = userName \<and> tr_tool r = toolName \<and> tr_digest r = digest"

definition approval_consume :: "('l) mcp_library_scheme \<Rightarrow> string \<Rightarrow> string \<Rightarrow> fields \<Rightarrow> string \<Rightarrow>
    ('m, unit) approval_call" where
  "approval_consume lib userName toolName args token =
     bindE (guardE (token \<noteq> []) (HubError ApprovalRequired ''an approval token is required'')) (\<lambda>_.
     case arguments_digest lib args of
       None \<Rightarrow> fail (HubError ApprovalInvalid ''approval token cannot be validated'')
     | Some digest \<Rightarrow>
         bindE (gets am_now) (\<lambda>now.
         bindE (modifies (cleanup_locked now)) (\<lambda>_.
         bindE (gets (\<lambda>m. map_of (am_tokens m) (hash_approval_token lib token))) (\<lambda>found. case found of
           None \<Rightarrow> fail (HubError ApprovalInvalid ''approval token is invalid or has already been used'')
         | Some r \<Rightarrow>
             bindE (modifies (\<lambda>m. m\<lparr>
                am_tokens := AList.delete (hash_approval_token lib token) (am_tokens m),
                am_challenges := consume_challenge (tr_challenge r) now (am_challenges m)\<rparr>)) (\<lambda>_.
             guardE (token_matches now userName toolName digest r)
                (HubError ApprovalInvalid ''approval token does not match this invocation''))))))"

section \<open>Runs of the manager\<close>

datatype approval_op =
    ApCreate string tool_definition fields
  | ApApprove string string
  | ApConsume string string fields string
  | ApTime time

fun exec_approval :: "('l) mcp_library_scheme \<Rightarrow> approval_op \<Rightarrow> 'm approval_manager_scheme \<Rightarrow> 'm approval_manager_scheme" where
  "exec_approval lib (ApCreate u tool args) m = snd (approval_create lib u tool args m)"
| "exec_approval lib (ApApprove u i) m = snd (approval_approve lib u i m)"
| "exec_approval lib (ApConsume u tool args tok) m = snd (approval_consume lib u tool args tok m)"
| "exec_approval lib (ApTime t) m = m\<lparr>am_now := t\<rparr>"

definition run_approvals :: "('l) mcp_library_scheme \<Rightarrow> approval_op list \<Rightarrow> 'm approval_manager_scheme \<Rightarrow>
    'm approval_manager_scheme" where
  "run_approvals lib ops m = fold (exec_approval lib) ops m"

section \<open>What each method does to the tables\<close>

lemma cleanup_fields [simp]:
  "am_random_next (cleanup_locked now m) = am_random_next m" "am_random (cleanup_locked now m) = am_random m"
  "am_uuid_next (cleanup_locked now m) = am_uuid_next m" "am_uuid (cleanup_locked now m) = am_uuid m"
  "am_ttl (cleanup_locked now m) = am_ttl m" "am_now (cleanup_locked now m) = am_now m"
  by (simp_all add: cleanup_locked_def)

lemma map_of_filter_Some:
  "distinct (map fst xs) \<Longrightarrow> map_of (filter P xs) k = Some v \<longleftrightarrow> map_of xs k = Some v \<and> P (k, v)"
proof (induction xs)
  case (Cons x xs)
  obtain a b where x: "x = (a, b)" by (cases x)
  show ?case
  proof (cases "a = k")
    case True
    then have "k \<notin> fst ` set xs" using Cons.prems x by simp
    then have "map_of xs k = None" "map_of (filter P xs) k = None" by (auto simp: map_of_eq_None_iff)
    then show ?thesis using True x by auto
  next
    case False
    then show ?thesis using Cons x by simp
  qed
qed simp

definition distinct_keys :: "'m approval_manager_scheme \<Rightarrow> bool" where
  "distinct_keys m \<longleftrightarrow> distinct (map fst (am_challenges m)) \<and> distinct (map fst (am_tokens m))"

lemma distinct_keys_cleanup: "distinct_keys m \<Longrightarrow> distinct_keys (cleanup_locked now m)"
proof -
  have keep: "distinct (map fst xs) \<Longrightarrow> distinct (map fst (filter P xs))" for xs :: "(string \<times> 'x) list" and P
    by (induction xs) auto
  assume "distinct_keys m"
  then show ?thesis by (simp add: distinct_keys_def cleanup_locked_def keep)
qed

lemma cleanup_token:
  "distinct_keys m \<Longrightarrow> map_of (am_tokens (cleanup_locked now m)) h = Some r \<longleftrightarrow>
     map_of (am_tokens m) h = Some r \<and> now < tr_expires_at r"
  using map_of_filter_Some [of "am_tokens m" "\<lambda>(_, r). now < tr_expires_at r" h r]
  by (simp add: cleanup_locked_def distinct_keys_def)

lemma cleanup_challenge:
  "distinct_keys m \<Longrightarrow> map_of (am_challenges (cleanup_locked now m)) i = Some c \<longleftrightarrow>
     map_of (am_challenges m) i = Some c \<and> now < ac_expires_at c + am_ttl m"
  using map_of_filter_Some [of "am_challenges m" "\<lambda>(_, c). now < ac_expires_at c + am_ttl m" i c]
  by (simp add: cleanup_locked_def distinct_keys_def)

text \<open>\<open>Consume\<close> of a recognised token removes it, whether or not the rest matches.\<close>

lemma consume_cases:
  assumes "approval_consume lib u tool args tok m = (res, m')"
  obtains (refused) e where "res = Inl e" and "m' = m" and "tok = [] \<or> arguments_digest lib args = None"
    | (unknown) e where "res = Inl e" and "m' = cleanup_locked (am_now m) m"
      and "map_of (am_tokens (cleanup_locked (am_now m) m)) (hash_approval_token lib tok) = None"
    | (known) digest r where "arguments_digest lib args = Some digest" and "tok \<noteq> []"
      and "map_of (am_tokens (cleanup_locked (am_now m) m)) (hash_approval_token lib tok) = Some r"
      and "res = (if token_matches (am_now m) u tool digest r then Inr ()
             else Inl (HubError ApprovalInvalid ''approval token does not match this invocation''))"
      and "m' = (cleanup_locked (am_now m) m)\<lparr>
          am_tokens := AList.delete (hash_approval_token lib tok) (am_tokens (cleanup_locked (am_now m) m)),
          am_challenges := consume_challenge (tr_challenge r) (am_now m) (am_challenges (cleanup_locked (am_now m) m))\<rparr>"
proof (cases "tok = [] \<or> arguments_digest lib args = None")
  case True
  then have "(\<exists>e. res = Inl e) \<and> m' = m" using assms by (auto simp: approval_consume_def call_eval split: if_splits)
  then show ?thesis using refused True by blast
next
  case False
  then obtain digest where d: "tok \<noteq> []" "arguments_digest lib args = Some digest" by blast
  show ?thesis
  proof (cases "map_of (am_tokens (cleanup_locked (am_now m) m)) (hash_approval_token lib tok)")
    case None
    then have "(\<exists>e. res = Inl e) \<and> m' = cleanup_locked (am_now m) m"
      using assms d by (auto simp: approval_consume_def call_eval)
    then show ?thesis using unknown None by blast
  next
    case (Some r)
    show ?thesis
      by (rule known [OF d(2) d(1) Some])
         (use assms d Some in \<open>simp_all add: approval_consume_def call_eval split: if_splits\<close>)
  qed
qed

lemma approve_cases:
  assumes "approval_approve lib u i m = (res, m')"
  obtains (refused) e where "res = Inl e" and "m' = cleanup_locked (am_now m) m"
    | (no_random) e where "res = Inl e" and "m' = (cleanup_locked (am_now m) m)\<lparr>am_random_next := Suc (am_random_next m)\<rparr>"
    | (issued) c raw where "map_of (am_challenges (cleanup_locked (am_now m) m)) i = Some c"
      and "approvable u (am_now m) c" and "ac_approved_at c = None" and "ac_consumed_at c = None"
      and "am_random m (am_random_next m) = Some raw"
      and "res = Inr \<lparr>ia_challenge = ac_id c, ia_token = token_text raw, ia_expires_at = ac_expires_at c\<rparr>"
      and "m' = (cleanup_locked (am_now m) m)\<lparr>am_random_next := Suc (am_random_next m),
          am_challenges := AList.update i (c\<lparr>ac_approved_at := Some (am_now m)\<rparr>) (am_challenges (cleanup_locked (am_now m) m)),
          am_tokens := AList.update (hash_approval_token lib (token_text raw)) (record_of c u) (am_tokens (cleanup_locked (am_now m) m))\<rparr>"
proof (cases "map_of (am_challenges (cleanup_locked (am_now m) m)) i")
  case None
  then have "(\<exists>e. res = Inl e) \<and> m' = cleanup_locked (am_now m) m"
    using assms by (auto simp: approval_approve_def call_eval)
  then show ?thesis using refused by blast
next
  case (Some c)
  show ?thesis
  proof (cases "approvable u (am_now m) c \<and> ac_approved_at c = None \<and> ac_consumed_at c = None")
    case False
    then have "(\<exists>e. res = Inl e) \<and> m' = cleanup_locked (am_now m) m"
      using assms Some by (auto simp: approval_approve_def call_eval split: if_splits)
    then show ?thesis using refused by blast
  next
    case ok: True
    show ?thesis
    proof (cases "am_random m (am_random_next m)")
      case None
      then have "(\<exists>e. res = Inl e) \<and> m' = (cleanup_locked (am_now m) m)\<lparr>am_random_next := Suc (am_random_next m)\<rparr>"
        using assms Some ok by (auto simp: approval_approve_def call_eval bindE_def next_random_def)
      then show ?thesis using no_random by blast
    next
      case r: (Some raw)
      show ?thesis
        by (rule issued [OF Some _ _ _ r])
           (use assms Some ok r in \<open>simp_all add: approval_approve_def call_eval bindE_def next_random_def\<close>)
    qed
  qed
qed

lemma create_cases:
  assumes "approval_create lib u tool args m = (res, m')"
  obtains (refused) e where "res = Inl e" and "m' = m"
    | (created) digest where "td_requires_approval tool" and "u \<noteq> []" and "arguments_digest lib args = Some digest"
      and "validate_arguments (rx_compile lib) (td_input_schema tool) args = None"
      and "res = Inr (clone_challenge (new_challenge lib u tool args digest m))"
      and "m' = store_challenge (new_challenge lib u tool args digest m)
         (cleanup_locked (am_now m) (m\<lparr>am_uuid_next := Suc (am_uuid_next m)\<rparr>))"
proof (cases "u = [] \<or> \<not> td_requires_approval tool \<or> arguments_digest lib args = None \<or>
    validate_arguments (rx_compile lib) (td_input_schema tool) args \<noteq> None")
  case True
  then have "(\<exists>e. res = Inl e) \<and> m' = m"
    using assms by (auto simp: approval_create_def call_eval split: if_splits)
  then show ?thesis using refused by blast
next
  case False
  then obtain digest where d: "arguments_digest lib args = Some digest" by auto
  show ?thesis
    by (rule created [OF _ _ d])
       (use assms False d in \<open>simp_all add: approval_create_def call_eval\<close>)
qed

section \<open>The invariant of the tables\<close>

text \<open>
  Every token in the table was issued for a challenge that is still there, was approved by the
  token's user, has not been consumed, and names the same tool, arguments and expiry; no two
  tokens share a challenge. Identifiers not yet drawn are not in use.
\<close>

definition token_backed :: "'m approval_manager_scheme \<Rightarrow> token_record \<Rightarrow> bool" where
  "token_backed m r \<longleftrightarrow> (\<exists>c. map_of (am_challenges m) (tr_challenge r) = Some c \<and>
     ac_approved_at c \<noteq> None \<and> ac_consumed_at c = None \<and> record_of c (ac_user c) = r)"

definition approvals_ok :: "'m approval_manager_scheme \<Rightarrow> bool" where
  "approvals_ok m \<longleftrightarrow> distinct_keys m \<and> 0 < am_ttl m \<and> inj (am_uuid m) \<and>
     (\<forall>i c. map_of (am_challenges m) i = Some c \<longrightarrow> ac_id c = i \<and> (\<forall>n. am_uuid m n = i \<longrightarrow> n < am_uuid_next m)) \<and>
     (\<forall>h r. map_of (am_tokens m) h = Some r \<longrightarrow> token_backed m r) \<and>
     (\<forall>h g r q. map_of (am_tokens m) h = Some r \<longrightarrow> map_of (am_tokens m) g = Some q \<longrightarrow>
        tr_challenge r = tr_challenge q \<longrightarrow> h = g)"

lemma approvals_okI:
  assumes "distinct_keys m" and "0 < am_ttl m" and "inj (am_uuid m)"
    and "\<And>i c. map_of (am_challenges m) i = Some c \<Longrightarrow> ac_id c = i"
    and "\<And>i c n. map_of (am_challenges m) i = Some c \<Longrightarrow> am_uuid m n = i \<Longrightarrow> n < am_uuid_next m"
    and "\<And>h r. map_of (am_tokens m) h = Some r \<Longrightarrow> token_backed m r"
    and "\<And>h g r q. map_of (am_tokens m) h = Some r \<Longrightarrow> map_of (am_tokens m) g = Some q \<Longrightarrow>
       tr_challenge r = tr_challenge q \<Longrightarrow> h = g"
  shows "approvals_ok m"
  using assms unfolding approvals_ok_def by blast

lemma approvals_okD:
  assumes "approvals_ok m"
  shows approvals_ok_keys: "distinct_keys m" and approvals_ok_ttl: "0 < am_ttl m" and approvals_ok_inj: "inj (am_uuid m)"
    and approvals_ok_id: "map_of (am_challenges m) i = Some c \<Longrightarrow> ac_id c = i"
    and approvals_ok_used: "map_of (am_challenges m) i = Some c \<Longrightarrow> am_uuid m n = i \<Longrightarrow> n < am_uuid_next m"
    and approvals_ok_backed: "map_of (am_tokens m) h = Some r \<Longrightarrow> token_backed m r"
    and approvals_ok_single: "map_of (am_tokens m) h = Some r \<Longrightarrow> map_of (am_tokens m) g = Some q \<Longrightarrow>
       tr_challenge r = tr_challenge q \<Longrightarrow> h = g"
  using assms unfolding approvals_ok_def by blast+

lemma approvals_ok_cleanup:
  assumes ok: "approvals_ok m" shows "approvals_ok (cleanup_locked now m)"
proof -
  have d: "distinct_keys m" and ttl: "0 < am_ttl m" using ok by (auto simp: approvals_ok_def)
  have "token_backed (cleanup_locked now m) r" if "map_of (am_tokens (cleanup_locked now m)) h = Some r" for h r
  proof -
    have t: "map_of (am_tokens m) h = Some r" "now < tr_expires_at r" using that cleanup_token [OF d] by auto
    have "token_backed m r" using ok t(1) unfolding approvals_ok_def by blast
    then obtain c where c: "map_of (am_challenges m) (tr_challenge r) = Some c" "ac_approved_at c \<noteq> None"
        "ac_consumed_at c = None" "record_of c (ac_user c) = r"
      unfolding token_backed_def by blast
    have "tr_expires_at r = ac_expires_at c" unfolding c(4) [symmetric] by (simp add: record_of_def)
    then have "map_of (am_challenges (cleanup_locked now m)) (tr_challenge r) = Some c"
      using c(1) t(2) ttl cleanup_challenge [OF d, of now] by auto
    then show ?thesis using c unfolding token_backed_def by blast
  qed
  then show ?thesis
    using ok distinct_keys_cleanup [OF d]
    unfolding approvals_ok_def cleanup_token [OF d] cleanup_challenge [OF d] cleanup_fields by blast
qed

lemma consume_challenge_lookup:
  "map_of (consume_challenge i now cs) j =
     (if i = j then map_option (\<lambda>c. c\<lparr>ac_consumed_at := Some now\<rparr>) (map_of cs j) else map_of cs j)"
  by (auto simp: consume_challenge_def update_conv' split: option.splits)

lemma distinct_consume_challenge: "distinct (map fst cs) \<Longrightarrow> distinct (map fst (consume_challenge i now cs))"
  by (auto simp: consume_challenge_def distinct_update split: option.splits)

lemma lookup_delete: "map_of (AList.delete k xs) j = (if j = k then None else map_of xs j)"
  by (simp add: delete_conv')

lemma lookup_update: "map_of (AList.update k v xs) j = (if j = k then Some v else map_of xs j)"
  by (simp add: update_conv')

text \<open>Removing one token, and marking its challenge consumed, keeps the invariant.\<close>

lemma approvals_ok_consumed:
  assumes ok: "approvals_ok m" and t: "map_of (am_tokens m) h = Some r"
  shows "approvals_ok (m\<lparr>am_tokens := AList.delete h (am_tokens m),
     am_challenges := consume_challenge (tr_challenge r) now (am_challenges m)\<rparr>)" (is "approvals_ok ?m")
proof -
  have backed: "token_backed ?m q" if q: "map_of (am_tokens m) g = Some q" "g \<noteq> h" for g q
  proof -
    have "token_backed m q" using ok q(1) unfolding approvals_ok_def by blast
    moreover have "tr_challenge q \<noteq> tr_challenge r" using ok t q unfolding approvals_ok_def by blast
    ultimately show ?thesis by (auto simp: token_backed_def consume_challenge_lookup)
  qed
  have old: "\<exists>c'. map_of (am_challenges m) i = Some c' \<and> ac_id c = ac_id c'" if "map_of (am_challenges ?m) i = Some c" for i c
    using that by (auto simp: consume_challenge_lookup split: if_splits)
  show ?thesis
  proof (rule approvals_okI)
    show "distinct_keys ?m"
      using approvals_ok_keys [OF ok] by (simp add: distinct_keys_def distinct_consume_challenge distinct_delete)
    show "0 < am_ttl ?m" "inj (am_uuid ?m)" using approvals_ok_ttl [OF ok] approvals_ok_inj [OF ok] by simp_all
  next
    fix i c assume "map_of (am_challenges ?m) i = Some c"
    then show "ac_id c = i" using old approvals_ok_id [OF ok] by metis
  next
    fix i c n assume "map_of (am_challenges ?m) i = Some c" "am_uuid ?m n = i"
    then show "n < am_uuid_next ?m" using old approvals_ok_used [OF ok] by fastforce
  next
    fix g q assume "map_of (am_tokens ?m) g = Some q"
    then show "token_backed ?m q" using backed by (simp add: lookup_delete split: if_splits)
  next
    fix g g' q q'
    assume "map_of (am_tokens ?m) g = Some q" "map_of (am_tokens ?m) g' = Some q'" "tr_challenge q = tr_challenge q'"
    then show "g = g'" using approvals_ok_single [OF ok] by (simp add: lookup_delete split: if_splits)
  qed
qed

lemma approvals_ok_issued:
  assumes ok: "approvals_ok m" and c: "map_of (am_challenges m) i = Some c" and new: "ac_approved_at c = None"
    and live: "ac_consumed_at c = None"
  shows "approvals_ok (m\<lparr>am_challenges := AList.update i (c\<lparr>ac_approved_at := Some now\<rparr>) (am_challenges m),
     am_tokens := AList.update h (record_of c (ac_user c)) (am_tokens m)\<rparr>)" (is "approvals_ok ?m")
proof -
  have id: "ac_id c = i" using ok c unfolding approvals_ok_def by blast
  have other: "tr_challenge q \<noteq> i" if q: "map_of (am_tokens m) g = Some q" for g q
  proof -
    have "token_backed m q" using ok q unfolding approvals_ok_def by blast
    then show ?thesis using c new by (auto simp: token_backed_def)
  qed
  show ?thesis
  proof (rule approvals_okI)
    show "distinct_keys ?m" using approvals_ok_keys [OF ok] by (simp add: distinct_keys_def distinct_update)
    show "0 < am_ttl ?m" "inj (am_uuid ?m)" using approvals_ok_ttl [OF ok] approvals_ok_inj [OF ok] by simp_all
  next
    fix j d assume "map_of (am_challenges ?m) j = Some d"
    then show "ac_id d = j" using id approvals_ok_id [OF ok] by (auto simp: lookup_update split: if_splits)
  next
    fix j d n assume d: "map_of (am_challenges ?m) j = Some d" "am_uuid ?m n = j"
    then have "\<exists>e. map_of (am_challenges m) j = Some e" using c by (auto simp: lookup_update split: if_splits)
    then show "n < am_uuid_next ?m" using d(2) approvals_ok_used [OF ok] by fastforce
  next
    fix g q assume q: "map_of (am_tokens ?m) g = Some q"
    show "token_backed ?m q"
    proof (cases "g = h")
      case True
      then show ?thesis using q id live by (auto simp: token_backed_def lookup_update record_of_def)
    next
      case False
      then have g: "map_of (am_tokens m) g = Some q" using q by (simp add: lookup_update)
      show ?thesis using approvals_ok_backed [OF ok g] other [OF g] by (auto simp: token_backed_def lookup_update)
    qed
  next
    fix g g' q q'
    assume t: "map_of (am_tokens ?m) g = Some q" "map_of (am_tokens ?m) g' = Some q'" "tr_challenge q = tr_challenge q'"
    have i: "tr_challenge (record_of c (ac_user c)) = i" using id by (simp add: record_of_def)
    show "g = g'"
    proof (cases "g = h"; cases "g' = h")
      assume "g = h" "g' \<noteq> h"
      then show ?thesis using t i other [of g' q'] by (simp add: lookup_update)
    next
      assume "g \<noteq> h" "g' = h"
      then show ?thesis using t i other [of g q] by (simp add: lookup_update)
    next
      assume "g \<noteq> h" "g' \<noteq> h"
      then show ?thesis using t approvals_ok_single [OF ok] by (simp add: lookup_update)
    qed simp
  qed
qed

lemma approvals_ok_created:
  assumes ok: "approvals_ok m" and i: "ac_id c = am_uuid m (am_uuid_next m)"
  shows "approvals_ok (store_challenge c (m\<lparr>am_uuid_next := Suc (am_uuid_next m)\<rparr>))" (is "approvals_ok ?m")
proof -
  have fresh: "map_of (am_challenges m) (ac_id c) = None"
    using ok i unfolding approvals_ok_def by (metis less_irrefl not_None_eq)
  have lookup: "map_of (am_challenges ?m) j = (if j = ac_id c then Some c else map_of (am_challenges m) j)" for j
    by (simp add: store_challenge_def lookup_update)
  have tokens: "am_tokens ?m = am_tokens m" and uuid: "am_uuid ?m = am_uuid m" "am_uuid_next ?m = Suc (am_uuid_next m)"
    by (simp_all add: store_challenge_def)
  show ?thesis
  proof (rule approvals_okI)
    show "distinct_keys ?m"
      using approvals_ok_keys [OF ok] by (simp add: distinct_keys_def store_challenge_def distinct_update)
    show "0 < am_ttl ?m" "inj (am_uuid ?m)"
      using approvals_ok_ttl [OF ok] approvals_ok_inj [OF ok] by (simp_all add: store_challenge_def)
  next
    fix j d assume "map_of (am_challenges ?m) j = Some d"
    then show "ac_id d = j" using approvals_ok_id [OF ok] by (auto simp: lookup split: if_splits)
  next
    fix j d n assume d: "map_of (am_challenges ?m) j = Some d" "am_uuid ?m n = j"
    show "n < am_uuid_next ?m"
    proof (cases "j = ac_id c")
      case True
      then have "n = am_uuid_next m" using d(2) i approvals_ok_inj [OF ok] by (auto simp: uuid dest: injD)
      then show ?thesis by (simp add: uuid)
    next
      case False
      then have "n < am_uuid_next m" using d approvals_ok_used [OF ok] by (simp add: lookup uuid)
      then show ?thesis by (simp add: uuid)
    qed
  next
    fix g q assume "map_of (am_tokens ?m) g = Some q"
    then have "token_backed m q" using approvals_ok_backed [OF ok] by (simp add: tokens)
    then show "token_backed ?m q" using fresh by (auto simp: token_backed_def lookup)
  next
    fix g g' q q'
    assume "map_of (am_tokens ?m) g = Some q" "map_of (am_tokens ?m) g' = Some q'" "tr_challenge q = tr_challenge q'"
    then show "g = g'" using approvals_ok_single [OF ok] by (simp add: tokens)
  qed
qed

lemma exec_approval_ok:
  fixes m :: "'a approval_manager_scheme"
  shows "approvals_ok m \<Longrightarrow> approvals_ok (exec_approval lib op m)"
proof (cases op)
  case (ApCreate u tool args)
  assume ok: "approvals_ok m"
  obtain res m' where e: "approval_create lib u tool args m = (res, m')" by (cases "approval_create lib u tool args m")
  from e show ?thesis
  proof (rule create_cases)
    fix digest
    assume m': "m' = store_challenge (new_challenge lib u tool args digest m)
         (cleanup_locked (am_now m) (m\<lparr>am_uuid_next := Suc (am_uuid_next m)\<rparr>))"
    have "cleanup_locked (am_now m) (m\<lparr>am_uuid_next := Suc (am_uuid_next m)\<rparr>) =
        (cleanup_locked (am_now m) m)\<lparr>am_uuid_next := Suc (am_uuid_next (cleanup_locked (am_now m) m))\<rparr>"
      by (simp add: cleanup_locked_def)
    then show ?thesis
      using approvals_ok_created [OF approvals_ok_cleanup [OF ok, of "am_now m"], of "new_challenge lib u tool args digest m"]
      by (simp add: ApCreate e m') (simp add: new_challenge_def)
  qed (simp add: ApCreate e ok)
next
  case (ApApprove u i)
  assume ok: "approvals_ok m"
  have upd: "approvals_ok (v\<lparr>am_random_next := n\<rparr>) = approvals_ok v" for n and v :: "'a approval_manager_scheme"
    by (simp add: approvals_ok_def distinct_keys_def token_backed_def)
  obtain res m' where e: "approval_approve lib u i m = (res, m')" by (cases "approval_approve lib u i m")
  from e show ?thesis
  proof (rule approve_cases)
    fix c raw
    assume c: "map_of (am_challenges (cleanup_locked (am_now m) m)) i = Some c" "ac_approved_at c = None"
        "ac_consumed_at c = None" and u: "approvable u (am_now m) c"
      and m': "m' = (cleanup_locked (am_now m) m)\<lparr>am_random_next := Suc (am_random_next m),
          am_challenges := AList.update i (c\<lparr>ac_approved_at := Some (am_now m)\<rparr>) (am_challenges (cleanup_locked (am_now m) m)),
          am_tokens := AList.update (hash_approval_token lib (token_text raw)) (record_of c u) (am_tokens (cleanup_locked (am_now m) m))\<rparr>"
    have "approvals_ok ((cleanup_locked (am_now m) m)\<lparr>am_random_next := Suc (am_random_next m)\<rparr>)"
      unfolding upd by (rule approvals_ok_cleanup [OF ok])
    from approvals_ok_issued [OF this, where i = i and c = c and now = "am_now m" and h = "hash_approval_token lib (token_text raw)"] c u
    show ?thesis by (simp add: ApApprove e m' approvable_def)
  qed (simp_all add: ApApprove e upd approvals_ok_cleanup ok)
next
  case (ApConsume u tool args tok)
  assume ok: "approvals_ok m"
  obtain res m' where e: "approval_consume lib u tool args tok m = (res, m')" by (cases "approval_consume lib u tool args tok m")
  from e show ?thesis
    by (rule consume_cases) (simp_all add: ApConsume e ok approvals_ok_cleanup approvals_ok_consumed)
next
  case (ApTime t)
  have "approvals_ok (m\<lparr>am_now := t\<rparr>) = approvals_ok m"
    by (simp add: approvals_ok_def distinct_keys_def token_backed_def)
  moreover assume "approvals_ok m"
  ultimately show ?thesis by (simp add: ApTime)
qed

text \<open>every sequence of operations of the manager keeps the invariant of its two tables.\<close>

lemma approvals_invariant:
  assumes "approvals_ok m" shows "approvals_ok (run_approvals lib ops m)"
  using assms unfolding run_approvals_def by (induction ops arbitrary: m) (simp_all add: exec_approval_ok)

definition demo_tool :: tool_definition where
  "demo_tool = \<lparr>td_name = ''srv.rm'', td_server = ''srv'', td_upstream = ''rm'', td_description = [],
     td_input_schema = ''null'', td_output_schema = [], td_read_only = False,
     td_idempotent = False, td_destructive = True, td_open_world = False, td_risk = RiskHigh,
     td_requires_approval = True\<rparr>"

definition demo_library :: mcp_library where
  "demo_library = \<lparr>rx_compile = (\<lambda>_. None), sha256_hex = (\<lambda>s. s), sanitize_text = (\<lambda>s n. s)\<rparr>"

definition demo_manager :: approval_manager where
  "demo_manager = \<lparr>am_ttl = 300, am_now = 1000, am_challenges = [], am_tokens = [],
     am_uuid = (\<lambda>n. replicate n (CHR ''u'')), am_uuid_next = 0,
     am_random = (\<lambda>n. Some (replicate n (CHR ''r''))), am_random_next = 0\<rparr>"

text \<open>A manager after one challenge was created and approved: one token is out.\<close>

definition demo_challenge :: approval_challenge where
  "demo_challenge = \<lparr>ac_id = [], ac_tool = ''srv.rm'', ac_risk = RiskHigh, ac_digest = ''{}'',
     ac_preview = ''{}'', ac_expires_at = 1300, ac_approved_at = Some 1000, ac_consumed_at = None, ac_user = ''alice''\<rparr>"

definition demo_approved :: approval_manager where
  "demo_approved = demo_manager\<lparr>am_uuid_next := 1, am_random_next := 1,
     am_challenges := [([], demo_challenge)],
     am_tokens := [(''mcp_apv_'', record_of demo_challenge ''alice'')]\<rparr>"

lemma replicate_inj: "inj (\<lambda>n. replicate n x)"
  by (rule injI) (metis length_replicate)

lemma demo_approved_ok: "approvals_ok demo_approved"
  by (rule approvals_okI)
     (auto simp: demo_approved_def demo_manager_def distinct_keys_def replicate_inj token_backed_def demo_challenge_def
        record_of_def split: if_splits)

lemma approvals_invariant_witness:
  "approvals_ok (run_approvals demo_library [ApConsume ''alice'' ''srv.rm'' [] ''mcp_apv_'', ApTime 2000] demo_approved)"
  by (rule approvals_invariant [OF demo_approved_ok])

section \<open>Single use\<close>

text \<open>A token hash that is not in the table, and that no token still to be drawn has.\<close>

definition spent :: "('l) mcp_library_scheme \<Rightarrow> string \<Rightarrow> 'm approval_manager_scheme \<Rightarrow> bool" where
  "spent lib h m \<longleftrightarrow> h \<notin> fst ` set (am_tokens m) \<and>
     (\<forall>n raw. am_random_next m \<le> n \<longrightarrow> am_random m n = Some raw \<longrightarrow> hash_approval_token lib (token_text raw) \<noteq> h)"

lemma in_set_delete: "x \<in> set (AList.delete k xs) \<longleftrightarrow> x \<in> set xs \<and> fst x \<noteq> k"
  by (induction xs) auto

lemma spent_cleanup: "spent lib h m \<Longrightarrow> spent lib h (cleanup_locked now m)"
  by (auto simp: spent_def cleanup_locked_def)

lemma spent_exec:
  fixes m :: "'a approval_manager_scheme"
  assumes sp: "spent lib h m" shows "spent lib h (exec_approval lib op m)"
proof (cases op)
  case (ApCreate u tool args)
  obtain res m' where e: "approval_create lib u tool args m = (res, m')" by (cases "approval_create lib u tool args m")
  from e show ?thesis
    by (rule create_cases) (use sp in \<open>auto simp: ApCreate e spent_def store_challenge_def cleanup_locked_def\<close>)
next
  case (ApApprove u i)
  obtain res m' where e: "approval_approve lib u i m = (res, m')" by (cases "approval_approve lib u i m")
  from e show ?thesis
  proof (rule approve_cases)
    fix c raw
    assume raw: "am_random m (am_random_next m) = Some raw"
      and m': "m' = (cleanup_locked (am_now m) m)\<lparr>am_random_next := Suc (am_random_next m),
          am_challenges := AList.update i (c\<lparr>ac_approved_at := Some (am_now m)\<rparr>) (am_challenges (cleanup_locked (am_now m) m)),
          am_tokens := AList.update (hash_approval_token lib (token_text raw)) (record_of c u) (am_tokens (cleanup_locked (am_now m) m))\<rparr>"
    have "hash_approval_token lib (token_text raw) \<noteq> h" using sp raw unfolding spent_def by blast
    moreover have "h \<notin> fst ` set (am_tokens (cleanup_locked (am_now m) m))"
      using spent_cleanup [OF sp] unfolding spent_def by blast
    ultimately have "h \<notin> fst ` set (am_tokens m')" by (simp add: m' dom_update)
    moreover have "hash_approval_token lib (token_text raw') \<noteq> h"
      if "am_random_next m' \<le> n" "am_random m' n = Some raw'" for n raw'
    proof -
      have "am_random_next m \<le> n" "am_random m n = Some raw'" using that by (simp_all add: m')
      then show ?thesis using sp unfolding spent_def by blast
    qed
    ultimately show ?thesis by (simp add: ApApprove e spent_def)
    next
    fix e' assume m': "res = Inl e'" "m' = (cleanup_locked (am_now m) m)\<lparr>am_random_next := Suc (am_random_next m)\<rparr>"
    have "spent lib h (v\<lparr>am_random_next := Suc (am_random_next v)\<rparr>)" if "spent lib h v" for v :: "'a approval_manager_scheme"
    proof -
      have "hash_approval_token lib (token_text raw) \<noteq> h" if "Suc (am_random_next v) \<le> n" "am_random v n = Some raw" for n raw
        using that \<open>spent lib h v\<close> Suc_leD unfolding spent_def by blast
      then show ?thesis using that unfolding spent_def by simp
    qed
    from this [OF spent_cleanup [OF sp, of "am_now m"]] show ?thesis by (simp add: ApApprove e m')
  qed (simp add: ApApprove e spent_cleanup [OF sp])
next
  case (ApConsume u tool args tok)
  obtain res m' where e: "approval_consume lib u tool args tok m = (res, m')" by (cases "approval_consume lib u tool args tok m")
  from e show ?thesis
    by (rule consume_cases)
       (use sp spent_cleanup [OF sp] in \<open>force simp: ApConsume e spent_def in_set_delete\<close>)+
next
  case (ApTime t)
  then show ?thesis using sp by (simp add: spent_def)
qed

lemma spent_run: "spent lib h m \<Longrightarrow> spent lib h (run_approvals lib ops m)"
  unfolding run_approvals_def by (induction ops arbitrary: m) (simp_all add: spent_exec)

lemma spent_refused:
  assumes "spent lib (hash_approval_token lib tok) m"
  shows "isl (fst (approval_consume lib u tool args tok m))"
proof -
  obtain res m' where e: "approval_consume lib u tool args tok m = (res, m')" by (cases "approval_consume lib u tool args tok m")
  from e show ?thesis
  proof (rule consume_cases)
    fix digest r
    assume "map_of (am_tokens (cleanup_locked (am_now m) m)) (hash_approval_token lib tok) = Some r"
    then show ?thesis using spent_cleanup [OF assms, of "am_now m"] by (force simp: spent_def dest: map_of_SomeD)
  qed (simp_all add: e)
qed

text \<open>
  Once a token has been presented for encodable arguments, whether it was accepted or
  not, no sequence of operations makes it acceptable again, given that the random source never
  produces a token with the same hash again.
\<close>

lemma token_single_use:
  assumes "approval_consume lib u tool args tok m = (res, m')" and "tok \<noteq> []" and "arguments_digest lib args \<noteq> None"
    and "\<And>n raw. am_random_next m \<le> n \<Longrightarrow> am_random m n = Some raw \<Longrightarrow>
       hash_approval_token lib (token_text raw) \<noteq> hash_approval_token lib tok"
  shows "isl (fst (approval_consume lib u' tool' args' tok (run_approvals lib ops m')))"
proof (rule spent_refused, rule spent_run)
  from assms(1) show "spent lib (hash_approval_token lib tok) m'"
  proof (rule consume_cases)
    assume "tok = [] \<or> arguments_digest lib args = None"
    then show ?thesis using assms(2,3) by blast
  next
    fix e
    assume "m' = cleanup_locked (am_now m) m"
      and "map_of (am_tokens (cleanup_locked (am_now m) m)) (hash_approval_token lib tok) = None"
    then show ?thesis using assms(4) by (auto simp: spent_def map_of_eq_None_iff)
  next
    fix digest r
    assume "m' = (cleanup_locked (am_now m) m)\<lparr>
          am_tokens := AList.delete (hash_approval_token lib tok) (am_tokens (cleanup_locked (am_now m) m)),
          am_challenges := consume_challenge (tr_challenge r) (am_now m) (am_challenges (cleanup_locked (am_now m) m))\<rparr>"
    then show ?thesis using assms(4) by (auto simp: spent_def in_set_delete)
  qed
qed

lemma token_single_use_witness:
  "isl (fst (approval_consume demo_library ''alice'' ''srv.rm'' [] ''mcp_apv_''
     (run_approvals demo_library [ApTime 1001, ApApprove ''alice'' []]
        (snd (approval_consume demo_library ''alice'' ''srv.rm'' [] ''mcp_apv_'' demo_approved)))))"
  by (rule token_single_use [OF prod.collapse [symmetric]])
     (auto simp: arguments_digest_def demo_approved_def demo_manager_def hash_approval_token_def demo_library_def token_text_def)

section \<open>What an accepted token proves\<close>

lemma consume_proves_approval_lemma:
  assumes "approvals_ok m" and "approval_consume lib u tool args tok m = (Inr (), m')"
  shows "\<exists>i c digest. arguments_digest lib args = Some digest \<and> map_of (am_challenges m) i = Some c \<and>
     ac_user c = u \<and> ac_tool c = tool \<and> ac_digest c = digest \<and> ac_approved_at c \<noteq> None \<and>
     ac_consumed_at c = None \<and> am_now m < ac_expires_at c \<and>
     map_of (am_challenges m') i = Some (c\<lparr>ac_consumed_at := Some (am_now m)\<rparr>) \<and>
     map_of (am_tokens m') (hash_approval_token lib tok) = None"
  using assms(2)
proof (rule consume_cases)
  let ?v = "cleanup_locked (am_now m) m" and ?h = "hash_approval_token lib tok"
  have d: "distinct_keys m" by (rule approvals_ok_keys [OF assms(1)])
  fix digest r
  assume digest: "arguments_digest lib args = Some digest" and r: "map_of (am_tokens ?v) ?h = Some r"
    and res: "Inr () = (if token_matches (am_now m) u tool digest r then Inr ()
       else Inl (HubError ApprovalInvalid ''approval token does not match this invocation''))"
    and m': "m' = ?v\<lparr>am_tokens := AList.delete ?h (am_tokens ?v),
       am_challenges := consume_challenge (tr_challenge r) (am_now m) (am_challenges ?v)\<rparr>"
  have match: "token_matches (am_now m) u tool digest r" using res by (auto split: if_splits)
  have "token_backed ?v r" by (rule approvals_ok_backed [OF approvals_ok_cleanup [OF assms(1)] r])
  then obtain c where c: "map_of (am_challenges ?v) (tr_challenge r) = Some c" "ac_approved_at c \<noteq> None"
      "ac_consumed_at c = None" "record_of c (ac_user c) = r"
    unfolding token_backed_def by blast
  have fields: "tr_user r = ac_user c" "tr_tool r = ac_tool c" "tr_digest r = ac_digest c" "tr_expires_at r = ac_expires_at c"
    unfolding c(4) [symmetric] by (simp_all add: record_of_def)
  have "map_of (am_challenges m) (tr_challenge r) = Some c" using c(1) cleanup_challenge [OF d] by blast
  moreover have "map_of (am_challenges m') (tr_challenge r) = Some (c\<lparr>ac_consumed_at := Some (am_now m)\<rparr>)"
    using c(1) by (simp add: m' consume_challenge_lookup)
  ultimately show ?thesis
    using digest match fields c(2,3) by (auto simp: token_matches_def m' lookup_delete)
qed auto

text \<open>A token is accepted only if a challenge exists that the same user approved, for the same
  tool and the same argument digest, and that had neither expired nor been consumed; afterwards
  the challenge is consumed, the token is gone, and other tokens are as before.
\<close>

lemma consume_proves_approval:
  assumes "approvals_ok m" and "approval_consume lib u tool args tok m = (Inr (), m')"
  shows "\<exists>i c digest. arguments_digest lib args = Some digest \<and> map_of (am_challenges m) i = Some c \<and>
     ac_user c = u \<and> ac_tool c = tool \<and> ac_digest c = digest \<and> ac_approved_at c \<noteq> None \<and>
     ac_consumed_at c = None \<and> am_now m < ac_expires_at c \<and>
     map_of (am_challenges m') i = Some (c\<lparr>ac_consumed_at := Some (am_now m)\<rparr>) \<and>
     map_of (am_tokens m') (hash_approval_token lib tok) = None"
  using assms by (rule consume_proves_approval_lemma)

lemma consume_proves_approval_witness:
  "\<exists>c. map_of (am_challenges demo_approved) [] = Some c \<and> ac_user c = ''alice'' \<and>
     map_of (am_tokens (snd (approval_consume demo_library ''alice'' ''srv.rm'' [] ''mcp_apv_'' demo_approved))) ''mcp_apv_'' = None"
proof -
  have "approval_consume demo_library ''alice'' ''srv.rm'' [] ''mcp_apv_'' demo_approved =
      (Inr (), snd (approval_consume demo_library ''alice'' ''srv.rm'' [] ''mcp_apv_'' demo_approved))"
    by (simp add: approval_consume_def call_eval arguments_digest_def hash_approval_token_def demo_library_def
        demo_approved_def demo_manager_def cleanup_locked_def record_of_def demo_challenge_def token_matches_def)
  from consume_proves_approval [OF demo_approved_ok this] show ?thesis
    by (auto simp: hash_approval_token_def demo_library_def demo_approved_def demo_manager_def split: if_splits)
qed

section \<open>Redaction\<close>

text \<open>All fields of a value, at any depth.\<close>

fun all_fields :: "json \<Rightarrow> (string \<times> json) list" where
  "all_fields (JObj fs) = fs @ concat (map (\<lambda>f. all_fields (snd f)) fs)"
| "all_fields (JArr xs) = concat (map all_fields xs)"
| "all_fields _ = []"

text \<open>the value prepared for previews and audit shows nothing under a sensitive key.\<close>

lemma sensitive_fields_hidden:
  "(k, v) \<in> set (all_fields (redact_value n lib key w)) \<Longrightarrow> sensitive_key k \<Longrightarrow> v = JStr ''[REDACTED]''"
proof (induction n arbitrary: key w)
  case (Suc n)
  have top: "redact_value n lib k x = JStr ''[REDACTED]''" for x
    using Suc.prems(2) by (cases n) simp_all
  show ?case
  proof (cases "sensitive_key key")
    case False
    show ?thesis
    proof (cases w)
      case (JObj fs)
      then show ?thesis using Suc.prems(1) False Suc.IH [OF _ Suc.prems(2)] top by (auto simp: split_beta)
    next
      case (JArr xs)
      then show ?thesis using Suc.prems(1) False Suc.IH [OF _ Suc.prems(2)] by (auto split: if_splits)
    qed (use Suc.prems(1) False in \<open>simp_all\<close>)
  qed (use Suc.prems(1) in simp)
qed (simp split: if_splits)

lemma sensitive_word:
  assumes "rx_word w \<in> {rx_word ''token'', rx_word ''secret'', rx_word ''password''}" and "graphic w"
    and "rx_lang (rx_word w) (map byte_of w)"
  shows "sensitive_key w"
  unfolding sensitive_key_def search_lang trim_graphic [OF assms(2)] runes_ascii [OF graphic_ascii [OF assms(2)]]
proof (intro exI conjI)
  show "map byte_of w = [] @ map byte_of w @ []" by simp
  show "rx_lang sensitive_name_pattern (map byte_of w)"
    unfolding sensitive_name_pattern_def lang_alts using assms(1,3) by (intro bexI [of _ "rx_word w"]) auto
qed

lemma sensitive_token: "sensitive_key ''token''"
  by (rule sensitive_word) (simp_all add: graphic_def byte_of_def lang_word fold_rune_def del: rx_word.simps)

lemma insensitive_empty: "\<not> sensitive_key []"
  by (simp add: sensitive_key_def rx_search_def rx_accepts_def runes_def sensitive_name_pattern_def)

lemma sensitive_fields_hidden_witness:
  "redact_value 1 demo_library ''token'' (JStr ''hunter2'') = JStr ''[REDACTED]''"
  by (rule sensitive_fields_hidden [of "''token''" _ 2 demo_library "[]" "JObj [(''token'', JStr ''hunter2'')]"])
     (simp_all add: eval_nat_numeral insensitive_empty sensitive_token)

end
