(* ===== verification/McpRegistry.thy ===== *)
theory McpRegistry
  imports McpApproval
begin

text \<open>
  \<open>src/common/mcphub/registry.go\<close>: the registry of MCP servers and their tools, and the
  invocation of a tool through allowlists, schema validation, approval and retries, with one
  audit event per invocation. The MCP protocol client (third-party transport) is given by
  schedules of its replies; an empty schedule is a server that fails every request. Methods of
  the registry are modelled as steps: its locks make the updates of its maps atomic, and the
  runtime of a server is locked while it is refreshed or called.
\<close>

section \<open>State\<close>

datatype protocol_error = DeadlineExceeded | RequestCanceled | TransportError

datatype server_state =
    ServerDisabled | ServerBlocked | ServerConnecting | ServerReady | ServerDegraded | ServerError | ServerClosed

record protocol_info =
  pi_version :: string
  pi_server_name :: string
  pi_server_version :: string

record server_status =
  st_id :: string
  st_url :: string
  st_enabled :: bool
  st_allowed :: bool
  st_state :: server_state
  st_timeout_ms :: int
  st_credential_env :: string
  st_credential_configured :: bool
  st_tool_count :: nat
  st_protocol :: "protocol_info option"
  st_last_refresh :: "time option"
  st_last_error_code :: "hub_code option"
  st_last_error :: string

record runtime =
  rt_config :: server_config
  rt_client :: bool
  rt_status :: server_status

text \<open>A tool result: the kinds of its contents with their sizes, and its JSON encoding.\<close>

record call_result =
  res_is_error :: bool
  res_contents :: "(string \<times> nat) list"
  res_structured :: bool
  res_json :: "string option"

record upstream_call =
  uc_server :: string
  uc_tool :: string
  uc_arguments :: fields
  uc_operation :: string

record audit_event =
  ev_request_id :: string
  ev_user :: string
  ev_server :: string
  ev_tool :: string
  ev_risk :: "risk_level option"
  ev_outcome :: string
  ev_approval_used :: bool
  ev_attempts :: nat
  ev_digest :: string
  ev_preview :: string
  ev_summary :: string
  ev_error_code :: "hub_code option"
  ev_error_message :: string

record registry = approval_manager +
  rg_config :: hub_config
  rg_servers :: "(string \<times> runtime) list"
  rg_tools :: "(string \<times> tool_definition) list"
  rg_closed :: bool
  rg_factory :: "hub_error option list"
  rg_inits :: "(protocol_error + protocol_info) list"
  rg_lists :: "(protocol_error + upstream_tool list) list"
  rg_calls :: "(protocol_error + call_result option) list"
  rg_waits :: "protocol_error option list"
  rg_log :: "upstream_call list"
  rg_audits :: "audit_event list"

record hub_library = mcp_library +
  hl_urls :: url_library
  hl_public_url :: "string \<Rightarrow> string"
  hl_env :: "string \<Rightarrow> string option"

type_synonym ('r, 'a) hub_call = "('r registry_scheme, hub_error, 'a) call"

section \<open>Errors and summaries\<close>

definition classify_protocol_error :: "string \<Rightarrow> protocol_error \<Rightarrow> hub_error" where
  "classify_protocol_error message e = (case e of
     DeadlineExceeded \<Rightarrow> HubError TimedOut (message @ '' due to timeout'')
   | RequestCanceled \<Rightarrow> HubError CallCanceled (message @ '' because the request was canceled'')
   | TransportError \<Rightarrow> HubError ProtocolError message)"

definition retryable_protocol_error :: "protocol_error \<Rightarrow> bool" where
  "retryable_protocol_error e \<longleftrightarrow> e = TransportError"

definition outcome_for_error :: "hub_error \<Rightarrow> string" where
  "outcome_for_error e = (case error_code e of
     TimedOut \<Rightarrow> ''timeout'' | CallCanceled \<Rightarrow> ''canceled''
   | ApprovalRequired \<Rightarrow> ''rejected'' | ApprovalInvalid \<Rightarrow> ''rejected'' | InvalidArguments \<Rightarrow> ''rejected''
   | ToolNotAllowed \<Rightarrow> ''rejected'' | ToolNotFound \<Rightarrow> ''rejected'' | ServerNotAllowed \<Rightarrow> ''rejected''
   | _ \<Rightarrow> ''protocol_error'')"

fun show_nat :: "nat \<Rightarrow> string" where
  "show_nat n = (if n < 10 then [ch (48 + n)] else show_nat (n div 10) @ [ch (48 + n mod 10)])"

definition summarize_result :: "call_result option \<Rightarrow> string" where
  "summarize_result r = (case r of None \<Rightarrow> ''no result''
   | Some res \<Rightarrow>
       let kinds = remdups (map fst (res_contents res));
           count = (\<lambda>k. length (filter (\<lambda>c. fst c = k) (res_contents res)))
       in case marshal (JObj [(''is_error'', JBool (res_is_error res)),
            (''content_types'', JObj (map (\<lambda>k. (k, JNum (show_nat (count k)))) kinds)),
            (''approximate_bytes'', JNum (show_nat (sum_list (map snd (res_contents res))))),
            (''structured'', JBool (res_structured res))]) of
          None \<Rightarrow> ''result summary unavailable'' | Some s \<Rightarrow> s)"

definition safe_error :: "'l mcp_library_scheme \<Rightarrow> hub_error \<Rightarrow> string" where
  "safe_error lib e = sanitize_text lib (public_error_message e) max_audit_error_runes"

definition split_namespaced_tool :: "string \<Rightarrow> (string \<times> string) option" where
  "split_namespaced_tool name0 = (let name = trim_space name0;
       serverID = takeWhile (\<lambda>c. c \<noteq> CHR ''.'') name; rest = dropWhile (\<lambda>c. c \<noteq> CHR ''.'') name
     in case rest of [] \<Rightarrow> None
        | _ # upstream \<Rightarrow> if validate_server_id serverID \<and> validate_tool_name upstream
            then Some (serverID, upstream) else None)"

section \<open>Applying a configuration\<close>

definition has_line_break :: "string \<Rightarrow> bool" where
  "has_line_break v \<longleftrightarrow> CHR 0x0D \<in> set v \<or> CHR 0x0A \<in> set v"

definition credential_configured :: "'l hub_library_scheme \<Rightarrow> server_config \<Rightarrow> bool" where
  "credential_configured lib server = (case sc_credential server of None \<Rightarrow> True
     | Some c \<Rightarrow> (case hl_env lib (cr_env c) of None \<Rightarrow> False
         | Some v \<Rightarrow> v \<noteq> [] \<and> \<not> has_line_break v))"

definition credential_env :: "server_config \<Rightarrow> string" where
  "credential_env server = (case sc_credential server of None \<Rightarrow> [] | Some c \<Rightarrow> cr_env c)"

definition initial_state :: "server_config \<Rightarrow> bool \<Rightarrow> server_state" where
  "initial_state server allowed = (if sc_enabled server \<and> \<not> allowed then ServerBlocked
     else if sc_enabled server \<and> allowed then ServerConnecting else ServerDisabled)"

definition new_runtime :: "'l hub_library_scheme \<Rightarrow> server_config \<Rightarrow> bool \<Rightarrow> runtime" where
  "new_runtime lib server allowed = \<lparr>rt_config = server, rt_client = False, rt_status =
     \<lparr>st_id = sc_id server, st_url = hl_public_url lib (sc_url server), st_enabled = sc_enabled server,
      st_allowed = allowed, st_state = initial_state server allowed, st_timeout_ms = sc_timeout_ms server,
      st_credential_env = credential_env server, st_credential_configured = credential_configured lib server,
      st_tool_count = 0, st_protocol = None, st_last_refresh = None, st_last_error_code = None, st_last_error = []\<rparr>\<rparr>"

text \<open>The runtime of a server that is configured as before and as allowed as before is kept.\<close>

definition retained_runtime :: "'r registry_scheme \<Rightarrow> hub_config \<Rightarrow> server_config \<Rightarrow> runtime option" where
  "retained_runtime r config server = (case map_of (rg_servers r) (sc_id server) of
     Some old \<Rightarrow> if server_allowed (rg_config r) (sc_id server) = server_allowed config (sc_id server) \<and>
         rt_config old = server then Some old else None
   | None \<Rightarrow> None)"

definition runtime_for :: "'l hub_library_scheme \<Rightarrow> 'r registry_scheme \<Rightarrow> hub_config \<Rightarrow> server_config \<Rightarrow> string \<times> runtime" where
  "runtime_for lib r config server = (sc_id server, case retained_runtime r config server of
     Some old \<Rightarrow> old | None \<Rightarrow> new_runtime lib server (server_allowed config (sc_id server)))"

definition retained_ids :: "'r registry_scheme \<Rightarrow> hub_config \<Rightarrow> string list" where
  "retained_ids r config = map sc_id (filter (\<lambda>s. retained_runtime r config s \<noteq> None) (hc_servers config))"

definition apply_validated :: "'l hub_library_scheme \<Rightarrow> hub_config \<Rightarrow> ('r, unit) hub_call" where
  "apply_validated lib config =
     bindE (gets rg_closed) (\<lambda>closed.
     bindE (guardE (\<not> closed) (HubError InternalError ''MCP registry is closed'')) (\<lambda>_.
     modifies (\<lambda>r. r\<lparr>rg_config := config,
       rg_servers := map (runtime_for lib r config) (hc_servers config),
       rg_tools := filter (\<lambda>(_, t). td_server t \<in> set (retained_ids r config)) (rg_tools r)\<rparr>)))"

definition apply_config :: "'l hub_library_scheme \<Rightarrow> hub_config \<Rightarrow> ('r, unit) hub_call" where
  "apply_config lib config = (case validate_config (hl_urls lib) config of
     Inl _ \<Rightarrow> fail (HubError InvalidConfig ''MCP registry configuration is invalid'')
   | Inr valid \<Rightarrow> apply_validated lib valid)"

section \<open>Connecting to a server and discovering its tools\<close>

definition find_runtime :: "string \<Rightarrow> ('r, runtime) hub_call" where
  "find_runtime serverID =
     bindE (gets rg_closed) (\<lambda>closed.
     bindE (guardE (\<not> closed) (HubError InternalError ''MCP registry is closed'')) (\<lambda>_.
     bindE (gets (\<lambda>r. map_of (rg_servers r) serverID)) (\<lambda>found. case found of
       None \<Rightarrow> fail (HubError ServerNotAllowed ''MCP server is not configured'')
     | Some rt \<Rightarrow> bindE (gets (\<lambda>r. server_allowed (rg_config r) serverID)) (\<lambda>allowed.
         bindE (guardE allowed (HubError ServerNotAllowed ''MCP server is not allowlisted'')) (\<lambda>_. ret rt)))))"

definition set_runtime :: "string \<Rightarrow> runtime \<Rightarrow> ('r, unit) hub_call" where
  "set_runtime serverID rt = modifies (\<lambda>r. r\<lparr>rg_servers := AList.update serverID rt (rg_servers r)\<rparr>)"

definition with_status :: "(server_status \<Rightarrow> server_status) \<Rightarrow> runtime \<Rightarrow> runtime" where
  "with_status f rt = rt\<lparr>rt_status := f (rt_status rt)\<rparr>"

definition record_server_error :: "'l mcp_library_scheme \<Rightarrow> hub_error \<Rightarrow> runtime \<Rightarrow> runtime" where
  "record_server_error lib e = with_status (\<lambda>s. s\<lparr>st_state := ServerError,
     st_last_error_code := Some (error_code e), st_last_error := safe_error lib e\<rparr>)"

definition next_factory :: "('r, hub_error option) hub_call" where
  "next_factory = (\<lambda>r. (Inr (case rg_factory r of e # _ \<Rightarrow> e | [] \<Rightarrow> Some (OtherError [])),
     r\<lparr>rg_factory := tl (rg_factory r)\<rparr>))"

definition next_init :: "('r, protocol_error + protocol_info) hub_call" where
  "next_init = (\<lambda>r. (Inr (case rg_inits r of x # _ \<Rightarrow> x | [] \<Rightarrow> Inl TransportError), r\<lparr>rg_inits := tl (rg_inits r)\<rparr>))"

definition next_list :: "('r, protocol_error + upstream_tool list) hub_call" where
  "next_list = (\<lambda>r. (Inr (case rg_lists r of x # _ \<Rightarrow> x | [] \<Rightarrow> Inl TransportError), r\<lparr>rg_lists := tl (rg_lists r)\<rparr>))"

text \<open>The client of a runtime: kept, or created and initialised. \<open>True\<close> when it was created.\<close>

definition ensure_client :: "'l mcp_library_scheme \<Rightarrow> string \<Rightarrow> runtime \<Rightarrow> ('r, runtime \<times> bool) hub_call" where
  "ensure_client lib serverID rt = (if rt_client rt then ret (rt, False)
     else bindE next_factory (\<lambda>created. case created of
       Some e \<Rightarrow> bindE (set_runtime serverID (record_server_error lib e rt)) (\<lambda>_. fail e)
     | None \<Rightarrow> bindE next_init (\<lambda>reply. case reply of
         Inl _ \<Rightarrow> (let e = HubError ServerUnavailable ''MCP server initialization failed''
           in bindE (set_runtime serverID (record_server_error lib e rt)) (\<lambda>_. fail e))
       | Inr info \<Rightarrow> ret (with_status (\<lambda>s. s\<lparr>st_protocol := Some info\<rparr>) (rt\<lparr>rt_client := True\<rparr>), True))))"

definition accepted_tools :: "rx_compiler \<Rightarrow> server_config \<Rightarrow> upstream_tool list \<Rightarrow> tool_definition list" where
  "accepted_tools rx server ts =
     List.map_filter (\<lambda>t. if tool_allowed server (ut_name t)
       then (case convert_tool rx server t of Inl _ \<Rightarrow> None | Inr d \<Rightarrow> Some d) else None) ts"

definition rejected_tools :: "rx_compiler \<Rightarrow> server_config \<Rightarrow> upstream_tool list \<Rightarrow> upstream_tool list" where
  "rejected_tools rx server ts = filter (\<lambda>t. tool_allowed server (ut_name t) \<and> isl (convert_tool rx server t)) ts"

definition replace_server_tools :: "string \<Rightarrow> tool_definition list \<Rightarrow> (string \<times> tool_definition) list \<Rightarrow>
    (string \<times> tool_definition) list" where
  "replace_server_tools serverID tools old =
     fold (\<lambda>t. AList.update (td_name t) t) tools (filter (\<lambda>(_, t). td_server t \<noteq> serverID) old)"

definition partial_discovery :: hub_error where
  "partial_discovery = HubError ProtocolError ''one or more allowlisted tool schemas were rejected''"

definition store_discovery :: "'l hub_library_scheme \<Rightarrow> string \<Rightarrow> runtime \<Rightarrow> upstream_tool list \<Rightarrow> ('r, unit) hub_call" where
  "store_discovery lib serverID rt ts =
     (let server = rt_config rt;
          tools = sort_key td_name (accepted_tools (rx_compile lib) server ts);
          bad = rejected_tools (rx_compile lib) server ts \<noteq> []
      in bindE (modifies (\<lambda>r. r\<lparr>rg_tools := replace_server_tools serverID tools (rg_tools r)\<rparr>)) (\<lambda>_.
         bindE (gets am_now) (\<lambda>now.
         bindE (set_runtime serverID (with_status (\<lambda>s. s\<lparr>st_last_refresh := Some now,
             st_tool_count := length tools, st_credential_configured := credential_configured lib server,
             st_state := (if bad then ServerDegraded else ServerReady),
             st_last_error_code := (if bad then Some ProtocolError else st_last_error_code s),
             st_last_error := (if bad then public_error_message partial_discovery else st_last_error s)\<rparr>) rt)) (\<lambda>_.
         guardE (\<not> bad) partial_discovery))))"

definition mark_state :: "string \<Rightarrow> runtime \<Rightarrow> server_state \<Rightarrow> ('r, unit) hub_call" where
  "mark_state serverID rt state = set_runtime serverID (with_status (\<lambda>s. s\<lparr>st_state := state\<rparr>) rt)"

definition list_and_store :: "'l hub_library_scheme \<Rightarrow> string \<Rightarrow> runtime \<Rightarrow> bool \<Rightarrow> ('r, unit) hub_call" where
  "list_and_store lib serverID rt created = bindE next_list (\<lambda>reply. case reply of
     Inl pe \<Rightarrow> (let e = classify_protocol_error ''MCP tools/list failed'' pe
       in bindE (set_runtime serverID (record_server_error lib e (rt\<lparr>rt_client := \<not> created \<and> rt_client rt\<rparr>))) (\<lambda>_. fail e))
   | Inr ts \<Rightarrow> store_discovery lib serverID rt ts)"

definition connecting :: "runtime \<Rightarrow> runtime" where
  "connecting = with_status (\<lambda>s. s\<lparr>st_state := ServerConnecting, st_last_error := [], st_last_error_code := None\<rparr>)"

definition discover :: "'l hub_library_scheme \<Rightarrow> string \<Rightarrow> runtime \<Rightarrow> ('r, unit) hub_call" where
  "discover lib serverID rt0 = bindE (ensure_client lib serverID (connecting rt0)) (\<lambda>(rt, created).
     list_and_store lib serverID rt created)"

definition usable :: "runtime \<Rightarrow> bool" where
  "usable rt \<longleftrightarrow> rt_client rt \<and> st_state (rt_status rt) \<in> {ServerReady, ServerDegraded}"

definition connect_and_discover :: "'l hub_library_scheme \<Rightarrow> string \<Rightarrow> runtime \<Rightarrow> bool \<Rightarrow> ('r, unit) hub_call" where
  "connect_and_discover lib serverID rt force =
     bindE (gets (\<lambda>r. (rg_closed r, server_allowed (rg_config r) serverID))) (\<lambda>(closed, allowed).
     bindE (guardE (\<not> closed) (HubError InternalError ''MCP registry is closed'')) (\<lambda>_.
     if \<not> sc_enabled (rt_config rt) then
       bindE (mark_state serverID rt ServerDisabled) (\<lambda>_. fail (HubError ServerUnavailable ''MCP server is disabled''))
     else if \<not> allowed then
       bindE (mark_state serverID rt ServerBlocked) (\<lambda>_. fail (HubError ServerNotAllowed ''MCP server is not allowlisted''))
     else if usable rt \<and> \<not> force then ret ()
     else discover lib serverID rt))"

definition refresh :: "'l hub_library_scheme \<Rightarrow> string \<Rightarrow> ('r, unit) hub_call" where
  "refresh lib serverID = bindE (find_runtime serverID) (\<lambda>rt. connect_and_discover lib serverID rt True)"

text \<open>Refreshing every enabled and allowed server; the errors found are collected.\<close>

fun for_servers :: "(string \<Rightarrow> ('r, unit) hub_call) \<Rightarrow> string list \<Rightarrow> ('r, hub_error list) hub_call" where
  "for_servers step [] = ret []"
| "for_servers step (i # ids) = bindE (tryE (step i)) (\<lambda>res.
     bindE (for_servers step ids) (\<lambda>es. ret (case res of Inl e \<Rightarrow> e # es | Inr _ \<Rightarrow> es)))"

definition active_ids :: "'r registry_scheme \<Rightarrow> string list" where
  "active_ids r = map fst (filter (\<lambda>(i, rt). sc_enabled (rt_config rt) \<and>
     server_allowed (rg_config r) i) (rg_servers r))"

definition initialize_one :: "'l hub_library_scheme \<Rightarrow> string \<Rightarrow> ('r, unit) hub_call" where
  "initialize_one lib i = bindE (gets (\<lambda>r. map_of (rg_servers r) i)) (\<lambda>found. case found of
     None \<Rightarrow> ret () | Some rt \<Rightarrow> connect_and_discover lib i rt False)"

definition initialize :: "'l hub_library_scheme \<Rightarrow> ('r, hub_error list) hub_call" where
  "initialize lib = bindE (gets rg_closed) (\<lambda>closed.
     bindE (guardE (\<not> closed) (HubError InternalError ''MCP registry is closed'')) (\<lambda>_.
     bindE (gets active_ids) (\<lambda>ids. for_servers (initialize_one lib) ids)))"

definition refresh_all :: "'l hub_library_scheme \<Rightarrow> ('r, hub_error list) hub_call" where
  "refresh_all lib = bindE (gets active_ids) (\<lambda>ids. for_servers (refresh lib) (sort ids))"

section \<open>Looking tools up\<close>

definition list_tools :: "'r registry_scheme \<Rightarrow> tool_definition list" where
  "list_tools r = sort_key td_name (map snd (rg_tools r))"

definition list_servers :: "'r registry_scheme \<Rightarrow> server_status list" where
  "list_servers r = sort_key st_id (map (rt_status \<circ> snd) (rg_servers r))"

definition find_tool :: "string \<Rightarrow> ('r, tool_definition) hub_call" where
  "find_tool name = (case split_namespaced_tool name of
     None \<Rightarrow> fail (HubError ToolNotFound ''tool name must use serverID.toolName'')
   | Some (serverID, upstream) \<Rightarrow>
       bindE (gets (\<lambda>r. (map_of (rg_servers r) serverID, map_of (rg_tools r) name, server_allowed (rg_config r) serverID)))
         (\<lambda>(server, tool, allowed). case server of
            None \<Rightarrow> fail (HubError ServerNotAllowed ''MCP server is not allowlisted'')
          | Some rt \<Rightarrow>
              bindE (guardE allowed (HubError ServerNotAllowed ''MCP server is not allowlisted'')) (\<lambda>_.
              bindE (guardE (tool_allowed (rt_config rt) upstream)
                 (HubError ToolNotAllowed ''MCP tool is not allowlisted'')) (\<lambda>_.
              case tool of None \<Rightarrow> fail (HubError ToolNotFound ''MCP tool was not discovered'')
                | Some t \<Rightarrow> ret t))))"

definition ensure_tool :: "'l hub_library_scheme \<Rightarrow> string \<Rightarrow> ('r, tool_definition) hub_call" where
  "ensure_tool lib name = bindE (tryE (find_tool name)) (\<lambda>res. case res of
     Inr t \<Rightarrow> ret t
   | Inl e \<Rightarrow> if error_code e \<noteq> ToolNotFound then fail e
       else (case split_namespaced_tool name of
          None \<Rightarrow> fail e
        | Some (serverID, _) \<Rightarrow> bindE (refresh lib serverID) (\<lambda>_. find_tool name)))"

definition create_approval :: "'l hub_library_scheme \<Rightarrow> string \<Rightarrow> string \<Rightarrow> fields \<Rightarrow> ('r, approval_challenge) hub_call" where
  "create_approval lib userName toolName args = bindE (ensure_tool lib toolName) (\<lambda>tool.
     approval_create lib userName tool args)"

section \<open>Invoking a tool\<close>

definition next_call :: "upstream_call \<Rightarrow> ('r, protocol_error + call_result option) hub_call" where
  "next_call c = (\<lambda>r. (Inr (case rg_calls r of x # _ \<Rightarrow> x | [] \<Rightarrow> Inl TransportError),
     r\<lparr>rg_calls := tl (rg_calls r), rg_log := rg_log r @ [c]\<rparr>))"

definition next_wait :: "('r, protocol_error option) hub_call" where
  "next_wait = (\<lambda>r. (Inr (case rg_waits r of x # _ \<Rightarrow> x | [] \<Rightarrow> None), r\<lparr>rg_waits := tl (rg_waits r)\<rparr>))"

text \<open>
  The loop over attempts: \<open>left\<close> attempts remain after this one. The result is the upstream's
  reply or the classified error, with the number of attempts made.
\<close>

fun call_loop :: "bool \<Rightarrow> upstream_call \<Rightarrow> nat \<Rightarrow> nat \<Rightarrow> ('r, (hub_error + call_result option) \<times> nat) hub_call" where
  "call_loop readOnly c left attempt = bindE (next_call c) (\<lambda>reply. case reply of
     Inr res \<Rightarrow> ret (Inr res, attempt)
   | Inl e \<Rightarrow> (case left of
       0 \<Rightarrow> ret (Inl (classify_protocol_error ''MCP tool invocation failed'' e), attempt)
     | Suc k \<Rightarrow>
         if \<not> readOnly \<or> \<not> retryable_protocol_error e
         then ret (Inl (classify_protocol_error ''MCP tool invocation failed'' e), attempt)
         else bindE next_wait (\<lambda>done. case done of
             Some stop \<Rightarrow> ret (Inl (classify_protocol_error ''MCP tool invocation failed'' stop), attempt)
           | None \<Rightarrow> call_loop readOnly c k (Suc attempt))))"

definition extra_attempts :: "server_config \<Rightarrow> tool_definition \<Rightarrow> nat" where
  "extra_attempts server tool = (if td_read_only tool then nat (sc_max_read_only_retries server) else 0)"

definition invoke_upstream :: "runtime \<Rightarrow> tool_definition \<Rightarrow> fields \<Rightarrow> string \<Rightarrow>
    ('r, (hub_error + call_result option) \<times> nat) hub_call" where
  "invoke_upstream rt tool args operationID =
     (if \<not> rt_client rt then ret (Inl (HubError ServerUnavailable ''MCP server is not initialized''), 0)
      else call_loop (td_read_only tool)
        \<lparr>uc_server = td_server tool, uc_tool = td_upstream tool, uc_arguments = args, uc_operation = operationID\<rparr>
        (extra_attempts (rt_config rt) tool) 1)"

record invoke_request =
  rq_user :: string
  rq_tool :: string
  rq_arguments :: fields
  rq_token :: string
  rq_operation :: string

record invocation_result =
  ir_request_id :: string
  ir_operation_id :: string
  ir_tool :: string
  ir_server :: string
  ir_risk :: risk_level
  ir_attempts :: nat
  ir_result :: call_result

definition new_event :: "'l mcp_library_scheme \<Rightarrow> invoke_request \<Rightarrow> string \<Rightarrow> audit_event" where
  "new_event lib q requestID = \<lparr>ev_request_id = requestID, ev_user = rq_user q,
     ev_server = (case split_namespaced_tool (rq_tool q) of None \<Rightarrow> [] | Some (i, _) \<Rightarrow> i), ev_tool = rq_tool q,
     ev_risk = None, ev_outcome = ''rejected'', ev_approval_used = False, ev_attempts = 0,
     ev_digest = (case arguments_digest lib (rq_arguments q) of None \<Rightarrow> [] | Some d \<Rightarrow> d),
     ev_preview = redacted_arguments lib (rq_arguments q), ev_summary = [], ev_error_code = None,
     ev_error_message = []\<rparr>"

text \<open>The checks before the upstream call: user, tool, arguments, operation identifier, approval.\<close>

definition authorize :: "'l hub_library_scheme \<Rightarrow> invoke_request \<Rightarrow> tool_definition \<Rightarrow> ('r, unit) hub_call" where
  "authorize lib q tool =
     bindE (guardE (validate_arguments (rx_compile lib) (td_input_schema tool) (rq_arguments q) = None)
        (HubError InvalidArguments ''tool arguments do not match the input schema'')) (\<lambda>_.
     bindE (guardE (length (trim_space (rq_operation q)) \<le> 64)
        (HubError InvalidArguments ''operation ID is too long'')) (\<lambda>_.
     if \<not> td_requires_approval tool then ret ()
     else if rq_token q = [] then fail (HubError ApprovalRequired (''tool '' @ td_name tool @ '' requires explicit approval''))
     else approval_consume lib (rq_user q) (td_name tool) (rq_arguments q) (rq_token q)))"

definition with_outcome :: "invoke_request \<Rightarrow> tool_definition \<Rightarrow> (hub_error + call_result option) \<times> nat \<Rightarrow> audit_event \<Rightarrow>
    audit_event \<times> (hub_error + invocation_result)" where
  "with_outcome q tool reply ev0 = (let (res, attempts) = reply;
       ev = ev0\<lparr>ev_attempts := attempts, ev_summary := summarize_result (case res of Inl _ \<Rightarrow> None | Inr r \<Rightarrow> r)\<rparr>
     in case res of
       Inl e \<Rightarrow> (ev\<lparr>ev_outcome := outcome_for_error e\<rparr>, Inl e)
     | Inr None \<Rightarrow> (ev\<lparr>ev_outcome := ''protocol_error''\<rparr>, Inl (HubError ProtocolError ''MCP tool returned no result''))
     | Inr (Some r) \<Rightarrow> (ev\<lparr>ev_outcome := (if res_is_error r then ''tool_error'' else ''success'')\<rparr>,
         Inr \<lparr>ir_request_id = ev_request_id ev, ir_operation_id = trim_space (rq_operation q), ir_tool = td_name tool,
           ir_server = td_server tool, ir_risk = td_risk tool, ir_attempts = attempts, ir_result = r\<rparr>))"

text \<open>The body of \<open>Invoke\<close>: the audit event as it stands at the return, and the result.\<close>

definition invoke_body :: "'l hub_library_scheme \<Rightarrow> invoke_request \<Rightarrow> audit_event \<Rightarrow>
    ('r, audit_event \<times> (hub_error + invocation_result)) hub_call" where
  "invoke_body lib q ev =
     (if trim_space (rq_user q) = [] then
        ret (ev, Inl (HubError ApprovalInvalid ''tool invocation requires an authenticated user''))
      else bindE (tryE (ensure_tool lib (rq_tool q))) (\<lambda>found. case found of
        Inl e \<Rightarrow> ret (ev, Inl e)
      | Inr tool \<Rightarrow> (let ev1 = ev\<lparr>ev_server := td_server tool, ev_risk := Some (td_risk tool)\<rparr>
          in bindE (tryE (authorize lib q tool)) (\<lambda>granted. case granted of
               Inl e \<Rightarrow> ret (ev1, Inl e)
             | Inr _ \<Rightarrow> (let ev2 = ev1\<lparr>ev_approval_used := td_requires_approval tool\<rparr>
                 in bindE (tryE (find_runtime (td_server tool))) (\<lambda>server. case server of
                      Inl e \<Rightarrow> ret (ev2, Inl e)
                    | Inr rt \<Rightarrow> bindE (invoke_upstream rt tool (rq_arguments q) (trim_space (rq_operation q))) (\<lambda>reply.
                        ret (with_outcome q tool reply ev2))))))))"

definition finish_event :: "'l mcp_library_scheme \<Rightarrow> hub_error + invocation_result \<Rightarrow> audit_event \<Rightarrow> audit_event" where
  "finish_event lib res ev = (case res of Inr _ \<Rightarrow> ev
     | Inl e \<Rightarrow> ev\<lparr>ev_error_code := Some (error_code e), ev_error_message := safe_error lib e\<rparr>)"

definition invoke :: "'l hub_library_scheme \<Rightarrow> invoke_request \<Rightarrow> ('r, invocation_result) hub_call" where
  "invoke lib q =
     bindE (gets (\<lambda>r. am_uuid r (am_uuid_next r))) (\<lambda>requestID.
     bindE (modifies (\<lambda>r. r\<lparr>am_uuid_next := Suc (am_uuid_next r)\<rparr>)) (\<lambda>_.
     bindE (invoke_body lib q (new_event lib q requestID)) (\<lambda>(ev, res).
     bindE (modifies (\<lambda>r. r\<lparr>rg_audits := rg_audits r @ [finish_event lib res ev]\<rparr>)) (\<lambda>_.
     case res of Inl e \<Rightarrow> fail e | Inr x \<Rightarrow> ret x))))"

definition close_runtime :: "runtime \<Rightarrow> runtime" where
  "close_runtime rt = with_status (\<lambda>s. s\<lparr>st_state := ServerClosed\<rparr>) (rt\<lparr>rt_client := False\<rparr>)"

definition close_registry :: "('r, unit) hub_call" where
  "close_registry = modifies (\<lambda>r. if rg_closed r then r else r\<lparr>rg_closed := True, rg_tools := [],
     rg_servers := map (\<lambda>(i, rt). (i, close_runtime rt)) (rg_servers r)\<rparr>)"

section \<open>The service around the registry\<close>

text \<open>\<open>Tools\<close>, \<open>AutomaticTools\<close> and \<open>InvokeAutomatic\<close> of \<open>src/service/mcphub/service.go\<close>.\<close>

definition service_tools :: "'l hub_library_scheme \<Rightarrow> bool \<Rightarrow> ('r, tool_definition list) hub_call" where
  "service_tools lib force =
     bindE (tryE (if force then refresh_all lib else initialize lib)) (\<lambda>res.
     bindE (gets list_tools) (\<lambda>tools. case res of
       Inl e \<Rightarrow> if tools = [] then fail e else ret tools
     | Inr (e # _) \<Rightarrow> if tools = [] then fail e else ret tools
     | Inr [] \<Rightarrow> ret tools))"

definition automatic :: "tool_definition \<Rightarrow> bool" where
  "automatic t \<longleftrightarrow> td_risk t = RiskLow \<and> \<not> td_requires_approval t"

definition automatic_tools :: "'l hub_library_scheme \<Rightarrow> ('r, tool_definition list) hub_call" where
  "automatic_tools lib = bindE (service_tools lib False) (\<lambda>tools. ret (filter automatic tools))"

definition invoke_automatic :: "'l hub_library_scheme \<Rightarrow> string \<Rightarrow> string \<Rightarrow> fields \<Rightarrow> ('r, invocation_result) hub_call" where
  "invoke_automatic lib userName toolName args =
     bindE (service_tools lib False) (\<lambda>_.
     bindE (find_tool toolName) (\<lambda>tool.
     bindE (guardE (automatic tool)
        (HubError ApprovalRequired (''tool '' @ td_name tool @ '' requires explicit approval''))) (\<lambda>_.
     invoke lib \<lparr>rq_user = userName, rq_tool = toolName, rq_arguments = args, rq_token = [], rq_operation = []\<rparr>)))"

end
