(* ===== verification/McpSafety.thy ===== *)
theory McpSafety
  imports McpRegistry
begin

text \<open>
  The invariant of the tool registry over every sequence of its operations, and what is true
  of every request that reaches an upstream server.
\<close>

section \<open>The invariant\<close>

definition tool_ok :: "'r registry_scheme \<Rightarrow> string \<Rightarrow> tool_definition \<Rightarrow> bool" where
  "tool_ok r n t \<longleftrightarrow> td_name t = n \<and> n = td_server t @ ''.'' @ td_upstream t \<and>
     (\<exists>rt. map_of (rg_servers r) (td_server t) = Some rt \<and>
        td_upstream t \<in> set (sc_tool_allowlist (rt_config rt)) \<and>
        (td_read_only t \<longrightarrow> td_upstream t \<in> set (sc_read_only_tools (rt_config rt))) \<and>
        (td_upstream t \<in> set (sc_approval_required_tools (rt_config rt)) \<longrightarrow> td_requires_approval t)) \<and>
     (td_destructive t \<longrightarrow> td_requires_approval t \<and> \<not> td_read_only t) \<and>
     (\<not> td_requires_approval t \<longrightarrow> td_risk t = RiskLow)"

definition servers_ok :: "'r registry_scheme \<Rightarrow> bool" where
  "servers_ok r \<longleftrightarrow> distinct (map fst (rg_servers r)) \<and> distinct (map fst (rg_tools r)) \<and>
     (\<forall>i rt. map_of (rg_servers r) i = Some rt \<longrightarrow> sc_id (rt_config rt) = i \<and> wf_server (rt_config rt))"

definition registry_ok :: "'r registry_scheme \<Rightarrow> bool" where
  "registry_ok r \<longleftrightarrow> servers_ok r \<and> (\<forall>n t. map_of (rg_tools r) n = Some t \<longrightarrow> tool_ok r n t)"

text \<open>The registry is sound and server \<open>i\<close> is configured as \<open>cfg\<close>: kept while it is refreshed.\<close>

definition configured :: "string \<Rightarrow> server_config \<Rightarrow> 'r registry_scheme \<Rightarrow> bool" where
  "configured i cfg r \<longleftrightarrow> registry_ok r \<and> (\<exists>rt. map_of (rg_servers r) i = Some rt \<and> rt_config rt = cfg)"

definition keeps_configured :: "string \<Rightarrow> server_config \<Rightarrow> 'r registry_scheme \<Rightarrow> 'r registry_scheme \<Rightarrow> bool" where
  "keeps_configured i cfg r r' \<longleftrightarrow> (configured i cfg r \<longrightarrow> configured i cfg r')"

interpretation cfgs: state_preorder "keeps_configured i cfg" for i cfg
  by unfold_locales (auto simp: keeps_configured_def)

definition keeps_ok :: "'r registry_scheme \<Rightarrow> 'r registry_scheme \<Rightarrow> bool" where
  "keeps_ok r r' \<longleftrightarrow> (registry_ok r \<longrightarrow> registry_ok r')"

interpretation oks: state_preorder keeps_ok
  by unfold_locales (auto simp: keeps_ok_def)

lemma registry_ok_cong:
  "rg_servers r' = rg_servers r \<Longrightarrow> rg_tools r' = rg_tools r \<Longrightarrow> registry_ok r' = registry_ok r"
  by (simp add: registry_ok_def servers_ok_def tool_ok_def)

lemma configured_cong:
  assumes "rg_servers r' = rg_servers r" and "rg_tools r' = rg_tools r"
  shows "configured i cfg r' = configured i cfg r"
  unfolding configured_def registry_ok_cong [OF assms] using assms by simp

lemma configured_schedules [simp]:
  "configured i cfg (r\<lparr>rg_factory := fs\<rparr>) = configured i cfg r"
  "configured i cfg (r\<lparr>rg_inits := is\<rparr>) = configured i cfg r"
  "configured i cfg (r\<lparr>rg_lists := ls\<rparr>) = configured i cfg r"
  by (rule configured_cong; simp)+

lemma keeps_set_runtime: "rt_config rt = cfg \<Longrightarrow> keeps (keeps_configured i cfg) (set_runtime i rt)"
proof (rule keepsI)
  fix r res r'
  assume cfg: "rt_config rt = cfg" and e: "set_runtime i rt r = (res, r')"
  then have r': "r' = r\<lparr>rg_servers := AList.update i rt (rg_servers r)\<rparr>" by (simp add: set_runtime_def call_eval)
  show "keeps_configured i cfg r r'"
    unfolding keeps_configured_def
  proof
    assume c: "configured i cfg r"
    then obtain rt0 where rt0: "map_of (rg_servers r) i = Some rt0" "rt_config rt0 = cfg" unfolding configured_def by blast
    have look: "map_of (rg_servers r') j = (if j = i then Some rt else map_of (rg_servers r) j)" for j
      by (simp add: r' lookup_update)
    have "tool_ok r' n t" if "tool_ok r n t" for n t
      using that rt0 cfg unfolding tool_ok_def look by (cases "td_server t = i") auto
    moreover have "servers_ok r'"
      using c rt0 cfg unfolding configured_def registry_ok_def servers_ok_def
      by (auto simp: look r' distinct_update lookup_update)
    ultimately show "configured i cfg r'"
      using c cfg look unfolding configured_def registry_ok_def by (auto simp: r')
  qed
qed

lemma keeps_schedules:
  "keeps (keeps_configured i cfg) next_factory" "keeps (keeps_configured i cfg) next_init"
  "keeps (keeps_configured i cfg) next_list"
  by (auto simp: keeps_def keeps_configured_def next_factory_def next_init_def next_list_def)

section \<open>Discovered tools are sound\<close>

lemma accepted_toolD:
  assumes "t \<in> set (accepted_tools rx server ts)"
  obtains u where "convert_tool rx server u = Inr t" and "tool_allowed server (ut_name u)"
  using assms by (auto simp: accepted_tools_def map_filter_def split: if_splits sum.splits)

lemma accepted_tool_ok:
  assumes t: "t \<in> set (accepted_tools rx cfg ts)" and wf: "wf_server cfg"
    and rt: "map_of (rg_servers r) (sc_id cfg) = Some rt" "rt_config rt = cfg"
  shows "tool_ok r (td_name t) t \<and> td_server t = sc_id cfg"
proof (rule accepted_toolD [OF t])
  fix u assume u: "convert_tool rx cfg u = Inr t" and al: "tool_allowed cfg (ut_name u)"
  from u show ?thesis
  proof (rule convert_tool_cases)
    assume names: "td_name t = sc_id cfg @ ''.'' @ ut_name u" "td_server t = sc_id cfg" "td_upstream t = ut_name u"
      and ro: "td_read_only t = tool_read_only cfg (ut_name u)"
      and ap: "td_requires_approval t \<longleftrightarrow> risk_requires_approval (td_risk t) \<or> tool_approval_required cfg (ut_name u)"
    have lists: "sorted (sc_tool_allowlist cfg)" "sorted (sc_read_only_tools cfg)" "sorted (sc_approval_required_tools cfg)"
      using wf by (auto simp: wf_server_def name_list_def)
    show ?thesis
      using convert_policy [OF u wf] names rt al ro ap lists
      by (auto simp: tool_ok_def tool_allowed_def tool_read_only_def tool_approval_required_def contains_iff_member)
  qed
qed

lemma fold_update_tools:
  "map_of (fold (\<lambda>t. AList.update (td_name t) t) ts old) n = Some t \<Longrightarrow>
   (t \<in> set ts \<and> n = td_name t) \<or> map_of old n = Some t"
proof (induction ts arbitrary: old)
  case (Cons a ts)
  from Cons.IH [of "AList.update (td_name a) a old"] Cons.prems show ?case by (auto simp: lookup_update split: if_splits)
qed simp

lemma distinct_fold_update:
  "distinct (map fst old) \<Longrightarrow> distinct (map fst (fold (\<lambda>t. AList.update (td_name t) t) ts old))"
  by (induction ts arbitrary: old) (simp_all add: distinct_update)

lemma keeps_replace_tools:
  assumes "\<And>t. t \<in> set tools \<Longrightarrow> \<exists>rx ts. t \<in> set (accepted_tools rx cfg ts)"
  shows "keeps (keeps_configured i cfg) (modifies (\<lambda>r. r\<lparr>rg_tools := replace_server_tools i tools (rg_tools r)\<rparr>))"
proof (rule keepsI)
  fix r :: "'a registry_scheme" and res :: "'b + unit" and r'
  assume "modifies (\<lambda>r. r\<lparr>rg_tools := replace_server_tools i tools (rg_tools r)\<rparr>) r = (res, r')"
  then have r': "r' = r\<lparr>rg_tools := replace_server_tools i tools (rg_tools r)\<rparr>" by (simp add: call_eval)
  show "keeps_configured i cfg r r'"
    unfolding keeps_configured_def
  proof
    assume c: "configured i cfg r"
    then obtain rt where rt: "map_of (rg_servers r) i = Some rt" "rt_config rt = cfg" and ok: "registry_ok r"
      unfolding configured_def by blast
    have cfg: "sc_id cfg = i" "wf_server cfg" using ok rt unfolding registry_ok_def servers_ok_def by blast+
    have d: "distinct (map fst (rg_tools r))" using ok unfolding registry_ok_def servers_ok_def by blast
    have same: "tool_ok r' n t = tool_ok r n t" for n t by (simp add: tool_ok_def r')
    have "tool_ok r n t" if n: "map_of (rg_tools r') n = Some t" for n t
    proof -
      from n have "(t \<in> set tools \<and> n = td_name t) \<or> map_of (filter (\<lambda>(_, t). td_server t \<noteq> i) (rg_tools r)) n = Some t"
        by (simp add: r' replace_server_tools_def fold_update_tools)
      then show ?thesis
      proof
        assume "t \<in> set tools \<and> n = td_name t"
        then show ?thesis using assms accepted_tool_ok [OF _ cfg(2)] rt cfg(1) by blast
      next
        assume "map_of (filter (\<lambda>(_, t). td_server t \<noteq> i) (rg_tools r)) n = Some t"
        then have "map_of (rg_tools r) n = Some t" using map_of_filter_Some [OF d] by blast
        then show ?thesis using ok unfolding registry_ok_def by blast
      qed
    qed
    moreover have "servers_ok r'"
    proof -
      have "distinct (map fst (filter (\<lambda>(_, t). td_server t \<noteq> i) (rg_tools r)))"
        using d by (rule distinct_map_filter)
      then show ?thesis using ok unfolding registry_ok_def servers_ok_def
        by (simp add: r' replace_server_tools_def distinct_fold_update)
    qed
    ultimately show "configured i cfg r'"
      using rt unfolding configured_def registry_ok_def same by (simp add: r')
  qed
qed

lemma config_of_status [simp]: "rt_config (with_status f rt) = rt_config rt"
  "rt_config (record_server_error lib e rt) = rt_config rt"
  by (simp_all add: with_status_def record_server_error_def)

lemma keeps_store_discovery: "keeps (keeps_configured i (rt_config rt)) (store_discovery lib i rt ts)"
  unfolding store_discovery_def Let_def
  by (intro cfgs.keeps_bindE cfgs.keeps_gets cfgs.keeps_guardE keeps_replace_tools keeps_set_runtime) auto

lemma ensure_client_config:
  "ensure_client lib i rt s = (Inr (rt', created), s') \<Longrightarrow> rt_config rt' = rt_config rt"
  by (auto simp: ensure_client_def bindE_def next_factory_def next_init_def set_runtime_def Let_def call_eval
      split: if_splits option.splits sum.splits prod.splits list.splits)

lemma keeps_ensure_client: "keeps (keeps_configured i (rt_config rt)) (ensure_client lib i rt)"
  unfolding ensure_client_def Let_def
  by (intro cfgs.keeps_intros keeps_schedules keeps_set_runtime) auto

lemma keeps_list_and_store: "rt_config rt = cfg \<Longrightarrow> keeps (keeps_configured i cfg) (list_and_store lib i rt created)"
  unfolding list_and_store_def Let_def
  by (intro cfgs.keeps_bindE cfgs.keeps_sum cfgs.keeps_fail keeps_schedules keeps_set_runtime)
     (auto intro: keeps_store_discovery)

lemma keeps_discover: "keeps (keeps_configured i (rt_config rt)) (discover lib i rt)"
  unfolding discover_def
proof (rule cfgs.keeps_bindE_result)
  show "keeps (keeps_configured i (rt_config rt)) (ensure_client lib i (connecting rt))"
    using keeps_ensure_client [of i "connecting rt"] by (simp add: connecting_def)
qed (auto simp: connecting_def dest!: ensure_client_config intro!: keeps_list_and_store)

lemma keeps_connect: "keeps (keeps_configured i (rt_config rt)) (connect_and_discover lib i rt force)"
  unfolding connect_and_discover_def mark_state_def
  by (intro cfgs.keeps_bindE cfgs.keeps_gets cfgs.keeps_prod cfgs.keeps_guardE cfgs.keeps_if cfgs.keeps_ret cfgs.keeps_fail
      keeps_set_runtime keeps_discover) auto

lemma find_runtime_Inr:
  "find_runtime i r = (Inr rt, r') \<Longrightarrow> r' = r \<and> map_of (rg_servers r) i = Some rt \<and> server_allowed (rg_config r) i \<and> \<not> rg_closed r"
  by (auto simp: find_runtime_def call_eval split: if_splits option.splits)

lemma find_runtime_state: "find_runtime i r = (res, r') \<Longrightarrow> r' = r"
  by (auto simp: find_runtime_def call_eval split: if_splits option.splits)

lemma connect_ok:
  assumes "registry_ok r" and "map_of (rg_servers r) i = Some rt" and "connect_and_discover lib i rt force r = (res, r')"
  shows "registry_ok r'"
proof -
  have "configured i (rt_config rt) r" using assms(1,2) unfolding configured_def by blast
  then have "configured i (rt_config rt) r'"
    using keepsD [OF keeps_connect assms(3)] unfolding keeps_configured_def by blast
  then show ?thesis unfolding configured_def by blast
qed

lemma oks_refresh: "keeps keeps_ok (refresh lib i)"
proof (rule keepsI)
  fix r :: "'a registry_scheme" and res r' assume e: "refresh lib i r = (res, r')"
  show "keeps_ok r r'"
    unfolding keeps_ok_def
  proof
    assume ok: "registry_ok r"
    from e show "registry_ok r'"
      unfolding refresh_def
    proof (rule bindE_cases)
      fix e assume "find_runtime i r = (Inl e, r')"
      then show ?thesis using ok find_runtime_state by metis
    next
      fix rt u assume f: "find_runtime i r = (Inr rt, u)" and c: "connect_and_discover lib i rt True u = (res, r')"
      have "u = r" "map_of (rg_servers r) i = Some rt" using find_runtime_Inr [OF f] by auto
      then show ?thesis using connect_ok [OF ok] c by blast
    qed
  qed
qed

lemma oks_initialize_one: "keeps keeps_ok (initialize_one lib i)"
proof (rule keepsI)
  fix r :: "'a registry_scheme" and res r' assume e: "initialize_one lib i r = (res, r')"
  then show "keeps_ok r r'"
    using connect_ok unfolding keeps_ok_def initialize_one_def
    by (auto simp: call_eval split: option.splits)
qed

lemma oks_for_servers: "(\<And>i. keeps keeps_ok (step i)) \<Longrightarrow> keeps keeps_ok (for_servers step ids)"
  by (induction ids) (auto intro!: oks.keeps_bindE oks.keeps_tryE oks.keeps_ret)

lemma oks_initialize: "keeps keeps_ok (initialize lib)"
  unfolding initialize_def
  by (intro oks.keeps_bindE oks.keeps_gets oks.keeps_guardE oks_for_servers oks_initialize_one)

lemma oks_refresh_all: "keeps keeps_ok (refresh_all lib)"
  unfolding refresh_all_def by (intro oks.keeps_bindE oks.keeps_gets oks_for_servers oks_refresh)

lemma oks_find_tool: "keeps keeps_ok (find_tool name)"
  unfolding find_tool_def
  by (intro oks.keeps_intros)

lemma oks_ensure_tool: "keeps keeps_ok (ensure_tool lib name)"
  unfolding ensure_tool_def by (intro oks.keeps_intros oks_find_tool oks_refresh)

section \<open>The approval tables do not touch the registry\<close>

text \<open>The registry's own fields.\<close>

definition hub_part :: "'r registry_scheme \<Rightarrow> hub_config \<times> (string \<times> runtime) list \<times> (string \<times> tool_definition) list \<times> bool \<times> upstream_call list \<times> audit_event list" where
  "hub_part r = (rg_config r, rg_servers r, rg_tools r, rg_closed r, rg_log r, rg_audits r)"

lemma hub_part_approval_fields [simp]:
  "hub_part (r\<lparr>am_challenges := cs\<rparr>) = hub_part r" "hub_part (r\<lparr>am_tokens := ts\<rparr>) = hub_part r"
  "hub_part (r\<lparr>am_uuid_next := n\<rparr>) = hub_part r" "hub_part (r\<lparr>am_random_next := n\<rparr>) = hub_part r"
  "hub_part (r\<lparr>am_now := t\<rparr>) = hub_part r"
  by (simp_all add: hub_part_def)

lemma hub_part_cleanup [simp]: "hub_part (cleanup_locked now r) = hub_part r"
  by (simp add: cleanup_locked_def)

lemma registry_ok_hub_part: "hub_part r' = hub_part r \<Longrightarrow> registry_ok r' = registry_ok r"
  by (rule registry_ok_cong) (simp_all add: hub_part_def)

lemma consume_hub_part: "approval_consume lib u tool args tok r = (res, r') \<Longrightarrow> hub_part r' = hub_part r"
  by (erule consume_cases) simp_all

lemma approve_hub_part: "approval_approve lib u i r = (res, r') \<Longrightarrow> hub_part r' = hub_part r"
  by (erule approve_cases) simp_all

lemma create_hub_part: "approval_create lib u tool args r = (res, r') \<Longrightarrow> hub_part r' = hub_part r"
  by (erule create_cases) (simp_all add: store_challenge_def)

lemma oks_hub_part: "(\<And>r res r'. m r = (res, r') \<Longrightarrow> hub_part r' = hub_part r) \<Longrightarrow> keeps keeps_ok m"
proof (rule keepsI)
  fix r res r'
  assume "\<And>r res r'. m r = (res, r') \<Longrightarrow> hub_part r' = hub_part r" and "m r = (res, r')"
  then have "registry_ok r' = registry_ok r" using registry_ok_hub_part by blast
  then show "keeps_ok r r'" unfolding keeps_ok_def by blast
qed

declare call_loop.simps [simp del]

section \<open>Invocations keep the invariant\<close>

lemma authorize_hub_part: "authorize lib q tool r = (res, r') \<Longrightarrow> hub_part r' = hub_part r"
  unfolding authorize_def
  by (cases "td_requires_approval tool"; cases "rq_token q = []")
     (simp_all add: call_eval consume_hub_part split: if_splits)

lemma call_loop_spec:
  "call_loop ro c left attempt r = (res, r') \<Longrightarrow>
     \<exists>k reply. 1 \<le> k \<and> k \<le> Suc left \<and> (\<not> ro \<longrightarrow> k = 1) \<and> res = Inr (reply, attempt + k - 1) \<and>
       rg_log r' = rg_log r @ replicate k c \<and> hub_part (r'\<lparr>rg_log := rg_log r\<rparr>) = hub_part r \<and>
       approval_manager.truncate r' = approval_manager.truncate r"
proof (induction ro c left attempt arbitrary: r res r' rule: call_loop.induct)
  case (1 ro c left attempt)
  note run = "1.prems" [unfolded call_loop.simps [of ro c left attempt]]
  obtain reply where n: "next_call c r = (Inr reply, r\<lparr>rg_calls := tl (rg_calls r), rg_log := rg_log r @ [c]\<rparr>)"
    by (simp add: next_call_def)
  let ?u = "r\<lparr>rg_calls := tl (rg_calls r), rg_log := rg_log r @ [c]\<rparr>"
  have u: "rg_log ?u = rg_log r @ [c]" "hub_part (?u\<lparr>rg_log := rg_log r\<rparr>) = hub_part r"
      "approval_manager.truncate ?u = approval_manager.truncate r"
    by (simp_all add: hub_part_def approval_manager.defs)
  have stop: "\<exists>k reply. 1 \<le> k \<and> k \<le> Suc left \<and> (\<not> ro \<longrightarrow> k = 1) \<and> Inr (x, attempt) = Inr (reply, attempt + k - 1) \<and>
       rg_log v = rg_log r @ replicate k c \<and> hub_part (v\<lparr>rg_log := rg_log r\<rparr>) = hub_part r \<and>
       approval_manager.truncate v = approval_manager.truncate r"
    if "rg_log v = rg_log r @ [c]" "hub_part (v\<lparr>rg_log := rg_log r\<rparr>) = hub_part r"
      "approval_manager.truncate v = approval_manager.truncate r" for x v
    using that by (intro exI [of _ 1]) auto
  have w: "next_wait ?u = (Inr (case rg_waits r of x # _ \<Rightarrow> x | [] \<Rightarrow> None), ?u\<lparr>rg_waits := tl (rg_waits r)\<rparr>)"
    by (simp add: next_wait_def)
  let ?w = "?u\<lparr>rg_waits := tl (rg_waits r)\<rparr>"
  have wf: "rg_log ?w = rg_log r @ [c]" "hub_part (?w\<lparr>rg_log := rg_log r\<rparr>) = hub_part r"
      "approval_manager.truncate ?w = approval_manager.truncate r"
    by (simp_all add: hub_part_def approval_manager.defs)
  show ?case
  proof (cases "\<exists>e k. reply = Inl e \<and> left = Suc k \<and> ro \<and> retryable_protocol_error e \<and>
      (case rg_waits r of x # _ \<Rightarrow> x | [] \<Rightarrow> None) = None")
    case False
    have "(\<exists>x. res = Inr (x, attempt)) \<and> (r' = ?u \<or> r' = ?w)"
    proof (cases reply)
      case (Inr x)
      then show ?thesis using run n by (auto simp: bindE_def call_eval)
    next
      case (Inl e)
      show ?thesis
      proof (cases left)
        case 0
        then show ?thesis using run n Inl by (auto simp: bindE_def call_eval)
      next
        case (Suc k)
        show ?thesis
        proof (cases "ro \<and> retryable_protocol_error e")
          case True
          then obtain stop where "(case rg_waits r of x # _ \<Rightarrow> x | [] \<Rightarrow> None) = Some stop"
            using False Inl Suc by (cases "case rg_waits r of x # _ \<Rightarrow> x | [] \<Rightarrow> None") auto
          then have "(Inr (Inl (classify_protocol_error ''MCP tool invocation failed'' stop), attempt), ?w) = (res, r')"
            using run n w Inl Suc True by (simp only: bindE_def call_eval) (simp add: call_eval)
          then show ?thesis by blast
        next
          case False
          then have "(Inr (Inl (classify_protocol_error ''MCP tool invocation failed'' e), attempt), ?u) = (res, r')"
            using run n Inl Suc by (simp only: bindE_def call_eval) (simp add: call_eval)
          then show ?thesis by blast
        qed
      qed
    qed
    then obtain x where x: "res = Inr (x, attempt)" and v: "r' = ?u \<or> r' = ?w" by blast
    from v show ?thesis unfolding x by (elim disjE) (simp_all only: stop [OF u] stop [OF wf])
  next
    case True
    then obtain e k where t: "reply = Inl e" "left = Suc k" "ro" "retryable_protocol_error e"
        "(case rg_waits r of x # _ \<Rightarrow> x | [] \<Rightarrow> None) = None" by blast
    then have rec: "call_loop ro c k (Suc attempt) ?w = (res, r')"
      using run n w by (simp add: bindE_def)
    have "\<exists>j reply. 1 \<le> j \<and> j \<le> Suc k \<and> (\<not> ro \<longrightarrow> j = 1) \<and> res = Inr (reply, Suc attempt + j - 1) \<and>
       rg_log r' = rg_log ?w @ replicate j c \<and> hub_part (r'\<lparr>rg_log := rg_log ?w\<rparr>) = hub_part ?w \<and>
       approval_manager.truncate r' = approval_manager.truncate ?w"
      using "1.IH" [OF t(2) _ rec] t by auto
    then obtain j rp where j: "1 \<le> j" "j \<le> Suc k" "res = Inr (rp, Suc attempt + j - 1)"
       "rg_log r' = rg_log ?w @ replicate j c" "hub_part (r'\<lparr>rg_log := rg_log ?w\<rparr>) = hub_part ?w"
       "approval_manager.truncate r' = approval_manager.truncate ?w" by blast
    have "rg_log r' = rg_log r @ replicate (Suc j) c" using j(4) by simp
    moreover have "hub_part (r'\<lparr>rg_log := rg_log r\<rparr>) = hub_part r" using j(5) by (simp add: hub_part_def)
    moreover have "approval_manager.truncate r' = approval_manager.truncate r" using j(6) wf(3) by simp
    moreover have "res = Inr (rp, attempt + Suc j - 1)" using j(1,3) by simp
    ultimately show ?thesis using j(1,2) t(2,3) by (intro exI [of _ "Suc j"] exI [of _ rp]) auto
  qed
qed

lemma invoke_upstream_spec:
  assumes "invoke_upstream rt tool args op r = (res, r')"
  shows "\<exists>k reply n. res = Inr (reply, n) \<and> k \<le> Suc (extra_attempts (rt_config rt) tool) \<and>
       rg_log r' = rg_log r @ replicate k \<lparr>uc_server = td_server tool, uc_tool = td_upstream tool,
         uc_arguments = args, uc_operation = op\<rparr> \<and>
       hub_part (r'\<lparr>rg_log := rg_log r\<rparr>) = hub_part r \<and> approval_manager.truncate r' = approval_manager.truncate r"
proof (cases "rt_client rt")
  case True
  then show ?thesis
    using call_loop_spec [OF assms [unfolded invoke_upstream_def, simplified True, simplified]] by auto
next
  case False
  have "hub_part (r\<lparr>rg_log := rg_log r\<rparr>) = hub_part r" by (simp add: hub_part_def)
  then show ?thesis using assms False by (auto simp: invoke_upstream_def call_eval)
qed

section \<open>Refreshing leaves the log, the audit trail and the approvals alone\<close>

definition gate_part :: "'r registry_scheme \<Rightarrow> hub_config \<times> bool \<times> upstream_call list \<times> audit_event list \<times> approval_manager" where
  "gate_part r = (rg_config r, rg_closed r, rg_log r, rg_audits r, approval_manager.truncate r)"

definition keeps_gate :: "'r registry_scheme \<Rightarrow> 'r registry_scheme \<Rightarrow> bool" where
  "keeps_gate r r' \<longleftrightarrow> gate_part r' = gate_part r"

interpretation gates: state_preorder keeps_gate
  by unfold_locales (auto simp: keeps_gate_def)

lemma gates_basic:
  "keeps keeps_gate (set_runtime i rt)" "keeps keeps_gate next_factory" "keeps keeps_gate next_init"
  "keeps keeps_gate next_list" "keeps keeps_gate (modifies (\<lambda>r. r\<lparr>rg_tools := f r\<rparr>))"
  by (simp_all add: keeps_def keeps_gate_def gate_part_def set_runtime_def next_factory_def next_init_def next_list_def
      call_eval approval_manager.defs)

lemma gates_discovery:
  "keeps keeps_gate (store_discovery lib i rt ts)" "keeps keeps_gate (ensure_client lib i rt)"
  unfolding store_discovery_def ensure_client_def Let_def
  by (intro gates.keeps_intros gates_basic)+

lemma gates_connect: "keeps keeps_gate (connect_and_discover lib i rt force)"
  unfolding connect_and_discover_def mark_state_def discover_def list_and_store_def Let_def
  by (intro gates.keeps_intros gates_basic gates_discovery)

lemma gates_ensure_tool: "keeps keeps_gate (ensure_tool lib name)"
  unfolding ensure_tool_def find_tool_def refresh_def find_runtime_def
  by (intro gates.keeps_intros gates_basic gates_connect)

lemma find_tool_Inr:
  assumes "find_tool name r = (Inr t, r')"
  shows "r' = r \<and> map_of (rg_tools r) name = Some t \<and> (\<exists>i up rt. split_namespaced_tool name = Some (i, up) \<and>
     map_of (rg_servers r) i = Some rt \<and> server_allowed (rg_config r) i \<and> tool_allowed (rt_config rt) up)"
  using assms by (auto simp: find_tool_def call_eval split: option.splits prod.splits if_splits)

lemma ensure_tool_Inr:
  assumes "ensure_tool lib name r = (Inr t, r')"
  shows "map_of (rg_tools r') name = Some t"
  using assms unfolding ensure_tool_def
proof (rule bindE_InrE)
  fix res u
  assume a: "tryE (find_tool name) r = (Inr res, u)"
    and b: "(case res of Inr t \<Rightarrow> ret t
     | Inl e \<Rightarrow> if error_code e \<noteq> ToolNotFound then fail e
         else (case split_namespaced_tool name of None \<Rightarrow> fail e
            | Some (serverID, _) \<Rightarrow> bindE (refresh lib serverID) (\<lambda>_. find_tool name))) u = (Inr t, r')"
  show ?thesis
  proof (cases res)
    case (Inr t')
    then have "find_tool name r = (Inr t', u)" using a by (simp add: tryE_def split: prod.splits)
    then show ?thesis using b Inr find_tool_Inr by fastforce
  next
    case (Inl e)
    then show ?thesis
      using b by (auto split: if_splits option.splits prod.splits elim!: bindE_InrE dest: find_tool_Inr)
  qed
qed

section \<open>The cases of an invocation\<close>

lemma tryE_bind:
  "bindE (tryE m) f s = f (fst (m s)) (snd (m s))"
  by (simp add: bindE_def tryE_def split: prod.splits)

definition same_request :: "audit_event \<Rightarrow> audit_event \<Rightarrow> bool" where
  "same_request a b \<longleftrightarrow> ev_request_id a = ev_request_id b \<and> ev_user a = ev_user b \<and> ev_tool a = ev_tool b \<and>
     ev_digest a = ev_digest b \<and> ev_preview a = ev_preview b \<and> ev_error_code a = ev_error_code b"

lemma with_outcome_request: "with_outcome q tool reply ev = (ev', out) \<Longrightarrow> same_request ev ev'"
  by (auto simp: with_outcome_def same_request_def Let_def split: sum.splits option.splits prod.splits)

lemma invoke_body_cases:
  assumes "invoke_body lib q ev r = (x, u)"
  obtains (refused) ev' e where "x = Inr (ev', Inl e)" and "rg_log u = rg_log r" and "rg_audits u = rg_audits r"
      and "same_request ev ev'" and "ev_outcome ev' = ev_outcome ev"
    | (called) tool u1 u2 rt reply n ev1 where "ensure_tool lib (rq_tool q) r = (Inr tool, u1)"
      and "trim_space (rq_user q) \<noteq> []" and "authorize lib q tool u1 = (Inr (), u2)"
      and "find_runtime (td_server tool) u2 = (Inr rt, u2)"
      and "invoke_upstream rt tool (rq_arguments q) (trim_space (rq_operation q)) u2 = (Inr (reply, n), u)"
      and "x = Inr (with_outcome q tool (reply, n) ev1)" and "same_request ev ev1"
proof -
  have stop: thesis if "x = Inr (ev', Inl e)" "rg_log u = rg_log r" "rg_audits u = rg_audits r" "same_request ev ev'"
      "ev_outcome ev' = ev_outcome ev" for ev' e
    by (rule refused [OF that])
  show ?thesis
  proof (cases "trim_space (rq_user q) = []")
    case True
    have "x = Inr (ev, Inl (HubError ApprovalInvalid ''tool invocation requires an authenticated user''))" "u = r"
      using assms True by (auto simp: invoke_body_def call_eval)
    then show ?thesis
      by (intro stop [of ev "HubError ApprovalInvalid ''tool invocation requires an authenticated user''"])
         (simp_all add: same_request_def)
  next
    case False
    obtain found u1 where f: "ensure_tool lib (rq_tool q) r = (found, u1)" by (cases "ensure_tool lib (rq_tool q) r")
    have g1: "rg_log u1 = rg_log r" "rg_audits u1 = rg_audits r"
      using keepsD [OF gates_ensure_tool f] by (simp_all add: keeps_gate_def gate_part_def)
    show ?thesis
    proof (cases found)
      case (Inl e)
      have "x = Inr (ev, Inl e)" "u = u1" using assms False f Inl by (auto simp: invoke_body_def tryE_bind call_eval)
      then show ?thesis using g1 by (intro stop [of ev e]) (simp_all add: same_request_def)
    next
      case (Inr tool)
      define ev1 where "ev1 = ev\<lparr>ev_server := td_server tool, ev_risk := Some (td_risk tool)\<rparr>"
      define ev2 where "ev2 = ev1\<lparr>ev_approval_used := td_requires_approval tool\<rparr>"
      have req: "same_request ev ev1" "same_request ev ev2" "ev_outcome ev1 = ev_outcome ev" "ev_outcome ev2 = ev_outcome ev"
        by (simp_all add: ev1_def ev2_def same_request_def)
      obtain granted u2 where g: "authorize lib q tool u1 = (granted, u2)" by (cases "authorize lib q tool u1")
      have g2: "rg_log u2 = rg_log r" "rg_audits u2 = rg_audits r"
        using g1 authorize_hub_part [OF g] by (simp_all add: hub_part_def)
      have run: "(case granted of Inl e \<Rightarrow> ret (ev1, Inl e)
           | Inr _ \<Rightarrow> bindE (tryE (find_runtime (td_server tool))) (\<lambda>server. case server of
                  Inl e \<Rightarrow> ret (ev2, Inl e)
                | Inr rt \<Rightarrow> bindE (invoke_upstream rt tool (rq_arguments q) (trim_space (rq_operation q))) (\<lambda>reply.
                    ret (with_outcome q tool reply ev2)))) u2 = (x, u)"
        using assms False f Inr g unfolding invoke_body_def Let_def ev1_def ev2_def by (simp add: tryE_bind)
      show ?thesis
      proof (cases granted)
        case (Inl e)
        have "x = Inr (ev1, Inl e)" "u = u2" using run Inl by (auto simp: call_eval)
        then show ?thesis using g2 req by (intro stop [of ev1 e]) simp_all
      next
        case ok: (Inr unit)
        obtain server u3 where s: "find_runtime (td_server tool) u2 = (server, u3)" by (cases "find_runtime (td_server tool) u2")
        have u3: "u3 = u2" by (rule find_runtime_state [OF s])
        show ?thesis
        proof (cases server)
          case (Inl e)
          have "x = Inr (ev2, Inl e)" "u = u2" using run ok s u3 Inl by (auto simp: call_eval tryE_bind)
          then show ?thesis using g2 req by (intro stop [of ev2 e]) simp_all
        next
          case rt: (Inr rt)
          obtain res v where i: "invoke_upstream rt tool (rq_arguments q) (trim_space (rq_operation q)) u2 = (res, v)"
            by (cases "invoke_upstream rt tool (rq_arguments q) (trim_space (rq_operation q)) u2")
          then obtain reply n where res: "res = Inr (reply, n)" using invoke_upstream_spec by blast
          have "x = Inr (with_outcome q tool (reply, n) ev2)" "v = u"
            using run ok s u3 rt bindE_Inr [where m = "invoke_upstream rt tool (rq_arguments q) (trim_space (rq_operation q))"
                and f = "\<lambda>reply. ret (with_outcome q tool reply ev2)", OF i [unfolded res]]
            by (auto simp: call_eval tryE_bind)
          then show ?thesis
            using called [OF _ False _ _ _ _ req(2)] f Inr g ok s u3 rt i res by auto
        qed
      qed
    qed
  qed
qed

lemma invoke_cases:
  assumes "invoke lib q r = (res, r')"
  obtains ev out u where
    "invoke_body lib q (new_event lib q (am_uuid r (am_uuid_next r))) (r\<lparr>am_uuid_next := Suc (am_uuid_next r)\<rparr>) = (Inr (ev, out), u)"
    and "res = out" and "r' = u\<lparr>rg_audits := rg_audits u @ [finish_event lib out ev]\<rparr>"
proof -
  let ?ev = "new_event lib q (am_uuid r (am_uuid_next r))" and ?r = "r\<lparr>am_uuid_next := Suc (am_uuid_next r)\<rparr>"
  obtain x u where b: "invoke_body lib q ?ev ?r = (x, u)" by (cases "invoke_body lib q ?ev ?r")
  from b obtain ev out where x: "x = Inr (ev, out)"
    by (rule invoke_body_cases) (auto, metis surj_pair)
  have "res = out \<and> r' = u\<lparr>rg_audits := rg_audits u @ [finish_event lib out ev]\<rparr>"
    using assms unfolding invoke_def
    by (cases out; simp add: call_eval bindE_Inr [where m = "invoke_body lib q ?ev", OF b [unfolded x]]; auto)
  then show ?thesis using that b x by blast
qed

text \<open>Invocations keep the registry's invariant, and those of the approval tables.\<close>

lemma approvals_ok_cong:
  assumes "approval_manager.truncate r' = approval_manager.truncate r" shows "approvals_ok r' = approvals_ok r"
proof -
  have "am_ttl r' = am_ttl r" "am_uuid r' = am_uuid r" "am_uuid_next r' = am_uuid_next r"
      "am_challenges r' = am_challenges r" "am_tokens r' = am_tokens r"
    using assms by (simp_all add: approval_manager.defs)
  then show ?thesis by (simp add: approvals_ok_def distinct_keys_def token_backed_def)
qed

lemma approvals_ok_draw: "approvals_ok m \<Longrightarrow> approvals_ok (m\<lparr>am_uuid_next := Suc (am_uuid_next m)\<rparr>)"
  by (rule approvals_okI)
     (auto dest: approvals_okD simp: distinct_keys_def token_backed_def intro: less_SucI)

lemma authorize_Inr:
  assumes "authorize lib q tool r = (Inr (), r')"
  shows "validate_arguments (rx_compile lib) (td_input_schema tool) (rq_arguments q) = None"
    and "td_requires_approval tool \<Longrightarrow> approval_consume lib (rq_user q) (td_name tool) (rq_arguments q) (rq_token q) r = (Inr (), r')"
    and "\<not> td_requires_approval tool \<Longrightarrow> r' = r"
  using assms by (auto simp: authorize_def call_eval split: if_splits)

lemma gate_approvals_ok: "gate_part r' = gate_part r \<Longrightarrow> approvals_ok r' = approvals_ok r"
  by (rule approvals_ok_cong) (simp add: gate_part_def)

text \<open>Evidence of a human decision for exactly this call, spent by this call.\<close>

definition approval_spent :: "'l mcp_library_scheme \<Rightarrow> invoke_request \<Rightarrow> tool_definition \<Rightarrow> 'm approval_manager_scheme \<Rightarrow> bool" where
  "approval_spent lib q tool m \<longleftrightarrow> (\<exists>i c. map_of (am_challenges m) i = Some c \<and> ac_user c = rq_user q \<and>
     ac_tool c = td_name tool \<and> arguments_digest lib (rq_arguments q) = Some (ac_digest c) \<and>
     ac_approved_at c \<noteq> None \<and> ac_consumed_at c \<noteq> None \<and>
     map_of (am_tokens m) (hash_approval_token lib (rq_token q)) = None)"

lemma approval_spent_cong:
  "approval_manager.truncate r' = approval_manager.truncate r \<Longrightarrow> approval_spent lib q tool r' = approval_spent lib q tool r"
  by (simp add: approval_spent_def approval_manager.defs)

lemma invoke_calls:
  assumes ok: "approvals_ok r" and inv: "invoke lib q r = (res, r')" and calls: "rg_log r' \<noteq> rg_log r"
  shows "\<exists>tool rt k. trim_space (rq_user q) \<noteq> [] \<and> map_of (rg_tools r') (rq_tool q) = Some tool \<and>
     map_of (rg_servers r') (td_server tool) = Some rt \<and> server_allowed (rg_config r') (td_server tool) \<and>
     k \<le> Suc (extra_attempts (rt_config rt) tool) \<and>
     rg_log r' = rg_log r @ replicate k \<lparr>uc_server = td_server tool, uc_tool = td_upstream tool,
       uc_arguments = rq_arguments q, uc_operation = trim_space (rq_operation q)\<rparr> \<and>
     validate_arguments (rx_compile lib) (td_input_schema tool) (rq_arguments q) = None \<and>
     (td_requires_approval tool \<longrightarrow> approval_spent lib q tool r')"
  using inv
proof (rule invoke_cases)
  let ?r = "r\<lparr>am_uuid_next := Suc (am_uuid_next r)\<rparr>"
  fix ev out u
  assume b: "invoke_body lib q (new_event lib q (am_uuid r (am_uuid_next r))) ?r = (Inr (ev, out), u)"
    and r': "r' = u\<lparr>rg_audits := rg_audits u @ [finish_event lib out ev]\<rparr>"
  from b show ?thesis
  proof (rule invoke_body_cases)
    assume "rg_log u = rg_log ?r"
    then show ?thesis using calls r' by simp
  next
    fix tool u1 u2 rt reply n ev1
    assume e: "ensure_tool lib (rq_tool q) ?r = (Inr tool, u1)" and user: "trim_space (rq_user q) \<noteq> []"
      and a: "authorize lib q tool u1 = (Inr (), u2)" and f: "find_runtime (td_server tool) u2 = (Inr rt, u2)"
      and i: "invoke_upstream rt tool (rq_arguments q) (trim_space (rq_operation q)) u2 = (Inr (reply, n), u)"
    have g1: "gate_part u1 = gate_part ?r" using keepsD [OF gates_ensure_tool e] by (simp add: keeps_gate_def)
    then have ok1: "approvals_ok u1" using gate_approvals_ok approvals_ok_draw [OF ok] by blast
    have h2: "hub_part u2 = hub_part u1" by (rule authorize_hub_part [OF a])
    obtain k where k: "k \<le> Suc (extra_attempts (rt_config rt) tool)"
        "rg_log u = rg_log u2 @ replicate k \<lparr>uc_server = td_server tool, uc_tool = td_upstream tool,
         uc_arguments = rq_arguments q, uc_operation = trim_space (rq_operation q)\<rparr>"
        "hub_part (u\<lparr>rg_log := rg_log u2\<rparr>) = hub_part u2" "approval_manager.truncate u = approval_manager.truncate u2"
      using invoke_upstream_spec [OF i] by blast
    have log: "rg_log u2 = rg_log r" using h2 g1 by (simp add: hub_part_def gate_part_def)
    have tool: "map_of (rg_tools u) (rq_tool q) = Some tool"
      using ensure_tool_Inr [OF e] h2 k(3) by (simp add: hub_part_def)
    have server: "map_of (rg_servers u) (td_server tool) = Some rt" "server_allowed (rg_config u) (td_server tool)"
      using find_runtime_Inr [OF f] k(3) by (simp_all add: hub_part_def)
    have spent: "approval_spent lib q tool u2" if "td_requires_approval tool"
      using consume_proves_approval_lemma [OF ok1 authorize_Inr(2) [OF a that]]
      unfolding approval_spent_def by fastforce
    have "approval_manager.truncate r' = approval_manager.truncate u2" using k(4) r' by (simp add: approval_manager.defs)
    then have "td_requires_approval tool \<longrightarrow> approval_spent lib q tool r'" using spent approval_spent_cong by blast
    then show ?thesis
      using user tool server k(1,2) log authorize_Inr(1) [OF a] by (auto simp: r')
  qed
qed

end
