(* ===== verification/McpGuarantees.thy ===== *)
theory McpGuarantees
  imports McpSafety
begin

text \<open>
  The guarantees of the MCP hub: the invariant of its registry and approval tables over every
  sequence of its operations, what every upstream call has been authorised by, the audit trail,
  and the policy of the tools that run without approval.
\<close>

section \<open>The operations of the hub\<close>

datatype hub_op =
    HubApply hub_config | HubInitialize | HubRefresh string | HubRefreshAll
  | HubCreate string string fields | HubApprove string string
  | HubInvoke invoke_request | HubAutomatic string string fields
  | HubClose | HubTime time

fun exec_hub :: "'l hub_library_scheme \<Rightarrow> hub_op \<Rightarrow> 'r registry_scheme \<Rightarrow> 'r registry_scheme" where
  "exec_hub lib (HubApply c) r = snd (apply_config lib c r)"
| "exec_hub lib HubInitialize r = snd (initialize lib r)"
| "exec_hub lib (HubRefresh i) r = snd (refresh lib i r)"
| "exec_hub lib HubRefreshAll r = snd (refresh_all lib r)"
| "exec_hub lib (HubCreate u tool args) r = snd (create_approval lib u tool args r)"
| "exec_hub lib (HubApprove u i) r = snd (approval_approve lib u i r)"
| "exec_hub lib (HubInvoke q) r = snd (invoke lib q r)"
| "exec_hub lib (HubAutomatic u tool args) r = snd (invoke_automatic lib u tool args r)"
| "exec_hub lib HubClose r = snd (close_registry r :: (hub_error + unit) \<times> _)"
| "exec_hub lib (HubTime t) r = r\<lparr>am_now := t\<rparr>"

definition run_hub :: "'l hub_library_scheme \<Rightarrow> hub_op list \<Rightarrow> 'r registry_scheme \<Rightarrow> 'r registry_scheme" where
  "run_hub lib ops r = fold (exec_hub lib) ops r"

definition hub_ok :: "'r registry_scheme \<Rightarrow> bool" where
  "hub_ok r \<longleftrightarrow> registry_ok r \<and> approvals_ok r"

definition keeps_hub :: "'r registry_scheme \<Rightarrow> 'r registry_scheme \<Rightarrow> bool" where
  "keeps_hub r r' \<longleftrightarrow> (hub_ok r \<longrightarrow> hub_ok r')"

interpretation hubs: state_preorder keeps_hub
  by unfold_locales (auto simp: keeps_hub_def)

lemma hubs_gate: "keeps keeps_ok m \<Longrightarrow> keeps keeps_gate m \<Longrightarrow> keeps keeps_hub m"
proof (rule keepsI)
  fix r res r' assume m: "keeps keeps_ok m" "keeps keeps_gate m" and e: "m r = (res, r')"
  have "approvals_ok r' = approvals_ok r"
    using keepsD [OF m(2) e] by (intro gate_approvals_ok) (simp add: keeps_gate_def)
  then show "keeps_hub r r'" using keepsD [OF m(1) e] by (simp add: keeps_hub_def hub_ok_def keeps_ok_def)
qed

lemma hubs_hub_part:
  assumes "\<And>r res r'. m r = (res, r') \<Longrightarrow> hub_part r' = hub_part r"
    and "\<And>r. approvals_ok r \<Longrightarrow> approvals_ok (snd (m r))"
  shows "keeps keeps_hub m"
proof (rule keepsI)
  fix r res r' assume e: "m r = (res, r')"
  show "keeps_hub r r'"
    using keepsD [OF oks_hub_part [of m] e] assms(1) assms(2) [of r] e
    by (simp add: keeps_hub_def hub_ok_def keeps_ok_def)
qed

section \<open>Every operation keeps the invariant\<close>

lemma gates_refreshing:
  "keeps keeps_gate (refresh lib i)" "keeps keeps_gate (initialize_one lib i)"
  unfolding refresh_def initialize_one_def find_runtime_def
  by (intro gates.keeps_intros gates_connect)+

lemma gates_for_servers: "(\<And>i. keeps keeps_gate (step i)) \<Longrightarrow> keeps keeps_gate (for_servers step ids)"
  by (induction ids) (auto intro!: gates.keeps_bindE gates.keeps_tryE gates.keeps_ret)

lemma gates_refreshing_all:
  "keeps keeps_gate (initialize lib)" "keeps keeps_gate (refresh_all lib)"
  unfolding initialize_def refresh_all_def
  by (intro gates.keeps_bindE gates.keeps_gets gates.keeps_guardE gates_for_servers gates_refreshing)+

lemma gates_find_tool: "keeps keeps_gate (find_tool name)"
  unfolding find_tool_def by (intro gates.keeps_intros)

lemma hubs_refreshing:
  "keeps keeps_hub (refresh lib i)" "keeps keeps_hub (initialize lib)" "keeps keeps_hub (refresh_all lib)"
  "keeps keeps_hub (ensure_tool lib name)" "keeps keeps_hub (find_tool name)"
  by (rule hubs_gate; rule oks_refresh oks_initialize oks_refresh_all oks_ensure_tool oks_find_tool
      gates_refreshing gates_refreshing_all gates_ensure_tool gates_find_tool)+

lemma hubs_approvals:
  "keeps keeps_hub (approval_create lib u t args)" "keeps keeps_hub (approval_approve lib u i)"
  "keeps keeps_hub (approval_consume lib u n args tok)"
proof -
  show "keeps keeps_hub (approval_create lib u t args)"
    using exec_approval_ok [of _ lib "ApCreate u t args"] by (intro hubs_hub_part create_hub_part) auto
  show "keeps keeps_hub (approval_approve lib u i)"
    using exec_approval_ok [of _ lib "ApApprove u i"] by (intro hubs_hub_part approve_hub_part) auto
  show "keeps keeps_hub (approval_consume lib u n args tok)"
    using exec_approval_ok [of _ lib "ApConsume u n args tok"] by (intro hubs_hub_part consume_hub_part) auto
qed

lemma hubs_authorize: "keeps keeps_hub (authorize lib q tool)"
  unfolding authorize_def by (intro hubs.keeps_intros hubs_approvals)

lemma hubs_find_runtime: "keeps keeps_hub (find_runtime i)"
  unfolding find_runtime_def by (intro hubs.keeps_intros)

lemma hubs_invoke_upstream: "keeps keeps_hub (invoke_upstream rt tool args op)"
proof (rule keepsI)
  fix r :: "'a registry_scheme" and res r'
  assume "invoke_upstream rt tool args op r = (res, r')"
  then obtain l where h: "hub_part (r'\<lparr>rg_log := l\<rparr>) = hub_part r" and a: "approval_manager.truncate r' = approval_manager.truncate r"
    using invoke_upstream_spec by blast
  have "registry_ok r' = registry_ok r"
    using h by (intro registry_ok_cong) (simp_all add: hub_part_def)
  then show "keeps_hub r r'" using approvals_ok_cong [OF a] by (simp add: keeps_hub_def hub_ok_def)
qed

lemma hub_ok_fields:
  "hub_ok r \<Longrightarrow> hub_ok (r\<lparr>am_uuid_next := Suc (am_uuid_next r)\<rparr>)"
  "hub_ok (r\<lparr>rg_audits := es\<rparr>) = hub_ok r"
  "hub_ok (r\<lparr>am_now := t\<rparr>) = hub_ok r"
proof -
  show "hub_ok r \<Longrightarrow> hub_ok (r\<lparr>am_uuid_next := Suc (am_uuid_next r)\<rparr>)"
    using approvals_ok_draw [of r] registry_ok_cong [of "r\<lparr>am_uuid_next := Suc (am_uuid_next r)\<rparr>" r]
    by (simp add: hub_ok_def)
  show "hub_ok (r\<lparr>rg_audits := es\<rparr>) = hub_ok r"
    using approvals_ok_cong [of "r\<lparr>rg_audits := es\<rparr>" r] registry_ok_cong [of "r\<lparr>rg_audits := es\<rparr>" r]
    by (simp add: hub_ok_def approval_manager.defs)
  have "approvals_ok (r\<lparr>am_now := t\<rparr>) = approvals_ok r"
    by (simp add: approvals_ok_def distinct_keys_def token_backed_def)
  then show "hub_ok (r\<lparr>am_now := t\<rparr>) = hub_ok r"
    using registry_ok_cong [of "r\<lparr>am_now := t\<rparr>" r] by (simp add: hub_ok_def)
qed

lemma hubs_invoke: "keeps keeps_hub (invoke lib q)"
proof -
  have "keeps keeps_hub (modifies (\<lambda>r. r\<lparr>am_uuid_next := Suc (am_uuid_next r)\<rparr>))"
    and "keeps keeps_hub (modifies (\<lambda>r. r\<lparr>rg_audits := rg_audits r @ [e]\<rparr>))" for e
    by (simp_all add: keeps_def keeps_hub_def modifies_def hub_ok_fields)
  then show ?thesis
    unfolding invoke_def invoke_body_def Let_def
    by (intro hubs.keeps_intros hubs_refreshing hubs_authorize hubs_find_runtime hubs_invoke_upstream)
qed

lemma hubs_service_tools: "keeps keeps_hub (service_tools lib force)"
  unfolding service_tools_def by (intro hubs.keeps_intros hubs_refreshing)

lemma hubs_invoke_automatic: "keeps keeps_hub (invoke_automatic lib u n args)"
  unfolding invoke_automatic_def by (intro hubs.keeps_intros hubs_service_tools hubs_refreshing hubs_invoke)

lemma hubs_create: "keeps keeps_hub (create_approval lib u n args)"
  unfolding create_approval_def by (intro hubs.keeps_intros hubs_refreshing hubs_approvals)

lemma close_runtimes:
  "map_of (map (\<lambda>(i, rt). (i, close_runtime rt)) xs) i = map_option close_runtime (map_of xs i)"
  "map fst (map (\<lambda>(i, rt). (i, close_runtime rt)) xs) = map fst xs"
  "rt_config (close_runtime rt) = rt_config rt"
  by (induction xs) (auto simp: close_runtime_def)

lemma hub_ok_closed:
  assumes ok: "hub_ok r"
  shows "hub_ok (r\<lparr>rg_closed := True, rg_tools := [],
     rg_servers := map (\<lambda>(i, rt). (i, close_runtime rt)) (rg_servers r)\<rparr>)" (is "hub_ok ?r")
proof -
  have "servers_ok ?r"
    using ok by (auto simp: hub_ok_def registry_ok_def servers_ok_def close_runtimes simp del: map_map)
  moreover have "approvals_ok ?r"
    using ok approvals_ok_cong [of ?r r] by (simp add: hub_ok_def approval_manager.defs)
  ultimately show ?thesis by (simp add: hub_ok_def registry_ok_def)
qed

lemma hubs_close: "keeps keeps_hub close_registry"
  using hub_ok_closed by (auto simp: keeps_def keeps_hub_def close_registry_def modifies_def)

lemma retained_runtimeD:
  "retained_runtime r config s = Some rt \<Longrightarrow> map_of (rg_servers r) (sc_id s) = Some rt \<and> rt_config rt = s"
  by (auto simp: retained_runtime_def split: option.splits if_splits)

lemma map_of_runtime_for:
  "distinct (map sc_id ss) \<Longrightarrow>
   map_of (map (runtime_for lib r config) ss) i = Some rt \<longleftrightarrow>
   (\<exists>s \<in> set ss. sc_id s = i \<and> snd (runtime_for lib r config s) = rt)"
proof (induction ss)
  case (Cons a ss)
  have "fst (runtime_for lib r config a) = sc_id a" by (simp add: runtime_for_def)
  then have "map_of (map (runtime_for lib r config) (a # ss)) i =
      (if i = sc_id a then Some (snd (runtime_for lib r config a)) else map_of (map (runtime_for lib r config) ss) i)"
    by (cases "runtime_for lib r config a") simp
  then show ?case using Cons by auto (metis image_eqI)+
qed simp

lemma config_runtime_for: "rt_config (snd (runtime_for lib r config s)) = s"
  by (auto simp: runtime_for_def new_runtime_def dest: retained_runtimeD split: option.splits)

lemma registry_ok_apply:
  assumes ok: "registry_ok r" and wf: "wf_config config"
  shows "registry_ok (r\<lparr>rg_config := config,
       rg_servers := map (runtime_for lib r config) (hc_servers config),
       rg_tools := filter (\<lambda>(_, t). td_server t \<in> set (retained_ids r config)) (rg_tools r)\<rparr>)" (is "registry_ok ?r")
proof -
  have d: "distinct (map sc_id (hc_servers config))" and w: "\<And>s. s \<in> set (hc_servers config) \<Longrightarrow> wf_server s"
    using wf by (auto simp: wf_config_def list_all_iff)
  have look: "map_of (rg_servers ?r) i = Some rt \<longleftrightarrow>
     (\<exists>s \<in> set (hc_servers config). sc_id s = i \<and> snd (runtime_for lib r config s) = rt)" for i rt
    using map_of_runtime_for [OF d] by simp
  have keys: "map fst (rg_servers ?r) = map sc_id (hc_servers config)" by (simp add: runtime_for_def)
  have dt: "distinct (map fst (rg_tools r))" using ok by (simp add: registry_ok_def servers_ok_def)
  have srv: "servers_ok ?r"
    unfolding servers_ok_def look keys using d dt w by (auto simp: distinct_map_filter config_runtime_for)
  have "tool_ok ?r n t" if "map_of (rg_tools ?r) n = Some t" for n t
  proof -
    have n: "map_of (rg_tools r) n = Some t" "td_server t \<in> set (retained_ids r config)"
      using that map_of_filter_Some [OF dt] by (auto dest: map_of_SomeD)
    then obtain s rt where s: "s \<in> set (hc_servers config)" "sc_id s = td_server t" "retained_runtime r config s = Some rt"
      by (auto simp: retained_ids_def)
    have "tool_ok r n t" using ok n(1) by (simp add: registry_ok_def)
    moreover have "map_of (rg_servers r) (td_server t) = Some rt" "rt_config rt = s"
      using retained_runtimeD [OF s(3)] s(2) by simp_all
    moreover have "map_of (rg_servers ?r) (td_server t) = Some rt"
      unfolding look using s by (auto simp: runtime_for_def)
    ultimately show ?thesis by (simp add: tool_ok_def)
  qed
  then show ?thesis using srv by (simp add: registry_ok_def)
qed

lemma hubs_apply: "keeps keeps_hub (apply_config lib c)"
proof (rule keepsI)
  fix r :: "'a registry_scheme" and res r'
  assume e: "apply_config lib c r = (res, r')"
  show "keeps_hub r r'"
  proof (cases "validate_config (hl_urls lib) c")
    case (Inl x)
    then show ?thesis using e hubs.R_refl by (auto simp: apply_config_def call_eval)
  next
    case (Inr config)
    have wf: "wf_config config" using validate_config_wf [OF Inr] by blast
    show ?thesis
    proof (cases "rg_closed r")
      case True
      then show ?thesis using e Inr hubs.R_refl by (auto simp: apply_config_def apply_validated_def call_eval)
    next
      case False
      then have r': "r' = r\<lparr>rg_config := config,
          rg_servers := map (runtime_for lib r config) (hc_servers config),
          rg_tools := filter (\<lambda>(_, t). td_server t \<in> set (retained_ids r config)) (rg_tools r)\<rparr>"
        using e Inr by (simp add: apply_config_def apply_validated_def call_eval)
      have "approvals_ok r' = approvals_ok r"
        by (rule approvals_ok_cong) (simp add: r' approval_manager.defs)
      then show ?thesis by (simp add: keeps_hub_def hub_ok_def r' registry_ok_apply wf)
    qed
  qed
qed

lemma keeps_hubD: "keeps keeps_hub m \<Longrightarrow> hub_ok r \<Longrightarrow> hub_ok (snd (m r))"
  by (simp add: keeps_def keeps_hub_def)

lemma exec_hub_ok: "hub_ok r \<Longrightarrow> hub_ok (exec_hub lib op r)"
  by (cases op)
     (simp_all add: hub_ok_fields keeps_hubD [OF hubs_apply] keeps_hubD [OF hubs_refreshing(1)]
        keeps_hubD [OF hubs_refreshing(2)] keeps_hubD [OF hubs_refreshing(3)] keeps_hubD [OF hubs_create]
        keeps_hubD [OF hubs_approvals(2)] keeps_hubD [OF hubs_invoke] keeps_hubD [OF hubs_invoke_automatic]
        keeps_hubD [OF hubs_close])

lemma run_hub_ok: "hub_ok r \<Longrightarrow> hub_ok (run_hub lib ops r)"
  unfolding run_hub_def by (induction ops arbitrary: r) (simp_all add: exec_hub_ok)

section \<open>A connected hub\<close>

definition demo_hub_library :: hub_library where
  "demo_hub_library = mcp_library.extend demo_library
     \<lparr>hl_urls = demo_urls, hl_public_url = (\<lambda>s. s), hl_env = (\<lambda>_. None)\<rparr>"

text \<open>One server, one destructive tool, one approval out for it, one upstream reply to come.\<close>

definition demo_hub :: registry where
  "demo_hub = approval_manager.extend demo_approved
     \<lparr>rg_config = \<lparr>hc_service_allowlist = [''srv''], hc_approval_ttl_seconds = 300, hc_servers = [demo_valid_server]\<rparr>,
      rg_servers = [(''srv'', (new_runtime demo_hub_library demo_valid_server True)\<lparr>rt_client := True\<rparr>)],
      rg_tools = [(''srv.rm'', demo_tool)], rg_closed = False, rg_factory = [], rg_inits = [], rg_lists = [],
      rg_calls = [Inr (Some \<lparr>res_is_error = False, res_contents = [], res_structured = False, res_json = None\<rparr>)],
      rg_waits = [], rg_log = [], rg_audits = []\<rparr>"

definition demo_request :: invoke_request where
  "demo_request = \<lparr>rq_user = ''alice'', rq_tool = ''srv.rm'', rq_arguments = [], rq_token = ''mcp_apv_'', rq_operation = []\<rparr>"

lemma demo_server_wf: "wf_server demo_valid_server"
proof -
  have "validate_server_id (sc_id demo_server)" by (simp add: demo_server_def name_eval)
  then show ?thesis using validate_server_config_wf [OF demo_server_valid] by blast
qed

lemma demo_hub_ok: "hub_ok demo_hub"
proof -
  have "approvals_ok demo_hub"
    using demo_approved_ok approvals_ok_cong [of demo_hub demo_approved]
    by (simp add: demo_hub_def approval_manager.defs)
  moreover have "registry_ok demo_hub"
    using demo_server_wf
    by (auto simp: registry_ok_def servers_ok_def tool_ok_def demo_hub_def approval_manager.defs new_runtime_def
        demo_tool_def demo_valid_server_def demo_server_def split: if_splits)
  ultimately show ?thesis by (simp add: hub_ok_def)
qed

lemma demo_tool_found: "find_tool ''srv.rm'' (demo_hub\<lparr>am_uuid_next := n\<rparr>) = (Inr demo_tool, demo_hub\<lparr>am_uuid_next := n\<rparr>)"
proof -
  have "split_namespaced_tool ''srv.rm'' = Some (''srv'', ''rm'')"
    by (simp add: split_namespaced_tool_def Let_def name_eval)
  then show ?thesis
    by (simp add: find_tool_def call_eval demo_hub_def approval_manager.defs server_allowed_def tool_allowed_def
        new_runtime_def contains_iff_member demo_valid_server_def demo_server_def)
qed

lemma demo_arguments: "validate_arguments (\<lambda>_. None) ''null'' [] = None"
proof -
  have "decode_object ''null'' = Some (None, [])" by (simp add: decode_object_def decode_eval)
  moreover have "marshal (JObj []) = Some ''{}''" by (simp add: encode_eval)
  moreover have "conforms rx [] (Suc n) (JObj []) []" for rx n
    by (simp add: describes_def shape_ok_def field_def str_of_def arr_of_def schema_types_def type_names_def
        required_names_def at_least_def at_most_def string_list_def integer_keyword_def)
  ultimately show ?thesis
    by (simp del: marshal.simps validate_json_value.simps conforms.simps
        add: validate_arguments_def validate_conforms Let_def max_arguments_bytes_def)
qed

lemma demo_authorized:
  "\<exists>r'. authorize demo_hub_library demo_request demo_tool (demo_hub\<lparr>am_uuid_next := n\<rparr>) = (Inr (), r')"
proof -
  have "trim_space [] = []" by (simp add: name_eval)
  then show ?thesis
    using demo_arguments
    by (simp add: authorize_def call_eval demo_request_def demo_tool_def demo_hub_library_def mcp_library.defs
        demo_library_def approval_consume_def arguments_digest_def hash_approval_token_def demo_hub_def
        approval_manager.defs demo_approved_def demo_manager_def cleanup_locked_def record_of_def demo_challenge_def
        token_matches_def encode_eval)
qed

lemma demo_called: "rg_log (snd (invoke demo_hub_library demo_request demo_hub)) \<noteq> rg_log demo_hub"
proof -
  let ?r = "demo_hub\<lparr>am_uuid_next := Suc (am_uuid_next demo_hub)\<rparr>"
  obtain res r' where i: "invoke demo_hub_library demo_request demo_hub = (res, r')" by (cases "invoke demo_hub_library demo_request demo_hub")
  obtain v where a: "authorize demo_hub_library demo_request demo_tool ?r = (Inr (), v)" using demo_authorized by blast
  have e: "ensure_tool demo_hub_library ''srv.rm'' ?r = (Inr demo_tool, ?r)"
    by (simp add: ensure_tool_def tryE_bind demo_tool_found call_eval)
  have h: "hub_part v = hub_part ?r" by (rule authorize_hub_part [OF a])
  let ?rt = "(new_runtime demo_hub_library demo_valid_server True)\<lparr>rt_client := True\<rparr>"
  have f: "find_runtime ''srv'' v = (Inr ?rt, v)"
    using h by (simp add: find_runtime_def call_eval hub_part_def demo_hub_def approval_manager.defs server_allowed_def
        contains_iff_member)
  obtain res1 u where up1: "invoke_upstream ?rt demo_tool [] [] v = (res1, u)" by (cases "invoke_upstream ?rt demo_tool [] [] v")
  then have "call_loop (td_read_only demo_tool) \<lparr>uc_server = td_server demo_tool, uc_tool = td_upstream demo_tool,
      uc_arguments = [], uc_operation = []\<rparr> (extra_attempts (rt_config ?rt) demo_tool) 1 v = (res1, u)"
    by (simp add: invoke_upstream_def)
  from call_loop_spec [OF this] obtain k reply n where res1: "res1 = Inr (reply, n)" and k: "1 \<le> k"
      and log: "rg_log u = rg_log v @ replicate k \<lparr>uc_server = td_server demo_tool, uc_tool = td_upstream demo_tool,
      uc_arguments = [], uc_operation = []\<rparr>" by blast
  note up = up1 [unfolded res1]
  let ?b = "\<lambda>ev. invoke_body demo_hub_library demo_request ev ?r"
  have names: "trim_space (rq_user demo_request) \<noteq> []" "rq_tool demo_request = ''srv.rm''" "rq_arguments demo_request = []"
      "trim_space (rq_operation demo_request) = []" "td_server demo_tool = ''srv''"
    by (simp_all add: demo_request_def demo_tool_def name_eval)
  have "\<exists>x. ?b ev = (Inr x, u)" for ev
    using a f names up by (simp add: invoke_body_def Let_def tryE_bind e call_eval bindE_Inr [where m = "invoke_upstream ?rt demo_tool [] []", OF up])
  moreover obtain ev out w where "?b (new_event demo_hub_library demo_request (am_uuid demo_hub (am_uuid_next demo_hub))) = (Inr (ev, out), w)"
      and r': "r' = w\<lparr>rg_audits := rg_audits w @ [finish_event demo_hub_library out ev]\<rparr>"
    by (rule invoke_cases [OF i])
  ultimately have "w = u" by (metis Pair_inject)
  with r' have "rg_log r' = rg_log u" by simp
  then show ?thesis using log k h i by (simp add: hub_part_def)
qed

section \<open>Properties\<close>

text \<open>
  C14: every sequence of operations of the hub (configuration changes, refreshes, approvals,
  invocations, closing, the passing of time) keeps its invariant: every published tool belongs to
  a configured server that allowlists it, destructive tools need approval, tools that need none
  have low risk, and the approval tables are consistent.
\<close>

theorem hub_invariant:
  assumes "hub_ok r" shows "hub_ok (run_hub lib ops r)"
  using assms by (rule run_hub_ok)

lemma hub_invariant_witness:
  "hub_ok (run_hub demo_hub_library [HubRefreshAll, HubInvoke demo_request, HubTime 2000, HubClose] demo_hub)"
  by (rule hub_invariant [OF demo_hub_ok])

text \<open>
  C13: a request of an invocation that reaches an upstream server was made by a named user, for a
  published tool that its configured, allowlisted server allowlists, with arguments that the
  tool's schema accepts; a tool that is not read-only is called at most once, a read-only one at
  most once more than the configured retries; and where the tool needs approval, one issued to
  this user for this tool and these arguments was spent.
\<close>

theorem upstream_calls_authorized:
  assumes "hub_ok r" and "invoke lib q r = (res, r')" and "rg_log r' \<noteq> rg_log r"
  shows "trim_space (rq_user q) \<noteq> [] \<and> (\<exists>tool rt k. map_of (rg_tools r') (rq_tool q) = Some tool \<and>
     map_of (rg_servers r') (td_server tool) = Some rt \<and> server_allowed (rg_config r') (td_server tool) \<and>
     rq_tool q = td_server tool @ ''.'' @ td_upstream tool \<and>
     td_upstream tool \<in> set (sc_tool_allowlist (rt_config rt)) \<and>
     k \<le> Suc (if td_read_only tool then nat (sc_max_read_only_retries (rt_config rt)) else 0) \<and>
     rg_log r' = rg_log r @ replicate k \<lparr>uc_server = td_server tool, uc_tool = td_upstream tool,
       uc_arguments = rq_arguments q, uc_operation = trim_space (rq_operation q)\<rparr> \<and>
     validate_arguments (rx_compile lib) (td_input_schema tool) (rq_arguments q) = None \<and>
     (td_requires_approval tool \<longrightarrow> approval_spent lib q tool r'))"
proof -
  have "tool_ok r' n t" if "map_of (rg_tools r') n = Some t" for n t
    using keepsD [OF hubs_invoke assms(2)] assms(1) that by (simp add: keeps_hub_def hub_ok_def registry_ok_def)
  moreover have "approvals_ok r" using assms(1) by (simp add: hub_ok_def)
  ultimately show ?thesis
    using invoke_calls [OF _ assms(2,3)] by (fastforce simp: tool_ok_def extra_attempts_def)
qed

lemma upstream_calls_authorized_witness:
  "\<exists>k c. rg_log (snd (invoke demo_hub_library demo_request demo_hub)) = replicate k c \<and> uc_arguments c = []"
proof -
  have "rq_arguments demo_request = []" "rg_log demo_hub = []"
    by (simp_all add: demo_request_def demo_hub_def approval_manager.defs)
  then show ?thesis
    using upstream_calls_authorized [OF demo_hub_ok prod.collapse [symmetric] demo_called] by force
qed

lemma outcome_for_error_names: "outcome_for_error e \<noteq> ''success''" "outcome_for_error e \<noteq> ''tool_error''"
  by (simp_all add: outcome_for_error_def split: hub_code.split)

text \<open>
  C15: every invocation, refused or not, leaves exactly one audit event, which carries a fresh
  identifier, the user, the tool and the digest and redacted form of the arguments as requested,
  and an outcome and an error code that agree with what the caller is told.
\<close>

theorem invocations_audited:
  "case invoke lib q r of (res, r') \<Rightarrow> \<exists>ev. rg_audits r' = rg_audits r @ [ev] \<and>
     ev_request_id ev = am_uuid r (am_uuid_next r) \<and> ev_user ev = rq_user q \<and> ev_tool ev = rq_tool q \<and>
     ev_digest ev = (case arguments_digest lib (rq_arguments q) of None \<Rightarrow> [] | Some d \<Rightarrow> d) \<and>
     ev_preview ev = redacted_arguments lib (rq_arguments q) \<and>
     (case res of
        Inl e \<Rightarrow> ev_error_code ev = Some (error_code e) \<and> ev_outcome ev \<notin> {''success'', ''tool_error''}
      | Inr x \<Rightarrow> ev_error_code ev = None \<and> ir_request_id x = ev_request_id ev \<and> ir_attempts x = ev_attempts ev \<and>
          ev_outcome ev = (if res_is_error (ir_result x) then ''tool_error'' else ''success''))"
proof -
  let ?ok = "\<lambda>(ev, out). (case out of
        Inl e \<Rightarrow> ev_outcome ev \<notin> {''success'', ''tool_error''}
      | Inr x \<Rightarrow> ir_request_id x = ev_request_id ev \<and> ir_attempts x = ev_attempts ev \<and>
          ev_outcome ev = (if res_is_error (ir_result x) then ''tool_error'' else ''success''))"
  have outcome: "?ok (with_outcome q tool reply ev)" for tool reply ev
  proof (cases reply)
    case (Pair x n)
    show ?thesis
    proof (cases x)
      case (Inl e)
      then show ?thesis by (simp add: Pair with_outcome_def outcome_for_error_names)
    next
      case (Inr r)
      then show ?thesis by (cases r) (simp_all add: Pair with_outcome_def)
    qed
  qed
  obtain res r' where inv: "invoke lib q r = (res, r')" by (cases "invoke lib q r")
  let ?ev = "new_event lib q (am_uuid r (am_uuid_next r))" and ?r = "r\<lparr>am_uuid_next := Suc (am_uuid_next r)\<rparr>"
  from inv obtain ev out u where b: "invoke_body lib q ?ev ?r = (Inr (ev, out), u)"
    and res: "res = out" and r': "r' = u\<lparr>rg_audits := rg_audits u @ [finish_event lib out ev]\<rparr>" by (rule invoke_cases)
  from b have "rg_audits u = rg_audits ?r \<and> same_request ?ev ev \<and> ?ok (ev, out)"
  proof (rule invoke_body_cases)
    fix ev' e assume "Inr (ev, out) = Inr (ev', Inl e)" "rg_audits u = rg_audits ?r" "same_request ?ev ev'"
      "ev_outcome ev' = ev_outcome ?ev"
    then have x: "ev = ev'" "out = Inl e" and y: "rg_audits u = rg_audits ?r" "same_request ?ev ev'" "ev_outcome ev' = ''rejected''"
      by (simp_all add: new_event_def)
    show ?thesis unfolding x using y by simp
  next
    fix tool u1 u2 rt reply n ev1
    assume e: "ensure_tool lib (rq_tool q) ?r = (Inr tool, u1)" and a: "authorize lib q tool u1 = (Inr (), u2)"
      and i: "invoke_upstream rt tool (rq_arguments q) (trim_space (rq_operation q)) u2 = (Inr (reply, n), u)"
      and o: "Inr (ev, out) = Inr (with_outcome q tool (reply, n) ev1)" and s: "same_request ?ev ev1"
    have w: "with_outcome q tool (reply, n) ev1 = (ev, out)" by (rule Inr_inject [OF o, symmetric])
    have "same_request ev1 ev" by (rule with_outcome_request [OF w])
    then have "same_request ?ev ev" using s by (simp add: same_request_def)
    moreover have "?ok (ev, out)" using outcome [of tool "(reply, n)" ev1] unfolding w .
    moreover have "rg_audits u = rg_audits u2" using invoke_upstream_spec [OF i] by (auto simp: hub_part_def)
    moreover have "rg_audits u2 = rg_audits u1" using authorize_hub_part [OF a] by (simp add: hub_part_def)
    moreover have "rg_audits u1 = rg_audits ?r" using keepsD [OF gates_ensure_tool e] by (simp add: keeps_gate_def gate_part_def)
    ultimately show ?thesis by simp
  qed
  then show ?thesis
    by (cases out) (auto simp: inv res r' finish_event_def same_request_def new_event_def)
qed

text \<open>
  C17: in a sound hub, a tool offered for automatic use has low risk and needs no approval, is
  not destructive and is on the allowlist of its server.
\<close>

theorem automatic_tools_safe:
  assumes "hub_ok r" and "automatic_tools lib r = (Inr tools, r')" and "t \<in> set tools"
  shows "td_risk t = RiskLow \<and> \<not> td_requires_approval t \<and> \<not> td_destructive t \<and>
     (\<exists>rt. map_of (rg_servers r') (td_server t) = Some rt \<and> td_upstream t \<in> set (sc_tool_allowlist (rt_config rt)))"
proof -
  obtain ts where st: "service_tools lib False r = (Inr ts, r')" and t: "t \<in> set ts" "automatic t"
    using assms(2,3) by (auto simp: automatic_tools_def elim!: bindE_InrE)
  have ok: "hub_ok r'" using keepsD [OF hubs_service_tools st] assms(1) by (simp add: keeps_hub_def)
  have "ts = list_tools r'"
    using st by (auto simp: service_tools_def tryE_bind call_eval split: sum.splits list.splits if_splits)
  then obtain n where "(n, t) \<in> set (rg_tools r')" using t(1) by (auto simp: list_tools_def)
  then have "map_of (rg_tools r') n = Some t"
    using ok by (simp add: hub_ok_def registry_ok_def servers_ok_def)
  then have "tool_ok r' n t" using ok by (simp add: hub_ok_def registry_ok_def)
  then show ?thesis using t(2) by (auto simp: tool_ok_def automatic_def)
qed

definition demo_low_tool :: tool_definition where
  "demo_low_tool = demo_tool\<lparr>td_name := ''srv.ls'', td_upstream := ''ls'', td_read_only := True,
     td_destructive := False, td_risk := RiskLow, td_requires_approval := False\<rparr>"

definition demo_ready_hub :: registry where
  "demo_ready_hub = demo_hub\<lparr>rg_tools := [(''srv.ls'', demo_low_tool)],
     rg_servers := [(''srv'', with_status (\<lambda>s. s\<lparr>st_state := ServerReady\<rparr>)
       ((new_runtime demo_hub_library demo_valid_server True)\<lparr>rt_client := True\<rparr>))]\<rparr>"

lemma demo_ready_ok: "hub_ok demo_ready_hub"
proof -
  have "approvals_ok demo_ready_hub"
    using demo_hub_ok approvals_ok_cong [of demo_ready_hub demo_hub]
    by (simp add: demo_ready_hub_def approval_manager.defs hub_ok_def)
  moreover have "registry_ok demo_ready_hub"
    using demo_server_wf
    by (auto simp: registry_ok_def servers_ok_def tool_ok_def demo_ready_hub_def new_runtime_def
        demo_low_tool_def demo_tool_def demo_valid_server_def demo_server_def split: if_splits)
  ultimately show ?thesis by (simp add: hub_ok_def)
qed

lemma demo_ready_tools: "automatic_tools demo_hub_library demo_ready_hub = (Inr [demo_low_tool], demo_ready_hub)"
proof -
  have server: "map_of (rg_servers demo_ready_hub) ''srv'' = Some (snd (hd (rg_servers demo_ready_hub)))"
      "usable (snd (hd (rg_servers demo_ready_hub)))" "sc_enabled (rt_config (snd (hd (rg_servers demo_ready_hub))))"
      "\<not> rg_closed demo_ready_hub" "server_allowed (rg_config demo_ready_hub) ''srv''"
      "active_ids demo_ready_hub = [''srv'']" "list_tools demo_ready_hub = [demo_low_tool]"
    by (simp_all add: demo_ready_hub_def demo_hub_def approval_manager.defs usable_def with_status_def new_runtime_def
        demo_valid_server_def demo_server_def server_allowed_def contains_iff_member active_ids_def list_tools_def)
  have "automatic demo_low_tool" by (simp add: automatic_def demo_low_tool_def)
  then show ?thesis
    using server by (simp add: automatic_tools_def service_tools_def tryE_bind initialize_def initialize_one_def
        connect_and_discover_def call_eval bindE_def tryE_def)
qed

lemma automatic_tools_safe_witness: "td_risk demo_low_tool = RiskLow \<and> td_upstream demo_low_tool \<in> {''add'', ''ls'', ''rm''}"
  using automatic_tools_safe [OF demo_ready_ok demo_ready_tools, of demo_low_tool]
  by (simp add: demo_low_tool_def)

end
