(* ===== verification/Replace.thy ===== *)
theory Replace
  imports Regex
begin

text \<open>
  \<open>ReplaceAllString\<close> of Go's \<open>regexp\<close> package: leftmost-first matching, with greedy and
  lazy repetition, word boundaries and capture groups, over the byte segments of a string (so
  that bytes outside a match are copied as they are). A matcher maps a state to the states in
  which it can end, in order of preference; the first one is the match.
\<close>

datatype pattern =
    PEmpty | PSet "nat \<Rightarrow> bool" | PSeq pattern pattern | PAlt pattern pattern
  | PStar pattern | PLazy pattern | PBoundary | PCap nat pattern

text \<open>The segment before the position, those after it, and the groups captured so far.\<close>

record matching =
  mt_prev :: "string option"
  mt_rest :: "string list"
  mt_caps :: "(nat \<times> string) list"

definition seg_rune :: "string \<Rightarrow> nat" where
  "seg_rune seg = fst (decode_rune seg)"

definition word_rune :: "nat \<Rightarrow> bool" where
  "word_rune r \<longleftrightarrow> ascii_alnum r \<or> r = 95"

definition at_boundary :: "matching \<Rightarrow> bool" where
  "at_boundary m \<longleftrightarrow>
     (case mt_prev m of None \<Rightarrow> False | Some seg \<Rightarrow> word_rune (seg_rune seg)) \<noteq>
     (case mt_rest m of [] \<Rightarrow> False | seg # _ \<Rightarrow> word_rune (seg_rune seg))"

definition step_over :: "(nat \<Rightarrow> bool) \<Rightarrow> matching \<Rightarrow> matching list" where
  "step_over P m = (case mt_rest m of
     [] \<Rightarrow> [] | seg # rest \<Rightarrow> if P (seg_rune seg) then [m\<lparr>mt_prev := Some seg, mt_rest := rest\<rparr>] else [])"

text \<open>Repetition: an iteration that consumes nothing is not repeated. \<open>n\<close> bounds the iterations.\<close>

fun repeat :: "(matching \<Rightarrow> matching list) \<Rightarrow> bool \<Rightarrow> nat \<Rightarrow> matching \<Rightarrow> matching list" where
  "repeat f greedy 0 m = [m]"
| "repeat f greedy (Suc n) m =
     (let more = concat (map (repeat f greedy n)
        (filter (\<lambda>m'. length (mt_rest m') < length (mt_rest m)) (f m)))
      in if greedy then more @ [m] else m # more)"

definition consumed :: "matching \<Rightarrow> matching \<Rightarrow> string" where
  "consumed m m' = concat (take (length (mt_rest m) - length (mt_rest m')) (mt_rest m))"

primrec matches :: "pattern \<Rightarrow> matching \<Rightarrow> matching list" where
  "matches PEmpty = (\<lambda>m. [m])"
| "matches (PSet P) = step_over P"
| "matches (PSeq a b) = (\<lambda>m. concat (map (matches b) (matches a m)))"
| "matches (PAlt a b) = (\<lambda>m. matches a m @ matches b m)"
| "matches (PStar a) = (\<lambda>m. repeat (matches a) True (length (mt_rest m)) m)"
| "matches (PLazy a) = (\<lambda>m. repeat (matches a) False (length (mt_rest m)) m)"
| "matches PBoundary = (\<lambda>m. if at_boundary m then [m] else [])"
| "matches (PCap i a) = (\<lambda>m. map (\<lambda>m'. m'\<lparr>mt_caps := (i, consumed m m') # mt_caps m'\<rparr>) (matches a m))"

text \<open>
  \<open>ReplaceAllString\<close>: \<open>repl\<close> gives the replacement from the match and its groups. The
  patterns used match no empty string; should one, nothing is replaced there.
\<close>

function replace_from :: "pattern \<Rightarrow> (string \<Rightarrow> (nat \<times> string) list \<Rightarrow> string) \<Rightarrow> string option \<Rightarrow> string list \<Rightarrow> string" where
  "replace_from p repl prev [] = []"
| "replace_from p repl prev (seg # rest) =
     (let m = \<lparr>mt_prev = prev, mt_rest = seg # rest, mt_caps = []\<rparr> in
      case matches p m of
        m' # _ \<Rightarrow> if length (mt_rest m') < length (seg # rest)
          then repl (consumed m m') (mt_caps m') @ replace_from p repl (mt_prev m') (mt_rest m')
          else seg @ replace_from p repl (Some seg) rest
      | [] \<Rightarrow> seg @ replace_from p repl (Some seg) rest)"
  by pat_completeness auto
termination
  by (relation "measure (\<lambda>(_, _, _, segs). length segs)") auto

definition replace_all :: "pattern \<Rightarrow> (string \<Rightarrow> (nat \<times> string) list \<Rightarrow> string) \<Rightarrow> string \<Rightarrow> string" where
  "replace_all p repl s = replace_from p repl None (segments s)"

section \<open>Building blocks\<close>

fun p_word :: "string \<Rightarrow> pattern" where
  "p_word [] = PEmpty"
| "p_word (c # s) = PSeq (PSet (fold_rune (byte_of c))) (p_word s)"

text \<open>A literal matched with its case.\<close>

fun p_text :: "string \<Rightarrow> pattern" where
  "p_text [] = PEmpty"
| "p_text (c # s) = PSeq (PSet (\<lambda>r. r = byte_of c)) (p_text s)"

fun p_alts :: "pattern list \<Rightarrow> pattern" where
  "p_alts [] = PSet (\<lambda>_. False)"
| "p_alts [p] = p"
| "p_alts (p # ps) = PAlt p (p_alts ps)"

fun p_seqs :: "pattern list \<Rightarrow> pattern" where
  "p_seqs [] = PEmpty"
| "p_seqs (p # ps) = PSeq p (p_seqs ps)"

definition p_opt :: "pattern \<Rightarrow> pattern" where "p_opt p = PAlt p PEmpty"
definition p_plus :: "pattern \<Rightarrow> pattern" where "p_plus p = PSeq p (PStar p)"

text \<open>\<open>\s\<close>.\<close>

definition perl_space :: "nat \<Rightarrow> bool" where
  "perl_space r \<longleftrightarrow> r = 9 \<or> r = 10 \<or> r = 12 \<or> r = 13 \<or> r = 32"

section \<open>Facts\<close>

text \<open>A match that is found ends at a suffix of what it started from.\<close>

lemma repeat_suffix:
  assumes "\<And>m m'. m' \<in> set (f m) \<Longrightarrow> \<exists>k. mt_rest m' = drop k (mt_rest m)"
  shows "m' \<in> set (repeat f g n m) \<Longrightarrow> \<exists>k. mt_rest m' = drop k (mt_rest m)"
proof (induction n arbitrary: m)
  case 0
  then show ?case by (auto intro: exI [of _ 0])
next
  case (Suc n)
  then have "m' = m \<or> (\<exists>m1 \<in> set (f m). m' \<in> set (repeat f g n m1))"
    by (auto simp: Let_def split: if_splits)
  then show ?case
  proof
    assume "m' = m" then show ?thesis by (auto intro: exI [of _ 0])
  next
    assume "\<exists>m1 \<in> set (f m). m' \<in> set (repeat f g n m1)"
    then obtain m1 where m1: "m1 \<in> set (f m)" "m' \<in> set (repeat f g n m1)" by blast
    from assms [OF m1(1)] Suc.IH [OF m1(2)] show ?thesis by (metis drop_drop)
  qed
qed

lemma matches_suffix: "m' \<in> set (matches p m) \<Longrightarrow> \<exists>k. mt_rest m' = drop k (mt_rest m)"
proof (induction p arbitrary: m m')
  case PEmpty
  then show ?case by (auto intro: exI [of _ 0])
next
  case (PSet P)
  then show ?case by (cases "mt_rest m") (auto simp: step_over_def split: if_splits intro: exI [of _ 1])
next
  case (PSeq a b)
  then obtain m1 where "m1 \<in> set (matches a m)" "m' \<in> set (matches b m1)" by auto
  then show ?case using PSeq.IH by (metis drop_drop)
next
  case (PAlt a b)
  then show ?case by auto
next
  case (PStar p)
  then show ?case using repeat_suffix [of "matches p"] by simp
next
  case (PLazy p)
  then show ?case using repeat_suffix [of "matches p"] by simp
next
  case PBoundary
  then show ?case by (auto split: if_splits intro: exI [of _ 0])
next
  case (PCap i p)
  then show ?case by auto
qed

text \<open>A string in which nothing matches is left as it is.\<close>

lemma replace_from_none:
  assumes "\<And>prev k. k < length segs \<Longrightarrow> matches p \<lparr>mt_prev = prev, mt_rest = drop k segs, mt_caps = []\<rparr> = []"
  shows "replace_from p repl prev segs = concat segs"
  using assms
proof (induction segs arbitrary: prev)
  case (Cons seg segs)
  have "matches p \<lparr>mt_prev = prev, mt_rest = seg # segs, mt_caps = []\<rparr> = []" using Cons.prems [of 0] by simp
  moreover have "replace_from p repl (Some seg) segs = concat segs"
    using Cons.prems by (intro Cons.IH) (metis Suc_less_eq drop_Suc_Cons length_Cons)
  ultimately show ?case by (simp add: Let_def)
qed simp

end
