(* ===== verification/AgentService.thy ===== *)
theory AgentService
  imports AgentExamples AgentFencing McpGuarantees Replace
begin

text \<open>
  The state, errors and small helpers of the Agent service (\<open>src/service/agent\<close>): the
  service beside its store, the MCP gateway and model runtime it calls, the texts it redacts
  and truncates, and the plan document it accepts from the planning model.
\<close>

section \<open>Errors\<close>

datatype svc_kind =
    KindInvalidInput | KindNotFound | KindConflict | KindInvalidPlan | KindApprovalPending
  | KindTaskStopped | KindNeedsReview | KindCanceled | KindOther

text \<open>What an API may show of a step that waits for approval.\<close>

record approval_interrupt =
  ai_task :: string
  ai_step :: string
  ai_tool :: string
  ai_risk :: string
  ai_digest :: string
  ai_preview :: string

text \<open>
  An error of the service: the sentinel \<open>errors.Is\<close> finds in its chain, and its text; or the
  interrupt of the approval node, which the graph engine turns into a checkpoint.
\<close>

datatype svc_error = SvcError svc_kind string | ApprovalWait approval_interrupt

fun svc_text :: "svc_error \<Rightarrow> string" where
  "svc_text (SvcError k m) = m"
| "svc_text (ApprovalWait i) = ''interrupt and rerun''"

fun svc_kind_of :: "svc_error \<Rightarrow> svc_kind" where
  "svc_kind_of (SvcError k m) = k"
| "svc_kind_of (ApprovalWait i) = KindOther"

definition sentinel_text :: "svc_kind \<Rightarrow> string" where
  "sentinel_text k = (case k of
     KindInvalidInput \<Rightarrow> ''invalid agent input'' | KindNotFound \<Rightarrow> ''agent task not found''
   | KindConflict \<Rightarrow> ''agent task conflict'' | KindInvalidPlan \<Rightarrow> ''invalid agent plan''
   | KindApprovalPending \<Rightarrow> ''agent approval is pending'' | KindTaskStopped \<Rightarrow> ''agent task has stopped''
   | KindNeedsReview \<Rightarrow> ''agent tool execution requires review'' | KindCanceled \<Rightarrow> ''context canceled''
   | KindOther \<Rightarrow> [])"

text \<open>The sentinel itself, \<open>fmt.Errorf("%w: ...", ErrX)\<close>, \<open>fmt.Errorf("...: %w", err)\<close> and \<open>errors.New\<close>.\<close>

definition sentinel :: "svc_kind \<Rightarrow> svc_error" where
  "sentinel k = SvcError k (sentinel_text k)"

definition because :: "svc_kind \<Rightarrow> string \<Rightarrow> svc_error" where
  "because k m = SvcError k (sentinel_text k @ '': '' @ m)"

definition wrapped :: "string \<Rightarrow> svc_error \<Rightarrow> svc_error" where
  "wrapped m e = SvcError (svc_kind_of e) (m @ '': '' @ svc_text e)"

definition plain_error :: "string \<Rightarrow> svc_error" where
  "plain_error m = SvcError KindOther m"

text \<open>
  The service's own library: the texts of errors it does not make itself, beside what the MCP hub
  is given.
\<close>

record agent_library = mcp_library +
  al_store_text :: "dao_error \<Rightarrow> string"
  al_json_text :: "string \<Rightarrow> string"
  al_argument_text :: "argument_error \<Rightarrow> string"

definition normalize_store_error :: "'l agent_library_scheme \<Rightarrow> dao_error \<Rightarrow> svc_error" where
  "normalize_store_error lib e = (case e of
     RecordNotFound \<Rightarrow> because KindNotFound (al_store_text lib e)
   | InvalidInput \<Rightarrow> because KindInvalidInput (al_store_text lib e)
   | Conflict \<Rightarrow> because KindConflict (al_store_text lib e)
   | Driver ContextCanceled \<Rightarrow> SvcError KindCanceled (al_store_text lib e)
   | _ \<Rightarrow> SvcError KindOther (al_store_text lib e))"

fun hub_error_text :: "hub_error \<Rightarrow> string" where
  "hub_error_text (HubError c m) = m"
| "hub_error_text (OtherError m) = m"

text \<open>A canceled hub error keeps \<open>context.Canceled\<close> as its cause.\<close>

definition hub_failure :: "hub_error \<Rightarrow> svc_error" where
  "hub_failure e = SvcError (if error_code e = CallCanceled then KindCanceled else KindOther) (hub_error_text e)"

section \<open>The world of the service\<close>

text \<open>What \<open>MCPGateway.Call\<close> returns: nil, or an invocation whose result may be nil.\<close>

record gateway_reply =
  gr_request_id :: string
  gr_result :: "call_result option"

text \<open>The interface \<open>MCPGateway\<close>: its four methods on the gateway's own state.\<close>

record 'g mcp_gateway =
  gw_tools :: "'g \<Rightarrow> (hub_error + tool_definition list) \<times> 'g"
  gw_call :: "invoke_request \<Rightarrow> 'g \<Rightarrow> (hub_error + gateway_reply option) \<times> 'g"
  gw_create_approval :: "string \<Rightarrow> string \<Rightarrow> fields \<Rightarrow> 'g \<Rightarrow> (hub_error + approval_challenge) \<times> 'g"
  gw_approve :: "string \<Rightarrow> string \<Rightarrow> 'g \<Rightarrow> (hub_error + issued_approval) \<times> 'g"

text \<open>
  The service's surroundings: the database, the operations other actors (users, other workers,
  recovery) perform on it before each store call of this one, the MCP gateway, the replies of the
  model runtime to come (none left is a failing runtime), the task of the graph's local state,
  and a trace of the requests handed to \<open>MCPGateway.Call\<close>.
\<close>

record 'g agent_state =
  ag_db :: world
  ag_others :: "store_op list list"
  ag_gateway :: 'g
  ag_models :: "(svc_error + string option) list"
  ag_graph :: string
  ag_log :: "invoke_request list"

type_synonym ('g, 'a) svc_call = "('g agent_state, svc_error, 'a) call"

definition interfered :: "'g agent_state \<Rightarrow> 'g agent_state" where
  "interfered s = (case ag_others s of [] \<Rightarrow> s
     | ops # rest \<Rightarrow> s\<lparr>ag_db := run_ops ops (ag_db s), ag_others := rest\<rparr>)"

text \<open>A call of the store, its errors as the store returns them.\<close>

definition on_store :: "(unit, 'a) db_call \<Rightarrow> ('g agent_state, dao_error, 'a) call" where
  "on_store m = (\<lambda>s. let s1 = interfered s; (r, db) = m (ag_db s1) in (r, s1\<lparr>ag_db := db\<rparr>))"

text \<open>A call of the store with \<open>service.normalizeStoreError\<close> around its error.\<close>

definition store_call :: "'l agent_library_scheme \<Rightarrow> (unit, 'a) db_call \<Rightarrow> ('g, 'a) svc_call" where
  "store_call lib m = map_err (normalize_store_error lib) (on_store m)"

text \<open>A call whose error the code drops.\<close>

definition ignoring :: "('s, 'e, 'a) call \<Rightarrow> ('s, 'd, unit) call" where
  "ignoring m = (\<lambda>s. case m s of (_, s') \<Rightarrow> (Inr (), s'))"

definition clock_now :: "('g, time) svc_call" where
  "clock_now = gets (\<lambda>s. d_clock (ag_db s))"

definition new_uuid :: "('g, string) svc_call" where
  "new_uuid = (\<lambda>s. (Inr (d_uuid (ag_db s) (d_uuid_next (ag_db s))),
     s\<lparr>ag_db := (ag_db s)\<lparr>d_uuid_next := Suc (d_uuid_next (ag_db s))\<rparr>\<rparr>))"

definition gateway_call :: "('g \<Rightarrow> (hub_error + 'a) \<times> 'g) \<Rightarrow> ('g, 'a) svc_call" where
  "gateway_call f = (\<lambda>s. case f (ag_gateway s) of
     (Inl e, g) \<Rightarrow> (Inl (hub_failure e), s\<lparr>ag_gateway := g\<rparr>)
   | (Inr x, g) \<Rightarrow> (Inr x, s\<lparr>ag_gateway := g\<rparr>))"

definition invoke_gateway :: "'g mcp_gateway \<Rightarrow> invoke_request \<Rightarrow> ('g, gateway_reply option) svc_call" where
  "invoke_gateway gw q = bindE (modifies (\<lambda>s. s\<lparr>ag_log := ag_log s @ [q]\<rparr>)) (\<lambda>_. gateway_call (gw_call gw q))"

definition generate :: "('g, string option) svc_call" where
  "generate = (\<lambda>s. case ag_models s of
     [] \<Rightarrow> (Inl (plain_error ''model is unavailable''), s)
   | r # rs \<Rightarrow> (r, s\<lparr>ag_models := rs\<rparr>))"

text \<open>The context of a run: the store's fencing token and \<open>runVersionContextKey\<close> (0 when unset).\<close>

record run_ctx = ctx +
  cx_version :: nat

definition with_run_version :: "run_ctx \<Rightarrow> nat \<Rightarrow> run_ctx" where
  "with_run_version c v = c\<lparr>cx_version := v\<rparr>"

definition run_version_from_context :: "run_ctx \<Rightarrow> ('g, nat) svc_call" where
  "run_version_from_context c = bindE (guardE (cx_version c \<noteq> 0)
     (because KindConflict ''missing task fencing token'')) (\<lambda>_. ret (cx_version c))"

section \<open>Texts\<close>

definition ellipsis :: string where
  "ellipsis = string_of_runes [8230]"

text \<open>\<open>truncateRunes\<close> of \<open>service/agent/plan.go\<close>: unlike the store's, it appends an ellipsis.\<close>

definition shorten :: "string \<Rightarrow> nat \<Rightarrow> string" where
  "shorten value maximum =
     (if maximum = 0 \<or> value = [] then []
      else if rune_count value \<le> maximum then value
      else string_of_runes (take maximum (runes value)) @ ellipsis)"

definition max_plan_tool_steps :: nat where "max_plan_tool_steps = 8"
definition max_goal_runes :: nat where "max_goal_runes = 12000"
definition max_title_runes :: nat where "max_title_runes = 200"
definition max_instruction_runes :: nat where "max_instruction_runes = 4000"
definition max_plan_summary_runes :: nat where "max_plan_summary_runes = 4000"
definition max_tool_output_runes :: nat where "max_tool_output_runes = 16000"
definition max_final_answer_runes :: nat where "max_final_answer_runes = 24000"
definition max_arguments_preview_runes :: nat where "max_arguments_preview_runes = 4000"
definition max_mcp_request_id_runes :: nat where "max_mcp_request_id_runes = 36"

text \<open>The words of the three patterns that name credentials, with their optional separators.\<close>

definition credential_words :: "string list list" where
  "credential_words = [[''api'', ''key''], [''authorization''], [''access'', ''token''], [''access'', ''key''],
     [''refresh'', ''token''], [''id'', ''token''], [''private'', ''key''], [''client'', ''secret''], [''secret''],
     [''token''], [''password''], [''passwd''], [''passphrase''], [''credential''], [''cookie''],
     [''session'', ''id''], [''session'', ''token''], [''signature'']]"

definition separator_rune :: "nat \<Rightarrow> bool" where
  "separator_rune r \<longleftrightarrow> r = 45 \<or> r = 95 \<or> r = 32"

fun rx_words :: "string list \<Rightarrow> rx" where
  "rx_words [] = RxEmpty"
| "rx_words [w] = rx_word w"
| "rx_words (w # ws) = RxSeq (rx_word w) (RxSeq (rx_opt (RxSet separator_rune)) (rx_words ws))"

fun p_words :: "string list \<Rightarrow> pattern" where
  "p_words [] = PEmpty"
| "p_words [w] = p_word w"
| "p_words (w # ws) = PSeq (p_word w) (PSeq (p_opt (PSet separator_rune)) (p_words ws))"

definition sensitive_key_pattern :: rx where
  "sensitive_key_pattern = rx_alts (map rx_words credential_words)"

definition sensitive_text_pattern :: pattern where
  "sensitive_text_pattern = p_seqs [PBoundary,
     PCap 1 (p_alts (map p_words credential_words)),
     PCap 2 (p_seqs [PStar (PSet perl_space), PSet (\<lambda>r. r = 58 \<or> r = 61), PStar (PSet perl_space)]),
     p_alts [
       p_seqs [PSet (\<lambda>r. r = 34), PStar (PSet (\<lambda>r. r \<notin> {34, 13, 10})), PSet (\<lambda>r. r = 34)],
       p_seqs [PSet (\<lambda>r. r = 39), PStar (PSet (\<lambda>r. r \<notin> {39, 13, 10})), PSet (\<lambda>r. r = 39)],
       p_seqs [p_word ''bearer'', p_plus (PSet perl_space), p_plus (PSet (\<lambda>r. \<not> perl_space r \<and> r \<noteq> 44 \<and> r \<noteq> 59))],
       p_plus (PSet (\<lambda>r. \<not> perl_space r \<and> r \<noteq> 44 \<and> r \<noteq> 59))]]"

definition bearer_text_pattern :: pattern where
  "bearer_text_pattern = p_seqs [PBoundary, p_word ''bearer'', p_plus (PSet perl_space),
     p_plus (PSet (\<lambda>r. ascii_alnum r \<or> r \<in> {46, 95, 126, 43, 47, 61, 45}))]"

text \<open>\<open>(?is)\<close>: case is ignored and the dot matches a line feed.\<close>

definition key_header :: pattern where
  "key_header = p_seqs [
     PStar (p_seqs [PSet (\<lambda>r. r = 32), p_plus (PSet (\<lambda>r. ascii_alnum r \<or> r = 8490 \<or> r = 383))]),
     p_word '' private key-----'']"

definition private_key_pattern :: pattern where
  "private_key_pattern = p_seqs [p_word ''-----begin'', key_header, PLazy (PSet (\<lambda>_. True)), p_word ''-----end'', key_header]"

definition group :: "nat \<Rightarrow> (nat \<times> string) list \<Rightarrow> string" where
  "group i caps = (case map_of caps i of None \<Rightarrow> [] | Some s \<Rightarrow> s)"

definition redact_text :: "string \<Rightarrow> string" where
  "redact_text value =
     replace_all sensitive_text_pattern (\<lambda>_ caps. group 1 caps @ group 2 caps @ ''[REDACTED]'')
       (replace_all bearer_text_pattern (\<lambda>_ _. ''Bearer [REDACTED]'')
         (replace_all private_key_pattern (\<lambda>_ _. ''[REDACTED PRIVATE KEY]'') value))"

definition credential_key :: "string \<Rightarrow> bool" where
  "credential_key key = rx_search sensitive_key_pattern key"

fun redacted :: "string \<Rightarrow> json \<Rightarrow> json" where
  "redacted key (JObj fs) = (if credential_key key then JStr ''[REDACTED]''
     else JObj (map (\<lambda>(k, v). (k, redacted k v)) fs))"
| "redacted key (JArr xs) = (if credential_key key then JStr ''[REDACTED]'' else JArr (map (redacted key) xs))"
| "redacted key (JStr s) = (if credential_key key then JStr ''[REDACTED]'' else JStr (redact_text s))"
| "redacted key v = (if credential_key key then JStr ''[REDACTED]'' else v)"

definition redact_and_limit_json :: "json \<Rightarrow> nat \<Rightarrow> string" where
  "redact_and_limit_json value maxRunes = (case marshal (redacted [] value) of
     None \<Rightarrow> ''[unavailable]''
   | Some encoded \<Rightarrow>
       if rune_count encoded \<le> maxRunes then encoded
       else if maxRunes div 3 < 1 then ''{\"truncated\":true}''
       else (case marshal (JObj [(''truncated'', JBool True),
              (''preview'', JStr (shorten encoded (maxRunes div 3)))]) of
           None \<Rightarrow> ''{\"truncated\":true}'' | Some w \<Rightarrow> w))"

definition redact_json_bytes :: "string \<Rightarrow> nat \<Rightarrow> string" where
  "redact_json_bytes raw maxRunes = (if trim_space raw = [] then []
     else case decode raw of
       None \<Rightarrow> redact_text (shorten raw maxRunes)
     | Some (value, _) \<Rightarrow> redact_and_limit_json value maxRunes)"

end
