(* ===== verification/AgentPlan.thy ===== *)
theory AgentPlan
  imports AgentService
begin

text \<open>
  \<open>src/service/agent/plan.go\<close>: the plan document the planning model returns, parsed
  strictly, and the steps it becomes. Fields of the document are matched as \<open>encoding/json\<close>
  matches them, without case; a field that occurs twice takes its last value.
\<close>

section \<open>The plan document\<close>

record planned_step =
  ps_title :: string
  ps_instruction :: string
  ps_tool :: string
  ps_arguments :: "fields option"

record plan_document =
  pd_summary :: string
  pd_steps :: "planned_step list"

definition zero_planned_step :: planned_step where
  "zero_planned_step = \<lparr>ps_title = [], ps_instruction = [], ps_tool = [], ps_arguments = None\<rparr>"

definition index_of_char :: "char \<Rightarrow> string \<Rightarrow> nat option" where
  "index_of_char c s = (if c \<in> set s then Some (length (takeWhile (\<lambda>d. d \<noteq> c) s)) else None)"

definition last_index :: "string \<Rightarrow> string \<Rightarrow> nat option" where
  "last_index sub s = (case rev (filter (\<lambda>i. has_prefix sub (drop i s)) [0..<length s]) of
     [] \<Rightarrow> None | i # _ \<Rightarrow> Some i)"

definition fence_mark :: string where "fence_mark = ''```''"

text \<open>The content of a Markdown code fence, or the content itself.\<close>

definition strip_fence :: "string \<Rightarrow> svc_error + string" where
  "strip_fence content = (if \<not> has_prefix fence_mark content then Inr content
     else case (index_of_char (CHR 0x0A) content, last_index fence_mark content) of
       (Some firstNewline, Some lastFence) \<Rightarrow>
         if lastFence \<le> firstNewline then Inl (because KindInvalidPlan ''malformed JSON code fence'')
         else let language = trim_space (drop 3 (take firstNewline content)) in
           if language \<noteq> [] \<and> \<not> equal_fold language ''json''
           then Inl (because KindInvalidPlan ''planner code fence must contain JSON'')
           else if trim_space (drop (lastFence + 3) content) \<noteq> []
           then Inl (because KindInvalidPlan ''planner returned content after JSON fence'')
           else Inr (trim_space (drop (Suc firstNewline) (take lastFence content)))
     | _ \<Rightarrow> Inl (because KindInvalidPlan ''malformed JSON code fence''))"

text \<open>
  Decoding into a struct: \<open>None\<close> is a field of another type or an unknown field; JSON null leaves
  a field as it is.
\<close>

definition into_string :: "string \<Rightarrow> json \<Rightarrow> string option" where
  "into_string old v = (case v of JStr s \<Rightarrow> Some s | JNull \<Rightarrow> Some old | _ \<Rightarrow> None)"

definition into_arguments :: "fields option \<Rightarrow> json \<Rightarrow> fields option option" where
  "into_arguments old v = (case v of JObj fs \<Rightarrow> Some (Some fs) | JNull \<Rightarrow> Some None | _ \<Rightarrow> None)"

definition step_field :: "string \<times> json \<Rightarrow> planned_step \<Rightarrow> planned_step option" where
  "step_field kv p = (let (key, v) = kv in
     if equal_fold key ''title'' then map_option (\<lambda>x. p\<lparr>ps_title := x\<rparr>) (into_string (ps_title p) v)
     else if equal_fold key ''instruction'' then map_option (\<lambda>x. p\<lparr>ps_instruction := x\<rparr>) (into_string (ps_instruction p) v)
     else if equal_fold key ''tool_name'' then map_option (\<lambda>x. p\<lparr>ps_tool := x\<rparr>) (into_string (ps_tool p) v)
     else if equal_fold key ''arguments'' then map_option (\<lambda>x. p\<lparr>ps_arguments := x\<rparr>) (into_arguments (ps_arguments p) v)
     else None)"

fun all_fields_into :: "(string \<times> json \<Rightarrow> 'r \<Rightarrow> 'r option) \<Rightarrow> fields \<Rightarrow> 'r \<Rightarrow> 'r option" where
  "all_fields_into f [] r = Some r"
| "all_fields_into f (kv # kvs) r = (case f kv r of None \<Rightarrow> None | Some r' \<Rightarrow> all_fields_into f kvs r')"

definition into_step :: "json \<Rightarrow> planned_step option" where
  "into_step v = (case v of JObj fs \<Rightarrow> all_fields_into step_field fs zero_planned_step
     | JNull \<Rightarrow> Some zero_planned_step | _ \<Rightarrow> None)"

fun into_steps :: "json list \<Rightarrow> planned_step list option" where
  "into_steps [] = Some []"
| "into_steps (v # vs) = (case (into_step v, into_steps vs) of (Some p, Some ps) \<Rightarrow> Some (p # ps) | _ \<Rightarrow> None)"

definition plan_field :: "string \<times> json \<Rightarrow> plan_document \<Rightarrow> plan_document option" where
  "plan_field kv p = (let (key, v) = kv in
     if equal_fold key ''summary'' then map_option (\<lambda>x. p\<lparr>pd_summary := x\<rparr>) (into_string (pd_summary p) v)
     else if equal_fold key ''steps'' then
       (case v of JArr vs \<Rightarrow> map_option (\<lambda>x. p\<lparr>pd_steps := x\<rparr>) (into_steps vs)
        | JNull \<Rightarrow> Some (p\<lparr>pd_steps := []\<rparr>) | _ \<Rightarrow> None)
     else None)"

definition into_plan :: "json \<Rightarrow> plan_document option" where
  "into_plan v = (case v of JObj fs \<Rightarrow> all_fields_into plan_field fs \<lparr>pd_summary = [], pd_steps = []\<rparr> | _ \<Rightarrow> None)"

definition parse_plan_json :: "'l agent_library_scheme \<Rightarrow> string \<Rightarrow> svc_error + plan_document" where
  "parse_plan_json lib content0 =
     (case strip_fence (trim_space content0) of
        Inl e \<Rightarrow> Inl e
      | Inr content \<Rightarrow>
          if content = [] \<or> \<not> has_prefix ''{'' content
          then Inl (because KindInvalidPlan ''planner must return one JSON object'')
          else (case decode content of
              None \<Rightarrow> Inl (because KindInvalidPlan (''decode planner JSON: '' @ al_json_text lib content))
            | Some (v, rest) \<Rightarrow>
                (case into_plan v of
                   None \<Rightarrow> Inl (because KindInvalidPlan (''decode planner JSON: '' @ al_json_text lib content))
                 | Some plan \<Rightarrow>
                     if skip_space rest \<noteq> [] then Inl (because KindInvalidPlan
                       (if decode rest = None then ''planner returned trailing content'' else ''planner returned trailing JSON''))
                     else if max_plan_tool_steps < length (pd_steps plan)
                     then Inl (because KindInvalidPlan ''at most 8 tool steps are allowed'')
                     else Inr (plan\<lparr>pd_summary := shorten (trim_space (pd_summary plan)) max_plan_summary_runes\<rparr>))))"

section \<open>The steps of a plan\<close>

definition call_title :: string where "call_title = string_of_runes [35843, 29992, 32]"
definition final_title :: string where "final_title = string_of_runes [29983, 25104, 26368, 32456, 32467, 26524]"
definition plan_title :: string where "plan_title = string_of_runes [21046, 23450, 20219, 21153, 35745, 21010]"

definition node_plan :: string where "node_plan = ''plan''"
definition node_dispatch :: string where "node_dispatch = ''dispatch''"
definition node_approval_gate :: string where "node_approval_gate = ''approval_gate''"
definition node_tool :: string where "node_tool = ''tool''"
definition node_finalize :: string where "node_finalize = ''finalize''"

text \<open>\<open>definitions[definition.Name] = definition\<close>: of two tools with one name the last counts.\<close>

definition definition_map :: "tool_definition list \<Rightarrow> string \<Rightarrow> tool_definition option" where
  "definition_map tools name = map_of (rev (map (\<lambda>d. (td_name d, d)) tools)) name"

definition plan_error :: "nat \<Rightarrow> string \<Rightarrow> svc_error" where
  "plan_error index m = because KindInvalidPlan (''step '' @ show_nat (Suc index) @ m)"

definition tool_step :: "'l agent_library_scheme \<Rightarrow> agent_task \<Rightarrow> nat \<Rightarrow> string \<Rightarrow> planned_step \<Rightarrow> tool_definition \<Rightarrow> fields \<Rightarrow>
    string \<Rightarrow> agent_step" where
  "tool_step lib task index i planned d args argumentsJSON = zero_step\<lparr>s_id := i, s_task := t_id task, s_user := t_user task,
     s_seq := Suc index, s_kind := KindTool, s_node := node_tool,
     s_title := (let title = shorten (trim_space (ps_title planned)) max_title_runes
                 in if title = [] then call_title @ td_name d else title),
     s_instruction := shorten (trim_space (ps_instruction planned)) max_instruction_runes,
     s_status := StepPending, s_tool := td_name d, s_args_json := argumentsJSON,
     s_args_digest := sha256_hex lib argumentsJSON,
     s_args_preview := redact_and_limit_json (JObj args) max_arguments_preview_runes,
     s_risk := risk_text (td_risk d), s_requires_approval := td_requires_approval d, s_read_only := td_read_only d,
     s_idempotent := td_idempotent d, s_destructive := td_destructive d, s_decision := DecisionPending\<rparr>"

definition final_step :: "agent_task \<Rightarrow> nat \<Rightarrow> string \<Rightarrow> agent_step" where
  "final_step task n i = zero_step\<lparr>s_id := i, s_task := t_id task, s_user := t_user task, s_seq := Suc n,
     s_kind := KindFinal, s_node := node_finalize, s_title := final_title, s_status := StepPending\<rparr>"

definition planned_arguments :: "planned_step \<Rightarrow> fields" where
  "planned_arguments p = (case ps_arguments p of None \<Rightarrow> [] | Some fs \<Rightarrow> fs)"

definition materialize_step :: "'l agent_library_scheme \<Rightarrow> agent_task \<Rightarrow> tool_definition list \<Rightarrow> nat \<Rightarrow> planned_step \<Rightarrow>
    ('g, agent_step) svc_call" where
  "materialize_step lib task tools index planned =
     (case definition_map tools (trim_space (ps_tool planned)) of
        None \<Rightarrow> fail (plan_error index '' references an unavailable MCP tool'')
      | Some d \<Rightarrow>
          (case validate_arguments (rx_compile lib) (td_input_schema d) (planned_arguments planned) of
             Some e \<Rightarrow> fail (plan_error index ('' arguments failed MCP validation: '' @ al_argument_text lib e))
           | None \<Rightarrow>
               (case marshal (JObj (planned_arguments planned)) of
                  None \<Rightarrow> fail (plan_error index '' arguments cannot be encoded'')
                | Some argumentsJSON \<Rightarrow>
                    bindE new_uuid (\<lambda>i. ret (tool_step lib task index i planned d (planned_arguments planned) argumentsJSON)))))"

fun materialize_steps :: "'l agent_library_scheme \<Rightarrow> agent_task \<Rightarrow> tool_definition list \<Rightarrow> nat \<Rightarrow> planned_step list \<Rightarrow>
    ('g, agent_step list) svc_call" where
  "materialize_steps lib task tools index [] = ret []"
| "materialize_steps lib task tools index (p # ps) =
     bindE (materialize_step lib task tools index p) (\<lambda>s.
     bindE (materialize_steps lib task tools (Suc index) ps) (\<lambda>rest. ret (s # rest)))"

definition materialize_plan :: "'l agent_library_scheme \<Rightarrow> agent_task \<Rightarrow> plan_document \<Rightarrow> tool_definition list \<Rightarrow>
    ('g, agent_step list) svc_call" where
  "materialize_plan lib task plan tools =
     bindE (materialize_steps lib task tools 0 (pd_steps plan)) (\<lambda>steps.
     bindE new_uuid (\<lambda>i. ret (steps @ [final_step task (length (pd_steps plan)) i])))"

end
