(* ===== verification/AgentGraph.thy ===== *)
theory AgentGraph
  imports AgentPlan
begin

text \<open>
  \<open>src/service/agent/graph.go\<close>: the five nodes of the task graph, the routing between them
  and the ways a node ends. Every store call of a node is a step of its own: other actors may
  change the rows between two of them. The graph engine that runs the nodes is third-party code.
\<close>

section \<open>Helpers\<close>

definition graph_task_id :: "string \<Rightarrow> ('g, string) svc_call" where
  "graph_task_id input0 = (let input = trim_space input0 in
     bindE (gets ag_graph) (\<lambda>current.
       if current = [] then
         bindE (guardE (input \<noteq> []) (because KindConflict ''checkpoint has no task ID'')) (\<lambda>_.
         bindE (modifies (\<lambda>s. s\<lparr>ag_graph := input\<rparr>)) (\<lambda>_. ret input))
       else
         bindE (guardE (input = [] \<or> current = input) (because KindConflict ''checkpoint task mismatch'')) (\<lambda>_.
         ret current)))"

definition plan_already_saved :: "agent_step list \<Rightarrow> bool" where
  "plan_already_saved steps \<longleftrightarrow> list_ex (\<lambda>s. 0 < s_seq s) steps"

definition find_step_by_kind :: "agent_step list \<Rightarrow> step_kind \<Rightarrow> agent_step option" where
  "find_step_by_kind steps kind = find (\<lambda>s. s_kind s = kind) steps"

definition definition_by_name :: "tool_definition list \<Rightarrow> string \<Rightarrow> tool_definition option" where
  "definition_by_name ds name = find (\<lambda>d. td_name d = name) ds"

definition task_terminal :: "task_status \<Rightarrow> bool" where
  "task_terminal st \<longleftrightarrow> st \<in> {TaskSucceeded, TaskFailed, TaskRejected, TaskCancelled}"

definition tool_replay_safe :: "agent_step \<Rightarrow> bool" where
  "tool_replay_safe s \<longleftrightarrow> \<not> s_destructive s \<and> (s_read_only s \<or> s_idempotent s)"

definition tool_policy_changed :: "agent_step \<Rightarrow> tool_definition \<Rightarrow> bool" where
  "tool_policy_changed s d \<longleftrightarrow> s_risk s \<noteq> risk_text (td_risk d) \<or> s_requires_approval s \<noteq> td_requires_approval d \<or>
     s_read_only s \<noteq> td_read_only d \<or> s_idempotent s \<noteq> td_idempotent d \<or> s_destructive s \<noteq> td_destructive d"

definition step_error :: "svc_error \<Rightarrow> string" where
  "step_error cause = shorten (redact_text (svc_text cause)) 1000"

section \<open>How a tool step fails\<close>

definition fail_tool_step :: "run_ctx \<Rightarrow> agent_task \<Rightarrow> agent_step \<Rightarrow> nat \<Rightarrow> svc_error \<Rightarrow> ('g, 'a) svc_call" where
  "fail_tool_step c task step v cause =
     bindE clock_now (\<lambda>finished.
     bindE (ignoring (on_store (update_step_fenced c (t_id task) (s_id step) v
        [(''status'', VStepStatus StepFailed), (''finished_at'', VTime finished),
         (''error_message'', VStr (step_error cause))]))) (\<lambda>_.
     bindE (ignoring (on_store (update_task_fenced c (t_id task) v
        [(''status'', VTaskStatus TaskFailed), (''finished_at'', VTime finished),
         (''error_message'', VStr (step_error cause)), (''lease_owner'', VStr []), (''lease_until'', VNull)]))) (\<lambda>_.
     fail cause)))"

text \<open>A failure after the call: an outcome that is not known is never an ordinary failure.\<close>

definition fail_invoked_tool :: "'l agent_library_scheme \<Rightarrow> run_ctx \<Rightarrow> agent_task \<Rightarrow> agent_step \<Rightarrow> nat \<Rightarrow> svc_error \<Rightarrow>
    ('g, 'a) svc_call" where
  "fail_invoked_tool lib c task step v cause = (if tool_replay_safe step then fail_tool_step c task step v cause
     else bindE (map_err (wrapped ''persist uncertain MCP outcome'')
            (store_call lib (mark_execution_unknown_fenced c (t_id task) (s_id step) v (step_error cause)))) (\<lambda>_.
          fail (because KindNeedsReview (step_error cause))))"

definition policy_message :: string where
  "policy_message = ''MCP tool safety policy changed after planning; explicit review is required''"

definition require_policy_review :: "'l agent_library_scheme \<Rightarrow> run_ctx \<Rightarrow> agent_task \<Rightarrow> agent_step \<Rightarrow> nat \<Rightarrow> tool_definition \<Rightarrow>
    ('g, 'a) svc_call" where
  "require_policy_review lib c task step v d =
     bindE (map_err (wrapped ''persist MCP policy review'')
       (store_call lib (mark_policy_review_fenced c (t_id task) (s_id step) v policy_message
          \<lparr>p_risk = risk_text (td_risk d), p_requires_approval = td_requires_approval d, p_read_only = td_read_only d,
           p_idempotent = td_idempotent d, p_destructive = td_destructive d\<rparr>))) (\<lambda>_.
     fail (because KindNeedsReview policy_message))"

section \<open>The planning node\<close>

definition begin_planning :: "'l agent_library_scheme \<Rightarrow> run_ctx \<Rightarrow> agent_task \<Rightarrow> agent_step \<Rightarrow> nat \<Rightarrow> time \<Rightarrow> ('g, unit) svc_call" where
  "begin_planning lib c task planStep v now =
     bindE (store_call lib (update_task_fenced c (t_id task) v
        [(''status'', VTaskStatus TaskPlanning), (''current_step_id'', VStr (s_id planStep))])) (\<lambda>_.
     store_call lib (update_step_fenced c (t_id task) (s_id planStep) v
        [(''status'', VStepStatus StepRunning), (''attempts'', VNat (s_attempts planStep + 1)), (''started_at'', VTime now)]))"

definition from_sum :: "'e + 'a \<Rightarrow> ('s, 'e, 'a) call" where
  "from_sum x = (case x of Inl e \<Rightarrow> fail e | Inr v \<Rightarrow> ret v)"

definition make_plan :: "'l agent_library_scheme \<Rightarrow> 'g mcp_gateway \<Rightarrow> run_ctx \<Rightarrow> agent_task \<Rightarrow> nat \<Rightarrow> ('g, unit) svc_call" where
  "make_plan lib gw c task v =
     bindE (map_err (wrapped ''discover MCP tools'') (gateway_call (gw_tools gw))) (\<lambda>tools.
     bindE (map_err (wrapped ''generate task plan'') generate) (\<lambda>response. case response of
       None \<Rightarrow> fail (because KindInvalidPlan ''planner returned no response'')
     | Some content \<Rightarrow>
         bindE (from_sum (parse_plan_json lib content)) (\<lambda>plan.
         bindE (materialize_plan lib task plan tools) (\<lambda>steps.
         store_call lib (save_plan_with_summary c (t_id task) v (pd_summary plan) steps)))))"

definition plan_node :: "'l agent_library_scheme \<Rightarrow> 'g mcp_gateway \<Rightarrow> run_ctx \<Rightarrow> string \<Rightarrow> ('g, string) svc_call" where
  "plan_node lib gw c taskID0 =
     bindE (graph_task_id taskID0) (\<lambda>taskID.
     bindE (store_call lib (get_task_by_id taskID)) (\<lambda>(task, steps).
     bindE (guardE (\<not> task_terminal (t_status task)) (sentinel KindTaskStopped)) (\<lambda>_.
     if plan_already_saved steps then ret taskID
     else bindE (run_version_from_context c) (\<lambda>v.
       case find_step_by_kind steps KindPlan of
         None \<Rightarrow> fail (because KindConflict ''task has no planning step'')
       | Some planStep \<Rightarrow>
           bindE clock_now (\<lambda>now.
           bindE (begin_planning lib c task planStep v now) (\<lambda>_.
           bindE (make_plan lib gw c task v) (\<lambda>_. ret taskID)))))))"

section \<open>Routing\<close>

datatype route = RouteApproval | RouteTool | RouteFinalize

definition route_node :: "route \<Rightarrow> string" where
  "route_node r = (case r of RouteApproval \<Rightarrow> node_approval_gate | RouteTool \<Rightarrow> node_tool | RouteFinalize \<Rightarrow> node_finalize)"

text \<open>
  The loop of \<open>nextRoute\<close> over the ordered steps: a step that failed or has an unknown outcome
  stops it with an error, the first unfinished tool step ends it, the first final step is kept
  in case there is none.
\<close>

fun select_step :: "agent_step option \<Rightarrow> agent_step list \<Rightarrow> svc_error + agent_step option" where
  "select_step selected [] = Inr selected"
| "select_step selected (s # ss) =
     (if s_kind s = KindPlan then select_step selected ss
      else if s_kind s = KindFinal then select_step (if selected = None then Some s else selected) ss
      else case s_status s of
          StepSucceeded \<Rightarrow> select_step selected ss
        | StepRejected \<Rightarrow> select_step selected ss
        | StepSkipped \<Rightarrow> select_step selected ss
        | StepFailed \<Rightarrow> Inl (plain_error (''tool step '' @ s_id s @ '' failed''))
        | StepExecutionUnknown \<Rightarrow> Inl (sentinel KindNeedsReview)
        | _ \<Rightarrow> Inr (Some s))"

definition route_of :: "agent_step \<Rightarrow> route" where
  "route_of s = (if s_kind s = KindTool then
       if s_requires_approval s \<and> s_decision s \<noteq> DecisionApproved then RouteApproval else RouteTool
     else RouteFinalize)"

definition stopped_status :: "task_status \<Rightarrow> svc_error option" where
  "stopped_status st = (case st of
     TaskCancelled \<Rightarrow> Some (sentinel KindTaskStopped) | TaskRejected \<Rightarrow> Some (sentinel KindTaskStopped)
   | TaskSucceeded \<Rightarrow> Some (sentinel KindTaskStopped) | TaskRequiresReview \<Rightarrow> Some (sentinel KindNeedsReview)
   | _ \<Rightarrow> None)"

definition next_route :: "'l agent_library_scheme \<Rightarrow> run_ctx \<Rightarrow> string \<Rightarrow> bool \<Rightarrow> ('g, route) svc_call" where
  "next_route lib c taskID persistCurrent =
     bindE (store_call lib (get_task_by_id taskID)) (\<lambda>(task, steps).
     case stopped_status (t_status task) of
       Some e \<Rightarrow> fail e
     | None \<Rightarrow>
        bindE (from_sum (select_step None steps)) (\<lambda>found. case found of
          None \<Rightarrow> fail (because KindConflict ''task has no final step'')
        | Some step \<Rightarrow>
            if persistCurrent \<and> t_current_step task \<noteq> s_id step then
              bindE (run_version_from_context c) (\<lambda>v.
              bindE (store_call lib (update_task_fenced c (t_id task) v [(''current_step_id'', VStr (s_id step))])) (\<lambda>_.
              ret (route_of step)))
            else ret (route_of step)))"

definition dispatch_node :: "'l agent_library_scheme \<Rightarrow> run_ctx \<Rightarrow> string \<Rightarrow> ('g, string) svc_call" where
  "dispatch_node lib c taskID0 =
     bindE (graph_task_id taskID0) (\<lambda>taskID. bindE (next_route lib c taskID False) (\<lambda>_. ret taskID))"

definition dispatch_route :: "'l agent_library_scheme \<Rightarrow> run_ctx \<Rightarrow> string \<Rightarrow> ('g, route) svc_call" where
  "dispatch_route lib c taskID0 = bindE (graph_task_id taskID0) (\<lambda>taskID. next_route lib c taskID True)"

section \<open>The approval gate\<close>

definition current_tool_step :: "'l agent_library_scheme \<Rightarrow> string \<Rightarrow> ('g, agent_task \<times> agent_step) svc_call" where
  "current_tool_step lib taskID =
     bindE (store_call lib (get_task_by_id taskID)) (\<lambda>(task, steps).
     case find (\<lambda>s. s_id s = t_current_step task \<and> s_kind s = KindTool) steps of
       None \<Rightarrow> fail (because KindConflict ''current tool step is unavailable'')
     | Some step \<Rightarrow> ret (task, step))"

definition approval_of :: "agent_task \<Rightarrow> agent_step \<Rightarrow> approval_interrupt" where
  "approval_of task step = \<lparr>ai_task = t_id task, ai_step = s_id step, ai_tool = s_tool step, ai_risk = s_risk step,
     ai_digest = s_args_digest step, ai_preview = shorten (s_args_preview step) max_arguments_preview_runes\<rparr>"

definition wait_for_approval :: "'l agent_library_scheme \<Rightarrow> run_ctx \<Rightarrow> agent_task \<Rightarrow> agent_step \<Rightarrow> nat \<Rightarrow> ('g, 'a) svc_call" where
  "wait_for_approval lib c task step v =
     bindE (if s_status step \<noteq> StepWaitingApproval
       then store_call lib (update_step_fenced c (t_id task) (s_id step) v [(''status'', VStepStatus StepWaitingApproval)])
       else ret ()) (\<lambda>_.
     bindE (store_call lib (update_task_fenced c (t_id task) v
        [(''status'', VTaskStatus TaskWaitingApproval), (''current_step_id'', VStr (s_id step)), (''lease_owner'', VStr []),
         (''lease_until'', VNull), (''heartbeat_at'', VNull)])) (\<lambda>_.
     fail (ApprovalWait (approval_of task step))))"

definition approval_node :: "'l agent_library_scheme \<Rightarrow> run_ctx \<Rightarrow> string \<Rightarrow> ('g, string) svc_call" where
  "approval_node lib c taskID0 =
     bindE (graph_task_id taskID0) (\<lambda>taskID.
     bindE (current_tool_step lib taskID) (\<lambda>(task, step).
     if \<not> s_requires_approval step then ret taskID
     else if s_decision step = DecisionApproved then ret taskID
     else if s_decision step = DecisionRejected then fail (sentinel KindTaskStopped)
     else bindE (run_version_from_context c) (\<lambda>v. wait_for_approval lib c task step v)))"

section \<open>The tool node\<close>

text \<open>The step is marked running, with the identifier of the operation, before anything is called.\<close>

definition begin_tool :: "'l agent_library_scheme \<Rightarrow> run_ctx \<Rightarrow> agent_task \<Rightarrow> agent_step \<Rightarrow> nat \<Rightarrow> ('g, string) svc_call" where
  "begin_tool lib c task step v =
     bindE clock_now (\<lambda>now.
     bindE (if s_operation_id step = [] then new_uuid else ret (s_operation_id step)) (\<lambda>operationID.
     bindE (store_call lib (update_step_fenced c (t_id task) (s_id step) v
        [(''status'', VStepStatus StepRunning), (''attempts'', VNat (s_attempts step + 1)),
         (''operation_id'', VStr operationID), (''started_at'', VTime now), (''finished_at'', VNull),
         (''error_message'', VStr [])])) (\<lambda>_. ret operationID)))"

text \<open>
  The persisted arguments, decoded and checked against the digest that was approved. JSON null
  leaves a nil map, which is encoded as null.
\<close>

definition persisted_arguments :: "'l agent_library_scheme \<Rightarrow> agent_step \<Rightarrow> svc_error + fields" where
  "persisted_arguments lib step = (case decode_object (s_args_json step) of
     None \<Rightarrow> Inl (plain_error (''decode persisted tool arguments: '' @ al_json_text lib (s_args_json step)))
   | Some (fs, _) \<Rightarrow>
       (case marshal (case fs of None \<Rightarrow> JNull | Some m \<Rightarrow> JObj m) of
          None \<Rightarrow> Inl (plain_error (''canonicalize persisted tool arguments: '' @ al_json_text lib (s_args_json step)))
        | Some canonical \<Rightarrow>
            if \<not> equal_fold (sha256_hex lib canonical) (trim_space (s_args_digest step))
            then Inl (plain_error ''persisted MCP arguments failed integrity verification'')
            else Inr (case fs of None \<Rightarrow> [] | Some m \<Rightarrow> m)))"

text \<open>Everything that must hold right before the call: the arguments and the tool's current definition.\<close>

definition check_tool :: "'l agent_library_scheme \<Rightarrow> 'g mcp_gateway \<Rightarrow> agent_step \<Rightarrow> ('g, fields \<times> tool_definition) svc_call" where
  "check_tool lib gw step =
     bindE (from_sum (persisted_arguments lib step)) (\<lambda>args.
     bindE (map_err (wrapped ''refresh MCP tools'') (gateway_call (gw_tools gw))) (\<lambda>ds.
     case definition_by_name ds (s_tool step) of
       None \<Rightarrow> fail (plain_error ''planned MCP tool is no longer available'')
     | Some d \<Rightarrow>
         (case validate_arguments (rx_compile lib) (td_input_schema d) args of
            Some e \<Rightarrow> fail (plain_error (''revalidate MCP arguments: '' @ al_argument_text lib e))
          | None \<Rightarrow> ret (args, d))))"

text \<open>The one-time MCP approval of a step a human has approved, as a token for the call.\<close>

definition approval_token :: "'g mcp_gateway \<Rightarrow> agent_task \<Rightarrow> agent_step \<Rightarrow> fields \<Rightarrow> ('g, string) svc_call" where
  "approval_token gw task step args = (if \<not> s_requires_approval step then ret []
     else bindE (map_err (wrapped ''create MCP approval'') (gateway_call (gw_create_approval gw (t_user task) (s_tool step) args)))
       (\<lambda>challenge.
       bindE (map_err (wrapped ''issue MCP approval'') (gateway_call (gw_approve gw (t_user task) (ac_id challenge))))
       (\<lambda>issued. ret (ia_token issued))))"

text \<open>The encoded result of an invocation, or why there is none.\<close>

definition invocation_output :: "gateway_reply option \<Rightarrow> svc_error + string \<times> string" where
  "invocation_output reply = (case reply of
     None \<Rightarrow> Inl (plain_error ''MCP tool returned no invocation result'')
   | Some r \<Rightarrow> (case gr_result r of
       None \<Rightarrow> Inl (plain_error ''MCP tool returned no result'')
     | Some res \<Rightarrow>
         if res_is_error res then Inl (plain_error ''MCP tool returned an error result'')
         else (case res_json res of
             None \<Rightarrow> Inl (plain_error ''encode MCP tool result'')
           | Some raw \<Rightarrow> Inr (gr_request_id r, redact_json_bytes raw max_tool_output_runes))))"

definition succeeded_updates :: "string \<Rightarrow> string \<Rightarrow> time \<Rightarrow> updates" where
  "succeeded_updates requestID safeResult finished =
     [(''status'', VStepStatus StepSucceeded), (''tool_output_json'', VStr safeResult),
      (''result_summary'', VStr (shorten safeResult max_plan_summary_runes)),
      (''mcp_request_id'', VStr (shorten requestID max_mcp_request_id_runes)),
      (''finished_at'', VTime finished), (''error_message'', VStr [])]"

text \<open>After the call: its result is persisted, or the step is left as failed or unknown.\<close>

definition record_result :: "'l agent_library_scheme \<Rightarrow> run_ctx \<Rightarrow> agent_task \<Rightarrow> agent_step \<Rightarrow> nat \<Rightarrow>
    svc_error + gateway_reply option \<Rightarrow> ('g, unit) svc_call" where
  "record_result lib c task step v reply = (case reply of
     Inl e \<Rightarrow> fail_invoked_tool lib c task step v (wrapped ''invoke MCP tool'' e)
   | Inr r \<Rightarrow> (case invocation_output r of
       Inl e \<Rightarrow> fail_invoked_tool lib c task step v e
     | Inr (requestID, safeResult) \<Rightarrow>
         bindE clock_now (\<lambda>finished.
         bindE (tryE (store_call lib (update_step_fenced c (t_id task) (s_id step) v
            (succeeded_updates requestID safeResult finished)))) (\<lambda>saved. case saved of
           Inl e \<Rightarrow> fail_invoked_tool lib c task step v (wrapped ''persist MCP tool result'' e)
         | Inr _ \<Rightarrow> store_call lib (update_task_fenced c (t_id task) v
             [(''status'', VTaskStatus TaskRunning), (''current_step_id'', VStr []), (''heartbeat_at'', VTime finished)])))))"

definition perform_call :: "'l agent_library_scheme \<Rightarrow> 'g mcp_gateway \<Rightarrow> run_ctx \<Rightarrow> agent_task \<Rightarrow> agent_step \<Rightarrow> nat \<Rightarrow> string \<Rightarrow>
    fields \<Rightarrow> ('g, unit) svc_call" where
  "perform_call lib gw c task step v operationID args =
     bindE (tryE (approval_token gw task step args)) (\<lambda>token. case token of
       Inl e \<Rightarrow> fail_tool_step c task step v e
     | Inr tok \<Rightarrow>
         bindE (tryE (invoke_gateway gw \<lparr>rq_user = t_user task, rq_tool = s_tool step, rq_arguments = args,
             rq_token = tok, rq_operation = operationID\<rparr>)) (\<lambda>reply.
         record_result lib c task step v reply))"

definition run_tool :: "'l agent_library_scheme \<Rightarrow> 'g mcp_gateway \<Rightarrow> run_ctx \<Rightarrow> agent_task \<Rightarrow> agent_step \<Rightarrow> nat \<Rightarrow> ('g, unit) svc_call" where
  "run_tool lib gw c task step v =
     bindE (begin_tool lib c task step v) (\<lambda>operationID.
     bindE (tryE (check_tool lib gw step)) (\<lambda>checked. case checked of
       Inl e \<Rightarrow> fail_tool_step c task step v e
     | Inr (args, d) \<Rightarrow>
         if tool_policy_changed step d then require_policy_review lib c task step v d
         else perform_call lib gw c task step v operationID args))"

definition tool_node :: "'l agent_library_scheme \<Rightarrow> 'g mcp_gateway \<Rightarrow> run_ctx \<Rightarrow> string \<Rightarrow> ('g, string) svc_call" where
  "tool_node lib gw c taskID0 =
     bindE (graph_task_id taskID0) (\<lambda>taskID.
     bindE (current_tool_step lib taskID) (\<lambda>(task, step).
     bindE (guardE (\<not> (s_requires_approval step \<and> s_decision step \<noteq> DecisionApproved))
        (because KindConflict ''tool step reached execution without durable approval'')) (\<lambda>_.
     bindE (run_version_from_context c) (\<lambda>v.
     bindE (run_tool lib gw c task step v) (\<lambda>_. ret taskID)))))"

section \<open>The final node\<close>

definition final_answer :: "string \<Rightarrow> string" where
  "final_answer content = shorten (redact_text (trim_space content)) max_final_answer_runes"

definition save_answer :: "'l agent_library_scheme \<Rightarrow> run_ctx \<Rightarrow> agent_task \<Rightarrow> agent_step \<Rightarrow> nat \<Rightarrow> string \<Rightarrow> ('g, unit) svc_call" where
  "save_answer lib c task finalStep v answer =
     bindE clock_now (\<lambda>finished.
     bindE (store_call lib (update_step_fenced c (t_id task) (s_id finalStep) v
        [(''status'', VStepStatus StepSucceeded), (''result_summary'', VStr answer), (''finished_at'', VTime finished),
         (''error_message'', VStr [])])) (\<lambda>_.
     store_call lib (update_task_fenced c (t_id task) v
        [(''status'', VTaskStatus TaskSucceeded), (''current_step_id'', VStr (s_id finalStep)), (''final_answer'', VStr answer),
         (''finished_at'', VTime finished), (''lease_owner'', VStr []), (''lease_until'', VNull), (''heartbeat_at'', VNull),
         (''error_message'', VStr [])])))"

definition finalize_node :: "'l agent_library_scheme \<Rightarrow> run_ctx \<Rightarrow> string \<Rightarrow> ('g, string) svc_call" where
  "finalize_node lib c taskID0 =
     bindE (graph_task_id taskID0) (\<lambda>taskID.
     bindE (store_call lib (get_task_by_id taskID)) (\<lambda>(task, steps).
     bindE (guardE (t_status task \<noteq> TaskCancelled \<and> t_status task \<noteq> TaskRejected) (sentinel KindTaskStopped)) (\<lambda>_.
     bindE (run_version_from_context c) (\<lambda>v.
     case find_step_by_kind steps KindFinal of
       None \<Rightarrow> fail (because KindConflict ''task has no final step'')
     | Some finalStep \<Rightarrow>
         bindE clock_now (\<lambda>now.
         bindE (store_call lib (update_step_fenced c (t_id task) (s_id finalStep) v
            [(''status'', VStepStatus StepRunning), (''attempts'', VNat (s_attempts finalStep + 1)), (''started_at'', VTime now)])) (\<lambda>_.
         bindE (tryE generate) (\<lambda>response. case response of
           Inl e \<Rightarrow> fail_tool_step c task finalStep v (wrapped ''generate final answer'' e)
         | Inr r \<Rightarrow>
             (case r of
                None \<Rightarrow> fail_tool_step c task finalStep v (plain_error ''final model returned no answer'')
              | Some content \<Rightarrow>
                  if trim_space content = [] then fail_tool_step c task finalStep v (plain_error ''final model returned no answer'')
                  else bindE (save_answer lib c task finalStep v (final_answer content)) (\<lambda>_. ret taskID)))))))))"

end
