(* ===== verification/AgentGraphSafety.thy ===== *)
theory AgentGraphSafety
  imports AgentGraph
begin

text \<open>
  What a node run may do: which requests it hands to the MCP gateway and on whose authority,
  what it leaves in the store when the outcome of a call is uncertain, where the graph goes
  next, and the steps a plan becomes.
\<close>

section \<open>Who calls the gateway\<close>

definition same_log :: "'g agent_state \<Rightarrow> 'g agent_state \<Rightarrow> bool" where
  "same_log s t \<longleftrightarrow> ag_log t = ag_log s"

interpretation logs: state_preorder same_log
  by unfold_locales (auto simp: same_log_def)

lemma interfered_fields [simp]:
  "ag_log (interfered s) = ag_log s" "ag_gateway (interfered s) = ag_gateway s"
  "ag_models (interfered s) = ag_models s" "ag_graph (interfered s) = ag_graph s"
  by (simp_all add: interfered_def split: list.split)

lemma on_store_eq:
  "on_store m s = (r, t) \<Longrightarrow> m (ag_db (interfered s)) = (r, ag_db t) \<and> t = (interfered s)\<lparr>ag_db := ag_db t\<rparr>"
  by (auto simp: on_store_def Let_def split: prod.splits)

lemma logs_store: "keeps same_log (on_store m)" "keeps same_log (store_call lib m)"
proof -
  show "keeps same_log (on_store m)"
    by (rule keepsI) (auto simp: same_log_def on_store_def Let_def split: prod.splits)
  then show "keeps same_log (store_call lib m)"
    unfolding store_call_def by (rule logs.keeps_map_err)
qed

lemma logs_basic:
  "keeps same_log clock_now" "keeps same_log new_uuid" "keeps same_log (gateway_call f)" "keeps same_log generate"
  by (auto simp: keeps_def same_log_def clock_now_def gets_def new_uuid_def gateway_call_def generate_def
      split: prod.splits sum.splits list.splits)

lemma logs_ignoring: "keeps same_log m \<Longrightarrow> keeps same_log (ignoring m)"
  by (auto simp: keeps_def ignoring_def split: prod.splits) (metis snd_conv)

lemma logs_graph_task_id: "keeps same_log (graph_task_id i)"
proof -
  have "keeps same_log (modifies (\<lambda>s. s\<lparr>ag_graph := x\<rparr>))" for x by (simp add: keeps_def same_log_def modifies_def)
  then show ?thesis unfolding graph_task_id_def Let_def by (intro logs.keeps_intros)
qed

lemma logs_from_sum: "keeps same_log (from_sum x)"
  unfolding from_sum_def by (intro logs.keeps_intros)

lemma logs_fail_tool_step: "keeps same_log (fail_tool_step c task step v cause)"
  unfolding fail_tool_step_def by (intro logs.keeps_intros logs_basic logs_ignoring logs_store)

lemma logs_fail_invoked_tool: "keeps same_log (fail_invoked_tool lib c task step v cause)"
  unfolding fail_invoked_tool_def by (intro logs.keeps_intros logs_fail_tool_step logs_store)

lemma logs_require_policy_review: "keeps same_log (require_policy_review lib c task step v d)"
  unfolding require_policy_review_def by (intro logs.keeps_intros logs_store)

lemma logs_current_tool_step: "keeps same_log (current_tool_step lib i)"
  unfolding current_tool_step_def by (intro logs.keeps_intros logs_store)

lemma logs_begin_tool: "keeps same_log (begin_tool lib c task step v)"
  unfolding begin_tool_def by (intro logs.keeps_intros logs_basic logs_store)

lemma logs_check_tool: "keeps same_log (check_tool lib gw step)"
  unfolding check_tool_def by (intro logs.keeps_intros logs_from_sum logs_basic)

lemma logs_approval_token: "keeps same_log (approval_token gw task step args)"
  unfolding approval_token_def by (intro logs.keeps_intros logs_basic)

lemma logs_record_result: "keeps same_log (record_result lib c task step v reply)"
  unfolding record_result_def by (intro logs.keeps_intros logs_basic logs_store logs_fail_invoked_tool)

lemma logs_run_version: "keeps same_log (run_version_from_context c)"
  unfolding run_version_from_context_def by (intro logs.keeps_intros)

text \<open>
  The only way to a call: the step was loaded, begun under the fence, its arguments verified, its
  definition found with an unchanged policy, and a token obtained where one is needed.
\<close>

definition called_request :: "agent_task \<Rightarrow> agent_step \<Rightarrow> fields \<Rightarrow> string \<Rightarrow> string \<Rightarrow> invoke_request" where
  "called_request task step args tok op = \<lparr>rq_user = t_user task, rq_tool = s_tool step, rq_arguments = args,
     rq_token = tok, rq_operation = op\<rparr>"

lemma perform_call_cases:
  assumes "perform_call lib gw c task step v op args s = (r, s')"
  obtains (no_token) "ag_log s' = ag_log s" and "isl (fst (approval_token gw task step args s))"
    | (called) tok s1 reply g where "approval_token gw task step args s = (Inr tok, s1)"
      and "gw_call gw (called_request task step args tok op) (ag_gateway s1) = (reply, g)"
      and "ag_log s' = ag_log s @ [called_request task step args tok op]"
      and "record_result lib c task step v (case reply of Inl e \<Rightarrow> Inl (hub_failure e) | Inr x \<Rightarrow> Inr x)
             (s1\<lparr>ag_log := ag_log s1 @ [called_request task step args tok op], ag_gateway := g\<rparr>) = (r, s')"
proof -
  obtain token s1 where t: "approval_token gw task step args s = (token, s1)" by (cases "approval_token gw task step args s")
  have l1: "ag_log s1 = ag_log s" using keepsD [OF logs_approval_token t] by (simp add: same_log_def)
  show ?thesis
  proof (cases token)
    case (Inl e)
    then have "fail_tool_step c task step v e s1 = (r, s')"
      using assms t by (simp add: perform_call_def tryE_bind)
    then have "ag_log s' = ag_log s" using keepsD [OF logs_fail_tool_step] l1 by (fastforce simp: same_log_def)
    then show ?thesis by (rule no_token) (simp add: t Inl)
  next
    case (Inr tok)
    let ?q = "called_request task step args tok op"
    obtain reply g where g: "gw_call gw ?q (ag_gateway s1) = (reply, g)" by (cases "gw_call gw ?q (ag_gateway s1)")
    have i: "invoke_gateway gw ?q s1 = (case reply of Inl e \<Rightarrow> Inl (hub_failure e) | Inr x \<Rightarrow> Inr x,
        s1\<lparr>ag_log := ag_log s1 @ [?q], ag_gateway := g\<rparr>)"
      using g by (simp add: invoke_gateway_def call_eval gateway_call_def split: sum.split)
    have rr: "record_result lib c task step v (case reply of Inl e \<Rightarrow> Inl (hub_failure e) | Inr x \<Rightarrow> Inr x)
             (s1\<lparr>ag_log := ag_log s1 @ [?q], ag_gateway := g\<rparr>) = (r, s')"
      using assms t Inr i by (simp add: perform_call_def tryE_bind called_request_def)
    have "ag_log s' = ag_log s @ [?q]"
      using keepsD [OF logs_record_result rr] l1 by (simp add: same_log_def)
    then show ?thesis by (rule called [OF t [unfolded Inr] g _ rr])
  qed
qed

lemma check_tool_Inr:
  assumes "check_tool lib gw step s = (Inr (args, d), s')"
  shows "persisted_arguments lib step = Inr args \<and> td_name d = s_tool step \<and>
    validate_arguments (rx_compile lib) (td_input_schema d) args = None \<and> ag_db s' = ag_db s \<and>
    (\<exists>ds. gw_tools gw (ag_gateway s) = (Inr ds, ag_gateway s') \<and> definition_by_name ds (s_tool step) = Some d)"
proof -
  from assms obtain ds where a: "persisted_arguments lib step = Inr args"
    and g: "map_err (wrapped ''refresh MCP tools'') (gateway_call (gw_tools gw)) s = (Inr ds, s')"
    and d: "definition_by_name ds (s_tool step) = Some d"
    and v: "validate_arguments (rx_compile lib) (td_input_schema d) args = None"
    unfolding check_tool_def
    by (auto simp: from_sum_def elim!: bindE_InrE split: sum.splits option.splits)
  from g have "gw_tools gw (ag_gateway s) = (Inr ds, ag_gateway s')" "ag_db s' = ag_db s"
    by (auto simp: map_err_def gateway_call_def split: prod.splits sum.splits)
  then show ?thesis using a d v find_SomeD by (fastforce simp: definition_by_name_def)
qed

lemma run_tool_cases:
  assumes "run_tool lib gw c task step v s = (r, s')"
  obtains (silent) "ag_log s' = ag_log s"
    | (called) op s1 args d s2 where "begin_tool lib c task step v s = (Inr op, s1)"
      and "check_tool lib gw step s1 = (Inr (args, d), s2)" and "\<not> tool_policy_changed step d"
      and "perform_call lib gw c task step v op args s2 = (r, s')"
      and "ag_log s2 = ag_log s"
  using assms unfolding run_tool_def
proof (cases rule: bindE_cases)
  case (first_fails e)
  then show ?thesis using keepsD [OF logs_begin_tool] silent by (fastforce simp: same_log_def)
next
  case (both op s1)
  have l1: "ag_log s1 = ag_log s" using keepsD [OF logs_begin_tool both(1)] by (simp add: same_log_def)
  obtain checked s2 where ch: "check_tool lib gw step s1 = (checked, s2)" by (cases "check_tool lib gw step s1")
  have l2: "ag_log s2 = ag_log s" using keepsD [OF logs_check_tool ch] l1 by (simp add: same_log_def)
  show ?thesis
  proof (cases checked)
    case (Inl e)
    then have "fail_tool_step c task step v e s2 = (r, s')" using both(2) ch by (simp add: tryE_bind)
    then show ?thesis using keepsD [OF logs_fail_tool_step] l2 silent by (fastforce simp: same_log_def)
  next
    case (Inr x)
    obtain args d where x: "x = (args, d)" by (cases x)
    show ?thesis
    proof (cases "tool_policy_changed step d")
      case True
      then have "require_policy_review lib c task step v d s2 = (r, s')" using both(2) ch Inr x by (simp add: tryE_bind)
      then show ?thesis using keepsD [OF logs_require_policy_review] l2 silent by (fastforce simp: same_log_def)
    next
      case False
      then have "perform_call lib gw c task step v op args s2 = (r, s')" using both(2) ch Inr x by (simp add: tryE_bind)
      then show ?thesis using called [OF both(1) ch [unfolded Inr x] False _ l2] by blast
    qed
  qed
qed

lemma loaded_task_Inr:
  assumes "get_task_by_id i w = (Inr (t, ss), w')"
  shows "find (\<lambda>t. t_id t = i) (d_tasks w) = Some t \<and> ss = order_steps (filter (\<lambda>s. s_task s = t_id t) (d_steps w)) \<and>
    tables w' = tables w"
  using assms unfolding get_task_by_id_def load_task_def database_def
  by (auto elim!: bindE_InrE dest!: first_task_Inr select_steps_Inr simp: gets_def tables_def)

lemma store_call_Inr: "store_call lib m s = (Inr x, t) \<Longrightarrow> m (ag_db (interfered s)) = (Inr x, ag_db t)"
  by (auto simp: store_call_def map_err_def on_store_def Let_def split: prod.splits sum.splits)

lemma store_call_state: "store_call lib m s = (r, t) \<Longrightarrow> t = (interfered s)\<lparr>ag_db := ag_db t\<rparr>"
  by (auto simp: store_call_def map_err_def on_store_def Let_def split: prod.splits sum.splits)

text \<open>The task and the tool step a node has loaded are rows of the tables at that moment.\<close>

definition loaded_tool_step :: "world \<Rightarrow> string \<Rightarrow> agent_task \<Rightarrow> agent_step \<Rightarrow> bool" where
  "loaded_tool_step w i task step \<longleftrightarrow> task \<in> set (d_tasks w) \<and> t_id task = i \<and> step \<in> set (d_steps w) \<and>
     s_task step = i \<and> s_id step = t_current_step task \<and> s_kind step = KindTool"

lemma current_tool_step_Inr:
  assumes "current_tool_step lib i s = (Inr (task, step), t)"
  shows "loaded_tool_step (ag_db (interfered s)) i task step \<and> tables (ag_db t) = tables (ag_db (interfered s)) \<and>
    t = (interfered s)\<lparr>ag_db := ag_db t\<rparr>"
proof -
  from assms obtain ss where g: "store_call lib (get_task_by_id i) s = (Inr (task, ss), t)"
    and f: "find (\<lambda>s. s_id s = t_current_step task \<and> s_kind s = KindTool) ss = Some step"
    unfolding current_tool_step_def by (auto elim!: bindE_InrE split: option.splits)
  from loaded_task_Inr [OF store_call_Inr [OF g]] f show ?thesis
    using store_call_state [OF g] by (auto simp: loaded_tool_step_def order_steps_def dest!: find_SomeD)
qed

lemma graph_task_id_cases:
  assumes "graph_task_id i s = (r, t)"
  shows "ag_db t = ag_db s \<and> ag_others t = ag_others s \<and> ag_log t = ag_log s \<and> ag_gateway t = ag_gateway s \<and>
    (\<forall>j. r = Inr j \<longrightarrow> j \<noteq> [] \<and> j = ag_graph t)"
  using assms by (auto simp: graph_task_id_def Let_def call_eval split: if_splits)

lemma interfered_db:
  "ag_db t = ag_db s \<Longrightarrow> ag_others t = ag_others s \<Longrightarrow> ag_db (interfered t) = ag_db (interfered s)"
  by (simp add: interfered_def split: list.split)

lemma tool_node_cases:
  assumes "tool_node lib gw c i0 s = (r, s')"
  obtains (silent) "ag_log s' = ag_log s"
    | (ran) i s0 task step s1 r1 where "graph_task_id i0 s = (Inr i, s0)"
      and "current_tool_step lib i s0 = (Inr (task, step), s1)"
      and "s_requires_approval step \<longrightarrow> s_decision step = DecisionApproved" and "cx_version c \<noteq> 0"
      and "run_tool lib gw c task step (cx_version c) s1 = (r1, s')" and "ag_log s1 = ag_log s"
      and "r = (case r1 of Inl e \<Rightarrow> Inl e | Inr _ \<Rightarrow> Inr i)"
  using assms unfolding tool_node_def
proof (cases rule: bindE_cases)
  case (first_fails e)
  then show ?thesis using graph_task_id_cases silent by blast
next
  case (both i s0)
  have l0: "ag_log s0 = ag_log s" using graph_task_id_cases [OF both(1)] by blast
  from both(2) show ?thesis
  proof (cases rule: bindE_cases)
    case (first_fails e)
    then show ?thesis using keepsD [OF logs_current_tool_step] l0 silent by (fastforce simp: same_log_def)
  next
    case inner: (both x s1)
    obtain task step where x: "x = (task, step)" by (cases x)
    have l1: "ag_log s1 = ag_log s" using keepsD [OF logs_current_tool_step inner(1)] l0 by (simp add: same_log_def)
    show ?thesis
    proof (cases "(s_requires_approval step \<longrightarrow> s_decision step = DecisionApproved) \<and> cx_version c \<noteq> 0")
      case False
      then have "s' = s1" using inner(2) x by (auto simp: call_eval run_version_from_context_def bindE_def split: if_splits)
      then show ?thesis using l1 silent by simp
    next
      case True
      obtain r1 t where rt: "run_tool lib gw c task step (cx_version c) s1 = (r1, t)"
        by (cases "run_tool lib gw c task step (cx_version c) s1")
      have "t = s' \<and> r = (case r1 of Inl e \<Rightarrow> Inl e | Inr _ \<Rightarrow> Inr i)"
        using inner(2) x True rt
        by (cases r1) (auto simp: call_eval run_version_from_context_def bindE_def guardE_def ret_def)
      then show ?thesis using ran [OF both(1) inner(1) [unfolded x] _ _ _ l1] True rt by blast
    qed
  qed
qed

lemma begin_tool_Inr:
  assumes "begin_tool lib c task step v s = (Inr op, t)"
  shows "(s_operation_id step \<noteq> [] \<longrightarrow> op = s_operation_id step) \<and> (\<exists>u w now. 
     update_step_fenced c (t_id task) (s_id step) v
       [(''status'', VStepStatus StepRunning), (''attempts'', VNat (s_attempts step + 1)),
        (''operation_id'', VStr op), (''started_at'', VTime now), (''finished_at'', VNull),
        (''error_message'', VStr [])] w = (Inr (), ag_db t) \<and>
     w = ag_db (interfered u) \<and> ag_others u = ag_others s \<and> tables (ag_db u) = tables (ag_db s) \<and>
     t = (interfered u)\<lparr>ag_db := ag_db t\<rparr>)"
proof -
  from assms obtain now s1 u where n: "clock_now s = (Inr now, s1)"
    and o: "(if s_operation_id step = [] then new_uuid else ret (s_operation_id step)) s1 = (Inr op, u)"
    and st: "store_call lib (update_step_fenced c (t_id task) (s_id step) v
       [(''status'', VStepStatus StepRunning), (''attempts'', VNat (s_attempts step + 1)),
        (''operation_id'', VStr op), (''started_at'', VTime now), (''finished_at'', VNull),
        (''error_message'', VStr [])]) u = (Inr (), t)"
    unfolding begin_tool_def by (auto elim!: bindE_InrE)
  have s1: "s1 = s" using n by (simp add: clock_now_def gets_def)
  have "(s_operation_id step \<noteq> [] \<longrightarrow> op = s_operation_id step) \<and> ag_others u = ag_others s \<and> tables (ag_db u) = tables (ag_db s)"
    using o s1 by (auto simp: new_uuid_def tables_def split: if_splits)
  then show ?thesis using store_call_Inr [OF st] store_call_state [OF st] by blast
qed

text \<open>The arguments of the request are the persisted ones and have the persisted digest.\<close>

definition verified_arguments :: "'l agent_library_scheme \<Rightarrow> agent_step \<Rightarrow> fields \<Rightarrow> bool" where
  "verified_arguments lib step args \<longleftrightarrow> (\<exists>fs rest canonical. decode_object (s_args_json step) = Some (fs, rest) \<and>
     args = (case fs of None \<Rightarrow> [] | Some m \<Rightarrow> m) \<and>
     marshal (case fs of None \<Rightarrow> JNull | Some m \<Rightarrow> JObj m) = Some canonical \<and>
     equal_fold (sha256_hex lib canonical) (trim_space (s_args_digest step)))"

lemma persisted_arguments_Inr: "persisted_arguments lib step = Inr args \<Longrightarrow> verified_arguments lib step args"
  by (auto simp: persisted_arguments_def verified_arguments_def split: option.splits prod.splits if_splits)

text \<open>The step was recorded as running, with this operation, under the fence of this run.\<close>

definition begun :: "run_ctx \<Rightarrow> agent_task \<Rightarrow> agent_step \<Rightarrow> string \<Rightarrow> world \<Rightarrow> world \<Rightarrow> bool" where
  "begun c task step op w w' \<longleftrightarrow> (\<exists>now.
     update_step_fenced c (t_id task) (s_id step) (cx_version c)
       [(''status'', VStepStatus StepRunning), (''attempts'', VNat (s_attempts step + 1)),
        (''operation_id'', VStr op), (''started_at'', VTime now), (''finished_at'', VNull),
        (''error_message'', VStr [])] w = (Inr (), w'))"

lemma begin_tool_begun:
  assumes "begin_tool lib c task step (cx_version c) s = (Inr op, t)"
  shows "\<exists>w. begun c task step op w (ag_db t)"
  using begin_tool_Inr [OF assms] unfolding begun_def by blast

text \<open>Calls that leave the gateway alone.\<close>

definition same_gateway :: "'g agent_state \<Rightarrow> 'g agent_state \<Rightarrow> bool" where
  "same_gateway s t \<longleftrightarrow> ag_gateway t = ag_gateway s"

interpretation gws: state_preorder same_gateway
  by unfold_locales (auto simp: same_gateway_def)

lemma gws_store: "keeps same_gateway (on_store m)" "keeps same_gateway (store_call lib m)"
proof -
  show "keeps same_gateway (on_store m)"
    by (rule keepsI) (auto simp: same_gateway_def on_store_def Let_def split: prod.splits)
  then show "keeps same_gateway (store_call lib m)"
    unfolding store_call_def by (rule gws.keeps_map_err)
qed

lemma gws_basic: "keeps same_gateway clock_now" "keeps same_gateway new_uuid"
  by (simp_all add: keeps_def same_gateway_def clock_now_def gets_def new_uuid_def)

lemma gws_ignoring: "keeps same_gateway m \<Longrightarrow> keeps same_gateway (ignoring m)"
  by (auto simp: keeps_def ignoring_def split: prod.splits) (metis snd_conv)

lemma gws_fail_tool_step: "keeps same_gateway (fail_tool_step c task step v cause)"
  unfolding fail_tool_step_def by (intro gws.keeps_intros gws_basic gws_ignoring gws_store)

lemma gws_fail_invoked_tool: "keeps same_gateway (fail_invoked_tool lib c task step v cause)"
  unfolding fail_invoked_tool_def by (intro gws.keeps_intros gws_fail_tool_step gws_store)

lemma gws_record_result: "keeps same_gateway (record_result lib c task step v reply)"
  unfolding record_result_def by (intro gws.keeps_intros gws_basic gws_store gws_fail_invoked_tool)

lemma gws_begin_tool: "keeps same_gateway (begin_tool lib c task step v)"
  unfolding begin_tool_def by (intro gws.keeps_intros gws_basic gws_store)

text \<open>With no other actor left to come, none comes; and an approval leaves the database alone.\<close>

definition quiet :: "'g agent_state \<Rightarrow> 'g agent_state \<Rightarrow> bool" where
  "quiet s t \<longleftrightarrow> (ag_others s = [] \<longrightarrow> ag_others t = [])"

interpretation quiet: state_preorder quiet
  by unfold_locales (auto simp: quiet_def)

lemma interfered_quiet [simp]: "ag_others s = [] \<Longrightarrow> interfered s = s"
  by (simp add: interfered_def)

lemma quiet_store: "keeps quiet (on_store m)" "keeps quiet (store_call lib m)"
proof -
  show "keeps quiet (on_store m)"
    by (rule keepsI) (auto simp: quiet_def on_store_def Let_def split: prod.splits)
  then show "keeps quiet (store_call lib m)"
    unfolding store_call_def by (rule quiet.keeps_map_err)
qed

lemma quiet_basic: "keeps quiet clock_now" "keeps quiet new_uuid" "keeps quiet (gateway_call f)"
  by (auto simp: keeps_def quiet_def clock_now_def gets_def new_uuid_def gateway_call_def split: prod.splits sum.splits)

lemma quiet_from_sum: "keeps quiet (from_sum x)"
  unfolding from_sum_def by (intro quiet.keeps_intros)

lemma quiet_run_tool_parts:
  "keeps quiet (current_tool_step lib i)" "keeps quiet (begin_tool lib c task step v)"
  "keeps quiet (check_tool lib gw step)" "keeps quiet (approval_token gw task step args)"
  unfolding current_tool_step_def begin_tool_def check_tool_def approval_token_def
  by (intro quiet.keeps_intros quiet_basic quiet_store quiet_from_sum)+

definition same_db :: "'g agent_state \<Rightarrow> 'g agent_state \<Rightarrow> bool" where
  "same_db s t \<longleftrightarrow> ag_db t = ag_db s"

interpretation dbs: state_preorder same_db
  by unfold_locales (auto simp: same_db_def)

lemma dbs_gateway: "keeps same_db (gateway_call f)"
  by (auto simp: keeps_def same_db_def gateway_call_def split: prod.splits sum.splits)

lemma dbs_approval_token: "keeps same_db (approval_token gw task step args)"
  unfolding approval_token_def by (intro dbs.keeps_intros dbs_gateway)

text \<open>Everything a call rests on, in the order in which the node establishes it.\<close>

lemma tool_call_chain:
  fixes s :: "'g agent_state"
  assumes run: "tool_node lib gw c i0 s = (r, s')" and new: "ag_log s' \<noteq> ag_log s"
  obtains i task step args tok op d w ds reply g and s2 s3 s4 s5 :: "'g agent_state" where
    "ag_log s' = ag_log s @ [called_request task step args tok op]"
    "loaded_tool_step (ag_db (interfered s)) i task step"
    "s_requires_approval step \<longrightarrow> s_decision step = DecisionApproved"
    "begin_tool lib c task step (cx_version c) s2 = (Inr op, s3)"
    "begun c task step op w (ag_db s3)" "verified_arguments lib step args"
    "td_name d = s_tool step" "\<not> tool_policy_changed step d"
    "validate_arguments (rx_compile lib) (td_input_schema d) args = None"
    "gw_tools gw (ag_gateway s) = (Inr ds, ag_gateway s4)" "definition_by_name ds (s_tool step) = Some d"
    "ag_db s4 = ag_db s3" "ag_db s5 = ag_db s4" "ag_others s = [] \<longrightarrow> ag_others s5 = []" "approval_token gw task step args s4 = (Inr tok, s5)"
    "gw_call gw (called_request task step args tok op) (ag_gateway s5) = (reply, g)"
    "record_result lib c task step (cx_version c) (case reply of Inl e \<Rightarrow> Inl (hub_failure e) | Inr x \<Rightarrow> Inr x)
       (s5\<lparr>ag_log := ag_log s5 @ [called_request task step args tok op], ag_gateway := g\<rparr>) = (map_sum id (\<lambda>_. ()) r, s')"
    "ag_gateway s' = g"
  using run
proof (rule tool_node_cases)
  assume "ag_log s' = ag_log s"
  then show thesis using new by simp
next
  fix i s0 task step s1 r1
  assume i: "graph_task_id i0 s = (Inr i, s0)" and c: "current_tool_step lib i s0 = (Inr (task, step), s1)"
    and ap: "s_requires_approval step \<longrightarrow> s_decision step = DecisionApproved"
    and rt: "run_tool lib gw c task step (cx_version c) s1 = (r1, s')" and l: "ag_log s1 = ag_log s"
    and r: "r = (case r1 of Inl e \<Rightarrow> Inl e | Inr _ \<Rightarrow> Inr i)"
  have g0: "ag_gateway s0 = ag_gateway s" "ag_db (interfered s0) = ag_db (interfered s)"
    using graph_task_id_cases [OF i] interfered_db by blast+
  have ld: "loaded_tool_step (ag_db (interfered s)) i task step" "ag_gateway s1 = ag_gateway s"
    using current_tool_step_Inr [OF c] g0 by (metis, metis agent_state.select_convs agent_state.surjective agent_state.update_convs(1) interfered_fields(2))
  from rt show thesis
  proof (rule run_tool_cases)
    assume "ag_log s' = ag_log s1"
    then show thesis using new l by simp
  next
    fix op s3 args d s4
    assume b: "begin_tool lib c task step (cx_version c) s1 = (Inr op, s3)"
      and ch: "check_tool lib gw step s3 = (Inr (args, d), s4)" and np: "\<not> tool_policy_changed step d"
      and p: "perform_call lib gw c task step (cx_version c) op args s4 = (r1, s')" and l2: "ag_log s4 = ag_log s1"
    obtain w where w: "begun c task step op w (ag_db s3)" using begin_tool_begun [OF b] by blast
    have g3: "ag_gateway s3 = ag_gateway s" using keepsD [OF gws_begin_tool b] ld(2) by (simp add: same_gateway_def)
    obtain ds where ds: "gw_tools gw (ag_gateway s) = (Inr ds, ag_gateway s4)" "definition_by_name ds (s_tool step) = Some d"
      using check_tool_Inr [OF ch] g3 by auto
    from p show thesis
    proof (rule perform_call_cases)
      assume "ag_log s' = ag_log s4"
      then show thesis using new l l2 by simp
    next
      fix tok s5 reply g
      assume t: "approval_token gw task step args s4 = (Inr tok, s5)"
        and g: "gw_call gw (called_request task step args tok op) (ag_gateway s5) = (reply, g)"
        and lg: "ag_log s' = ag_log s4 @ [called_request task step args tok op]"
        and rr: "record_result lib c task step (cx_version c) (case reply of Inl e \<Rightarrow> Inl (hub_failure e) | Inr x \<Rightarrow> Inr x)
             (s5\<lparr>ag_log := ag_log s5 @ [called_request task step args tok op], ag_gateway := g\<rparr>) = (r1, s')"
      have "map_sum id (\<lambda>_. ()) r = r1" by (cases r1) (simp_all add: r)
      moreover have "ag_db s5 = ag_db s4" using keepsD [OF dbs_approval_token t] by (simp add: same_db_def)
      moreover have "ag_others s = [] \<longrightarrow> ag_others s5 = []"
        using graph_task_id_cases [OF i] keepsD [OF quiet_run_tool_parts(1) c] keepsD [OF quiet_run_tool_parts(2) b]
          keepsD [OF quiet_run_tool_parts(3) ch] keepsD [OF quiet_run_tool_parts(4) t] by (simp add: quiet_def)
      moreover have "ag_gateway s' = g" using keepsD [OF gws_record_result rr] by (simp add: same_gateway_def)
      ultimately show thesis
        using that [OF _ ld(1) ap b w _ _ np _ ds _ _ _ t g] check_tool_Inr [OF ch] persisted_arguments_Inr lg l l2 rr by auto
    qed
  qed
qed

end
