(* ===== verification/AgentGuarantees.thy ===== *)
theory AgentGuarantees
  imports AgentFencing
begin

text \<open>
  Guarantees of the Agent store along runs of operations: where an approval comes from, that a
  tool call with an unknown outcome is not repeated without its owner's consent, that users do
  not reach each other's rows, that a finished task stays finished.
\<close>

section \<open>Where an approval comes from\<close>

text \<open>The operation is the approval of this step, as it is, by its owner.\<close>

fun approves :: "store_op \<Rightarrow> agent_step \<Rightarrow> bool" where
  "approves (OpDecide u i j d r dg) s \<longleftrightarrow> s_task s = i \<and> s_id s = j \<and> s_user s = trim_space u \<and>
     trim_space (to_lower d) = ''approved'' \<and> s_args_digest s = to_lower (trim_space dg)"
| "approves _ s \<longleftrightarrow> False"

text \<open>The same step with the same reviewed call: identity, tool, arguments, digest, decision.\<close>

definition same_call :: "agent_step \<Rightarrow> agent_step \<Rightarrow> bool" where
  "same_call s s' \<longleftrightarrow> step_identity s = step_identity s' \<and> step_payload s = step_payload s'"

lemma parse_decision_approved: "parse_decision d = Some DecisionApproved \<longleftrightarrow> d = ''approved''"
  by (auto simp: parse_decision_def)

lemma step_write_approved:
  assumes "step_write op s s'" and "s_decision s' = DecisionApproved"
  shows "same_call s s' \<or> approves op s'"
  using assms
  by (cases rule: step_write.cases)
    (auto simp: same_call_def step_identity_def step_payload_def completed_plan_step_def unknown_step_def
      reviewed_step_def decided_step_def resumed_step_def cancelled_step_def interrupted_step_def
      decidable_step_def parse_decision_approved
      safe_step_write_identity [unfolded step_identity_def step_payload_def prod.inject])

text \<open>
  A property of rows that inserted rows have and the writes of a run keep, where it may refer to
  the operations of the run so far.
\<close>

locale step_history =
  fixes I :: "store_op list \<Rightarrow> agent_step \<Rightarrow> bool"
  assumes I_fresh: "fresh_step s \<Longrightarrow> I ops s"
    and I_more: "I ops s \<Longrightarrow> I (ops @ [op]) s"
    and I_write: "step_write op s s' \<Longrightarrow> op \<in> set ops \<Longrightarrow> I ops s \<Longrightarrow> I ops s'"
begin

lemma I_writes:
  assumes "(step_write op)\<^sup>*\<^sup>* s s'" and "op \<in> set ops" and "I ops s"
  shows "I ops s'"
  using assms(1)
proof induction
  case base
  show ?case by (rule assms(3))
next
  case (step u v)
  show ?case using step.hyps(2) assms(2) step.IH by (rule I_write)
qed

lemma run_I:
  assumes "wf_tables w" and "\<And>j s. step_row j w = Some s \<Longrightarrow> I [] s"
  shows "step_row j (run_ops ops w) = Some s \<Longrightarrow> I ops s"
proof (induction ops arbitrary: j s rule: rev_induct)
  case Nil
  then show ?case using assms(2) by simp
next
  case (snoc op ops)
  have "run_ops (ops @ [op]) w = exec_op op (run_ops ops w)" by (simp add: run_ops_append)
  with snoc.prems have "step_row j (exec_op op (run_ops ops w)) = Some s" by simp
  with run_ops_wf [OF assms(1)] show ?case
  proof (cases rule: exec_op_step_row)
    case (old s0)
    have "I (ops @ [op]) s0" by (rule I_more [OF snoc.IH [OF old(1)]])
    then show ?thesis by (rule I_writes [OF old(2), rotated]) simp
  next
    case (new s0)
    show ?thesis by (rule I_writes [OF new(2) _ I_fresh [OF new(1)]]) simp
  qed
qed

end

definition approval_recorded :: "agent_step set \<Rightarrow> store_op list \<Rightarrow> agent_step \<Rightarrow> bool" where
  "approval_recorded A ops s \<longleftrightarrow> s_decision s = DecisionApproved \<longrightarrow>
     (\<exists>s0 \<in> A. same_call s0 s) \<or> (\<exists>op \<in> set ops. approves op s)"

lemma approves_same_call: "approves op s \<Longrightarrow> same_call s s' \<Longrightarrow> approves op s'"
  by (cases op) (auto simp: same_call_def step_identity_def step_payload_def)

interpretation approvals: step_history "approval_recorded A" for A
proof
  show "approval_recorded A ops s" if "fresh_step s" for ops s
    using that by (simp add: approval_recorded_def fresh_step_def)
  show "approval_recorded A (ops @ [op]) s" if "approval_recorded A ops s" for ops op s
    using that by (auto simp: approval_recorded_def)
  show "approval_recorded A ops s'" if "step_write op s s'" "op \<in> set ops" "approval_recorded A ops s" for op s s' ops
    unfolding approval_recorded_def
  proof
    assume "s_decision s' = DecisionApproved"
    with step_write_approved [OF that(1)] consider "same_call s s'" | "approves op s'" by blast
    then show "(\<exists>s0 \<in> A. same_call s0 s') \<or> (\<exists>op \<in> set ops. approves op s')"
    proof cases
      case 1
      with \<open>s_decision s' = DecisionApproved\<close> have "s_decision s = DecisionApproved"
        by (simp add: same_call_def step_payload_def)
      with that(3) have "(\<exists>s0 \<in> A. same_call s0 s) \<or> (\<exists>op \<in> set ops. approves op s)"
        by (simp add: approval_recorded_def)
      with 1 show ?thesis by (auto simp: same_call_def intro: approves_same_call [unfolded same_call_def])
    next
      case 2
      with that(2) show ?thesis by blast
    qed
  qed
qed

text \<open>C1: an approved step was approved by its owner, for exactly the arguments it holds. However
  operations follow each other on the store, a step row carries the decision approved only if a
  row with the same identity, tool, arguments and digest carried it at the start, or if one of the
  operations is \<open>UpdateOwnedStepDecision\<close> called by the owner of the step, for this task
  and step, with this very digest. No map of columns, plan, crash recovery, resume or checkpoint
  can forge an approval or exchange the arguments under one.\<close>

theorem approved_only_by_owner:
  assumes "wf_tables w" and "step_row j (run_ops ops w) = Some s" and "s_decision s = DecisionApproved"
  shows "(\<exists>s0 \<in> set (d_steps w). same_call s0 s) \<or> (\<exists>op \<in> set ops. approves op s)"
proof -
  have "approval_recorded (set (d_steps w)) [] s0" if "step_row j0 w = Some s0" for j0 s0
    using that by (auto simp: approval_recorded_def step_row_def same_call_def dest!: find_SomeD)
  from approvals.run_I [OF assms(1) this assms(2)] assms(3) show ?thesis
    by (simp add: approval_recorded_def)
qed

lemma approved_only_by_owner_witness:
  "let op = OpDecide ''alice'' ''t3'' ''s3'' ''Approved'' [] ''EE''
   in \<exists>s. step_row ''s3'' (run_ops [op] demo_world) = Some s \<and> s_decision s = DecisionApproved \<and>
      approves op s"
proof -
  let ?op = "OpDecide ''alice'' ''t3'' ''s3'' ''Approved'' [] ''EE''"
  have "map_option (\<lambda>s. (s_id s, s_decision s)) (step_row ''s3'' (run_ops [?op] demo_world)) =
      Some (''s3'', DecisionApproved)"
    by (simp add: update_owned_step_decision_def run_defs max_approval_reason_runes_def parse_decision_def
        decidable_step_def decided_step_def step_row_def)
  then obtain s where s: "step_row ''s3'' (run_ops [?op] demo_world) = Some s"
      "s_id s = ''s3''" "s_decision s = DecisionApproved" by auto
  have "\<not> (\<exists>s0 \<in> set (d_steps demo_world). same_call s0 s)"
    using s(2,3) by (auto simp: demo_world_def demo_rows same_call_def step_identity_def step_payload_def)
  with approved_only_by_owner [OF demo_wf s(1,3)] have "approves ?op s" by simp
  with s show ?thesis unfolding Let_def by blast
qed

section \<open>No blind replay\<close>

text \<open>A tool call that may have run: running and not declared safe to repeat, or already recorded
  as unknown.\<close>

definition outcome_uncertain :: "agent_step \<Rightarrow> bool" where
  "outcome_uncertain s \<longleftrightarrow> step_uncertain s \<or> s_status s = StepExecutionUnknown"

text \<open>Neither a report of the step's own worker, nor the owner's explicit retry, nor a new plan.\<close>

fun no_opt_in :: "store_op \<Rightarrow> bool" where
  "no_opt_in (OpUpdateStep c i j v us) = False"
| "no_opt_in (OpResume u i retry) = (\<not> retry)"
| "no_opt_in (OpSavePlan c i v sm ss) = False"
| "no_opt_in _ = True"

lemma step_write_uncertain:
  "step_write op s s' \<Longrightarrow> no_opt_in op \<Longrightarrow> outcome_uncertain s \<Longrightarrow> outcome_uncertain s'"
  by (induction rule: step_write.induct)
    (auto simp: outcome_uncertain_def step_uncertain_def unknown_step_def reviewed_step_def
      decided_step_def resumed_step_def cancelled_step_def interrupted_step_def running_tool_row_def
      decidable_step_def step_can_resume_def step_active_def)

lemma step_writes_uncertain:
  assumes "(step_write op)\<^sup>*\<^sup>* s s'" and "no_opt_in op" and "outcome_uncertain s"
  shows "outcome_uncertain s'"
  using assms(1)
proof induction
  case base
  show ?case by (rule assms(3))
next
  case (step u v)
  show ?case using step.hyps(2) assms(2) step.IH by (rule step_write_uncertain)
qed

lemma no_opt_in_keeps_plan: "no_opt_in op \<Longrightarrow> \<not> replaces_plan op"
  by (cases op) auto

text \<open>C4: a tool call that may already have had its effect is never put back in the queue by the
  system. A running step that is neither read-only nor idempotent, or is destructive, and a step
  recorded as execution-unknown, stay so through crash recovery, claims, cancellation, resumes
  without the explicit retry flag, checkpoints and decisions, any number of them in any order:
  the step is never pending, approved or succeeded again.\<close>

theorem no_blind_replay:
  assumes "wf_tables w" and "step_row j w = Some s" and "outcome_uncertain s"
    and "\<forall>op \<in> set ops. no_opt_in op"
  shows "\<exists>s'. step_row j (run_ops ops w) = Some s' \<and> s_status s' \<in> {StepRunning, StepExecutionUnknown}"
proof -
  have "\<exists>s'. step_row j (run_ops ops w) = Some s' \<and> outcome_uncertain s'"
    using assms
  proof (induction ops arbitrary: w s)
    case Nil
    then show ?case by simp
  next
    case (Cons op ops)
    then obtain s1 where "step_row j (exec_op op w) = Some s1" "(step_write op)\<^sup>*\<^sup>* s s1"
      using exec_op_step_kept no_opt_in_keeps_plan by (metis list.set_intros(1))
    moreover have "outcome_uncertain s1"
      using step_writes_uncertain [OF calculation(2)] Cons.prems by simp
    moreover have "wf_tables (exec_op op w)" using Cons.prems(1) by (rule exec_op_wf)
    ultimately show ?case using Cons.IH [of "exec_op op w" s1] Cons.prems(4) by simp
  qed
  then show ?thesis by (auto simp: outcome_uncertain_def step_uncertain_def)
qed

lemma no_blind_replay_witness:
  "\<exists>s'. step_row ''s1'' (run_ops [OpEnvironment 1000 [] [], OpRecover 60, OpResume ''alice'' ''t1'' False] demo_world) = Some s'
     \<and> s_status s' \<in> {StepRunning, StepExecutionUnknown}"
  using no_blind_replay [OF demo_wf demo_step_row(1), of "[OpEnvironment 1000 [] [], OpRecover 60, OpResume ''alice'' ''t1'' False]"]
  by (simp add: outcome_uncertain_def step_uncertain_def step_can_replay_after_crash_def demo_rows)

section \<open>Isolation between users\<close>

fun caller_of :: "store_op \<Rightarrow> string option" where
  "caller_of (OpUpdateOwned u i us) = Some u"
| "caller_of (OpDecide u i j d r dg) = Some (trim_space u)"
| "caller_of (OpResume u i b) = Some (trim_space u)"
| "caller_of (OpCancel u i) = Some (trim_space u)"
| "caller_of _ = None"

lemma task_write_caller: "task_write op t t' \<Longrightarrow> caller_of op = Some u \<Longrightarrow> t_user t = u"
  by (induction rule: task_write.induct) auto

lemma step_write_caller: "step_write op s s' \<Longrightarrow> caller_of op = Some u \<Longrightarrow> s_user s = u"
  by (induction rule: step_write.induct) (auto simp: decidable_step_def)

lemma caller_keeps_plan: "caller_of op = Some u \<Longrightarrow> \<not> replaces_plan op"
  by (cases op) auto

lemma writes_caller:
  "(task_write op)\<^sup>*\<^sup>* t t' \<Longrightarrow> caller_of op = Some u \<Longrightarrow> t_user t \<noteq> u \<Longrightarrow> t' = t"
  "(step_write op)\<^sup>*\<^sup>* s s' \<Longrightarrow> caller_of op = Some u \<Longrightarrow> s_user s \<noteq> u \<Longrightarrow> s' = s"
  by (metis converse_rtranclpE task_write_caller) (metis converse_rtranclpE step_write_caller)

text \<open>C11: an operation a user calls (update, approve or reject, resume, cancel) cannot change a task
  or a step of anybody else, whatever task and step identifiers it is given.\<close>

theorem owner_isolation:
  assumes "wf_tables w" and "caller_of op = Some u"
  shows "(\<forall>i t. task_row i w = Some t \<and> t_user t \<noteq> u \<longrightarrow> task_row i (exec_op op w) = Some t) \<and>
    (\<forall>j s. step_row j w = Some s \<and> s_user s \<noteq> u \<longrightarrow> step_row j (exec_op op w) = Some s)"
proof (intro conjI allI impI)
  fix i t assume "task_row i w = Some t \<and> t_user t \<noteq> u"
  then show "task_row i (exec_op op w) = Some t"
    using exec_op_task_row [OF assms(1)] writes_caller(1) assms(2) by metis
next
  fix j s assume "step_row j w = Some s \<and> s_user s \<noteq> u"
  then show "step_row j (exec_op op w) = Some s"
    using exec_op_step_kept [OF assms(1) caller_keeps_plan [OF assms(2)]] writes_caller(2) assms(2) by metis
qed

lemma owner_isolation_witness:
  "task_row ''t1'' (exec_op (OpCancel ''bob'' ''t1'') demo_world) = Some demo_task"
proof -
  have "t_user demo_task \<noteq> trim_space ''bob''" by (simp add: demo_task_def)
  then show ?thesis
    using owner_isolation [OF demo_wf, of "OpCancel ''bob'' ''t1''" "trim_space ''bob''"] demo_task_row(1)
    by (simp only: caller_of.simps)
qed

section \<open>A finished task stays finished\<close>

definition task_final :: "task_status \<Rightarrow> bool" where
  "task_final s \<longleftrightarrow> s \<in> {TaskSucceeded, TaskRejected, TaskCancelled}"

text \<open>The operation has no token for the task at run version \<open>v\<close> or later, and is not the
  unfenced update of the owner's own columns.\<close>

fun outdated_for :: "string \<Rightarrow> nat \<Rightarrow> store_op \<Rightarrow> bool" where
  "outdated_for i v (OpUpdateOwned u i' us) \<longleftrightarrow> i' \<noteq> i"
| "outdated_for i v op \<longleftrightarrow> (case fence_of op of None \<Rightarrow> True | Some (i', v') \<Rightarrow> i' = i \<longrightarrow> v' < v)"

definition still_final :: "string \<Rightarrow> nat \<Rightarrow> agent_task \<Rightarrow> agent_task \<Rightarrow> bool" where
  "still_final i v t t' \<longleftrightarrow> (t_id t = i \<and> task_final (t_status t) \<and> v \<le> t_run_version t \<longrightarrow>
     t_id t' = i \<and> t_status t' = t_status t \<and> t_run_version t' = t_run_version t \<and>
     t_final_answer t' = t_final_answer t \<and> t_error t' = t_error t)"

lemma still_final_trans: "still_final i v t u \<Longrightarrow> still_final i v u x \<Longrightarrow> still_final i v t x"
  unfolding still_final_def by (metis (full_types))

lemma task_write_final: "task_write op t t' \<Longrightarrow> outdated_for i v op \<Longrightarrow> still_final i v t t'"
proof (induction rule: task_write.induct)
  case (cancelled t i u now m)
  then show ?case by (auto simp: still_final_def task_final_def)
qed (auto simp: still_final_def task_final_def fenced_row_def lease_renewable_def stale_recoverable_def
      task_can_resume_def)

interpretation finals: task_order "still_final i v" "outdated_for i v" for i v
  using still_final_trans task_write_final by unfold_locales (auto simp: still_final_def)

text \<open>C7: a task that succeeded, was rejected or was cancelled is over for everybody but the
  holder of its current run version: whatever mix of operations with older tokens, claims,
  resumes, recoveries, decisions and cancellations follows, its status, run version, answer and
  error message stay. (Cancelling and rejecting advance the run version past every token that was
  handed out, so nobody holds the current one.)\<close>

theorem finished_task_stays_finished:
  assumes "wf_tables w" and "task_row i w = Some t" and "task_final (t_status t)"
    and "\<forall>op \<in> set ops. outdated_for i (t_run_version t) op"
  shows "\<exists>t'. task_row i (run_ops ops w) = Some t' \<and> t_status t' = t_status t \<and>
    t_run_version t' = t_run_version t \<and> t_final_answer t' = t_final_answer t \<and> t_error t' = t_error t"
proof -
  have "t_id t = i" using assms(2) by (auto simp: task_row_def dest: find_SomeD)
  then show ?thesis
    using finals.run_Q [OF assms(1,4,2)] assms(3) by (auto simp: still_final_def)
qed

lemma finished_task_stays_finished_witness:
  "let w = exec_op (OpCancel ''alice'' ''t1'') demo_world;
       late = [OpRenew ''t1'' 2 ''w2'' minute, OpClaim ''t1'' ''w1'' 0, OpResume ''alice'' ''t1'' True]
   in map_option t_status (task_row ''t1'' (run_ops late w)) = Some TaskCancelled"
proof -
  let ?w = "exec_op (OpCancel ''alice'' ''t1'') demo_world"
  have "map_option (\<lambda>t. (t_status t, t_run_version t)) (task_row ''t1'' ?w) = Some (TaskCancelled, 3)"
    by (simp add: cancel_owned_task_def cancel_active_steps_def run_defs task_row_def cancelled_task_def
        step_active_def step_uncertain_def step_can_replay_after_crash_def)
  then obtain t where t: "task_row ''t1'' ?w = Some t" "t_status t = TaskCancelled" "t_run_version t = 3"
    by auto
  show ?thesis
    using finished_task_stays_finished [OF exec_op_wf [OF demo_wf] t(1),
        of "[OpRenew ''t1'' 2 ''w2'' minute, OpClaim ''t1'' ''w1'' 0, OpResume ''alice'' ''t1'' True]"] t(2,3)
    by (auto simp: task_final_def Let_def)
qed

end
