(* ===== verification/AgentOutcomes.thy ===== *)
theory AgentOutcomes
  imports AgentGuarantees
begin

text \<open>
  What single operations of the Agent store return and leave behind when they succeed: claims,
  owned reads, cancellation, resumption, checkpoints and maps of columns.
\<close>

section \<open>Statements that succeed\<close>

lemma update_tasks_Inr:
  assumes "update_tasks P f w = (Inr n, w')"
  shows "n = count_where P (d_tasks w)" "d_tasks w' = update_where P f (d_tasks w)" "d_steps w' = d_steps w"
    "d_clock w' = d_clock w"
  using assms unfolding update_tasks_def by (auto elim!: statement_cases)

lemma update_steps_Inr:
  assumes "update_steps P f w = (Inr n, w')"
  shows "n = count_where P (d_steps w)" "d_steps w' = update_where P f (d_steps w)" "d_tasks w' = d_tasks w"
    "d_clock w' = d_clock w"
  using assms unfolding update_steps_def by (auto elim!: statement_cases)

lemma database_Inr: "database w = (Inr u, w') \<Longrightarrow> w' = w"
  by (auto simp: database_def gets_def elim!: bindE_InrE)

lemma current_time_Inr: "current_time w = (Inr now, w') \<Longrightarrow> now = d_clock w \<and> w' = w"
  by (auto simp: current_time_def gets_def)

lemma task_row_find: "find (\<lambda>t. t_id t = i) (d_tasks w) = task_row i w"
  by (simp add: task_row_def)

lemma find_task_row: "find (\<lambda>t. t_id t = i \<and> P t) (d_tasks w) = Some t \<Longrightarrow> wf_tables w \<Longrightarrow> task_row i w = Some t"
  using find_key_unique [of t_id "d_tasks w" t] by (auto simp: wf_tables_def task_row_def dest!: find_SomeD)

text \<open>The steps of a task as a loaded task carries them.\<close>

definition steps_of :: "string \<Rightarrow> 'z world_scheme \<Rightarrow> agent_step list" where
  "steps_of i w = order_steps (filter (\<lambda>s. s_task s = i) (d_steps w))"

lemma load_task_Inr:
  assumes "load_task P w = (Inr (t, ss), w')"
  shows "find P (d_tasks w) = Some t \<and> ss = steps_of (t_id t) w \<and> tables w' = tables w"
  using assms unfolding load_task_def
  by (auto elim!: bindE_InrE dest!: first_task_Inr select_steps_Inr simp: steps_of_def tables_def)

lemma get_task_by_id_Inr:
  assumes "get_task_by_id i w = (Inr (t, ss), w')"
  shows "task_row i w = Some t \<and> ss = steps_of i w \<and> tables w' = tables w"
  using assms unfolding get_task_by_id_def
  by (auto elim!: bindE_InrE dest!: database_Inr load_task_Inr simp: task_row_def dest: find_SomeD)

section \<open>Claims\<close>

lemma claim_task_Inr:
  assumes wf: "wf_tables w" and "claim_task i wk l w = (Inr (Some (t, ss)), w')"
  shows "\<exists>t0. task_row i w = Some t0 \<and> t_status t0 = TaskPending \<and>
    t = claimed_task (d_clock w) wk (lease_of l) t0 \<and> task_row i w' = Some t \<and>
    ss = steps_of i w \<and> d_steps w' = d_steps w"
proof -
  let ?P = "\<lambda>t. t_id t = i \<and> t_status t = TaskPending" and ?f = "claimed_task (d_clock w) wk (lease_of l)"
  from assms(2) obtain u where u: "update_tasks ?P ?f w = (Inr (count_where ?P (d_tasks w)), u)"
      "count_where ?P (d_tasks w) \<noteq> 0" "get_task_by_id i u = (Inr (t, ss), w')"
    unfolding claim_task_def
    by (auto elim!: bindE_InrE dest!: database_Inr current_time_Inr split: if_splits)
      (metis update_tasks_Inr(1))
  from update_tasks_Inr [OF u(1)] have d: "d_tasks u = update_where ?P ?f (d_tasks w)" "d_steps u = d_steps w" by auto
  have row: "task_row i u = map_option (\<lambda>r. if ?P r then ?f r else r) (task_row i w)"
    unfolding task_row_def d(1) by (rule find_update_where) simp
  from get_task_by_id_Inr [OF u(3)] have g: "task_row i u = Some t" "ss = steps_of i u" "tables w' = tables u" by auto
  have rows': "task_row i w' = Some t" "d_steps w' = d_steps w" "steps_of i u = steps_of i w"
    using g d(2) by (auto simp: tables_def task_row_def steps_of_def)
  from u(2) obtain t0 where t0: "t0 \<in> set (d_tasks w)" "?P t0" by (auto simp: count_where_0)
  then have r0: "task_row i w = Some t0"
    using wf find_key_unique [of t_id "d_tasks w" t0] by (simp add: wf_tables_def task_row_def)
  with row g(1) t0 have "t = ?f t0" by simp
  with r0 t0 rows' g(2) show ?thesis by auto
qed

text \<open>a claim takes a pending task exactly as it stands: on success the claimer holds the row with
  status running, its name and a lease of the requested length (two minutes when none is
  requested) from now, the attempt counted, the run version one higher, the first start time
  kept, and the steps in order; the steps are untouched.\<close>

lemma claim_takes_pending_task:
  assumes "wf_tables w" and "claim_task i wk l w = (Inr (Some (t, ss)), w')"
  shows "\<exists>t0. task_row i w = Some t0 \<and> t_status t0 = TaskPending \<and> task_row i w' = Some t \<and>
    t_status t = TaskRunning \<and> t_lease_owner t = wk \<and>
    t_lease_until t = Some (d_clock w + (if l \<le> 0 then 2 * minute else l)) \<and>
    t_run_version t = t_run_version t0 + 1 \<and> t_attempts t = t_attempts t0 + 1 \<and>
    ss = steps_of i w \<and> d_steps w' = d_steps w"
  using claim_task_Inr [OF assms] by (auto simp: claimed_task_def lease_of_def default_lease_duration_def)

lemma claim_takes_pending_task_witness:
  "\<exists>t ss w'. claim_task ''t2'' ''w1'' 0 demo_world = (Inr (Some (t, ss)), w') \<and>
     t_lease_until t = Some (50 + 2 * minute) \<and> t_run_version t = 1"
proof -
  obtain r w' where c: "claim_task ''t2'' ''w1'' 0 demo_world = (r, w')" by fastforce
  then obtain t ss where r: "r = Inr (Some (t, ss))"
    by (auto simp: claim_task_def get_task_by_id_def load_task_def run_defs claimed_task_def)
  show ?thesis
    using claim_takes_pending_task [OF demo_wf c [unfolded r]] c r demo_task_row(2)
    by (auto simp: demo_pending_def zero_task_def) (simp add: demo_world_def)
qed

text \<open>C6: two successful claims of the same task never hand out the same run version, whatever
  happens in between: the later one is strictly higher, so the tokens of different claimers
  never coincide and the earlier one is stale.\<close>

theorem claims_get_distinct_versions:
  assumes "wf_tables w" and "claim_task i wk l w = (Inr (Some (t, ss)), w1)"
    and "claim_task i wk' l' (run_ops ops w1) = (Inr (Some (t', ss')), w2)"
  shows "t_run_version t < t_run_version t'"
proof -
  have wf1: "wf_tables w1"
    using exec_op_wf [OF assms(1), of "OpClaim i wk l"] assms(2) by simp
  from claim_task_Inr [OF assms(1,2)] have "task_row i w1 = Some t" by auto
  from versions.run_Q [OF wf1 _ this] obtain u where u: "task_row i (run_ops ops w1) = Some u"
      "t_run_version t \<le> t_run_version u" by (auto simp: version_grows_def)
  from claim_task_Inr [OF run_ops_wf [OF wf1] assms(3)] u(1)
  have "t_run_version t' = t_run_version u + 1" by (auto simp: claimed_task_def)
  with u(2) show ?thesis by simp
qed

text \<open>Bob's task claimed, then set back to pending by its owner's update.\<close>

definition demo_reclaimed :: "store_op list" where
  "demo_reclaimed = [OpUpdateOwned ''bob'' ''t2'' [(''status'', VTaskStatus TaskPending)]]"

lemma demo_status_key: "trim_space ''status'' = ''status''" "to_lower ''status'' = ''status''"
  "to_lower ''updated_at'' = ''updated_at''"
  by (simp_all add: trim_graphic graphic_def to_lower_def to_lower_char_def byte_of_def Let_def)

lemma demo_status_column: "resolve_column task_columns ''status'' = Some TcStatus"
  by (simp add: resolve_column_def demo_status_key task_columns_def)

lemma demo_status_update:
  "sanitized_updates [(''status'', VTaskStatus st)] immutable_task_columns = [(''status'', VTaskStatus st)]"
  "assignable task_columns write_task_column t [(''status'', VTaskStatus st)]"
  "fits task_columns task_column_width (''status'', VTaskStatus st)"
  "assign_task (stamped now [(''status'', VTaskStatus st)]) t = t\<lparr>t_status := st, t_updated_at := now\<rparr>"
  by (simp_all add: sanitized_updates_def demo_status_key immutable_task_columns_def assignable_def assign_def
      demo_status_column updated_at_columns write_task_column_def with_task_status_def with_time_def
      assign_task_def stamped_def assign_all_def fits_def)

lemma demo_second_claim:
  "let r = fst (claim_task ''t2'' ''w2'' 0 (run_ops demo_reclaimed (snd (claim_task ''t2'' ''w1'' 0 demo_world))))
   in \<not> isl r \<and> projr r \<noteq> None"
  by (simp add: claim_task_def run_defs claimed_task_def update_owned_task_def demo_status_update
      check_task_updates_def get_task_by_id_def load_task_def demo_reclaimed_def)

lemma claims_get_distinct_versions_witness:
  "\<exists>t ss w1 t' ss' w2. claim_task ''t2'' ''w1'' 0 demo_world = (Inr (Some (t, ss)), w1) \<and>
     claim_task ''t2'' ''w2'' 0 (run_ops demo_reclaimed w1) = (Inr (Some (t', ss')), w2) \<and>
     t_run_version t < t_run_version t'"
proof -
  obtain r w1 where c: "claim_task ''t2'' ''w1'' 0 demo_world = (r, w1)" by fastforce
  then obtain t ss where r: "r = Inr (Some (t, ss))"
    by (auto simp: claim_task_def get_task_by_id_def load_task_def run_defs claimed_task_def)
  obtain r' w2 where c': "claim_task ''t2'' ''w2'' 0 (run_ops demo_reclaimed w1) = (r', w2)" by fastforce
  then have "\<not> isl r' \<and> projr r' \<noteq> None"
    using demo_second_claim c by (simp add: Let_def)
  then obtain t' ss' where r': "r' = Inr (Some (t', ss'))" by (cases r') auto
  from claims_get_distinct_versions [OF demo_wf c [unfolded r] c' [unfolded r']] c r c' r'
  show ?thesis by blast
qed

section \<open>Owned reads\<close>

lemma get_owned_task_Inr:
  "get_owned_task u i w = (Inr (t, ss), w') \<Longrightarrow>
   t_user t = u \<and> t_id t = i \<and> t \<in> set (d_tasks w) \<and> ss = steps_of i w \<and> tables w' = tables w"
  unfolding get_owned_task_def
  by (auto elim!: bindE_InrE dest!: database_Inr load_task_Inr find_SomeD)

lemma clamp_limit_bound: "clamp_limit d l \<le> 200"
  by (auto simp: clamp_limit_def max_task_list_limit_def Let_def nat_le_iff)

lemma length_page: "length (take (clamp_limit d l) xs) \<le> 200"
  using clamp_limit_bound [of d l] by simp

lemma set_page: "x \<in> set (take m (drop n xs)) \<Longrightarrow> x \<in> set xs"
  by (meson in_set_dropD in_set_takeD)

lemma list_owned_tasks_Inr:
  assumes "list_owned_tasks u off lim w = (Inr (ts, n), w')"
  shows "(\<forall>t \<in> set ts. t_user t = trim_space u \<and> t \<in> set (d_tasks w)) \<and>
    n = count_where (\<lambda>t. t_user t = trim_space u) (d_tasks w) \<and> length ts \<le> 200"
  using assms unfolding list_owned_tasks_def Let_def
  by (auto elim!: bindE_InrE dest!: database_Inr select_tasks_Inr simp: tables_def length_page
      simp del: length_take dest!: set_page)

lemma get_owned_steps_Inr:
  "get_owned_steps u i w = (Inr ss, w') \<Longrightarrow> \<forall>s \<in> set ss. s_user s = u \<and> s_task s = i \<and> s \<in> set (d_steps w)"
  unfolding get_owned_steps_def
  by (auto elim!: bindE_InrE dest!: database_Inr select_steps_Inr simp: order_steps_def)

text \<open>a user reads only rows of its own: a task it gets by identifier, each task of a listing,
  each step it lists carries its name (and reads change nothing). The task comes with all of its
  steps in the order of their sequence numbers.\<close>

lemma owned_reads:
  "(\<forall>t ss w'. get_owned_task u i w = (Inr (t, ss), w') \<longrightarrow>
      t_user t = u \<and> t_id t = i \<and> t \<in> set (d_tasks w) \<and> ss = steps_of i w \<and> tables w' = tables w) \<and>
   (\<forall>ts n w'. list_owned_tasks u off lim w = (Inr (ts, n), w') \<longrightarrow>
      (\<forall>t \<in> set ts. t_user t = trim_space u \<and> t \<in> set (d_tasks w)) \<and>
      n = count_where (\<lambda>t. t_user t = trim_space u) (d_tasks w) \<and> length ts \<le> 200) \<and>
   (\<forall>ss w'. get_owned_steps u i w = (Inr ss, w') \<longrightarrow>
      (\<forall>s \<in> set ss. s_user s = u \<and> s_task s = i \<and> s \<in> set (d_steps w)))"
  using get_owned_task_Inr list_owned_tasks_Inr get_owned_steps_Inr by blast

lemma owned_reads_witness:
  "\<exists>t ss w'. get_owned_task ''alice'' ''t1'' demo_world = (Inr (t, ss), w') \<and> t_user t = ''alice'' \<and>
     ss = steps_of ''t1'' demo_world"
proof -
  obtain r w' where g: "get_owned_task ''alice'' ''t1'' demo_world = (r, w')" by fastforce
  then obtain t ss where "r = Inr (t, ss)"
    by (auto simp: get_owned_task_def load_task_def run_defs)
  with g show ?thesis using owned_reads [of "''alice''" "''t1''" demo_world 0 0] by blast
qed

end
