(* ===== verification/AgentRecovery.thy ===== *)
theory AgentRecovery
  imports AgentOutcomes
begin

text \<open>
  Cancellation and crash recovery in full: what the loops over step rows do to the tables, and
  that one call of \<open>RecoverStaleTasks\<close> on a healthy database leaves no stale task behind.
\<close>

section \<open>Visiting selected rows one by one\<close>

text \<open>
  Both loops update each selected row by its identifier, with the values of the selected copy.
  On a table with unique identifiers this is one UPDATE of all selected rows.
\<close>

lemma update_where_cong: "(\<And>r. r \<in> set rs \<Longrightarrow> P r = Q r) \<Longrightarrow> (\<And>r. r \<in> set rs \<Longrightarrow> Q r \<Longrightarrow> f r = g r) \<Longrightarrow>
    update_where P f rs = update_where Q g rs"
  by (auto simp: update_where_def)

lemma visit_copies:
  fixes k :: "'r \<Rightarrow> 'k"
  assumes "distinct (map k rows)" "distinct (map k xs)" "set xs \<subseteq> set rows"
    and "\<And>x. x \<in> set xs \<Longrightarrow> P x x" and "\<And>x s. P x s \<Longrightarrow> k s = k x" and "\<And>x s. k (g x s) = k s"
  shows "fold (\<lambda>x. update_where (P x) (g x)) xs rows = update_where (\<lambda>s. s \<in> set xs) (\<lambda>s. g s s) rows"
  using assms
proof (induction xs arbitrary: rows)
  case Nil
  then show ?case by (simp add: update_where_id)
next
  case (Cons x xs)
  let ?rows = "update_where (P x) (g x) rows"
  have eq: "?rows = update_where (\<lambda>s. s = x) (g x) rows"
    using Cons.prems(1,3-5) by (intro update_where_cong) (auto simp: distinct_map inj_on_def)
  have "set xs \<subseteq> set ?rows"
    unfolding eq set_update_where using Cons.prems(2,3) by auto
  moreover have "distinct (map k ?rows)" using Cons.prems(1,6) by (simp add: map_update_where)
  ultimately have "fold (\<lambda>x. update_where (P x) (g x)) xs ?rows = update_where (\<lambda>s. s \<in> set xs) (\<lambda>s. g s s) ?rows"
    using Cons.prems by (intro Cons.IH) auto
  also have "\<dots> = update_where (\<lambda>s. s \<in> set (x # xs)) (\<lambda>s. g s s) rows"
    unfolding eq unfolding update_where_def map_map
  proof (rule map_cong [OF refl], goal_cases)
    case (1 s)
    have "g x x \<notin> set xs"
    proof
      assume "g x x \<in> set xs"
      then have "k (g x x) \<in> k ` set xs" by (rule imageI)
      with Cons.prems(2,6) show False by simp
    qed
    then show ?case by auto
  qed
  finally show ?case by simp
qed

section \<open>Cancellation\<close>

definition cancelled_by :: "string \<Rightarrow> string \<Rightarrow> agent_step \<Rightarrow> bool" where
  "cancelled_by userName taskID s \<longleftrightarrow> s_task s = taskID \<and> s_user s = userName \<and> step_active (s_status s)"

lemma cancel_steps_Inr:
  assumes "cancel_steps u i now steps w = (Inr b, w')"
  shows "d_steps w' = fold (\<lambda>x. update_where (\<lambda>s. s_id s = s_id x \<and> s_task s = i \<and> s_user s = u \<and>
      s_status s = s_status x) (cancelled_step now x)) steps (d_steps w) \<and>
    d_tasks w' = d_tasks w \<and> b = list_ex step_uncertain steps"
  using assms
proof (induction steps arbitrary: w w' b)
  case (Cons x xs)
  let ?upd = "update_where (\<lambda>s. s_id s = s_id x \<and> s_task s = i \<and> s_user s = u \<and> s_status s = s_status x)
      (cancelled_step now x)"
  from Cons.prems [unfolded cancel_steps.simps] show ?case
  proof (elim bindE_InrE)
    fix n w1 b1 w2
    assume n: "update_steps (\<lambda>s. s_id s = s_id x \<and> s_task s = i \<and> s_user s = u \<and> s_status s = s_status x)
          (cancelled_step now x) w = (Inr n, w1)"
      and xs: "cancel_steps u i now xs w1 = (Inr b1, w2)"
      and b: "ret (step_uncertain x \<or> b1) w2 = (Inr b, w')"
    from Cons.IH [OF xs] update_steps_Inr [OF n] b show ?thesis by simp
  qed
qed simp

lemma cancelled_by_filter:
  "filter (\<lambda>s. s_task s = i \<and> s_user s = u \<and> step_active (s_status s)) = filter (cancelled_by u i)"
  by (simp add: cancelled_by_def [abs_def])

lemma cancel_steps_rows:
  assumes "cancel_steps u i now (filter (cancelled_by u i) rows) w = (Inr b, w')"
    and "distinct (map s_id rows)" and "d_steps w = rows"
  shows "d_steps w' = update_where (cancelled_by u i) (\<lambda>s. cancelled_step now s s) rows"
proof -
  let ?xs = "filter (cancelled_by u i) rows"
  have "d_steps w' = update_where (\<lambda>s. s \<in> set ?xs) (\<lambda>s. cancelled_step now s s) rows"
    unfolding cancel_steps_Inr [OF assms(1), THEN conjunct1] assms(3)
    by (rule visit_copies [where k = s_id])
      (use assms(2) in \<open>auto simp: distinct_map_filter cancelled_by_def\<close>)
  also have "\<dots> = update_where (cancelled_by u i) (\<lambda>s. cancelled_step now s s) rows"
    by (rule update_where_cong) auto
  finally show ?thesis .
qed

lemma cancel_active_steps_Inr:
  fixes w w' :: "'z world_scheme"
  assumes "cancel_active_steps u i now task w = (Inr x, w')" and "wf_tables w"
  shows "d_steps w' = update_where (cancelled_by u i) (\<lambda>s. cancelled_step now s s) (d_steps w) \<and>
    (\<exists>m. d_tasks w' = update_where (\<lambda>t. t_id t = i \<and> t_user t = u \<and> t_status t = t_status task \<and>
        t_run_version t = t_run_version task) (cancelled_task now m) (d_tasks w))"
  using assms(1) [unfolded cancel_active_steps_def cancelled_by_filter]
proof (elim bindE_InrE)
  fix active w1 b w2 m w3
  assume a: "select_steps (filter (cancelled_by u i)) w = (Inr active, w1)"
    and c: "cancel_steps u i now active w1 = (Inr b, w2)"
    and t: "update_tasks (\<lambda>t. t_id t = i \<and> t_user t = u \<and> t_status t = t_status task \<and>
        t_run_version t = t_run_version task)
        (cancelled_task now (if b then uncertain_cancel_message else [])) w2 = (Inr m, w3)"
    and g: "guardE (m \<noteq> 0) Conflict w3 = (Inr x, w')"
  from select_steps_Inr [OF a] have w1: "active = filter (cancelled_by u i) (d_steps w)"
      "d_steps w1 = d_steps w" "d_tasks w1 = d_tasks w" by (auto simp: tables_def)
  have "d_steps w2 = update_where (cancelled_by u i) (\<lambda>s. cancelled_step now s s) (d_steps w)"
    using assms(2) by (intro cancel_steps_rows [OF c [unfolded w1(1)] _ w1(2)]) (simp add: wf_tables_def)
  with update_tasks_Inr(2,3) [OF t] cancel_steps_Inr [OF c] w1(3) g show ?thesis by auto
qed

text \<open>C9: cancelling a task settles all of its steps. When \<open>CancelOwnedTask\<close> succeeds on a
  task that was not cancelled before, the row is cancelled at the next run version with no lease,
  every active step of the owner's task is skipped, or recorded as execution-unknown when it was
  running a tool that is not safe to repeat, and no other step row changes.\<close>

theorem cancel_settles_steps:
  assumes "wf_tables w" and "task_row i w = Some t" and "t_status t \<noteq> TaskCancelled"
    and "cancel_owned_task u i w = (Inr (), w')"
  shows "d_steps w' = update_where (cancelled_by (trim_space u) i) (\<lambda>s. cancelled_step (d_clock w) s s) (d_steps w) \<and>
    \<not> (\<exists>s \<in> set (d_steps w'). cancelled_by (trim_space u) i s) \<and>
    (\<exists>t'. task_row i w' = Some t' \<and> t_status t' = TaskCancelled \<and> t_run_version t' = t_run_version t + 1 \<and>
       t_lease_until t' = None)"
  using assms(4) [unfolded cancel_owned_task_def Let_def]
proof (elim bindE_InrE)
  fix a b c d now w1
  assume "database w = (Inr a, b)" "guardE (trim_space u \<noteq> [] \<and> trim_space i \<noteq> []) InvalidInput b = (Inr c, d)"
    "current_time d = (Inr now, w1)"
    and t: "transaction (bindE (first_task (\<lambda>t. t_id t = i \<and> t_user t = trim_space u))
          (\<lambda>task. if t_status task = TaskCancelled then ret ()
             else if t_status task = TaskSucceeded \<or> t_status task = TaskRejected then fail Conflict
             else cancel_active_steps (trim_space u) i now task)) w1 = (Inr (), w')"
  then have w1: "w1 = w" "now = d_clock w" by (auto dest!: database_Inr current_time_Inr)
  from t show ?thesis
  proof (elim transaction_Inr bindE_InrE)
    fix fs fs' v task w2
    assume f: "first_task (\<lambda>t. t_id t = i \<and> t_user t = trim_space u) (w1\<lparr>d_faults := fs\<rparr>) = (Inr task, w2)"
      and c: "(if t_status task = TaskCancelled then ret ()
             else if t_status task = TaskSucceeded \<or> t_status task = TaskRejected then fail Conflict
             else cancel_active_steps (trim_space u) i now task) w2 = (Inr (), v)"
      and w': "w' = v\<lparr>d_faults := fs'\<rparr>"
    let ?v = "w\<lparr>d_faults := fs\<rparr>"
    have wf: "wf_tables w2" "tables w2 = tables w" "task = t"
    proof -
      from first_task_Inr [OF f] w1 have w2: "tables w2 = tables w" by (simp add: tables_def)
      moreover from this assms(1) show "wf_tables w2" by (metis rows_tables)
      show "task = t"
        using first_task_Inr [OF f] find_task_row [of i "\<lambda>t. t_user t = trim_space u" w task] assms(1,2) w1 by simp
      from w2 show "tables w2 = tables w" .
    qed
    have st: "t_status t \<notin> {TaskCancelled, TaskSucceeded, TaskRejected}"
      and c': "cancel_active_steps (trim_space u) i now t w2 = (Inr (), v)"
      using c wf(3) assms(3) by (auto split: if_splits)
    from cancel_active_steps_Inr [OF c' wf(1)] wf(2) w' w1(2) obtain m where
      rows: "d_steps w' = update_where (cancelled_by (trim_space u) i) (\<lambda>s. cancelled_step (d_clock w) s s) (d_steps w)"
        "d_tasks w' = update_where (\<lambda>r. t_id r = i \<and> t_user r = trim_space u \<and> t_status r = t_status t \<and>
           t_run_version r = t_run_version t) (cancelled_task (d_clock w) m) (d_tasks w)"
      by (auto simp: tables_def)
    have t: "t_id t = i" "t_user t = trim_space u"
      using first_task_Inr [OF f] wf(3) by (auto dest: find_SomeD)
    have "task_row i w' = Some (cancelled_task (d_clock w) m t)"
      using assms(2) t unfolding task_row_def rows(2) by (subst find_update_where) auto
    moreover have "\<not> cancelled_by (trim_space u) i (cancelled_step (d_clock w) s s)" for s
      by (simp add: cancelled_by_def cancelled_step_def step_active_def)
    ultimately show ?thesis
      using rows(1) by (auto simp: set_update_where cancelled_task_def)
  qed
qed

lemma cancel_settles_steps_witness:
  "\<exists>w'. cancel_owned_task ''alice'' ''t1'' demo_world = (Inr (), w') \<and>
     \<not> (\<exists>s \<in> set (d_steps w'). cancelled_by ''alice'' ''t1'' s)"
proof -
  obtain r w' where c: "cancel_owned_task ''alice'' ''t1'' demo_world = (r, w')" by fastforce
  then have "r = Inr ()"
    by (auto simp: cancel_owned_task_def cancel_active_steps_def run_defs cancelled_task_def
        step_active_def step_uncertain_def step_can_replay_after_crash_def)
  with c show ?thesis
    using cancel_settles_steps [OF demo_wf demo_task_row(1), of "''alice''" w'] by (simp add: demo_task_def)
qed

section \<open>Crash recovery\<close>

text \<open>A connected database with no faults scheduled and no cancelled context.\<close>

definition healthy :: "'z world_scheme \<Rightarrow> bool" where
  "healthy w \<longleftrightarrow> d_connected w \<and> d_faults w = [] \<and> d_polls w = []"

lemma healthy_upd [simp]:
  "healthy (w\<lparr>d_tasks := ts\<rparr>) = healthy w" "healthy (w\<lparr>d_steps := ss\<rparr>) = healthy w"
  by (simp_all add: healthy_def)

lemma healthy_transaction:
  "healthy w \<Longrightarrow> m w = (Inr x, w') \<Longrightarrow> healthy w' \<Longrightarrow> transaction m w = (Inr x, w')"
  by (simp add: transaction_def atomic_def healthy_def statement_def monad_defs)

lemma healthy_statement: "healthy w \<Longrightarrow> statement m w = m w"
  by (simp add: healthy_def statement_healthy)

text \<open>The steps of a task a crash interrupted, in the order the code visits them.\<close>

definition interrupted :: "string \<Rightarrow> agent_step \<Rightarrow> bool" where
  "interrupted taskID s \<longleftrightarrow> s_task s = taskID \<and> s_status s = StepRunning"

definition interrupted_steps :: "string \<Rightarrow> agent_step list \<Rightarrow> agent_step list" where
  "interrupted_steps taskID ss = sort_key (\<lambda>s. (s_seq s, s_id s)) (filter (interrupted taskID) ss)"

definition settled_step :: "time \<Rightarrow> agent_step \<Rightarrow> agent_step" where
  "settled_step now s = (if step_can_replay_after_crash s then resumed_step now s else interrupted_step now s)"

definition next_current :: "agent_step \<Rightarrow> string \<Rightarrow> string" where
  "next_current s current = (if \<not> step_can_replay_after_crash s then s_id s
     else if current = [] then s_id s else current)"

lemma recover_steps_healthy:
  assumes "healthy w"
  shows "recover_steps i now steps cur unsafe w =
    (Inr (fold next_current steps cur, unsafe \<or> list_ex (Not \<circ> step_can_replay_after_crash) steps),
     w\<lparr>d_steps := fold (\<lambda>x. update_where (\<lambda>s. s_id s = s_id x \<and> s_task s = i \<and> s_status s = StepRunning)
         ((\<lambda>x s. if step_can_replay_after_crash x then resumed_step now s else interrupted_step now s) x))
         steps (d_steps w)\<rparr>)"
  using assms
proof (induction steps arbitrary: w cur unsafe)
  case Nil
  then show ?case by (simp add: ret_def)
next
  case (Cons x xs)
  then show ?case
    by (simp add: Let_def update_steps_def healthy_statement bindE_def next_current_def)
qed

text \<open>What recovery makes of a stale task, given the step rows.\<close>

definition recovery_of :: "time \<Rightarrow> agent_step list \<Rightarrow> agent_task \<Rightarrow> agent_task" where
  "recovery_of now ss t = (let steps = interrupted_steps (t_id t) ss
     in recovered_task now (fold next_current steps (t_current_step t))
          (list_ex (Not \<circ> step_can_replay_after_crash) steps) t)"

lemma settle_interrupted:
  assumes "distinct (map s_id ss)"
  shows "fold (\<lambda>x. update_where (\<lambda>s. s_id s = s_id x \<and> s_task s = i \<and> s_status s = StepRunning)
      ((\<lambda>x s. if step_can_replay_after_crash x then resumed_step now s else interrupted_step now s) x))
      (interrupted_steps i ss) ss = update_where (interrupted i) (settled_step now) ss"
proof -
  have "fold (\<lambda>x. update_where (\<lambda>s. s_id s = s_id x \<and> s_task s = i \<and> s_status s = StepRunning)
      ((\<lambda>x s. if step_can_replay_after_crash x then resumed_step now s else interrupted_step now s) x))
      (interrupted_steps i ss) ss =
    update_where (\<lambda>s. s \<in> set (interrupted_steps i ss))
      (\<lambda>s. if step_can_replay_after_crash s then resumed_step now s else interrupted_step now s) ss"
    by (rule visit_copies [where k = s_id])
      (use assms in \<open>auto simp: interrupted_steps_def interrupted_def distinct_map inj_on_def\<close>)
  also have "\<dots> = update_where (interrupted i) (settled_step now) ss"
    by (rule update_where_cong) (auto simp: interrupted_steps_def settled_step_def)
  finally show ?thesis .
qed

lemma recover_locked_healthy:
  assumes "healthy w" and "wf_tables w" and "task_row (t_id t) w = Some t"
  shows "recover_locked_task t now w = (Inr (),
    w\<lparr>d_tasks := update_where (\<lambda>u. t_id u = t_id t) (recovery_of now (d_steps w)) (d_tasks w),
      d_steps := update_where (interrupted (t_id t)) (settled_step now) (d_steps w)\<rparr>)"
proof -
  let ?i = "t_id t" and ?xs = "interrupted_steps (t_id t) (d_steps w)"
  let ?cur = "fold next_current ?xs (t_current_step t)" and ?bad = "list_ex (Not \<circ> step_can_replay_after_crash) ?xs"
  let ?P = "\<lambda>u. t_id u = ?i \<and> t_status u = t_status t \<and> t_run_version u = t_run_version t"
  let ?w1 = "w\<lparr>d_steps := update_where (interrupted ?i) (settled_step now) (d_steps w)\<rparr>"
  have dist: "distinct (map s_id (d_steps w))" using assms(2) by (simp add: wf_tables_def)
  have int: "(\<lambda>s. s_task s = ?i \<and> s_status s = StepRunning) = interrupted ?i"
    by (simp add: interrupted_def fun_eq_iff)
  have sel: "select_steps (\<lambda>ss. sort_key (\<lambda>s. (s_seq s, s_id s)) (filter (\<lambda>s. s_task s = ?i \<and> s_status s = StepRunning) ss)) w
      = (Inr ?xs, w)"
    using assms(1) by (simp add: select_steps_def healthy_statement gets_def interrupted_steps_def int)
  have rec: "recover_steps ?i now ?xs (t_current_step t) False w = (Inr (?cur, ?bad), ?w1)"
    using recover_steps_healthy [OF assms(1), of ?i now ?xs "t_current_step t" False]
    unfolding settle_interrupted [OF dist] by simp
  have t: "t \<in> set (d_tasks w)" using assms(3) by (auto simp: task_row_def dest: find_SomeD)
  then have "count_where ?P (d_tasks w) \<noteq> 0" by (auto simp: count_where_0)
  moreover have "update_where ?P (recovered_task now ?cur ?bad) (d_tasks w) =
      update_where (\<lambda>u. t_id u = ?i) (recovery_of now (d_steps w)) (d_tasks w)"
    using row_version [OF assms(2,3)] by (intro update_where_cong) (auto simp: recovery_of_def Let_def)
  ultimately show ?thesis
    using assms(1)
    by (simp only: recover_locked_task_def bindE_def sel rec prod.case sum.case)
      (simp add: update_tasks_def healthy_statement)
qed

lemma recovery_not_stale: "\<not> stale_task now before (recovery_of now ss t)"
  by (simp add: recovery_of_def recovered_task_def stale_task_def stale_recoverable_def Let_def)

lemma first_task_healthy:
  "healthy w \<Longrightarrow> find P (d_tasks w) = Some t \<Longrightarrow> first_task P w = (Inr t, w)"
  by (simp add: first_task_def select_tasks_def healthy_statement gets_def bindE_def)

lemma recover_candidate_healthy:
  assumes "healthy w" and "wf_tables w" and "task_row i w = Some t" and "stale_task now before t"
  shows "recover_candidate now before i w = (Inr True,
    w\<lparr>d_tasks := update_where (\<lambda>u. t_id u = i) (recovery_of now (d_steps w)) (d_tasks w),
      d_steps := update_where (interrupted i) (settled_step now) (d_steps w)\<rparr>)"
proof -
  have i: "t_id t = i" and t: "t \<in> set (d_tasks w)" using assms(3) by (auto simp: task_row_def dest: find_SomeD)
  have "find (\<lambda>u. stale_task now before u \<and> t_id u = i) (d_tasks w) = Some t"
  proof -
    obtain u where u: "find (\<lambda>u. stale_task now before u \<and> t_id u = i) (d_tasks w) = Some u"
      using t i assms(4) by (cases "find (\<lambda>u. stale_task now before u \<and> t_id u = i) (d_tasks w)") (auto simp: find_None_iff)
    then show ?thesis using row_version [OF assms(2,3)] by (auto dest: find_SomeD)
  qed
  from first_task_healthy [OF assms(1) this]
  have "tryE (first_task (\<lambda>u. stale_task now before u \<and> t_id u = i)) w = (Inr (Inr t), w)"
    by (simp add: tryE_def)
  moreover have "recover_locked_task t now w = (Inr (),
      w\<lparr>d_tasks := update_where (\<lambda>u. t_id u = i) (recovery_of now (d_steps w)) (d_tasks w),
        d_steps := update_where (interrupted i) (settled_step now) (d_steps w)\<rparr>)"
    using recover_locked_healthy [OF assms(1,2), of t now] assms(3) i by simp
  ultimately show ?thesis
    unfolding recover_candidate_def using assms(1)
    by (intro healthy_transaction) (simp_all add: bindE_def ret_def)
qed

text \<open>The tables after the tasks in \<open>D\<close> have been recovered.\<close>

definition recovered_tables :: "time \<Rightarrow> string set \<Rightarrow> 'z world_scheme \<Rightarrow> 'z world_scheme" where
  "recovered_tables now D w = w\<lparr>
     d_tasks := update_where (\<lambda>t. t_id t \<in> D) (recovery_of now (d_steps w)) (d_tasks w),
     d_steps := update_where (\<lambda>s. s_task s \<in> D \<and> s_status s = StepRunning) (settled_step now) (d_steps w)\<rparr>"

lemma recovery_of_id [simp]: "t_id (recovery_of now ss t) = t_id t"
  by (simp add: recovery_of_def Let_def)

lemma settled_step_keys [simp]:
  "s_id (settled_step now s) = s_id s" "s_task (settled_step now s) = s_task s" "s_seq (settled_step now s) = s_seq s"
  by (simp_all add: settled_step_def)

lemma settled_step_not_running [simp]: "s_status (settled_step now s) \<noteq> StepRunning"
  by (simp add: settled_step_def resumed_step_def interrupted_step_def unknown_step_def)

lemma recovered_tables_wf: "wf_tables w \<Longrightarrow> wf_tables (recovered_tables now D w)"
  by (simp add: wf_tables_def recovered_tables_def map_update_where step_key_def)

lemma recovered_tables_row:
  "task_row i (recovered_tables now D w) =
   map_option (\<lambda>t. if t_id t \<in> D then recovery_of now (d_steps w) t else t) (task_row i w)"
  unfolding task_row_def recovered_tables_def by (simp add: find_update_where)

lemma interrupted_unchanged:
  assumes "i \<notin> D"
  shows "interrupted_steps i (d_steps (recovered_tables now D w)) = interrupted_steps i (d_steps w)"
proof -
  have "filter (interrupted i) (update_where (\<lambda>s. s_task s \<in> D \<and> s_status s = StepRunning) (settled_step now) ss) =
      filter (interrupted i) ss" for ss
    by (induction ss) (use assms in \<open>auto simp: update_where_def interrupted_def\<close>)
  then show ?thesis by (simp add: interrupted_steps_def recovered_tables_def)
qed

lemma recovered_tables_insert:
  assumes "wf_tables w" and "i \<notin> D"
  shows "(recovered_tables now D w)\<lparr>
      d_tasks := update_where (\<lambda>u. t_id u = i) (recovery_of now (d_steps (recovered_tables now D w))) (d_tasks (recovered_tables now D w)),
      d_steps := update_where (interrupted i) (settled_step now) (d_steps (recovered_tables now D w))\<rparr> =
    recovered_tables now (insert i D) w"
proof -
  have "recovery_of now (d_steps (recovered_tables now D w)) t = recovery_of now (d_steps w) t" if "t_id t = i" for t
    using that interrupted_unchanged [OF assms(2), of now w] by (simp add: recovery_of_def)
  then have "update_where (\<lambda>u. t_id u = i) (recovery_of now (d_steps (recovered_tables now D w))) (d_tasks (recovered_tables now D w)) =
      update_where (\<lambda>t. t_id t \<in> insert i D) (recovery_of now (d_steps w)) (d_tasks w)"
    using assms(2) by (auto simp: recovered_tables_def update_where_def)
  moreover have "update_where (interrupted i) (settled_step now) (d_steps (recovered_tables now D w)) =
      update_where (\<lambda>s. s_task s \<in> insert i D \<and> s_status s = StepRunning) (settled_step now) (d_steps w)"
    by (auto simp: recovered_tables_def update_where_def interrupted_def)
  ultimately show ?thesis by (simp add: recovered_tables_def)
qed

section \<open>Recovery reaches every stale task\<close>

lemma recovered_tables_empty [simp]: "recovered_tables now {} w = w"
  by (simp add: recovered_tables_def update_where_def)

lemma recovered_tables_healthy [simp]: "healthy (recovered_tables now D w) = healthy w"
  by (simp add: recovered_tables_def)

lemma ctx_err_healthy: "healthy w \<Longrightarrow> ctx_err w = (Inr False, w)"
  by (simp add: ctx_err_def healthy_def)

lemma recover_candidates_healthy:
  assumes "healthy w" and "wf_tables w"
  shows "distinct ids \<Longrightarrow> set ids \<inter> D = {} \<Longrightarrow> \<forall>i \<in> set ids. \<exists>t. task_row i w = Some t \<and> stale_task now before t \<Longrightarrow>
    recover_candidates now before ids n fe (recovered_tables now D w) =
      (Inr (n + length ids, fe), recovered_tables now (D \<union> set ids) w)"
proof (induction ids arbitrary: D n)
  case Nil
  then show ?case by (simp add: ret_def)
next
  case (Cons i ids)
  from Cons.prems obtain t where t: "task_row i w = Some t" "stale_task now before t" and i: "i \<notin> D" by auto
  have "t_id t \<notin> D" using t(1) i by (auto simp: task_row_def dest: find_SomeD)
  then have row: "task_row i (recovered_tables now D w) = Some t" using t(1) by (simp add: recovered_tables_row)
  have one: "recover_candidate now before i (recovered_tables now D w) = (Inr True, recovered_tables now (insert i D) w)"
    using recover_candidate_healthy [OF _ recovered_tables_wf [OF assms(2)] row t(2)] assms(1)
    by (simp add: recovered_tables_insert [OF assms(2) i])
  have "recover_candidates now before ids (n + 1) fe (recovered_tables now (insert i D) w) =
      (Inr (n + 1 + length ids, fe), recovered_tables now (insert i D \<union> set ids) w)"
    using Cons.prems by (intro Cons.IH) auto
  then show ?case
    using assms(1) by (simp add: bindE_def ctx_err_healthy tryE_def one)
qed

text \<open>The stale rows that are left, and what one batch takes of them.\<close>

definition remaining :: "time \<Rightarrow> time \<Rightarrow> string set \<Rightarrow> agent_task list \<Rightarrow> agent_task list" where
  "remaining now before D ts = filter (\<lambda>t. stale_task now before t \<and> t_id t \<notin> D) ts"

lemma stale_after:
  "filter (stale_task now before) (d_tasks (recovered_tables now D w)) = remaining now before D (d_tasks w)"
proof -
  have "filter (stale_task now before) (update_where (\<lambda>t. t_id t \<in> D) (recovery_of now ss) ts) = remaining now before D ts" for ss ts
    by (induction ts) (auto simp: update_where_def remaining_def recovery_not_stale)
  then show ?thesis by (simp add: recovered_tables_def)
qed

lemma filter_taken: "distinct (map k xs) \<Longrightarrow> filter (\<lambda>x. k x \<notin> k ` set (take n xs)) xs = drop n xs"
proof (induction xs arbitrary: n)
  case (Cons x xs)
  show ?case
  proof (cases n)
    case (Suc m)
    have "filter (\<lambda>y. k y \<notin> k ` set (take n (x # xs))) (x # xs) = filter (\<lambda>y. k y \<notin> k ` set (take m xs)) xs"
      using Cons.prems Suc by (auto intro!: filter_cong) (metis imageI)
    then show ?thesis using Cons Suc by simp
  qed simp
qed simp

lemma batch_remaining:
  fixes key :: "agent_task \<Rightarrow> 'k::linorder"
  assumes "distinct (map t_id ts)" and "ids = map t_id (take b (sort_key key (remaining now before D ts)))"
  shows "length (remaining now before (D \<union> set ids) ts) = length (remaining now before D ts) - b"
    and "distinct ids" and "set ids \<inter> D = {}" and "length ids = min (length (remaining now before D ts)) b"
    and "\<forall>i \<in> set ids. \<exists>t \<in> set ts. t_id t = i \<and> stale_task now before t"
proof -
  let ?R = "remaining now before D ts" and ?S = "sort_key key (remaining now before D ts)"
  have dR: "distinct (map t_id ?R)" using assms(1) by (simp add: remaining_def distinct_map_filter)
  then have dS: "distinct (map t_id ?S)" by (simp add: distinct_map)
  have "remaining now before (D \<union> set ids) ts = filter (\<lambda>t. t_id t \<notin> t_id ` set (take b ?S)) ?R"
    unfolding assms(2) remaining_def by (auto intro!: filter_cong)
  moreover have "length (filter (\<lambda>t. t_id t \<notin> t_id ` set (take b ?S)) ?R) =
      length (filter (\<lambda>t. t_id t \<notin> t_id ` set (take b ?S)) ?S)"
    by (simp add: filter_sort)
  ultimately show "length (remaining now before (D \<union> set ids) ts) = length ?R - b"
    by (simp add: filter_taken [OF dS])
  show "distinct ids" using dS unfolding assms(2) by (metis distinct_take take_map)
  show "length ids = min (length ?R) b" by (simp add: assms(2))
  have "set ids \<subseteq> t_id ` set ?R" unfolding assms(2) by (auto dest: in_set_takeD)
  then show "set ids \<inter> D = {}" and "\<forall>i \<in> set ids. \<exists>t \<in> set ts. t_id t = i \<and> stale_task now before t"
    by (auto simp: remaining_def)
qed

lemma recover_rounds_healthy:
  assumes "healthy w" and "wf_tables w"
  shows "D \<subseteq> {t_id t | t. t \<in> set (d_tasks w) \<and> stale_task now before t} \<Longrightarrow>
    length (remaining now before D (d_tasks w)) \<le> 50 * n \<Longrightarrow>
    recover_rounds n now before None (recovered_tables now D w) =
      (Inr (), recovered_tables now {t_id t | t. t \<in> set (d_tasks w) \<and> stale_task now before t} w)"
proof (induction n arbitrary: D)
  case 0
  then have "D = {t_id t | t. t \<in> set (d_tasks w) \<and> stale_task now before t}"
    by (auto simp: remaining_def filter_empty_conv)
  then show ?case by (simp add: first_error_def ret_def)
next
  case (Suc n)
  let ?R = "remaining now before D (d_tasks w)" and ?all = "{t_id t | t. t \<in> set (d_tasks w) \<and> stale_task now before t}"
  define ids where "ids = stale_ids now before (d_tasks (recovered_tables now D w))"
  have ids: "ids = map t_id (take 50 (sort_key (\<lambda>t. (t_updated_at t, t_id t)) ?R))"
    by (simp add: ids_def stale_ids_def recover_stale_batch_size_def stale_after)
  have dist: "distinct (map t_id (d_tasks w))" using assms(2) by (simp add: wf_tables_def)
  note batch = batch_remaining [OF dist ids]
  have sel: "tryE (select_tasks (stale_ids now before)) (recovered_tables now D w) = (Inr (Inr ids), recovered_tables now D w)"
    using assms(1) by (simp add: tryE_def select_tasks_def healthy_statement gets_def ids_def)
  have all: "D' = ?all" if "D' \<subseteq> ?all" "length (remaining now before D' (d_tasks w)) = 0" for D'
    using that by (auto simp: remaining_def filter_empty_conv)
  have sub: "D \<union> set ids \<subseteq> ?all" using Suc.prems(1) batch(5) by force
  have "\<exists>t. task_row i w = Some t \<and> stale_task now before t" if "i \<in> set ids" for i
    using batch(5) that unfolding task_row_def by (metis find_key_unique [OF dist])
  then have cands: "recover_candidates now before ids 0 None (recovered_tables now D w) =
      (Inr (length ids, None), recovered_tables now (D \<union> set ids) w)"
    using recover_candidates_healthy [OF assms batch(2,3)] by simp
  show ?case
  proof (cases "ids = []")
    case True
    then have "D = ?all" using batch(4) Suc.prems(1) by (intro all) (auto simp: min_def split: if_splits)
    then show ?thesis using True sel by (simp add: bindE_def first_error_def ret_def)
  next
    case nonempty: False
    show ?thesis
    proof (cases "length ids < 50")
      case True
      then have "D \<union> set ids = ?all" using batch(1,4) by (intro all sub) auto
      then show ?thesis using nonempty True sel cands
        by (simp add: bindE_def first_error_def ret_def recover_stale_batch_size_def)
    next
      case False
      then have "recover_rounds n now before None (recovered_tables now (D \<union> set ids) w) =
          (Inr (), recovered_tables now ?all w)"
        using Suc.prems(2) batch(1) by (intro Suc.IH sub) simp
      then show ?thesis using nonempty False sel cands
        by (simp add: bindE_def recover_stale_batch_size_def)
    qed
  qed
qed

text \<open>C3: one crash recovery clears the backlog. On a healthy database with at most a thousand stale
  tasks (20 rounds of 50), \<open>RecoverStaleTasks\<close> succeeds, and the tables are exactly the old
  ones with every stale task recovered: pending again, or requiring review when one of its
  running steps is not safe to repeat, at the next run version; every interrupted step of those
  tasks is pending again or recorded as unknown; all other rows are unchanged; no stale task is
  left.\<close>

theorem recovery_clears_backlog:
  assumes "healthy w" and "wf_tables w" and "before \<noteq> zero_time"
    and "length (filter (stale_task (d_clock w) before) (d_tasks w)) \<le> 1000"
  shows "\<exists>w'. recover_stale_tasks before w = (Inr (), w') \<and>
    d_tasks w' = update_where (stale_task (d_clock w) before) (recovery_of (d_clock w) (d_steps w)) (d_tasks w) \<and>
    d_steps w' = update_where (\<lambda>s. s_status s = StepRunning \<and>
        (\<exists>t \<in> set (d_tasks w). t_id t = s_task s \<and> stale_task (d_clock w) before t))
      (settled_step (d_clock w)) (d_steps w) \<and>
    \<not> (\<exists>t \<in> set (d_tasks w'). stale_task (d_clock w) before t)"
proof -
  let ?now = "d_clock w"
  let ?all = "{t_id t | t. t \<in> set (d_tasks w) \<and> stale_task ?now before t}"
  let ?w' = "recovered_tables ?now ?all w"
  have "recover_rounds 20 ?now before None (recovered_tables ?now {} w) = (Inr (), ?w')"
    using assms(4) by (intro recover_rounds_healthy [OF assms(1,2)]) (auto simp: remaining_def)
  then have run: "recover_stale_tasks before w = (Inr (), ?w')"
    using assms(1,3) by (simp add: recover_stale_tasks_def database_def current_time_def gets_def bindE_def
        guardE_def ret_def healthy_def recover_stale_max_rounds_def)
  have tasks: "d_tasks ?w' = update_where (stale_task ?now before) (recovery_of ?now (d_steps w)) (d_tasks w)"
    unfolding recovered_tables_def using assms(2)
    by (auto simp: wf_tables_def distinct_map inj_on_def intro!: update_where_cong)
  have steps: "d_steps ?w' = update_where (\<lambda>s. s_status s = StepRunning \<and>
        (\<exists>t \<in> set (d_tasks w). t_id t = s_task s \<and> stale_task ?now before t)) (settled_step ?now) (d_steps w)"
    unfolding recovered_tables_def by (auto intro!: update_where_cong) metis
  have none: "\<not> (\<exists>t \<in> set (d_tasks ?w'). stale_task ?now before t)"
    unfolding tasks by (auto simp: set_update_where recovery_not_stale)
  from run tasks steps none show ?thesis by blast
qed

lemma recovery_clears_backlog_witness:
  "\<exists>w'. recover_stale_tasks 60 (demo_world\<lparr>d_clock := 200\<rparr>) = (Inr (), w') \<and>
     \<not> (\<exists>t \<in> set (d_tasks w'). stale_task 200 60 t)"
proof -
  have wf: "wf_tables (demo_world\<lparr>d_clock := 200\<rparr>)" using demo_wf by (simp add: wf_tables_def)
  have len: "length (filter P (d_tasks (demo_world\<lparr>d_clock := 200\<rparr>))) \<le> 1000" for P
    using length_filter_le [of P "d_tasks demo_world"] by (simp add: demo_world_def)
  have "healthy (demo_world\<lparr>d_clock := 200\<rparr>)" by (simp add: healthy_def demo_world_def)
  from recovery_clears_backlog [OF this wf _ len, of 60] show ?thesis by (auto simp: zero_time_def)
qed

end
