(* ===== verification/AgentToolCalls.thy ===== *)
theory AgentToolCalls
  imports AgentGraphSafety AgentOutcomes AgentRecovery
begin

text \<open>
  The guarantees of the tool node: the authority behind every call of the gateway, and what the
  store says of a call whose outcome is uncertain; with a sample task that makes a call.
\<close>

section \<open>The sample task\<close>

definition demo_agent_library :: agent_library where
  "demo_agent_library = mcp_library.extend demo_library
     \<lparr>al_store_text = (\<lambda>_. ''store''), al_json_text = (\<lambda>_. ''json''), al_argument_text = (\<lambda>_. ''arguments'')\<rparr>"

definition demo_gateway :: "nat mcp_gateway" where
  "demo_gateway = \<lparr>gw_tools = (\<lambda>g. (Inr [demo_tool], g)), gw_call = (\<lambda>q g. (Inr None, g)),
     gw_create_approval = (\<lambda>u n args g. (Inr demo_challenge, g)),
     gw_approve = (\<lambda>u i g. (Inr \<lparr>ia_challenge = i, ia_token = ''tok'', ia_expires_at = 0\<rparr>, g))\<rparr>"

definition demo_call_step :: agent_step where
  "demo_call_step = zero_step\<lparr>s_id := ''s1'', s_task := ''t1'', s_user := ''alice'', s_seq := 1, s_kind := KindTool,
     s_status := StepApproved, s_tool := ''srv.rm'', s_args_json := ''{}'', s_args_digest := ''{}'',
     s_risk := ''high'', s_requires_approval := True, s_destructive := True, s_decision := DecisionApproved\<rparr>"

definition demo_agent_db :: world where
  "demo_agent_db = demo_world\<lparr>d_tasks := [demo_task], d_steps := [demo_call_step]\<rparr>"

definition demo_agent :: "'g \<Rightarrow> 'g agent_state" where
  "demo_agent g = \<lparr>ag_db = demo_agent_db, ag_others = [], ag_gateway = g, ag_models = [], ag_graph = [], ag_log = []\<rparr>"

definition demo_ctx :: run_ctx where
  "demo_ctx = \<lparr>c_token = None, cx_version = 2\<rparr>"

lemma demo_graph_id: "graph_task_id ''t1'' (demo_agent g) = (Inr ''t1'', (demo_agent g)\<lparr>ag_graph := ''t1''\<rparr>)"
  by (simp add: graph_task_id_def call_eval demo_agent_def Let_def modifies_def gets_def bindE_def)

lemma demo_load: "get_task_by_id ''t1'' demo_agent_db = (Inr (demo_task, [demo_call_step]), demo_agent_db)"
  by (simp add: get_task_by_id_def load_task_def run_defs demo_agent_db_def demo_call_step_def order_steps_def)

lemma demo_current: "current_tool_step lib ''t1'' ((demo_agent g)\<lparr>ag_graph := ''t1''\<rparr>) =
    (Inr (demo_task, demo_call_step), (demo_agent g)\<lparr>ag_graph := ''t1''\<rparr>)"
  using demo_load
  by (simp add: current_tool_step_def store_call_def on_store_def bindE_def map_err_def interfered_def demo_agent_def Let_def)
     (simp add: demo_task_def demo_call_step_def zero_task_def zero_step_def ret_def)

definition demo_begin_updates :: "string \<Rightarrow> updates" where
  "demo_begin_updates op = [(''status'', VStepStatus StepRunning), (''attempts'', VNat 1),
        (''operation_id'', VStr op), (''started_at'', VTime 50), (''finished_at'', VNull), (''error_message'', VStr [])]"

lemma demo_begin_keys:
  "trim_space ''attempts'' = ''attempts''" "to_lower ''attempts'' = ''attempts''"
  "trim_space ''operation_id'' = ''operation_id''" "to_lower ''operation_id'' = ''operation_id''"
  "trim_space ''started_at'' = ''started_at''" "to_lower ''started_at'' = ''started_at''"
  "trim_space ''finished_at'' = ''finished_at''" "to_lower ''finished_at'' = ''finished_at''"
  "trim_space ''error_message'' = ''error_message''" "to_lower ''error_message'' = ''error_message''"
  by (simp_all add: trim_graphic graphic_def to_lower_def to_lower_char_def byte_of_def Let_def)

lemma demo_begin_columns:
  "resolve_column step_columns ''status'' = Some ScStatus" "resolve_column step_columns ''attempts'' = Some ScAttempts"
  "resolve_column step_columns ''operation_id'' = Some ScOperationID" "resolve_column step_columns ''started_at'' = Some ScStartedAt"
  "resolve_column step_columns ''finished_at'' = Some ScFinishedAt" "resolve_column step_columns ''error_message'' = Some ScErrorMessage"
  by (simp_all add: resolve_column_def demo_status_key demo_begin_keys step_columns_def)


text \<open>A fenced update of a step on a healthy database.\<close>

definition storable_step_updates :: "updates \<Rightarrow> bool" where
  "storable_step_updates us \<longleftrightarrow> assignable step_columns write_step_column zero_step us \<and>
     list_all (fits step_columns step_column_width) us"

lemma update_step_healthy:
  assumes w: "healthy w" and ids: "trim_space i \<noteq> []" "trim_space j \<noteq> []" "v \<noteq> 0"
    and us: "sanitized_updates us immutable_step_columns = us" "us \<noteq> []"
    and fence: "find (fenced_row c i v (d_clock w)) (d_tasks w) = Some t"
    and row: "\<exists>s \<in> set (d_steps w). s_id s = j \<and> s_task s = i"
  shows "update_step_fenced c i j v us w = (if storable_step_updates us
     then (Inr (), w\<lparr>d_steps := update_where (\<lambda>s. s_id s = j \<and> s_task s = i) (assign_step (stamped (d_clock w) us)) (d_steps w)\<rparr>)
     else (Inl (Driver DriverError), w))"
proof -
  have c: "database w = (Inr (), w)" "current_time w = (Inr (d_clock w), w)"
    using w by (simp_all add: database_def current_time_def gets_def bindE_def guardE_def ret_def healthy_def)
  have f: "first_task_or_conflict (fenced_row c i v (d_clock w)) w = (Inr t, w)"
    using first_task_healthy [OF w fence] by (simp add: first_task_or_conflict_def map_err_def)
  have n: "count_where (\<lambda>s. s_id s = j \<and> s_task s = i) (d_steps w) \<noteq> 0"
    using row by (auto simp: count_where_def filter_empty_conv)
  show ?thesis
  proof (cases "storable_step_updates us")
    case True
    let ?u = "w\<lparr>d_steps := update_where (\<lambda>s. s_id s = j \<and> s_task s = i) (assign_step (stamped (d_clock w) us)) (d_steps w)\<rparr>"
    have "transaction (bindE (first_task_or_conflict (fenced_row c i v (d_clock w))) (\<lambda>_.
          bindE (check_step_updates us) (\<lambda>_.
          bindE (update_steps (\<lambda>s. s_id s = j \<and> s_task s = i) (assign_step (stamped (d_clock w) us))) (\<lambda>n.
          guardE (n \<noteq> 0) RecordNotFound)))) w = (Inr (), ?u)"
      by (rule healthy_transaction)
        (use w f n True in \<open>simp_all add: bindE_def check_step_updates_def storable_step_updates_def guardE_def ret_def
           update_steps_def healthy_statement\<close>)
    then show ?thesis using c ids us True
      by (simp add: update_step_fenced_def bindE_def guardE_def ret_def Let_def)
  next
    case False
    have "transaction (bindE (first_task_or_conflict (fenced_row c i v (d_clock w))) (\<lambda>_.
          bindE (check_step_updates us) (\<lambda>_.
          bindE (update_steps (\<lambda>s. s_id s = j \<and> s_task s = i) (assign_step (stamped (d_clock w) us))) (\<lambda>n.
          guardE (n \<noteq> 0) RecordNotFound)))) w = (Inl (Driver DriverError), w)"
      using w f False [unfolded storable_step_updates_def] by (simp only: check_step_updates_def if_False guardE_def)
        (simp add: transaction_def atomic_def healthy_statement bindE_def ret_def fail_def)
    then show ?thesis using c ids us False
      by (simp add: update_step_fenced_def bindE_def guardE_def ret_def Let_def)
  qed
qed

lemma demo_begin_sanitized: "sanitized_updates (demo_begin_updates op) immutable_step_columns = demo_begin_updates op"
  by (simp add: sanitized_updates_def demo_begin_updates_def demo_status_key demo_begin_keys immutable_step_columns_def)

lemma rune_count_Nil: "rune_count [] = 0"
  by code_simp

lemma demo_begin_storable: "rune_count op \<le> 36 \<Longrightarrow> storable_step_updates (demo_begin_updates op)"
  by (simp add: storable_step_updates_def assignable_def demo_begin_updates_def assign_def demo_begin_columns
     write_step_column_def with_step_status_def with_nat_def with_str_def with_ptime_def fits_def step_column_width_def rune_count_Nil)

lemma demo_begin_update: "\<exists>w. update_step_fenced demo_ctx ''t1'' ''s1'' 2 (demo_begin_updates ''u'') (demo_agent_db\<lparr>d_uuid_next := 1\<rparr>) = (Inr (), w)"
proof -
  have r: "rune_count ''u'' \<le> 36" by code_simp
  have h: "healthy (demo_agent_db\<lparr>d_uuid_next := 1\<rparr>)" by (simp add: healthy_def demo_agent_db_def demo_world_def)
  have "find (fenced_row demo_ctx ''t1'' 2 (d_clock (demo_agent_db\<lparr>d_uuid_next := 1\<rparr>))) (d_tasks (demo_agent_db\<lparr>d_uuid_next := 1\<rparr>)) = Some demo_task"
    by (simp add: demo_agent_db_def fenced_row_def active_lease_fence_def worker_fencing_token_from_context_def demo_ctx_def demo_rows)
  from update_step_healthy [OF h _ _ _ demo_begin_sanitized _ this, of "''s1''" "''u''"] demo_begin_storable [OF r]
  show ?thesis by (simp add: demo_begin_updates_def demo_agent_db_def demo_call_step_def)
qed

lemma demo_begin: "\<exists>s w. begin_tool lib demo_ctx demo_task demo_call_step 2 ((demo_agent g)\<lparr>ag_graph := ''t1''\<rparr>) = (Inr ''u'', s) \<and>
    s = (demo_agent g)\<lparr>ag_graph := ''t1'', ag_db := w\<rparr>"
proof -
  obtain w where "update_step_fenced demo_ctx ''t1'' ''s1'' 2 (demo_begin_updates ''u'') (demo_agent_db\<lparr>d_uuid_next := 1\<rparr>) = (Inr (), w)"
    using demo_begin_update by blast
  moreover have "t_id demo_task = ''t1''" "s_id demo_call_step = ''s1''" "s_operation_id demo_call_step = []" "s_attempts demo_call_step = 0"
    by (simp_all add: demo_call_step_def demo_rows)
  moreover have "d_clock demo_agent_db = 50" "d_uuid demo_agent_db 0 = ''u''" "d_uuid_next demo_agent_db = 0"
    by (simp_all add: demo_agent_db_def demo_world_def demo_uuid_def)
  ultimately show ?thesis
    by (simp add: begin_tool_def store_call_def on_store_def bindE_def map_err_def interfered_def demo_agent_def
      clock_now_def gets_def new_uuid_def ret_def demo_begin_updates_def)
qed

text \<open>The sample step has the policy of the sample tool.\<close>

lemma demo_checked:
  assumes "fst (gw_tools gw (ag_gateway s)) = Inr [demo_tool]"
  shows "\<exists>g. check_tool demo_agent_library gw demo_call_step s = (Inr ([], demo_tool), s\<lparr>ag_gateway := g\<rparr>)"
proof -
  have a: "persisted_arguments demo_agent_library demo_call_step = Inr []" 
    by (simp add: persisted_arguments_def demo_call_step_def demo_agent_library_def mcp_library.defs demo_library_def
       decode_object_def decode_eval encode_eval equal_fold_def trim_graphic graphic_def byte_of_def)
  have t: "s_tool demo_call_step = ''srv.rm''" "td_name demo_tool = ''srv.rm''" "td_input_schema demo_tool = ''null''"
    by (simp_all add: demo_call_step_def demo_tool_def)
  have rx: "rx_compile demo_agent_library = (\<lambda>_. None)"
    by (simp add: demo_agent_library_def mcp_library.defs demo_library_def)
  show ?thesis using assms a t demo_arguments rx
    by (cases "gw_tools gw (ag_gateway s)")
      (auto simp add: check_tool_def from_sum_def bindE_def ret_def map_err_def gateway_call_def definition_by_name_def)
qed

lemma demo_policy: "\<not> tool_policy_changed demo_call_step demo_tool"
  by (simp add: tool_policy_changed_def demo_call_step_def demo_tool_def risk_text_def zero_step_def)

lemma approval_token_Inr:
  assumes "approval_token gw task step args s = (Inr tok, t)"
  shows "s_requires_approval step \<longrightarrow> (\<exists>ch iss g1 g2 g3. gw_create_approval gw (t_user task) (s_tool step) args g1 = (Inr ch, g2) \<and>
          gw_approve gw (t_user task) (ac_id ch) g2 = (Inr iss, g3) \<and> tok = ia_token iss)"
proof
  assume "s_requires_approval step"
  with assms obtain ch s1 iss where c: "map_err (wrapped ''create MCP approval'') (gateway_call (gw_create_approval gw (t_user task) (s_tool step) args)) s = (Inr ch, s1)"
    and i: "map_err (wrapped ''issue MCP approval'') (gateway_call (gw_approve gw (t_user task) (ac_id ch))) s1 = (Inr iss, t)"
    and tok: "tok = ia_token iss"
    by (auto simp: approval_token_def elim!: bindE_InrE)
  from c have "gw_create_approval gw (t_user task) (s_tool step) args (ag_gateway s) = (Inr ch, ag_gateway s1)"
    by (auto simp: map_err_def gateway_call_def split: prod.splits sum.splits)
  moreover from i have "gw_approve gw (t_user task) (ac_id ch) (ag_gateway s1) = (Inr iss, ag_gateway t)"
    by (auto simp: map_err_def gateway_call_def split: prod.splits sum.splits)
  ultimately show "\<exists>ch iss g1 g2 g3. gw_create_approval gw (t_user task) (s_tool step) args g1 = (Inr ch, g2) \<and>
          gw_approve gw (t_user task) (ac_id ch) g2 = (Inr iss, g3) \<and> tok = ia_token iss" using tok by blast
qed

section \<open>The authority behind a call\<close>


lemma demo_tool_call: "ag_log (snd (tool_node demo_agent_library demo_gateway demo_ctx ''t1'' (demo_agent (0 :: nat)))) \<noteq> []"
proof -
  let ?s = "(demo_agent (0 :: nat))\<lparr>ag_graph := ''t1''\<rparr>"
  obtain w where b: "begin_tool demo_agent_library demo_ctx demo_task demo_call_step 2 ?s = (Inr ''u'', ?s\<lparr>ag_db := w\<rparr>)"
    using demo_begin [of demo_agent_library "0 :: nat"] by auto
  obtain g where c: "check_tool demo_agent_library demo_gateway demo_call_step (?s\<lparr>ag_db := w\<rparr>) = (Inr ([], demo_tool), ?s\<lparr>ag_db := w, ag_gateway := g\<rparr>)"
    using demo_checked [of demo_gateway "?s\<lparr>ag_db := w\<rparr>"] by (auto simp: demo_gateway_def)
  let ?t = "?s\<lparr>ag_db := w, ag_gateway := g\<rparr>"
  obtain r s' where p: "perform_call demo_agent_library demo_gateway demo_ctx demo_task demo_call_step 2 ''u'' [] ?t = (r, s')"
    by fastforce
  have tok: "fst (approval_token demo_gateway demo_task demo_call_step [] ?t) = Inr ''tok''"
    by (simp add: approval_token_def demo_gateway_def bindE_def map_err_def gateway_call_def ret_def demo_call_step_def)
  have log: "ag_log s' \<noteq> []"
    by (rule perform_call_cases [OF p]) (use tok in simp_all)
  have "run_tool demo_agent_library demo_gateway demo_ctx demo_task demo_call_step 2 ?s = (r, s')"
    unfolding run_tool_def by (simp add: bindE_Inr [where m = "begin_tool demo_agent_library demo_ctx demo_task demo_call_step 2", OF b] tryE_bind c demo_policy p)
  moreover have "s_requires_approval demo_call_step \<longrightarrow> s_decision demo_call_step = DecisionApproved" "cx_version demo_ctx = 2"
    by (simp_all add: demo_call_step_def demo_ctx_def)
  ultimately have "snd (tool_node demo_agent_library demo_gateway demo_ctx ''t1'' (demo_agent (0 :: nat))) = s'"
    unfolding tool_node_def
    by (simp add: bindE_Inr [where m = "graph_task_id ''t1''", OF demo_graph_id]
      bindE_Inr [where m = "current_tool_step demo_agent_library ''t1''", OF demo_current] run_version_from_context_def)
      (cases r; simp add: bindE_def guardE_def ret_def)
  with log show ?thesis by simp
qed


section \<open>Uncertain outcomes\<close>

text \<open>The rows of a step have one of these statuses.\<close>

definition step_in :: "string \<Rightarrow> string \<Rightarrow> step_status set \<Rightarrow> world \<Rightarrow> bool" where
  "step_in i j S w \<longleftrightarrow> (\<forall>s \<in> set (d_steps w). s_id s = j \<and> s_task s = i \<longrightarrow> s_status s \<in> S)"

lemma step_in_mono: "step_in i j S w \<Longrightarrow> S \<subseteq> T \<Longrightarrow> step_in i j T w"
  by (auto simp: step_in_def)

lemma step_in_tables: "tables w' = tables w \<Longrightarrow> step_in i j S w' = step_in i j S w"
  by (simp add: step_in_def tables_def)

lemma check_step_updates_Inr: "check_step_updates us w = (Inr u, w') \<Longrightarrow> w' = w"
  by (auto simp: check_step_updates_def guardE_def ret_def fail_def split: if_splits)

lemma update_step_Inr:
  assumes "update_step_fenced c i j v us w = (Inr (), w')"
  shows "d_steps w' = update_where (\<lambda>s. s_id s = j \<and> s_task s = i)
    (assign_step (stamped (d_clock w) (sanitized_updates us immutable_step_columns))) (d_steps w)"
  using assms unfolding update_step_fenced_def Let_def
  by (auto elim!: bindE_InrE transaction_Inr dest!: database_Inr current_time_Inr update_steps_Inr(2)
      first_task_or_conflict_Inr check_step_updates_Inr simp: tables_def)

lemma mark_unknown_Inr:
  assumes "mark_execution_unknown_fenced c i j v m w = (Inr (), w')"
  shows "d_steps w' = update_where (running_tool_row i j)
    (unknown_step (d_clock w) (bounded_message unknown_default_message m)) (d_steps w)"
proof -
  have "d_steps u' = d_steps u" if "update_tasks P f u = (Inr n, u')" for P f u n and u' :: "'a world_scheme"
    using that unfolding update_tasks_def by (auto elim!: statement_cases)
  with assms show ?thesis unfolding mark_execution_unknown_fenced_def Let_def
    by (auto elim!: bindE_InrE transaction_Inr dest!: database_Inr current_time_Inr update_steps_Inr(2)
      first_task_or_conflict_Inr simp: tables_def)
qed

lemma check_task_updates_Inr: "check_task_updates us w = (Inr u, w') \<Longrightarrow> w' = w"
  by (auto simp: check_task_updates_def guardE_def ret_def fail_def split: if_splits)

lemma update_task_Inr:
  assumes "update_task_fenced c i v us w = (Inr (), w')"
  shows "d_steps w' = d_steps w"
  using assms unfolding update_task_fenced_def Let_def
  by (auto elim!: bindE_InrE transaction_Inr dest!: database_Inr current_time_Inr check_task_updates_Inr update_tasks_Inr(3))

lemma step_in_update:
  assumes "d_steps w' = update_where (\<lambda>s. s_id s = j \<and> s_task s = i) f (d_steps w)"
    and "\<And>s. s_status (f s) \<in> S" and "\<And>s. s_id (f s) = s_id s \<and> s_task (f s) = s_task s"
  shows "step_in i j S w'"
  using assms by (auto simp: step_in_def update_where_def)

text \<open>The columns of the updates a tool step receives.\<close>

lemma result_keys:
  "trim_space ''tool_output_json'' = ''tool_output_json''" "to_lower ''tool_output_json'' = ''tool_output_json''"
  "trim_space ''result_summary'' = ''result_summary''" "to_lower ''result_summary'' = ''result_summary''"
  "trim_space ''mcp_request_id'' = ''mcp_request_id''" "to_lower ''mcp_request_id'' = ''mcp_request_id''"
  by (simp_all add: trim_graphic graphic_def to_lower_def to_lower_char_def byte_of_def Let_def)

lemma result_columns:
  "resolve_column step_columns ''tool_output_json'' = Some ScToolOutputJSON"
  "resolve_column step_columns ''result_summary'' = Some ScResultSummary"
  "resolve_column step_columns ''mcp_request_id'' = Some ScMCPRequestID"
  "resolve_column step_columns ''updated_at'' = Some ScUpdatedAt"
  by (simp_all add: resolve_column_def demo_status_key result_keys step_columns_def)

lemmas step_assignment = sanitized_updates_def demo_status_key demo_begin_keys result_keys immutable_step_columns_def
  assign_step_def stamped_def assign_all_def assign_def demo_begin_columns result_columns write_step_column_def
  with_step_status_def with_nat_def with_str_def with_ptime_def with_time_def

lemma begun_running:
  assumes "begun c task step op w w'"
  shows "step_in (t_id task) (s_id step) {StepRunning} w'"
proof -
  from assms obtain now where "update_step_fenced c (t_id task) (s_id step) (cx_version c)
       [(''status'', VStepStatus StepRunning), (''attempts'', VNat (s_attempts step + 1)),
        (''operation_id'', VStr op), (''started_at'', VTime now), (''finished_at'', VNull),
        (''error_message'', VStr [])] w = (Inr (), w')"
    unfolding begun_def by blast
  from update_step_Inr [OF this] show ?thesis
    by (rule step_in_update) (simp_all add: step_assignment)
qed

lemma saved_succeeded:
  assumes "update_step_fenced c i j v (succeeded_updates rid out now) w = (Inr (), w')"
  shows "step_in i j {StepSucceeded} w'"
  using update_step_Inr [OF assms] by (rule step_in_update) (simp_all add: succeeded_updates_def step_assignment)

lemma store_call_quiet:
  assumes "store_call lib m s = (r, t)" and "ag_others s = []"
  shows "\<exists>x. m (ag_db s) = (x, ag_db t) \<and> r = map_sum (normalize_store_error lib) id x \<and> ag_others t = []"
  using assms by (cases "m (ag_db s)"; cases "fst (m (ag_db s))") (auto simp: store_call_def map_err_def on_store_def Let_def)

lemma rollbackD: "rollback m \<Longrightarrow> m w = (Inl e, w') \<Longrightarrow> tables w' = tables w"
  by (simp add: rollback_def)

lemma error_restores:
  "mark_execution_unknown_fenced c i j v m w = (Inl e, w') \<Longrightarrow> tables w' = tables w"
  "update_step_fenced c i j v us w = (Inl e, w') \<Longrightarrow> tables w' = tables w"
  "update_task_fenced c i v us w = (Inl e, w') \<Longrightarrow> tables w' = tables w"
  by (fact rollback_fenced(6) [THEN rollbackD], fact rollback_fenced(5) [THEN rollbackD],
      fact rollback_fenced(4) [THEN rollbackD])

text \<open>A call that went wrong: the step is still running, or its outcome is recorded as unknown.\<close>

lemma failed_call_status:
  assumes f: "fail_invoked_tool lib c task step v cause s = (r, t)" and q: "ag_others s = []"
    and unsafe: "\<not> tool_replay_safe step" and st: "step_in i (s_id step) {StepRunning} (ag_db s)"
  shows "step_in i (s_id step) {StepRunning, StepExecutionUnknown} (ag_db t) \<and> isl r"
proof -
  let ?m = "mark_execution_unknown_fenced c (t_id task) (s_id step) v (step_error cause)"
  have "bindE (map_err (wrapped ''persist uncertain MCP outcome'') (store_call lib ?m)) (\<lambda>_.
      fail (because KindNeedsReview (step_error cause))) s = (r, t)"
    using f unsafe by (simp add: fail_invoked_tool_def)
  then obtain x where x: "store_call lib ?m s = (x, t)" and r: "isl r"
    by (cases "store_call lib ?m s"; cases "fst (store_call lib ?m s)") (auto simp: bindE_def map_err_def fail_def)
  from store_call_quiet [OF x q] obtain y where y: "?m (ag_db s) = (y, ag_db t)" by blast
  show ?thesis
  proof (cases y)
    case (Inl e)
    then have "tables (ag_db t) = tables (ag_db s)" using y error_restores(1) by blast
    then show ?thesis using st r step_in_tables step_in_mono by blast
  next
    case (Inr u)
    have "d_steps (ag_db t) = update_where (running_tool_row (t_id task) (s_id step))
      (unknown_step (d_clock (ag_db s)) (bounded_message unknown_default_message (step_error cause))) (d_steps (ag_db s))"
      using mark_unknown_Inr y Inr by simp
    then show ?thesis using st r by (auto simp: step_in_def update_where_def unknown_step_def)
  qed
qed

definition good_reply :: "svc_error + gateway_reply option \<Rightarrow> bool" where
  "good_reply reply \<longleftrightarrow> (\<exists>x out. reply = Inr x \<and> invocation_output x = Inr out)"

lemma recorded_status:
  assumes rr: "record_result lib c task step v reply s = (r, t)" and q: "ag_others s = []"
    and unsafe: "\<not> tool_replay_safe step" and st: "step_in (t_id task) (s_id step) {StepRunning} (ag_db s)"
  shows "step_in (t_id task) (s_id step) ({StepRunning, StepExecutionUnknown} \<union> (if good_reply reply then {StepSucceeded} else {})) (ag_db t) \<and>
    (\<not> isl r \<longrightarrow> good_reply reply \<and> step_in (t_id task) (s_id step) {StepSucceeded} (ag_db t))"
proof (cases "good_reply reply")
  case False
  then obtain e where "fail_invoked_tool lib c task step v e s = (r, t)"
    using rr by (auto simp: record_result_def good_reply_def split: sum.splits)
  from failed_call_status [OF this q unsafe st] False show ?thesis by auto
next
  case True
  then obtain x rid out where o: "reply = Inr x" "invocation_output x = Inr (rid, out)" by (auto simp: good_reply_def)
  let ?m = "update_step_fenced c (t_id task) (s_id step) v (succeeded_updates rid out (d_clock (ag_db s)))"
  obtain y s1 where sv: "store_call lib ?m s = (y, s1)" by fastforce
  obtain z where z: "?m (ag_db s) = (z, ag_db s1)" "y = map_sum (normalize_store_error lib) id z" "ag_others s1 = []"
    using store_call_quiet [OF sv q] by blast
  show ?thesis
  proof (cases z)
    case (Inl e)
    then have "tables (ag_db s1) = tables (ag_db s)" using z(1) error_restores(2) by blast
    then have st1: "step_in (t_id task) (s_id step) {StepRunning} (ag_db s1)" using st step_in_tables by blast
    have "\<exists>e. fail_invoked_tool lib c task step v e s1 = (r, t)"
      using rr o sv z(2) Inl by (auto simp: record_result_def clock_now_def gets_def bindE_def tryE_def)
    then obtain e where "fail_invoked_tool lib c task step v e s1 = (r, t)" by blast
    from failed_call_status [OF this z(3) unsafe st1] show ?thesis
      using step_in_mono by (metis Un_upper1)
  next
    case (Inr u)
    have st1: "step_in (t_id task) (s_id step) {StepSucceeded} (ag_db s1)"
      using saved_succeeded z(1) Inr by simp
    let ?n = "update_task_fenced c (t_id task) v [(''status'', VTaskStatus TaskRunning), (''current_step_id'', VStr []),
       (''heartbeat_at'', VTime (d_clock (ag_db s)))]"
    have "store_call lib ?n s1 = (r, t)"
      using rr o sv z(2) Inr by (auto simp: record_result_def clock_now_def gets_def bindE_def tryE_def)
    from store_call_quiet [OF this z(3)] obtain k where k: "?n (ag_db s1) = (k, ag_db t)" by blast
    have "d_steps (ag_db t) = d_steps (ag_db s1)"
      using k update_task_Inr error_restores(3) by (cases k) (fastforce simp: tables_def)+
    then have "step_in (t_id task) (s_id step) {StepSucceeded} (ag_db t)" using st1 by (simp add: step_in_def)
    then show ?thesis using True step_in_mono by fastforce
  qed
qed



end
