(* ===== verification/AgentPlanning.thy ===== *)
theory AgentPlanning
  imports AgentToolCalls
begin

text \<open>
  The guarantees of planning and routing: what a planner's answer becomes, which step the graph
  runs next, and the lengths of the texts the service stores.
\<close>

section \<open>The steps of a plan\<close>

definition planned_call :: "'l agent_library_scheme \<Rightarrow> agent_task \<Rightarrow> tool_definition list \<Rightarrow> agent_step \<Rightarrow> bool" where
  "planned_call lib task tools st \<longleftrightarrow> (\<exists>d \<in> set tools. \<exists>args. s_kind st = KindTool \<and> s_tool st = td_name d \<and>
     \<not> tool_policy_changed st d \<and> validate_arguments (rx_compile lib) (td_input_schema d) args = None \<and>
     marshal (JObj args) = Some (s_args_json st) \<and> s_args_digest st = sha256_hex lib (s_args_json st) \<and>
     s_task st = t_id task \<and> s_user st = t_user task \<and> s_status st = StepPending \<and> s_decision st = DecisionPending)"

lemma definition_map_Some: "definition_map tools name = Some d \<Longrightarrow> d \<in> set tools \<and> td_name d = name"
  by (auto simp: definition_map_def dest!: map_of_SomeD)

lemma materialize_step_Inr:
  assumes "materialize_step lib task tools index p s = (Inr st, s')"
  shows "planned_call lib task tools st \<and> s_seq st = Suc index"
proof -
  from assms obtain d i json where d: "definition_map tools (trim_space (ps_tool p)) = Some d"
    and v: "validate_arguments (rx_compile lib) (td_input_schema d) (planned_arguments p) = None"
    and m: "marshal (JObj (planned_arguments p)) = Some json"
    and st: "st = tool_step lib task index i p d (planned_arguments p) json"
    unfolding materialize_step_def by (auto elim!: bindE_InrE split: option.splits)
  show ?thesis
    using definition_map_Some [OF d] v m
    by (auto simp: st planned_call_def tool_step_def tool_policy_changed_def intro!: bexI [of _ d] exI [of _ "planned_arguments p"])
qed

lemma materialize_steps_Inr:
  assumes "materialize_steps lib task tools index ps s = (Inr sts, s')"
  shows "length sts = length ps \<and> map s_seq sts = [Suc index..<Suc (index + length ps)] \<and>
    list_all (planned_call lib task tools) sts"
  using assms
proof (induction ps arbitrary: index s sts)
  case Nil
  then show ?case by simp
next
  case (Cons p ps)
  from Cons.prems obtain st rest s1 where st: "materialize_step lib task tools index p s = (Inr st, s1)"
    and rest: "materialize_steps lib task tools (Suc index) ps s1 = (Inr rest, s')" and sts: "sts = st # rest"
    by (auto elim!: bindE_InrE)
  from Cons.IH [OF rest] materialize_step_Inr [OF st] show ?case
    by (auto simp: sts upt_conv_Cons)
qed

lemma parse_plan_bound: "parse_plan_json lib content = Inr plan \<Longrightarrow> length (pd_steps plan) \<le> 8"
  by (auto simp: parse_plan_json_def max_plan_tool_steps_def split: sum.splits option.splits if_splits)

text \<open>C21: what a planner's answer becomes. Whatever text the planning model returned, the steps made of
  it are at most eight tool calls and one final step, numbered from one without gaps, of this task
  and its owner, none of them approved; and every call names a tool the hub offers, with that
  tool's own policy, arguments its schema accepts, and the digest of the arguments it stores.\<close>

theorem planned_steps_trusted:
  assumes "parse_plan_json lib content = Inr plan" and "materialize_plan lib task plan tools s = (Inr steps, s')"
  shows "length steps \<le> 9 \<and> map s_seq steps = [1..<Suc (length steps)] \<and>
    list_all (planned_call lib task tools) (butlast steps) \<and> steps \<noteq> [] \<and> s_kind (last steps) = KindFinal \<and>
    list_all (\<lambda>st. s_task st = t_id task \<and> s_user st = t_user task \<and> s_status st = StepPending \<and>
       s_decision st \<noteq> DecisionApproved) steps"
proof -
  from assms(2) obtain sts i s1 where m: "materialize_steps lib task tools 0 (pd_steps plan) s = (Inr sts, s1)"
    and steps: "steps = sts @ [final_step task (length (pd_steps plan)) i]"
    unfolding materialize_plan_def by (auto elim!: bindE_InrE)
  have "list_all (\<lambda>st. s_task st = t_id task \<and> s_user st = t_user task \<and> s_status st = StepPending \<and>
       s_decision st \<noteq> DecisionApproved) sts"
    using materialize_steps_Inr [OF m] by (auto simp: list_all_iff planned_call_def)
  then show ?thesis using materialize_steps_Inr [OF m] parse_plan_bound [OF assms(1)]
    by (auto simp: steps final_step_def zero_step_def)
qed

definition demo_plan_text :: string where
  "demo_plan_text = ''{\"steps\":[{\"tool_name\":\"srv.rm\",\"arguments\":{}}]}''"

definition demo_plan :: plan_document where
  "demo_plan = \<lparr>pd_summary = [], pd_steps = [\<lparr>ps_title = [], ps_instruction = [], ps_tool = ''srv.rm'', ps_arguments = Some []\<rparr>]\<rparr>"

lemma demo_plan_parsed: "parse_plan_json demo_agent_library demo_plan_text = Inr demo_plan"
  by code_simp

lemma demo_materialized:
  "\<exists>steps t. materialize_plan demo_agent_library demo_task demo_plan [demo_tool] (demo_agent (0 :: nat)) = (Inr steps, t) \<and> length steps = 2"
proof -
  have d: "definition_map [demo_tool] (trim_space ''srv.rm'') = Some demo_tool"
    by (simp add: definition_map_def demo_tool_def trim_graphic graphic_def byte_of_def)
  have v: "validate_arguments (rx_compile demo_agent_library) (td_input_schema demo_tool) [] = None"
    using demo_arguments by (simp add: demo_agent_library_def mcp_library.defs demo_library_def demo_tool_def)
  have m: "marshal (JObj []) = Some ''{}''" by (simp add: encode_eval)
  show ?thesis
    using d v m by (simp add: materialize_plan_def materialize_step_def demo_plan_def planned_arguments_def bindE_def ret_def new_uuid_def
        del: marshal.simps)
qed

lemma planned_steps_trusted_witness:
  "\<exists>steps. fst (materialize_plan demo_agent_library demo_task demo_plan [demo_tool] (demo_agent (0 :: nat))) = Inr steps \<and>
     map s_seq steps = [1, 2] \<and> list_all (planned_call demo_agent_library demo_task [demo_tool]) (butlast steps)"
proof -
  obtain steps t where m: "materialize_plan demo_agent_library demo_task demo_plan [demo_tool] (demo_agent (0 :: nat)) = (Inr steps, t)"
    and l: "length steps = 2" using demo_materialized by blast
  have "[1..<Suc 2] = [1, 2 :: nat]" by (simp add: upt_rec)
  then show ?thesis using planned_steps_trusted [OF demo_plan_parsed m] m l by simp
qed

section \<open>The next step\<close>

text \<open>A tool step that still has to run.\<close>

definition unfinished :: "agent_step \<Rightarrow> bool" where
  "unfinished s \<longleftrightarrow> s_kind s \<noteq> KindPlan \<and> s_kind s \<noteq> KindFinal \<and>
     s_status s \<noteq> StepSucceeded \<and> s_status s \<noteq> StepRejected \<and> s_status s \<noteq> StepSkipped"

lemma select_step_kept:
  "select_step (Some x) steps = (case find unfinished steps of
     Some s \<Rightarrow> if s_status s = StepFailed then Inl (plain_error (''tool step '' @ s_id s @ '' failed''))
               else if s_status s = StepExecutionUnknown then Inl (sentinel KindNeedsReview) else Inr (Some s)
   | None \<Rightarrow> Inr (Some x))"
proof (induction steps)
  case (Cons s ss)
  then show ?case
    by (cases "s_kind s = KindPlan"; cases "s_kind s = KindFinal"; cases "s_status s") (simp_all add: unfinished_def [of s])
qed simp

lemma select_step_none:
  "select_step None steps = (case find unfinished steps of
     Some s \<Rightarrow> if s_status s = StepFailed then Inl (plain_error (''tool step '' @ s_id s @ '' failed''))
               else if s_status s = StepExecutionUnknown then Inl (sentinel KindNeedsReview) else Inr (Some s)
   | None \<Rightarrow> Inr (find (\<lambda>s. s_kind s = KindFinal) steps))"
proof (induction steps)
  case (Cons s ss)
  then show ?case
    by (cases "s_kind s = KindPlan"; cases "s_kind s = KindFinal"; cases "s_status s")
      (simp_all add: unfinished_def [of s] select_step_kept split: option.split)
qed simp

text \<open>the loop of \<open>nextRoute\<close> computes what it is meant to: the first tool step that is not
  finished, an error when that step failed or its outcome is unknown, and the final step only
  when every tool step is finished.\<close>

lemma next_step_reference:
  "select_step None steps = (case find unfinished steps of
     Some s \<Rightarrow> if s_status s = StepFailed then Inl (plain_error (''tool step '' @ s_id s @ '' failed''))
               else if s_status s = StepExecutionUnknown then Inl (sentinel KindNeedsReview) else Inr (Some s)
   | None \<Rightarrow> Inr (find (\<lambda>s. s_kind s = KindFinal) steps))"
  by (rule select_step_none)

lemma from_sum_Inr: "from_sum x s = (Inr y, t) \<Longrightarrow> x = Inr y \<and> t = s"
  by (auto simp: from_sum_def split: sum.splits)

lemma next_route_Inr:
  assumes "next_route lib c i p s = (Inr rt, s')"
  obtains task steps step s1 where "store_call lib (get_task_by_id i) s = (Inr (task, steps), s1)"
    and "stopped_status (t_status task) = None" and "select_step None steps = Inr (Some step)" and "rt = route_of step"
    and "if p \<and> t_current_step task \<noteq> s_id step
      then store_call lib (update_task_fenced c (t_id task) (cx_version c) [(''current_step_id'', VStr (s_id step))]) s1 = (Inr (), s')
      else s' = s1"
proof -
  from assms obtain task steps s1 where g: "store_call lib (get_task_by_id i) s = (Inr (task, steps), s1)"
    and r: "(case stopped_status (t_status task) of
       Some e \<Rightarrow> fail e
     | None \<Rightarrow>
        bindE (from_sum (select_step None steps)) (\<lambda>found. case found of
          None \<Rightarrow> fail (because KindConflict ''task has no final step'')
        | Some step \<Rightarrow>
            if p \<and> t_current_step task \<noteq> s_id step then
              bindE (run_version_from_context c) (\<lambda>v.
              bindE (store_call lib (update_task_fenced c (t_id task) v [(''current_step_id'', VStr (s_id step))])) (\<lambda>_.
              ret (route_of step)))
            else ret (route_of step))) s1 = (Inr rt, s')"
    unfolding next_route_def by (auto elim!: bindE_InrE)
  from r have st: "stopped_status (t_status task) = None" by (auto split: option.splits)
  with r obtain step where sel: "select_step None steps = Inr (Some step)"
    and k: "(if p \<and> t_current_step task \<noteq> s_id step then
              bindE (run_version_from_context c) (\<lambda>v.
              bindE (store_call lib (update_task_fenced c (t_id task) v [(''current_step_id'', VStr (s_id step))])) (\<lambda>_.
              ret (route_of step)))
            else ret (route_of step)) s1 = (Inr rt, s')"
    by (auto elim!: bindE_InrE dest!: from_sum_Inr split: option.splits)
  show thesis
  proof (rule that [OF g st sel])
    show "rt = route_of step" using k by (auto elim!: bindE_InrE split: if_splits)
    show "if p \<and> t_current_step task \<noteq> s_id step
      then store_call lib (update_task_fenced c (t_id task) (cx_version c) [(''current_step_id'', VStr (s_id step))]) s1 = (Inr (), s')
      else s' = s1"
      using k by (auto simp: run_version_from_context_def elim!: bindE_InrE split: if_splits)
  qed
qed

definition step_done :: "agent_step \<Rightarrow> bool" where
  "step_done s \<longleftrightarrow> s_status s = StepSucceeded \<or> s_status s = StepRejected \<or> s_status s = StepSkipped"

lemma selected_step:
  assumes "select_step None steps = Inr (Some step)" and "\<forall>s \<in> set steps. s_kind s \<noteq> KindUnset"
  shows "(s_kind step = KindFinal \<and> step \<in> set steps \<and> (\<forall>s \<in> set steps. s_kind s = KindTool \<longrightarrow> step_done s)) \<or>
    (\<exists>before after. steps = before @ step # after \<and> s_kind step = KindTool \<and> \<not> step_done step \<and>
       s_status step \<noteq> StepFailed \<and> s_status step \<noteq> StepExecutionUnknown \<and>
       (\<forall>s \<in> set before. s_kind s = KindTool \<longrightarrow> step_done s))"
proof (cases "find unfinished steps")
  case None
  then have "find (\<lambda>s. s_kind s = KindFinal) steps = Some step" using assms(1) by (simp add: select_step_none)
  moreover have "\<forall>s \<in> set steps. s_kind s = KindTool \<longrightarrow> step_done s"
    using None by (auto simp: find_None_iff unfinished_def step_done_def)
  ultimately show ?thesis by (auto dest!: find_SomeD)
next
  case (Some x)
  then have x: "x = step" "s_status step \<noteq> StepFailed" "s_status step \<noteq> StepExecutionUnknown"
    using assms(1) by (auto simp: select_step_none split: if_splits)
  from Some x(1) obtain before after where sp: "steps = before @ step # after"
    and bf: "\<forall>s \<in> set before. \<not> unfinished s" and u: "unfinished step"
    by (auto simp: find_Some_iff) (metis id_take_nth_drop in_set_conv_nth length_take min.absorb4 nth_take)
  have "s_kind step = KindTool" using assms(2) u sp by (cases "s_kind step") (auto simp: unfinished_def)
  then show ?thesis using bf u x
    by (intro disjI2 exI [of _ before] exI [of _ after]) (auto simp: sp unfinished_def step_done_def)
qed

text \<open>tool steps run in their order and behind their approval. When the graph goes to the final
  node, every tool step of the task is finished; otherwise it goes to the first unfinished tool
  step, which has neither failed nor an unknown outcome, and to the approval gate exactly when
  that step needs an approval it does not have. A stopped task is routed nowhere.\<close>

lemma steps_run_in_order:
  assumes "next_route lib c i p s = (Inr rt, s')" and "\<forall>st \<in> set (d_steps (ag_db (interfered s))). s_kind st \<noteq> KindUnset"
  shows "\<exists>task. task_row i (ag_db (interfered s)) = Some task \<and>
    t_status task \<notin> {TaskCancelled, TaskRejected, TaskSucceeded, TaskRequiresReview} \<and>
    (if rt = RouteFinalize
     then \<forall>st \<in> set (steps_of i (ag_db (interfered s))). s_kind st = KindTool \<longrightarrow> step_done st
     else \<exists>before step after. steps_of i (ag_db (interfered s)) = before @ step # after \<and> s_kind step = KindTool \<and>
       \<not> step_done step \<and> s_status step \<noteq> StepFailed \<and> s_status step \<noteq> StepExecutionUnknown \<and>
       (\<forall>st \<in> set before. s_kind st = KindTool \<longrightarrow> step_done st) \<and>
       (rt = RouteApproval \<longleftrightarrow> s_requires_approval step \<and> s_decision step \<noteq> DecisionApproved))"
  using assms(1)
proof (rule next_route_Inr)
  fix task steps step and s1 :: "'a agent_state"
  assume g: "store_call lib (get_task_by_id i) s = (Inr (task, steps), s1)" and st: "stopped_status (t_status task) = None"
    and sel: "select_step None steps = Inr (Some step)" and rt: "rt = route_of step"
  have ld: "task_row i (ag_db (interfered s)) = Some task" "steps = steps_of i (ag_db (interfered s))"
    using get_task_by_id_Inr [OF store_call_Inr [OF g]] by auto
  have k: "\<forall>st \<in> set steps. s_kind st \<noteq> KindUnset"
    using assms(2) by (simp add: ld(2) steps_of_def order_steps_def)
  have "t_status task \<notin> {TaskCancelled, TaskRejected, TaskSucceeded, TaskRequiresReview}"
    using st by (auto simp: stopped_status_def)
  with selected_step [OF sel k] ld show ?thesis
    by (auto simp: rt route_of_def)
qed

lemma demo_route: "next_route demo_agent_library demo_ctx ''t1'' False (demo_agent (0 :: nat)) = (Inr RouteTool, demo_agent 0)"
proof -
  have "store_call demo_agent_library (get_task_by_id ''t1'') (demo_agent (0 :: nat)) = (Inr (demo_task, [demo_call_step]), demo_agent 0)"
    using demo_load by (simp add: store_call_def map_err_def on_store_def Let_def demo_agent_def)
  moreover have "stopped_status (t_status demo_task) = None" "select_step None [demo_call_step] = Inr (Some demo_call_step)"
      "route_of demo_call_step = RouteTool"
    by (simp_all add: stopped_status_def demo_call_step_def route_of_def demo_rows)
  ultimately show ?thesis by (simp add: next_route_def bindE_def from_sum_def ret_def)
qed

lemma steps_run_in_order_witness:
  "\<exists>before step after. steps_of ''t1'' demo_agent_db = before @ step # after \<and> s_kind step = KindTool \<and> \<not> step_done step"
proof -
  have "\<forall>st \<in> set (d_steps (ag_db (interfered (demo_agent (0 :: nat))))). s_kind st \<noteq> KindUnset"
    by (simp add: demo_agent_def demo_agent_db_def demo_call_step_def)
  from steps_run_in_order [OF demo_route this] show ?thesis by (auto simp: demo_agent_def)
qed

section \<open>The lengths of stored texts\<close>

lemma shorten_cut:
  assumes "n < rune_count v" and "0 < n"
  shows "shorten v n = string_of_runes (take n (runes v) @ [8230]) \<and> rune_count (shorten v n) = Suc n"
proof -
  have "v \<noteq> []" using assms(1) by (cases v) (simp_all add: rune_count_Nil)
  then have "shorten v n = string_of_runes (take n (runes v) @ [8230])"
    using assms by (simp add: shorten_def ellipsis_def string_of_runes_def)
  moreover have "\<forall>r \<in> set (take n (runes v) @ [8230]). valid_rune r"
    using runes_valid [of _ v] by (auto dest: in_set_takeD) (simp add: valid_rune_def)
  ultimately show ?thesis using assms(1) by (simp add: length_runes)
qed

lemma shorten_too_long: "n < rune_count v \<Longrightarrow> 0 < n \<Longrightarrow> n < rune_count (shorten v n)"
  using shorten_cut [THEN conjunct2] by simp

lemma shorten_kept: "rune_count v \<le> n \<Longrightarrow> shorten v n = v"
  by (auto simp: shorten_def rune_count_def)

text \<open>The service's \<open>truncateRunes\<close> is not a bound. A text of at most \<open>n\<close> characters is kept; a
  longer one is cut to its first \<open>n\<close> and given an ellipsis, which makes \<open>n + 1\<close> of them.\<close>

lemma shortened_length:
  "rune_count (shorten v n) = (if n = 0 then 0 else if rune_count v \<le> n then rune_count v else Suc n)"
  using shorten_cut [of n v] shorten_kept [of v n] by (auto simp: shorten_def rune_count_Nil)

text \<open>So a request identifier that is too long for its column, which the limit was chosen for, is
  refused by the store, and so is an error message.\<close>

lemma too_long_refused:
  assumes "(k, VStr x) \<in> set (sanitized_updates us immutable_step_columns)" and "resolve_column step_columns k = Some col"
    and "step_column_width col = Some n" and "n < rune_count x"
  shows "isl (fst (update_step_fenced c i j v us w))"
proof (cases "update_step_fenced c i j v us w")
  case (Pair r w')
  have "\<not> fits step_columns step_column_width (k, VStr x)" using assms(2-4) by (simp add: fits_def)
  then have bad: "\<not> list_all (fits step_columns step_column_width) (sanitized_updates us immutable_step_columns)"
    using assms(1) by (auto simp: list_all_iff)
  have "r \<noteq> Inr ()"
  proof
    assume "r = Inr ()"
    then have "update_step_fenced c i j v us w = (Inr (), w')" using Pair by simp
    then show False unfolding update_step_fenced_def Let_def using bad
      by (auto elim!: bindE_InrE transaction_Inr simp: check_step_updates_def)
  qed
  then show ?thesis using Pair by (cases r) auto
qed

lemma long_request_refused:
  assumes "36 < rune_count rid"
  shows "isl (fst (update_step_fenced c i j v (succeeded_updates rid out now) w))"
proof (rule too_long_refused [where k = "''mcp_request_id''" and x = "shorten rid 36" and col = ScMCPRequestID and n = 36])
  show "(''mcp_request_id'', VStr (shorten rid 36)) \<in> set (sanitized_updates (succeeded_updates rid out now) immutable_step_columns)"
    by (simp add: succeeded_updates_def max_mcp_request_id_runes_def step_assignment)
  show "36 < rune_count (shorten rid 36)" using assms shorten_too_long [of 36 rid] by simp
qed (simp_all add: result_columns step_column_width_def)

text \<open>C35: a request identifier of more than 36 characters makes a call that succeeded an uncertain one.
  The comment on \<open>maxMCPRequestIDRunes\<close> promises the opposite; but the identifier cut to 36
  characters has 37 with its ellipsis, one more than its column holds. So the result is never
  saved, the node reports an error, and a tool that cannot be replayed is left running or sent to
  review.\<close>

theorem long_request_id_uncertain:
  assumes "record_result lib c task step v (Inr (Some reply)) s = (r, t)" and "36 < rune_count (gr_request_id reply)"
    and "ag_others s = []" and "\<not> tool_replay_safe step" and "step_in (t_id task) (s_id step) {StepRunning} (ag_db s)"
  shows "isl r \<and> step_in (t_id task) (s_id step) {StepRunning, StepExecutionUnknown} (ag_db t)"
proof (cases "good_reply (Inr (Some reply))")
  case False
  with recorded_status [OF assms(1,3,4,5)] show ?thesis by auto
next
  case True
  then obtain rid out where o: "invocation_output (Some reply) = Inr (rid, out)" by (auto simp: good_reply_def)
  then have rid: "rid = gr_request_id reply" by (auto simp: invocation_output_def split: option.splits if_splits)
  let ?m = "update_step_fenced c (t_id task) (s_id step) v (succeeded_updates rid out (d_clock (ag_db s)))"
  obtain y s1 where sv: "store_call lib ?m s = (y, s1)" by fastforce
  obtain z where z: "?m (ag_db s) = (z, ag_db s1)" "y = map_sum (normalize_store_error lib) id z" "ag_others s1 = []"
    using store_call_quiet [OF sv assms(3)] by blast
  have "isl z" using long_request_refused [of rid] assms(2) rid z(1) by (metis fst_conv)
  then obtain e where e: "z = Inl e" by (cases z) auto
  then have "tables (ag_db s1) = tables (ag_db s)" using z(1) error_restores(2) by blast
  then have st1: "step_in (t_id task) (s_id step) {StepRunning} (ag_db s1)" using assms(5) step_in_tables by blast
  have "\<exists>e. fail_invoked_tool lib c task step v e s1 = (r, t)"
    using assms(1) o sv z(2) e by (auto simp: record_result_def clock_now_def gets_def bindE_def tryE_def)
  then obtain e where "fail_invoked_tool lib c task step v e s1 = (r, t)" by blast
  from failed_call_status [OF this z(3) assms(4) st1] show ?thesis by blast
qed

lemma long_error_refused:
  assumes "1000 < rune_count (redact_text (svc_text cause))"
  shows "isl (fst (update_step_fenced c i j v
    [(''status'', VStepStatus StepFailed), (''finished_at'', VTime now), (''error_message'', VStr (step_error cause))] w))"
proof (rule too_long_refused [where k = "''error_message''" and x = "step_error cause" and col = ScErrorMessage and n = 1000])
  show "1000 < rune_count (step_error cause)" using assms shorten_too_long [of 1000 "redact_text (svc_text cause)"] by (simp add: step_error_def)
qed (simp_all add: demo_begin_columns step_column_width_def step_assignment)

lemma long_task_error_refused:
  assumes "1000 < rune_count x" and "(''error_message'', VStr x) \<in> set (sanitized_updates us immutable_task_columns)"
  shows "isl (fst (update_task_fenced c i v us w))"
proof (cases "update_task_fenced c i v us w")
  case (Pair r w')
  have "resolve_column task_columns ''error_message'' = Some TcErrorMessage"
    by (simp add: resolve_column_def demo_begin_keys task_columns_def)
  then have "\<not> fits task_columns task_column_width (''error_message'', VStr x)"
    using assms(1) by (simp add: fits_def task_column_width_def)
  then have bad: "\<not> list_all (fits task_columns task_column_width) (sanitized_updates us immutable_task_columns)"
    using assms(2) by (auto simp: list_all_iff)
  have "r \<noteq> Inr ()"
  proof
    assume "r = Inr ()"
    then have "update_task_fenced c i v us w = (Inr (), w')" using Pair by simp
    then show False unfolding update_task_fenced_def Let_def using bad
      by (auto elim!: bindE_InrE simp: check_task_updates_def)
  qed
  then show ?thesis using Pair by (cases r) auto
qed

lemma on_store_quiet:
  "on_store m s = (r, t) \<Longrightarrow> ag_others s = [] \<Longrightarrow> m (ag_db s) = (r, ag_db t) \<and> ag_others t = []"
  by (auto simp: on_store_def Let_def split: prod.splits)

text \<open>a long error is not recorded at all. When the (redacted) text of the error that stopped a
  tool step has more than 1000 characters, both updates of \<open>failToolStep\<close> are refused, their
  errors are dropped, and the rows stay as they were: the step running and the task running.\<close>

lemma long_error_not_recorded:
  assumes "fail_tool_step c task step v cause s = (r, t)" and "1000 < rune_count (redact_text (svc_text cause))"
    and "ag_others s = []"
  shows "r = Inl cause \<and> tables (ag_db t) = tables (ag_db s)"
proof -
  let ?now = "d_clock (ag_db s)"
  let ?m = "update_step_fenced c (t_id task) (s_id step) v
    [(''status'', VStepStatus StepFailed), (''finished_at'', VTime ?now), (''error_message'', VStr (step_error cause))]"
  let ?us = "[(''status'', VTaskStatus TaskFailed), (''finished_at'', VTime ?now),
         (''error_message'', VStr (step_error cause)), (''lease_owner'', VStr []), (''lease_until'', VNull)]"
  let ?n = "update_task_fenced c (t_id task) v ?us"
  obtain x s1 where s1: "on_store ?m s = (x, s1)" by fastforce
  obtain y s2 where s2: "on_store ?n s1 = (y, s2)" by fastforce
  from s1 assms(3) have m: "?m (ag_db s) = (x, ag_db s1)" "ag_others s1 = []" using on_store_quiet by blast+
  from s2 m(2) have n: "?n (ag_db s1) = (y, ag_db s2)" using on_store_quiet by blast
  have "isl x" using long_error_refused [OF assms(2)] m(1) by (metis fst_conv)
  then have "tables (ag_db s1) = tables (ag_db s)" using m(1) error_restores(2) by (cases x) auto
  moreover have "isl y"
  proof -
    have "1000 < rune_count (step_error cause)"
      using assms(2) shorten_too_long [of 1000 "redact_text (svc_text cause)"] by (simp add: step_error_def)
    moreover have "(''error_message'', VStr (step_error cause)) \<in> set (sanitized_updates ?us immutable_task_columns)"
      by (simp add: sanitized_updates_def demo_begin_keys immutable_task_columns_def)
    ultimately show ?thesis using long_task_error_refused n by (metis fst_conv)
  qed
  then have "tables (ag_db s2) = tables (ag_db s1)" using n error_restores(3) by (cases y) auto
  moreover have "r = Inl cause \<and> t = s2"
    using assms(1) s1 s2 by (simp add: fail_tool_step_def clock_now_def gets_def bindE_def ignoring_def fail_def)
  ultimately show ?thesis by simp
qed

text \<open>A text without words is not changed by redaction.\<close>

lemma dot_rune: "seg_rune ''.'' = 46"
  by code_simp

lemma dot_step: "step_over P \<lparr>mt_prev = prev, mt_rest = ''.'' # segs, mt_caps = caps\<rparr> =
  (if P 46 then [\<lparr>mt_prev = Some ''.'', mt_rest = segs, mt_caps = caps\<rparr>] else [])"
  by (simp add: step_over_def dot_rune)

lemma dot_matches:
  "matches private_key_pattern \<lparr>mt_prev = prev, mt_rest = ''.'' # segs, mt_caps = []\<rparr> = []"
  "matches bearer_text_pattern \<lparr>mt_prev = prev, mt_rest = ''.'' # segs, mt_caps = []\<rparr> = []"
  "matches sensitive_text_pattern \<lparr>mt_prev = prev, mt_rest = ''.'' # segs, mt_caps = []\<rparr> = []"
  by (simp_all add: private_key_pattern_def bearer_text_pattern_def sensitive_text_pattern_def dot_step credential_words_def
    fold_rune_def byte_of_def)

lemma dots_redacted: "redact_text (replicate n (CHR ''.'')) = replicate n (CHR ''.'')"
proof -
  have seg: "segments (replicate n (CHR ''.'')) = replicate n ''.''"
    by (simp add: segments_ascii ascii_def list_all_iff byte_of_def map_replicate_const)
  have drop: "drop k (replicate n ''.'') = ''.'' # drop (Suc k) (replicate n ''.'')" if "k < length (replicate n ''.'')" for k
  proof -
    have "n - k = Suc (n - Suc k)" using that by simp
    then show ?thesis by simp
  qed
  have "replace_from p repl None (replicate n ''.'') = replicate n (CHR ''.'')"
    if "\<And>prev segs. matches p \<lparr>mt_prev = prev, mt_rest = ''.'' # segs, mt_caps = []\<rparr> = []" for p repl
  proof -
    have "replace_from p repl None (replicate n ''.'') = concat (replicate n ''.'')"
      by (rule replace_from_none) (subst drop, assumption, rule that)
    then show ?thesis by (simp add: concat_replicate_trivial)
  qed
  from this [OF dot_matches(1)] this [OF dot_matches(2)] this [OF dot_matches(3)] show ?thesis
    by (simp add: redact_text_def replace_all_def seg)
qed

lemma dots_count: "rune_count (replicate n (CHR ''.'')) = n"
  by (simp add: rune_count_def segments_ascii ascii_def list_all_iff byte_of_def)
lemma long_error_not_recorded_witness:
  "tables (ag_db (snd (fail_tool_step demo_ctx demo_task demo_call_step 2
     (SvcError KindOther (replicate 1001 (CHR ''.''))) (demo_agent (0 :: nat))))) = tables demo_agent_db"
proof -
  let ?e = "SvcError KindOther (replicate 1001 (CHR ''.''))"
  have "1000 < rune_count (redact_text (svc_text ?e))"
    using dots_redacted [of 1001] dots_count [of 1001] by (simp only: svc_text.simps)
  moreover have o: "ag_others (demo_agent (0 :: nat)) = []" and db: "ag_db (demo_agent (0 :: nat)) = demo_agent_db"
    by (simp_all only: demo_agent_def agent_state.select_convs)
  ultimately show ?thesis
    using long_error_not_recorded [OF prod.collapse [symmetric], of ?e "demo_agent (0 :: nat)" demo_ctx demo_task demo_call_step 2]
    unfolding db by blast
qed

definition demo_reply :: gateway_reply where
  "demo_reply = \<lparr>gr_request_id = replicate 37 (CHR ''.''), gr_result = Some \<lparr>res_is_error = False, res_contents = [],
     res_structured = False, res_json = Some ''{}''\<rparr>\<rparr>"

lemma long_request_id_uncertain_witness:
  "isl (fst (record_result demo_agent_library demo_ctx demo_task demo_call_step 2 (Inr (Some demo_reply))
     ((demo_agent (0 :: nat))\<lparr>ag_db := demo_agent_db\<lparr>d_steps := [demo_call_step\<lparr>s_status := StepRunning\<rparr>]\<rparr>\<rparr>)))"
proof -
  let ?s = "(demo_agent (0 :: nat))\<lparr>ag_db := demo_agent_db\<lparr>d_steps := [demo_call_step\<lparr>s_status := StepRunning\<rparr>]\<rparr>\<rparr>"
  have "36 < rune_count (gr_request_id demo_reply)" by (simp only: demo_reply_def gateway_reply.select_convs dots_count)
  moreover have "ag_others ?s = []" "\<not> tool_replay_safe demo_call_step"
    by (simp_all add: demo_agent_def tool_replay_safe_def demo_call_step_def)
  moreover have "step_in (t_id demo_task) (s_id demo_call_step) {StepRunning} (ag_db ?s)"
    by (simp add: step_in_def)
  ultimately show ?thesis using long_request_id_uncertain [OF prod.collapse [symmetric]] by blast
qed

end
