(* ===== verification/GoTrim.thy ===== *)
theory GoTrim
  imports GoStrings
begin

text \<open>
  \<open>strings.TrimSpace\<close> and \<open>strings.ToLower\<close> on arbitrary bytes: trimming twice is trimming
  once, and the two commute. Both rest on how a string is cut into runes when its end is cut off
  or its letters are lowered.
\<close>

lemma decode_width_le: "snd (decode_bytes bs) \<le> length bs"
  by (cases bs rule: decode_bytes.cases) (auto split: if_splits)

lemma decode_width_pos: "bs \<noteq> [] \<Longrightarrow> 0 < snd (decode_bytes bs)"
  by (cases bs rule: decode_bytes.cases) (auto split: if_splits)

lemma cut_branches:
  "snd (if A then (x, 1) else if B then (y, 2) else if C then (z, 3) else if D then (u, 4) else (e :: 'a, 1 :: nat)) \<le> 3 \<Longrightarrow>
    (if A then (x, 1) else if B then (y, 2) else if C then (z, 3) else (e, 1)) =
    (if A then (x, 1) else if B then (y, 2) else if C then (z, 3) else if D then (u, 4) else (e, 1))"
  "snd (if A then (x, 1) else if B then (y, 2) else if C then (z, 3) else if D then (u, 4) else (e :: 'a, 1 :: nat)) \<le> 2 \<Longrightarrow>
    (if A then (x, 1) else if B then (y, 2) else (e, 1)) =
    (if A then (x, 1) else if B then (y, 2) else if C then (z, 3) else if D then (u, 4) else (e, 1))"
  "snd (if A then (x, 1) else if B then (y, 2) else if C then (z, 3) else (e :: 'a, 1 :: nat)) \<le> 2 \<Longrightarrow>
    (if A then (x, 1) else if B then (y, 2) else (e, 1)) =
    (if A then (x, 1) else if B then (y, 2) else if C then (z, 3) else (e, 1))"
  by (auto split: if_split_asm)

lemma decode_take:
  assumes "snd (decode_bytes bs) \<le> n"
  shows "decode_bytes (take n bs) = decode_bytes bs"
proof -
  consider "n = 0" | "n = 1" | "n = 2" | "n = 3" | "4 \<le> n" by linarith
  then show ?thesis
  proof cases
    case 1
    then show ?thesis using assms decode_width_pos [of bs] by (cases bs) auto
  next
    case 2
    then show ?thesis using assms by (cases bs rule: decode_bytes.cases) (auto split: if_splits)
  next
    case 3
    show ?thesis
    proof (cases bs rule: decode_bytes.cases)
      case (1 a b c d rest)
      have t: "take 2 (a # b # c # d # rest) = [a, b]" by (simp add: numeral_2_eq_2)
      from assms show ?thesis unfolding 1 3 t decode_bytes.simps by (rule cut_branches(2))
    next
      case (2 a b c)
      have t: "take 2 ([a, b, c]) = [a, b]" by (simp add: numeral_2_eq_2)
      from assms show ?thesis unfolding 2 3 t decode_bytes.simps by (rule cut_branches(3))
    qed (simp_all add: 3)
  next
    case 4
    show ?thesis
    proof (cases bs rule: decode_bytes.cases)
      case (1 a b c d rest)
      have t: "take 3 (a # b # c # d # rest) = [a, b, c]" by (simp add: numeral_3_eq_3)
      from assms show ?thesis unfolding 1 4 t decode_bytes.simps by (rule cut_branches(1))
    qed (simp_all add: 4)
  next
    case 5
    then have "take 4 (take n bs) = take 4 bs" by (simp add: min_def)
    then show ?thesis using decode_bytes_take4 by metis
  qed
qed

lemma decode_rune_take: "snd (decode_rune s) \<le> n \<Longrightarrow> decode_rune (take n s) = decode_rune s"
  using decode_take [of "map byte_of s" n] by (simp add: decode_rune_all take_map)

lemma decode_rune_prefix:
  assumes "snd (decode_rune s) \<le> length t" and "s = t @ u"
  shows "decode_rune t = decode_rune s"
  using decode_rune_take [OF assms(1)] assms(2) by simp

lemma segments_prefix: "segments (concat (take m (segments s))) = take m (segments s)"
proof (induction s arbitrary: m rule: segments.induct)
  case (2 c cs)
  let ?k = "snd (decode_rune (c # cs)) - 1"
  have w: "0 < snd (decode_rune (c # cs))" "snd (decode_rune (c # cs)) \<le> Suc (length cs)"
    using decode_width_pos [of "map byte_of (c # cs)"] decode_width_le [of "map byte_of (c # cs)"] by (simp_all add: decode_rune_all)
  show ?case
  proof (cases m)
    case (Suc j)
    let ?r = "concat (take j (segments (drop ?k cs)))"
    have rest: "drop ?k cs = ?r @ concat (drop j (segments (drop ?k cs)))"
      using concat_segments [of "drop ?k cs"] by (metis append_take_drop_id concat_append)
    let ?t = "c # take ?k cs @ ?r"
    have s: "c # cs = ?t @ concat (drop j (segments (drop ?k cs)))"
      using rest by (metis append.assoc append_Cons append_take_drop_id)
    have len: "length (take ?k cs) = ?k" using w by simp
    have "decode_rune ?t = decode_rune (c # cs)"
      using s by (intro decode_rune_prefix) (use w len in \<open>simp_all\<close>)
    then have "segments ?t = (c # take ?k cs) # segments ?r" using len by (simp add: Let_def)
    then show ?thesis using "2.IH" [OF refl] Suc by (simp add: Let_def)
  qed simp
qed simp

lemma segments_suffix: "segments (concat (drop m (segments s))) = drop m (segments s)"
proof (induction s arbitrary: m rule: segments.induct)
  case (2 c cs)
  show ?case
  proof (cases m)
    case 0
    then show ?thesis by (simp only: drop_0 concat_segments)
  next
    case (Suc j)
    then show ?thesis using "2.IH" [OF refl, of j] by (simp add: Let_def)
  qed
qed simp

lemma dropWhile_drop: "\<exists>m. dropWhile P xs = drop m xs"
  by (metis dropWhile_eq_drop)

lemma trim_segments_eq:
  "\<exists>m n. trim_segments xs = take n (drop m xs)"
proof -
  obtain m where m: "dropWhile (\<lambda>seg. is_space (fst (decode_rune seg))) xs = drop m xs" using dropWhile_drop by blast
  obtain n where "dropWhile (\<lambda>seg. is_space (fst (decode_rune seg))) (rev (drop m xs)) = drop n (rev (drop m xs))"
    using dropWhile_drop by blast
  then show ?thesis unfolding trim_segments_def Let_def m by (metis drop_rev rev_rev_ident)
qed

lemma segments_trim: "segments (trim_space s) = trim_segments (segments s)"
proof -
  obtain m n where t: "trim_segments (segments s) = take n (drop m (segments s))" using trim_segments_eq by blast
  show ?thesis unfolding trim_space_def t
    using segments_prefix [of n "concat (drop m (segments s))"] by (simp add: segments_suffix)
qed

lemma dropWhile_rev_dropWhile:
  assumes "dropWhile P a = a"
  shows "dropWhile P (rev (dropWhile P (rev a))) = rev (dropWhile P (rev a))"
proof (cases a)
  case Nil
  then show ?thesis by simp
next
  case (Cons x xs)
  have np: "\<not> P x"
  proof
    assume "P x"
    then have "length (dropWhile P a) < length a" using Cons by (simp add: le_imp_less_Suc length_dropWhile_le)
    then show False using assms by simp
  qed
  obtain zs where z: "rev a = zs @ dropWhile P (rev a)" by (metis takeWhile_dropWhile_id)
  then have "a = rev (dropWhile P (rev a)) @ rev zs" by (metis rev_append rev_rev_ident)
  then obtain b where b: "b = rev (dropWhile P (rev a))" "a = b @ rev zs" by blast
  have "dropWhile P b = b" using np Cons b(2) by (cases b) auto
  then show ?thesis unfolding b(1) .
qed

lemma trim_segments_idem: "trim_segments (trim_segments xs) = trim_segments xs"
  unfolding trim_segments_def Let_def by (subst dropWhile_rev_dropWhile) simp_all

lemma trim_space_idem [simp]: "trim_space (trim_space s) = trim_space s"
  using segments_trim [of s] trim_segments_idem [of "segments s"] by (simp add: trim_space_def)

section \<open>Lowering\<close>

definition lower_byte :: "nat \<Rightarrow> nat" where
  "lower_byte b = (if 65 \<le> b \<and> b \<le> 90 then b + 32 else b)"

lemma byte_of_lower: "byte_of (to_lower_char c) = lower_byte (byte_of c)"
  by (simp add: to_lower_char_def lower_byte_def Let_def)

lemma lower_byte_high: "128 \<le> b \<Longrightarrow> lower_byte b = b"
  by (simp add: lower_byte_def)

lemma lower_byte_low: "lower_byte b < 128 \<longleftrightarrow> b < 128"
  by (auto simp: lower_byte_def)

text \<open>A byte below 128 continues no rune.\<close>

definition cont :: "nat \<Rightarrow> nat \<Rightarrow> nat \<Rightarrow> bool" where
  "cont lo hi b \<longleftrightarrow> 128 \<le> b \<and> lo \<le> b \<and> b < hi"

lemma cont_lower: "cont lo hi (lower_byte b) \<longleftrightarrow> cont lo hi b"
  using lower_byte_high [of b] lower_byte_low [of b] by (cases "b < 128") (auto simp: cont_def)

lemma cont_value: "cont lo hi b \<Longrightarrow> lower_byte b = b"
  by (simp add: cont_def lower_byte_high)

lemma conts:
  fixes a b :: nat
  shows
  "cont_byte b = cont 128 192 b"
  "(if a = 224 then 160 \<le> b \<and> b < 192 else if a = 237 then 128 \<le> b \<and> b < 160 else cont 128 192 b) =
    cont (if a = 224 then 160 else 128) (if a = 237 then 160 else 192) b"
  "(if a = 240 then 144 \<le> b \<and> b < 192 else if a = 244 then 128 \<le> b \<and> b < 144 else cont 128 192 b) =
    cont (if a = 240 then 144 else 128) (if a = 244 then 144 else 192) b"
  by (auto simp: cont_def)

lemma decode_conts:
  "decode_bytes (a # b # c # d # bs) =
    (if a < 128 then (a, 1)
     else if 194 \<le> a \<and> a < 224 \<and> cont 128 192 b then ((a - 192) * 64 + (b - 128), 2)
     else if 224 \<le> a \<and> a < 240 \<and> cont (if a = 224 then 160 else 128) (if a = 237 then 160 else 192) b \<and> cont 128 192 c
       then ((a - 224) * 4096 + (b - 128) * 64 + (c - 128), 3)
     else if 240 \<le> a \<and> a < 245 \<and> cont (if a = 240 then 144 else 128) (if a = 244 then 144 else 192) b \<and> cont 128 192 c \<and> cont 128 192 d
       then ((a - 240) * 262144 + (b - 128) * 4096 + (c - 128) * 64 + (d - 128), 4)
     else (rune_error, 1))"
  "decode_bytes [a, b, c] =
    (if a < 128 then (a, 1)
     else if 194 \<le> a \<and> a < 224 \<and> cont 128 192 b then ((a - 192) * 64 + (b - 128), 2)
     else if 224 \<le> a \<and> a < 240 \<and> cont (if a = 224 then 160 else 128) (if a = 237 then 160 else 192) b \<and> cont 128 192 c
       then ((a - 224) * 4096 + (b - 128) * 64 + (c - 128), 3)
     else (rune_error, 1))"
  "decode_bytes [a, b] =
    (if a < 128 then (a, 1)
     else if 194 \<le> a \<and> a < 224 \<and> cont 128 192 b then ((a - 192) * 64 + (b - 128), 2)
     else (rune_error, 1))"
  by (simp_all only: decode_bytes.simps conts)

lemma cont_low: "\<not> 128 \<le> b \<Longrightarrow> cont lo hi b = False"
  by (simp add: cont_def)

lemma decode_lower_high:
  assumes "128 \<le> a"
  shows "decode_bytes (map lower_byte (a # bs)) = decode_bytes (a # bs)"
proof -
  have a: "lower_byte a = a" using assms by (rule lower_byte_high)
  show ?thesis
  proof (cases "a # bs" rule: decode_bytes.cases)
    case (1 a' b c d rest)
    have bs: "bs = b # c # d # rest" using 1 by simp
    show ?thesis unfolding bs
      by (cases "128 \<le> b"; cases "128 \<le> c"; cases "128 \<le> d";
          simp only: list.map a decode_conts cont_lower lower_byte_high cont_low simp_thms if_False)
  next
    case (2 a' b c)
    have bs: "bs = [b, c]" using 2 by simp
    show ?thesis unfolding bs
      by (cases "128 \<le> b"; cases "128 \<le> c";
          simp only: list.map a decode_conts cont_lower lower_byte_high cont_low simp_thms if_False)
  next
    case (3 a' b)
    have bs: "bs = [b]" using 3 by simp
    show ?thesis unfolding bs
      by (cases "128 \<le> b"; simp only: list.map a decode_conts cont_lower lower_byte_high cont_low simp_thms if_False)
  qed (simp_all add: a)
qed

lemma decode_lower_low: "a < 128 \<Longrightarrow> decode_bytes (map lower_byte (a # bs)) = (lower_byte a, 1)"
  using lower_byte_low [of a] by (simp add: decode_ascii)

lemma lower_space: "is_space (lower_byte r) = is_space r"
  by (auto simp: is_space_def lower_byte_def)

lemma decode_rune_lower:
  "snd (decode_rune (to_lower s)) = snd (decode_rune s) \<and>
   is_space (fst (decode_rune (to_lower s))) = is_space (fst (decode_rune s))"
proof (cases s)
  case (Cons c cs)
  have m: "map byte_of (to_lower s) = map lower_byte (byte_of c # map byte_of cs)"
    by (simp add: Cons to_lower_def byte_of_lower)
  show ?thesis
  proof (cases "byte_of c < 128")
    case True
    then show ?thesis using decode_lower_low [OF True, of "map byte_of cs"] lower_space [of "byte_of c"]
      by (simp only: decode_rune_all m) (simp add: Cons decode_ascii)
  next
    case False
    then show ?thesis using decode_lower_high [of "byte_of c" "map byte_of cs"]
      by (simp only: decode_rune_all m) (simp add: Cons)
  qed
qed (simp add: to_lower_def)

lemma segments_lower: "segments (to_lower s) = map to_lower (segments s)"
proof (induction s rule: segments.induct)
  case (2 c cs)
  have "snd (decode_rune (to_lower (c # cs))) = snd (decode_rune (c # cs))" using decode_rune_lower by blast
  then show ?case using "2.IH" [OF refl] by (simp add: Let_def to_lower_def take_map drop_map)
qed (simp add: to_lower_def)

lemma trim_segments_lower: "trim_segments (map to_lower xs) = map to_lower (trim_segments xs)"
  by (simp add: trim_segments_def Let_def dropWhile_map rev_map o_def decode_rune_lower)

lemma trim_lower: "trim_space (to_lower s) = to_lower (trim_space s)"
  unfolding trim_space_def segments_lower trim_segments_lower by (simp add: to_lower_def [abs_def] map_concat)

end
