(* ===== verification/GoNumbers.thy ===== *)
theory GoNumbers
  imports GoTrim AgentModel
begin

text \<open>
  Decimal numbers of configuration variables: \<open>strconv.ParseInt\<close> in base ten with 64 bits, which
  \<open>strconv.Atoi\<close> is on a 64-bit machine. An optional sign, then digits; \<open>None\<close> is an error.
\<close>

definition decimal_digit :: "char \<Rightarrow> bool" where
  "decimal_digit c \<longleftrightarrow> 48 \<le> byte_of c \<and> byte_of c \<le> 57"

definition decimal_value :: "string \<Rightarrow> int" where
  "decimal_value s = foldl (\<lambda>n c. 10 * n + int (byte_of c - 48)) 0 s"

definition parse_int64 :: "string \<Rightarrow> int option" where
  "parse_int64 s = (let neg = (take 1 s = ''-''); ds = (if neg \<or> take 1 s = ''+'' then tl s else s);
       n = (if neg then - decimal_value ds else decimal_value ds)
     in if ds \<noteq> [] \<and> list_all decimal_digit ds \<and> - (2 ^ 63) \<le> n \<and> n < 2 ^ 63 then Some n else None)"

lemma parse_int64_range: "parse_int64 s = Some n \<Longrightarrow> - (2 ^ 63) \<le> n \<and> n < 2 ^ 63"
  by (auto simp: parse_int64_def Let_def split: if_splits)

end
