(* ===== verification/ModelCatalog.thy ===== *)
theory ModelCatalog
  imports GoNumbers AgentExamples McpConfig "HOL-Library.AList"
begin

text \<open>
  The model catalog, \<open>src/common/modelgateway/catalog.go\<close>: providers, their models and the
  application pipelines over them, with the selectors that name a pipeline. A Go map is a list of
  keys and values with distinct keys, searched by \<open>map_of\<close>; a method that holds the write lock
  is one step. URL parsing and the test for a loopback address are parameters.
\<close>

section \<open>Records\<close>

record capabilities =
  cap_chat :: bool
  cap_streaming :: bool
  cap_tool_calling :: bool
  cap_retrieval :: bool
  cap_local :: bool

record provider =
  pv_id :: string
  pv_name :: string
  pv_protocol :: string
  pv_implemented :: bool

record upstream_model =
  md_id :: string
  md_provider :: string
  md_name :: string
  md_configured :: bool
  md_reason :: string

record pipeline =
  pl_id :: string
  pl_name :: string
  pl_model :: string
  pl_kind :: string
  pl_aliases :: "string list"
  pl_capabilities :: capabilities
  pl_enabled :: bool
  pl_reason :: string

record catalog_model =
  cm_id :: string
  cm_name :: string
  cm_provider :: string
  cm_model_id :: string
  cm_model :: string
  cm_pipeline :: string
  cm_aliases :: "string list"
  cm_capabilities :: capabilities
  cm_available :: bool
  cm_status :: string
  cm_reason :: string

record resolved_pipeline =
  rp_pipeline :: pipeline
  rp_model :: upstream_model
  rp_provider :: provider
  rp_available :: bool
  rp_reason :: string

record catalog =
  ct_providers :: "(string \<times> provider) list"
  ct_models :: "(string \<times> upstream_model) list"
  ct_pipelines :: "(string \<times> pipeline) list"
  ct_aliases :: "(string \<times> string) list"
  ct_timeout :: int

datatype catalog_error =
    ProviderIncomplete | ProviderExists string
  | ModelIncomplete | ModelUnknownProvider string string | ModelExists string
  | PipelineIncomplete | PipelineUnknownModel string string | PipelineExists string
  | EmptyAlias string | SelectorTaken string string | SelectorNotFound string

text \<open>The zero values a Go map returns for a missing key.\<close>

definition zero_capabilities :: capabilities where
  "zero_capabilities = \<lparr>cap_chat = False, cap_streaming = False, cap_tool_calling = False, cap_retrieval = False,
     cap_local = False\<rparr>"

definition zero_provider :: provider where
  "zero_provider = \<lparr>pv_id = [], pv_name = [], pv_protocol = [], pv_implemented = False\<rparr>"

definition zero_model :: upstream_model where
  "zero_model = \<lparr>md_id = [], md_provider = [], md_name = [], md_configured = False, md_reason = []\<rparr>"

definition zero_pipeline :: pipeline where
  "zero_pipeline = \<lparr>pl_id = [], pl_name = [], pl_model = [], pl_kind = [], pl_aliases = [],
     pl_capabilities = zero_capabilities, pl_enabled = False, pl_reason = []\<rparr>"

definition at_key :: "'v \<Rightarrow> (string \<times> 'v) list \<Rightarrow> string \<Rightarrow> 'v" where
  "at_key zero m k = (case map_of m k of None \<Rightarrow> zero | Some v \<Rightarrow> v)"

section \<open>Registration\<close>

definition default_request_timeout :: int where "default_request_timeout = 90 * second"

definition new_registry :: "int \<Rightarrow> catalog" where
  "new_registry timeout = \<lparr>ct_providers = [], ct_models = [], ct_pipelines = [], ct_aliases = [],
     ct_timeout = (if timeout \<le> 0 then default_request_timeout else timeout)\<rparr>"

definition normalize_id :: "string \<Rightarrow> string" where
  "normalize_id i = to_lower (trim_space i)"

fun keep_new :: "string list \<Rightarrow> string list \<Rightarrow> string list" where
  "keep_new seen [] = []"
| "keep_new seen (a # as) = (if a \<in> set seen then keep_new seen as else a # keep_new (a # seen) as)"

definition normalize_aliases :: "string list \<Rightarrow> string list" where
  "normalize_aliases aliases = keep_new [] (map normalize_id aliases)"

definition register_provider :: "provider \<Rightarrow> catalog \<Rightarrow> catalog_error + catalog" where
  "register_provider p0 ct = (let p = p0\<lparr>pv_id := normalize_id (pv_id p0)\<rparr> in
     if pv_id p = [] \<or> trim_space (pv_name p) = [] \<or> trim_space (pv_protocol p) = [] then Inl ProviderIncomplete
     else if map_of (ct_providers ct) (pv_id p) \<noteq> None then Inl (ProviderExists (pv_id p))
     else Inr (ct\<lparr>ct_providers := ct_providers ct @ [(pv_id p, p)]\<rparr>))"

definition register_model :: "upstream_model \<Rightarrow> catalog \<Rightarrow> catalog_error + catalog" where
  "register_model m0 ct = (let m = m0\<lparr>md_id := normalize_id (md_id m0), md_provider := normalize_id (md_provider m0)\<rparr> in
     if md_id m = [] \<or> md_provider m = [] \<or> trim_space (md_name m) = [] then Inl ModelIncomplete
     else if map_of (ct_providers ct) (md_provider m) = None then Inl (ModelUnknownProvider (md_id m) (md_provider m))
     else if map_of (ct_models ct) (md_id m) \<noteq> None then Inl (ModelExists (md_id m))
     else Inr (ct\<lparr>ct_models := ct_models ct @ [(md_id m, m)]\<rparr>))"

text \<open>The loop over the selectors: the first one that is empty or taken is the error.\<close>

fun check_selectors :: "string \<Rightarrow> (string \<times> string) list \<Rightarrow> string list \<Rightarrow> catalog_error option" where
  "check_selectors pid taken [] = None"
| "check_selectors pid taken (s # ss) = (let sel = normalize_id s in
     if sel = [] then Some (EmptyAlias pid)
     else case map_of taken sel of Some owner \<Rightarrow> Some (SelectorTaken sel owner) | None \<Rightarrow> check_selectors pid taken ss)"

definition register_pipeline :: "pipeline \<Rightarrow> catalog \<Rightarrow> catalog_error + catalog" where
  "register_pipeline p0 ct = (let p1 = p0\<lparr>pl_id := normalize_id (pl_id p0), pl_model := normalize_id (pl_model p0)\<rparr> in
     if pl_id p1 = [] \<or> pl_model p1 = [] \<or> trim_space (pl_name p1) = [] \<or> trim_space (pl_kind p1) = [] then Inl PipelineIncomplete
     else if map_of (ct_models ct) (pl_model p1) = None then Inl (PipelineUnknownModel (pl_id p1) (pl_model p1))
     else if map_of (ct_pipelines ct) (pl_id p1) \<noteq> None then Inl (PipelineExists (pl_id p1))
     else case check_selectors (pl_id p1) (ct_aliases ct) (pl_id p1 # pl_aliases p1) of
       Some e \<Rightarrow> Inl e
     | None \<Rightarrow> (let p = p1\<lparr>pl_aliases := normalize_aliases (pl_aliases p1)\<rparr> in
         Inr (ct\<lparr>ct_pipelines := ct_pipelines ct @ [(pl_id p, p)],
           ct_aliases := fold (\<lambda>a. AList.update a (pl_id p)) (pl_id p # pl_aliases p) (ct_aliases ct)\<rparr>)))"

section \<open>Reading the catalog\<close>

definition availability :: "provider \<Rightarrow> upstream_model \<Rightarrow> pipeline \<Rightarrow> bool \<times> string" where
  "availability p m l =
     (if \<not> pv_implemented p then (False, ''provider_not_implemented'')
      else if \<not> md_configured m then (False, if md_reason m \<noteq> [] then md_reason m else ''missing_configuration'')
      else if \<not> pl_enabled l then (False, if pl_reason l \<noteq> [] then pl_reason l else ''pipeline_disabled'')
      else (True, []))"

definition joined :: "catalog \<Rightarrow> pipeline \<Rightarrow> upstream_model \<times> provider" where
  "joined ct l = (let m = at_key zero_model (ct_models ct) (pl_model l)
     in (m, at_key zero_provider (ct_providers ct) (md_provider m)))"

definition resolve_pipeline :: "catalog \<Rightarrow> string \<Rightarrow> catalog_error + resolved_pipeline" where
  "resolve_pipeline ct selector = (case map_of (ct_aliases ct) (normalize_id selector) of
     None \<Rightarrow> Inl (SelectorNotFound selector)
   | Some pid \<Rightarrow> (let l = at_key zero_pipeline (ct_pipelines ct) pid; (m, p) = joined ct l; (ok, reason) = availability p m l
       in Inr \<lparr>rp_pipeline = l, rp_model = m, rp_provider = p, rp_available = ok, rp_reason = reason\<rparr>))"

definition catalog_entry :: "catalog \<Rightarrow> pipeline \<Rightarrow> catalog_model" where
  "catalog_entry ct l = (let (m, p) = joined ct l; (ok, reason) = availability p m l
     in \<lparr>cm_id = pl_id l, cm_name = pl_name l, cm_provider = pv_id p, cm_model_id = md_id m, cm_model = md_name m,
         cm_pipeline = pl_kind l, cm_aliases = pl_aliases l, cm_capabilities = pl_capabilities l, cm_available = ok,
         cm_status = (if ok then ''available'' else ''unavailable''), cm_reason = reason\<rparr>)"

definition catalog_models :: "catalog \<Rightarrow> catalog_model list" where
  "catalog_models ct = sort_key cm_id (map (catalog_entry ct \<circ> snd) (ct_pipelines ct))"

definition catalog_providers :: "catalog \<Rightarrow> provider list" where
  "catalog_providers ct = sort_key pv_id (map snd (ct_providers ct))"

section \<open>The default catalog\<close>

text \<open>The two sections of the application's configuration the catalog reads.\<close>

record model_config =
  mc_ollama_url :: string
  mc_ollama_model :: string
  mc_rag_url :: string
  mc_rag_model :: string

type_synonym environment = "string \<Rightarrow> string option"

fun first_environment :: "environment \<Rightarrow> string list \<Rightarrow> string" where
  "first_environment env [] = []"
| "first_environment env (n # ns) = (case env n of
     Some v \<Rightarrow> if trim_space v \<noteq> [] then trim_space v else first_environment env ns
   | None \<Rightarrow> first_environment env ns)"

definition any_environment :: "environment \<Rightarrow> string list \<Rightarrow> bool" where
  "any_environment env ns \<longleftrightarrow> first_environment env ns \<noteq> []"

definition all_present :: "string list \<Rightarrow> bool" where
  "all_present vs \<longleftrightarrow> list_all (\<lambda>v. trim_space v \<noteq> []) vs"

definition display_model_name :: "string \<Rightarrow> string \<Rightarrow> string" where
  "display_model_name name fallback = (if trim_space name = [] then fallback else trim_space name)"

definition missing_reason :: "bool \<Rightarrow> string" where
  "missing_reason configured = (if configured then [] else ''missing_configuration'')"

definition duration_from_environment :: "environment \<Rightarrow> int" where
  "duration_from_environment env = (case parse_int64 (first_environment env [''GOPHERAI_MODEL_TIMEOUT_SECONDS'']) of
     Some n \<Rightarrow> if 1 \<le> n \<and> n \<le> 600 then n * second else default_request_timeout
   | None \<Rightarrow> default_request_timeout)"

text \<open>
  \<open>url.Parse\<close> gives the scheme, the host and the host name of a URL, \<open>net.ParseIP\<close> with
  \<open>IsLoopback\<close> tells a loopback address: parameters.
\<close>

record net_library =
  nl_parse :: "string \<Rightarrow> (string \<times> string \<times> string) option"
  nl_loopback :: "string \<Rightarrow> bool"

definition trim_suffix :: "string \<Rightarrow> string \<Rightarrow> string" where
  "trim_suffix suffix s = (if has_prefix (rev suffix) (rev s) then take (length s - length suffix) s else s)"

definition is_loopback_url :: "net_library \<Rightarrow> string \<Rightarrow> bool" where
  "is_loopback_url net raw = (case nl_parse net (trim_space raw) of
     None \<Rightarrow> False
   | Some (scheme, host, name) \<Rightarrow> scheme \<noteq> [] \<and> host \<noteq> [] \<and>
       (let h = trim_suffix ''.'' (to_lower name) in h = ''localhost'' \<or> nl_loopback net h))"

fun must_all :: "('a \<Rightarrow> catalog \<Rightarrow> catalog_error + catalog) \<Rightarrow> 'a list \<Rightarrow> catalog \<Rightarrow> catalog_error + catalog" where
  "must_all f [] ct = Inr ct"
| "must_all f (x # xs) ct = and_then (f x ct) (must_all f xs)"

definition default_providers :: "provider list" where
  "default_providers = [
     \<lparr>pv_id = ''openai-compatible'', pv_name = ''OpenAI Compatible'', pv_protocol = ''openai'', pv_implemented = True\<rparr>,
     \<lparr>pv_id = ''ollama'', pv_name = ''Ollama'', pv_protocol = ''ollama'', pv_implemented = True\<rparr>,
     \<lparr>pv_id = ''ark'', pv_name = ''Volcengine Ark / Doubao'', pv_protocol = ''responses'', pv_implemented = True\<rparr>]"

definition default_model :: "string \<Rightarrow> string \<Rightarrow> string \<Rightarrow> bool \<Rightarrow> upstream_model" where
  "default_model i p name configured = \<lparr>md_id = i, md_provider = p, md_name = name, md_configured = configured,
     md_reason = missing_reason configured\<rparr>"

definition default_models :: "net_library \<Rightarrow> model_config option \<Rightarrow> environment \<Rightarrow> upstream_model list" where
  "default_models net conf env = (
     let openAIBaseURL = first_environment env [''OPENAI_BASE_URL''];
         openAIModel = first_environment env [''OPENAI_MODEL_NAME''];
         openAIConfigured = all_present [openAIBaseURL, openAIModel, first_environment env [''OPENAI_API_KEY'']];
         (ollamaBaseURL, ollamaModel, ragBaseURL, ragModel) = (case conf of None \<Rightarrow> ([], [], [], [])
            | Some c \<Rightarrow> (mc_ollama_url c, mc_ollama_model c, mc_rag_url c, mc_rag_model c));
         ollamaConfigured = all_present [ollamaBaseURL, ollamaModel];
         ragConfigured = (all_present [ragBaseURL, ragModel] \<and>
            (is_loopback_url net ragBaseURL \<or> any_environment env [''GOPHERAI_RAG_API_KEY'', ''OPENAI_API_KEY'']));
         arkBaseURL = first_environment env [''GOPHERAI_ARK_BASE_URL'', ''ARK_BASE_URL''];
         arkModel = first_environment env [''GOPHERAI_ARK_MODEL'', ''ARK_MODEL_ID''];
         arkConfigured = all_present [arkBaseURL, arkModel, first_environment env [''GOPHERAI_ARK_API_KEY'', ''ARK_API_KEY'']]
     in [default_model ''openai.default'' ''openai-compatible'' (display_model_name openAIModel ''OpenAI-compatible model'') openAIConfigured,
         default_model ''ollama.default'' ''ollama'' (display_model_name ollamaModel ''Ollama model'') ollamaConfigured,
         default_model ''rag.default'' ''openai-compatible'' (display_model_name ragModel ''RAG chat model'') ragConfigured,
         default_model ''ark.default'' ''ark'' (display_model_name arkModel ''Ark / Doubao model'') arkConfigured])"

definition default_pipeline :: "string \<Rightarrow> string \<Rightarrow> string \<Rightarrow> string \<Rightarrow> string list \<Rightarrow> capabilities \<Rightarrow> pipeline" where
  "default_pipeline i name m kind aliases caps = \<lparr>pl_id = i, pl_name = name, pl_model = m, pl_kind = kind,
     pl_aliases = aliases, pl_capabilities = caps, pl_enabled = True, pl_reason = []\<rparr>"

definition default_pipelines :: "pipeline list" where
  "default_pipelines = [
     default_pipeline ''openai'' ''OpenAI Compatible'' ''openai.default'' ''chat'' [''1'', ''chat.openai'']
       (zero_capabilities\<lparr>cap_chat := True, cap_streaming := True, cap_tool_calling := True\<rparr>),
     default_pipeline ''rag'' ''Knowledge Base RAG'' ''rag.default'' ''rag'' [''2'', ''knowledge.rag'']
       (zero_capabilities\<lparr>cap_chat := True, cap_streaming := True, cap_retrieval := True\<rparr>),
     default_pipeline ''mcp'' ''MCP Tools'' ''rag.default'' ''mcp'' [''3'', ''tools.mcp'']
       (zero_capabilities\<lparr>cap_chat := True, cap_streaming := True, cap_tool_calling := True\<rparr>),
     default_pipeline ''ollama'' ''Local Ollama'' ''ollama.default'' ''chat'' [''4'', ''chat.ollama'']
       (zero_capabilities\<lparr>cap_chat := True, cap_streaming := True, cap_tool_calling := True, cap_local := True\<rparr>),
     default_pipeline ''ark'' ''Ark / Doubao'' ''ark.default'' ''chat'' [''doubao'', ''chat.ark'']
       (zero_capabilities\<lparr>cap_chat := True, cap_streaming := True\<rparr>)]"

text \<open>An error here is a panic when the process first asks for its catalog.\<close>

definition new_default_registry :: "net_library \<Rightarrow> model_config option \<Rightarrow> environment \<Rightarrow> catalog_error + catalog" where
  "new_default_registry net conf env =
     and_then (must_all register_provider default_providers (new_registry (duration_from_environment env))) (\<lambda>ct.
     and_then (must_all register_model (default_models net conf env) ct)
       (must_all register_pipeline default_pipelines))"

section \<open>The invariant of the catalog\<close>

definition selectors_of :: "pipeline \<Rightarrow> string list" where
  "selectors_of l = pl_id l # pl_aliases l"

definition pipeline_ok :: "catalog \<Rightarrow> string \<Rightarrow> pipeline \<Rightarrow> bool" where
  "pipeline_ok ct i l \<longleftrightarrow> pl_id l = i \<and> i \<noteq> [] \<and> map_of (ct_models ct) (pl_model l) \<noteq> None \<and>
     (\<forall>a \<in> set (selectors_of l). map_of (ct_aliases ct) a = Some i)"

definition catalog_ok :: "catalog \<Rightarrow> bool" where
  "catalog_ok ct \<longleftrightarrow>
     (\<forall>i p. map_of (ct_providers ct) i = Some p \<longrightarrow> pv_id p = i \<and> i \<noteq> []) \<and>
     (\<forall>i m. map_of (ct_models ct) i = Some m \<longrightarrow> md_id m = i \<and> i \<noteq> [] \<and>
        map_of (ct_providers ct) (md_provider m) \<noteq> None) \<and>
     (\<forall>i l. map_of (ct_pipelines ct) i = Some l \<longrightarrow> pipeline_ok ct i l) \<and>
     (\<forall>a i. map_of (ct_aliases ct) a = Some i \<longrightarrow> map_of (ct_pipelines ct) i \<noteq> None) \<and>
     distinct (map fst (ct_providers ct)) \<and> distinct (map fst (ct_models ct)) \<and> distinct (map fst (ct_pipelines ct)) \<and>
     distinct (map fst (ct_aliases ct))"

lemma catalog_ok_new: "catalog_ok (new_registry t)"
  by (simp add: catalog_ok_def new_registry_def)

lemma normalize_id_idem [simp]: "normalize_id (normalize_id s) = normalize_id s"
  by (simp add: normalize_id_def trim_lower)

lemma register_provider_Inr:
  assumes "register_provider p ct = Inr ct'"
  obtains q where "ct' = ct\<lparr>ct_providers := ct_providers ct @ [(pv_id q, q)]\<rparr>" and "pv_id q \<noteq> []"
    and "map_of (ct_providers ct) (pv_id q) = None"
  using assms that [of "p\<lparr>pv_id := normalize_id (pv_id p)\<rparr>"] by (auto simp: register_provider_def Let_def split: if_splits)

lemma register_model_Inr:
  assumes "register_model m ct = Inr ct'"
  obtains q where "ct' = ct\<lparr>ct_models := ct_models ct @ [(md_id q, q)]\<rparr>" and "md_id q \<noteq> []"
    and "map_of (ct_models ct) (md_id q) = None" and "map_of (ct_providers ct) (md_provider q) \<noteq> None"
  using assms that [of "m\<lparr>md_id := normalize_id (md_id m), md_provider := normalize_id (md_provider m)\<rparr>"]
  by (auto simp: register_model_def Let_def split: if_splits)

lemma check_selectors_None:
  "check_selectors pid taken ss = None \<longleftrightarrow> (\<forall>s \<in> set ss. normalize_id s \<noteq> [] \<and> map_of taken (normalize_id s) = None)"
  by (induction ss) (auto simp: Let_def split: option.splits)

lemma set_keep_new: "set (keep_new seen as) = set as - set seen"
  by (induction seen as rule: keep_new.induct) auto

lemma set_normalize_aliases: "set (normalize_aliases as) = normalize_id ` set as"
  by (simp add: normalize_aliases_def set_keep_new)

lemma map_of_updates: "map_of (fold (\<lambda>a. AList.update a i) as m) a = (if a \<in> set as then Some i else map_of m a)"
  by (induction as arbitrary: m) (auto simp: update_conv')

lemma distinct_updates: "distinct (map fst m) \<Longrightarrow> distinct (map fst (fold (\<lambda>a. AList.update a i) as m))"
  by (induction as arbitrary: m) (auto simp: distinct_update)

text \<open>What a successful registration of a pipeline has checked and done.\<close>

lemma register_pipeline_Inr:
  assumes "register_pipeline p ct = Inr ct'"
  obtains q where "ct' = ct\<lparr>ct_pipelines := ct_pipelines ct @ [(pl_id q, q)],
      ct_aliases := fold (\<lambda>a. AList.update a (pl_id q)) (selectors_of q) (ct_aliases ct)\<rparr>"
    and "pl_id q \<noteq> []" and "set (selectors_of q) = normalize_id ` set (selectors_of p)"
    and "pl_id q = normalize_id (pl_id p)"
    and "map_of (ct_models ct) (pl_model q) \<noteq> None" and "map_of (ct_pipelines ct) (pl_id q) = None"
    and "\<forall>a \<in> set (selectors_of q). map_of (ct_aliases ct) a = None"
proof (rule that [of "p\<lparr>pl_id := normalize_id (pl_id p), pl_model := normalize_id (pl_model p),
      pl_aliases := normalize_aliases (pl_aliases p)\<rparr>"])
qed (use assms in \<open>auto simp: register_pipeline_def Let_def check_selectors_None selectors_of_def set_normalize_aliases
       split: if_splits option.splits\<close>)

lemma map_of_snoc: "map_of xs k = None \<Longrightarrow> map_of (xs @ [(k, v)]) i = (if i = k then Some v else map_of xs i)"
  by (auto simp: map_add_def split: option.splits)

lemma catalog_ok_provider: "catalog_ok ct \<Longrightarrow> register_provider p ct = Inr ct' \<Longrightarrow> catalog_ok ct'"
  by (erule register_provider_Inr) (auto simp: catalog_ok_def map_of_snoc pipeline_ok_def map_of_eq_None_iff split: if_splits)

lemma catalog_ok_model: "catalog_ok ct \<Longrightarrow> register_model m ct = Inr ct' \<Longrightarrow> catalog_ok ct'"
  by (erule register_model_Inr)
    (auto simp: catalog_ok_def map_of_snoc pipeline_ok_def map_of_eq_None_iff intro: rev_image_eqI split: if_splits)

lemma catalog_ok_pipeline:
  assumes ok: "catalog_ok ct" and reg: "register_pipeline p ct = Inr ct'"
  shows "catalog_ok ct'"
  using reg
proof (rule register_pipeline_Inr)
  fix q
  assume ct': "ct' = ct\<lparr>ct_pipelines := ct_pipelines ct @ [(pl_id q, q)],
      ct_aliases := fold (\<lambda>a. AList.update a (pl_id q)) (selectors_of q) (ct_aliases ct)\<rparr>"
    and ne: "pl_id q \<noteq> []" and m: "map_of (ct_models ct) (pl_model q) \<noteq> None"
    and new: "map_of (ct_pipelines ct) (pl_id q) = None" and free: "\<forall>a \<in> set (selectors_of q). map_of (ct_aliases ct) a = None"
  have old: "pipeline_ok ct' i l" if "map_of (ct_pipelines ct) i = Some l" for i l
  proof -
    have "pipeline_ok ct i l" using ok that by (auto simp: catalog_ok_def)
    then show ?thesis using free by (fastforce simp: pipeline_ok_def ct' map_of_updates)
  qed
  have q: "pipeline_ok ct' (pl_id q) q" using ne m by (simp add: pipeline_ok_def ct' map_of_updates)
  show ?thesis
    using ok old q new unfolding catalog_ok_def
    by (auto simp: ct' map_of_snoc map_of_updates distinct_updates map_of_eq_None_iff split: if_splits)
qed

datatype catalog_op = CatProvider provider | CatModel upstream_model | CatPipeline pipeline

text \<open>A registration that fails leaves the catalog as it is.\<close>

fun exec_catalog :: "catalog_op \<Rightarrow> catalog \<Rightarrow> catalog" where
  "exec_catalog (CatProvider p) ct = (case register_provider p ct of Inl _ \<Rightarrow> ct | Inr ct' \<Rightarrow> ct')"
| "exec_catalog (CatModel m) ct = (case register_model m ct of Inl _ \<Rightarrow> ct | Inr ct' \<Rightarrow> ct')"
| "exec_catalog (CatPipeline l) ct = (case register_pipeline l ct of Inl _ \<Rightarrow> ct | Inr ct' \<Rightarrow> ct')"

definition run_catalog :: "catalog_op list \<Rightarrow> catalog \<Rightarrow> catalog" where
  "run_catalog ops ct = fold exec_catalog ops ct"

lemma exec_catalog_ok: "catalog_ok ct \<Longrightarrow> catalog_ok (exec_catalog op ct)"
  by (cases op) (auto split: sum.splits intro: catalog_ok_provider catalog_ok_model catalog_ok_pipeline)

lemma run_catalog_ok: "catalog_ok ct \<Longrightarrow> catalog_ok (run_catalog ops ct)"
  unfolding run_catalog_def by (induction ops arbitrary: ct) (simp_all add: exec_catalog_ok)

section \<open>Guarantees\<close>

text \<open>from an empty catalog, any sequence of registrations, the ones that fail included, keeps the
  catalog consistent: the keys are the records' own normalized identifiers, every model has its
  provider, every pipeline its model, every selector of a pipeline names that pipeline, and every
  selector names one.\<close>

lemma catalog_invariant: "catalog_ok (run_catalog ops (new_registry t))"
  by (rule run_catalog_ok [OF catalog_ok_new])

lemma catalog_ok_alias:
  assumes "catalog_ok ct" and "map_of (ct_aliases ct) a = Some i"
  obtains l where "map_of (ct_pipelines ct) i = Some l"
  using assms unfolding catalog_ok_def by (metis not_None_eq)

lemma resolve_selector:
  assumes ok: "catalog_ok ct" and a: "map_of (ct_aliases ct) (normalize_id sel) = Some i"
  shows "\<exists>r. resolve_pipeline ct sel = Inr r \<and> map_of (ct_pipelines ct) i = Some (rp_pipeline r) \<and>
    map_of (ct_models ct) (pl_model (rp_pipeline r)) = Some (rp_model r) \<and>
    map_of (ct_providers ct) (md_provider (rp_model r)) = Some (rp_provider r) \<and> pl_id (rp_pipeline r) = i"
proof -
  from ok a obtain l where l: "map_of (ct_pipelines ct) i = Some l" by (rule catalog_ok_alias)
  with ok have "pipeline_ok ct i l" by (simp add: catalog_ok_def)
  then obtain m where m: "map_of (ct_models ct) (pl_model l) = Some m" and i: "pl_id l = i"
    unfolding pipeline_ok_def by (metis not_None_eq)
  from ok m have "map_of (ct_providers ct) (md_provider m) \<noteq> None" unfolding catalog_ok_def by metis
  then obtain p where p: "map_of (ct_providers ct) (md_provider m) = Some p" unfolding not_None_eq by blast
  show ?thesis using a l m p i
    by (auto simp: resolve_pipeline_def joined_def at_key_def Let_def split: prod.split)
qed

lemma resolve_Inr_selector:
  "resolve_pipeline ct sel = Inr r \<Longrightarrow> \<exists>i. map_of (ct_aliases ct) (normalize_id sel) = Some i"
  by (auto simp: resolve_pipeline_def split: option.splits)

text \<open>C22: what was registered is found. After a pipeline was registered, its identifier and each of its
  aliases, in any case and with surrounding space, resolve to it; and every selector that was
  resolved before resolves to the same pipeline, model, provider and availability as before.\<close>

theorem registration_roundtrip:
  assumes "catalog_ok ct" and "register_pipeline p ct = Inr ct'"
  shows "(\<forall>s \<in> set (selectors_of p). \<forall>sel. normalize_id sel = normalize_id s \<longrightarrow>
      (\<exists>r. resolve_pipeline ct' sel = Inr r \<and> pl_id (rp_pipeline r) = normalize_id (pl_id p))) \<and>
    (\<forall>sel r. resolve_pipeline ct sel = Inr r \<longrightarrow> resolve_pipeline ct' sel = Inr r)"
  using assms(2)
proof (rule register_pipeline_Inr)
  fix q
  assume ct': "ct' = ct\<lparr>ct_pipelines := ct_pipelines ct @ [(pl_id q, q)],
      ct_aliases := fold (\<lambda>a. AList.update a (pl_id q)) (selectors_of q) (ct_aliases ct)\<rparr>"
    and sel: "set (selectors_of q) = normalize_id ` set (selectors_of p)" and i: "pl_id q = normalize_id (pl_id p)"
    and new: "map_of (ct_pipelines ct) (pl_id q) = None" and free: "\<forall>a \<in> set (selectors_of q). map_of (ct_aliases ct) a = None"
  have ok': "catalog_ok ct'" by (rule catalog_ok_pipeline [OF assms])
  have "\<exists>r. resolve_pipeline ct' x = Inr r \<and> pl_id (rp_pipeline r) = normalize_id (pl_id p)"
    if "s \<in> set (selectors_of p)" "normalize_id x = normalize_id s" for s x
  proof -
    have "map_of (ct_aliases ct') (normalize_id x) = Some (pl_id q)"
      using that sel by (auto simp: ct' map_of_updates)
    from resolve_selector [OF ok' this] i show ?thesis by auto
  qed
  moreover have "resolve_pipeline ct' x = Inr r" if r: "resolve_pipeline ct x = Inr r" for x r
  proof -
    obtain j where j: "map_of (ct_aliases ct) (normalize_id x) = Some j" using resolve_Inr_selector [OF r] by blast
    then obtain l where l: "map_of (ct_pipelines ct) j = Some l" using assms(1) catalog_ok_alias by blast
    have "map_of (ct_aliases ct') (normalize_id x) = Some j" using j free by (auto simp: ct' map_of_updates)
    moreover have "map_of (ct_pipelines ct') j = Some l" using l new by (auto simp: ct' map_of_snoc)
    ultimately show ?thesis using r j l by (simp add: resolve_pipeline_def joined_def at_key_def ct' Let_def)
  qed
  ultimately show ?thesis by blast
qed

text \<open>The default registrations, evaluated.\<close>

lemma default_ids:
  "normalize_id ''openai-compatible'' = ''openai-compatible''" "normalize_id ''ollama'' = ''ollama''" "normalize_id ''ark'' = ''ark''"
  "normalize_id ''openai.default'' = ''openai.default''" "normalize_id ''ollama.default'' = ''ollama.default''"
  "normalize_id ''rag.default'' = ''rag.default''" "normalize_id ''ark.default'' = ''ark.default''"
  "normalize_id ''openai'' = ''openai''" "normalize_id ''rag'' = ''rag''" "normalize_id ''mcp'' = ''mcp''"
  "normalize_id ''1'' = ''1''" "normalize_id ''2'' = ''2''" "normalize_id ''3'' = ''3''" "normalize_id ''4'' = ''4''"
  "normalize_id ''chat.openai'' = ''chat.openai''" "normalize_id ''knowledge.rag'' = ''knowledge.rag''"
  "normalize_id ''tools.mcp'' = ''tools.mcp''" "normalize_id ''chat.ollama'' = ''chat.ollama''"
  "normalize_id ''doubao'' = ''doubao''" "normalize_id ''chat.ark'' = ''chat.ark''"
  by (simp_all add: normalize_id_def trim_graphic graphic_def byte_of_def to_lower_def to_lower_char_def Let_def)

definition nonblank :: "string \<Rightarrow> bool" where
  "nonblank s \<longleftrightarrow> list_all (\<lambda>c. byte_of c < 128) s \<and> list_ex (\<lambda>c. \<not> is_space (byte_of c)) s"

lemma trim_nonblank: "nonblank s \<Longrightarrow> trim_space s \<noteq> []"
proof -
  assume n: "nonblank s"
  then have "trim_space s = rev (dropWhile (\<lambda>c. is_space (byte_of c)) (rev (dropWhile (\<lambda>c. is_space (byte_of c)) s)))"
    by (intro trim_ascii) (simp add: nonblank_def ascii_def)
  moreover have "\<exists>c \<in> set (dropWhile (\<lambda>c. is_space (byte_of c)) s). \<not> is_space (byte_of c)"
    using n by (auto simp: nonblank_def list_ex_iff) (metis dropWhile_eq_Nil_conv hd_dropWhile list.set_sel(1))
  ultimately show ?thesis by auto
qed

lemma default_names:
  "trim_space ''OpenAI Compatible'' \<noteq> []" "trim_space ''Ollama'' \<noteq> []" "trim_space ''Volcengine Ark / Doubao'' \<noteq> []"
  "trim_space ''openai'' \<noteq> []" "trim_space ''ollama'' \<noteq> []" "trim_space ''responses'' \<noteq> []"
  "trim_space ''OpenAI-compatible model'' \<noteq> []" "trim_space ''Ollama model'' \<noteq> []" "trim_space ''RAG chat model'' \<noteq> []"
  "trim_space ''Ark / Doubao model'' \<noteq> []" "trim_space ''Knowledge Base RAG'' \<noteq> []" "trim_space ''MCP Tools'' \<noteq> []"
  "trim_space ''Local Ollama'' \<noteq> []" "trim_space ''Ark / Doubao'' \<noteq> []" "trim_space ''chat'' \<noteq> []" "trim_space ''rag'' \<noteq> []"
  "trim_space ''mcp'' \<noteq> []"
  by (simp_all add: trim_nonblank nonblank_def is_space_def byte_of_def)

lemma displayed_name: "trim_space f \<noteq> [] \<Longrightarrow> trim_space (display_model_name n f) \<noteq> []"
  by (simp add: display_model_name_def)

lemma map_of_key: "map_of m k = None \<longleftrightarrow> k \<notin> set (map fst m)"
  by (simp add: map_of_eq_None_iff)

definition provider_fits :: "provider \<Rightarrow> bool" where
  "provider_fits p \<longleftrightarrow> normalize_id (pv_id p) = pv_id p \<and> pv_id p \<noteq> [] \<and> trim_space (pv_name p) \<noteq> [] \<and>
     trim_space (pv_protocol p) \<noteq> []"

lemma register_providers_keys:
  assumes "list_all provider_fits ps" and "distinct (map pv_id ps)"
    and "set (map pv_id ps) \<inter> set (map fst (ct_providers ct)) = {}"
  shows "\<exists>ct'. must_all register_provider ps ct = Inr ct' \<and> map fst (ct_providers ct') = map fst (ct_providers ct) @ map pv_id ps \<and>
    ct_models ct' = ct_models ct \<and> ct_pipelines ct' = ct_pipelines ct \<and> ct_aliases ct' = ct_aliases ct"
  using assms
proof (induction ps arbitrary: ct)
  case (Cons p ps)
  let ?ct = "ct\<lparr>ct_providers := ct_providers ct @ [(pv_id p, p)]\<rparr>"
  have "p\<lparr>pv_id := pv_id p\<rparr> = p" by simp
  then have r: "register_provider p ct = Inr ?ct"
    using Cons.prems by (auto simp: register_provider_def Let_def map_of_key provider_fits_def)
  from Cons.IH [of ?ct] Cons.prems show ?case by (auto simp: r and_then_def)
qed simp

lemma default_providers_registered:
  "\<exists>ct. must_all register_provider default_providers (new_registry t) = Inr ct \<and>
     map fst (ct_providers ct) = [''openai-compatible'', ''ollama'', ''ark''] \<and>
     ct_models ct = [] \<and> ct_pipelines ct = [] \<and> ct_aliases ct = []"
proof -
  have ids: "map pv_id default_providers = [''openai-compatible'', ''ollama'', ''ark'']" by (simp add: default_providers_def)
  have "list_all provider_fits default_providers"
    by (simp add: default_providers_def provider_fits_def default_ids default_names)
  from register_providers_keys [OF this, of "new_registry t"] show ?thesis
    unfolding ids by (simp add: new_registry_def)
qed

text \<open>A model that is complete, new and has its provider is registered; so is a list of them.\<close>

definition model_fits :: "string list \<Rightarrow> upstream_model \<Rightarrow> bool" where
  "model_fits providers m \<longleftrightarrow> normalize_id (md_id m) = md_id m \<and> normalize_id (md_provider m) = md_provider m \<and>
     md_id m \<noteq> [] \<and> md_provider m \<noteq> [] \<and> trim_space (md_name m) \<noteq> [] \<and> md_provider m \<in> set providers"

lemma register_models_keys:
  assumes "list_all (model_fits (map fst (ct_providers ct))) ms" and "distinct (map md_id ms)"
    and "set (map md_id ms) \<inter> set (map fst (ct_models ct)) = {}"
  shows "\<exists>ct'. must_all register_model ms ct = Inr ct' \<and> map fst (ct_models ct') = map fst (ct_models ct) @ map md_id ms \<and>
    ct_pipelines ct' = ct_pipelines ct \<and> ct_aliases ct' = ct_aliases ct"
  using assms
proof (induction ms arbitrary: ct)
  case (Cons m ms)
  let ?ct = "ct\<lparr>ct_models := ct_models ct @ [(md_id m, m)]\<rparr>"
  have "m\<lparr>md_id := md_id m, md_provider := md_provider m\<rparr> = m" by simp
  then have r: "register_model m ct = Inr ?ct"
    using Cons.prems by (auto simp: register_model_def Let_def map_of_key model_fits_def)
  from Cons.IH [of ?ct] Cons.prems show ?case by (auto simp: r and_then_def)
qed simp

definition pipeline_fits :: "string list \<Rightarrow> pipeline \<Rightarrow> bool" where
  "pipeline_fits models l \<longleftrightarrow> list_all (\<lambda>s. normalize_id s = s \<and> s \<noteq> []) (selectors_of l) \<and>
     normalize_id (pl_model l) = pl_model l \<and> pl_model l \<noteq> [] \<and> pl_model l \<in> set models \<and> trim_space (pl_name l) \<noteq> [] \<and>
     trim_space (pl_kind l) \<noteq> []"

lemma keys_of_updates: "set (map fst (fold (\<lambda>a. AList.update a k) as xs)) = set as \<union> set (map fst xs)"
  by (induction as arbitrary: xs) (auto simp: dom_update)

lemma register_pipelines_keys:
  assumes "list_all (pipeline_fits (map fst (ct_models ct))) ls" and "distinct (concat (map selectors_of ls))"
    and "set (concat (map selectors_of ls)) \<inter> set (map fst (ct_aliases ct)) = {}"
    and "set (map fst (ct_pipelines ct)) \<subseteq> set (map fst (ct_aliases ct))"
  shows "\<exists>ct'. must_all register_pipeline ls ct = Inr ct' \<and> map fst (ct_pipelines ct') = map fst (ct_pipelines ct) @ map pl_id ls"
  using assms
proof (induction ls arbitrary: ct)
  case (Cons l ls)
  have fits: "pipeline_fits (map fst (ct_models ct)) l" using Cons.prems(1) by simp
  then have norm: "normalize_id (pl_id l) = pl_id l" "normalize_id (pl_model l) = pl_model l" "pl_id l \<noteq> []" "pl_model l \<noteq> []"
      "trim_space (pl_name l) \<noteq> []" "trim_space (pl_kind l) \<noteq> []" "\<forall>s \<in> set (selectors_of l). normalize_id s = s \<and> s \<noteq> []"
    by (simp_all add: pipeline_fits_def selectors_of_def list_all_iff)
  have same: "l\<lparr>pl_id := pl_id l, pl_model := pl_model l\<rparr> = l" by simp
  have new: "map_of (ct_pipelines ct) (pl_id l) = None"
    using Cons.prems(3,4) unfolding map_of_key by (auto simp: selectors_of_def)
  have m: "\<not> map_of (ct_models ct) (pl_model l) = None"
    using fits unfolding map_of_key by (auto simp: pipeline_fits_def)
  have "\<forall>s \<in> set (selectors_of l). normalize_id s \<noteq> [] \<and> map_of (ct_aliases ct) (normalize_id s) = None"
    using norm(7) Cons.prems(3) unfolding map_of_key by auto
  then have chk: "check_selectors (pl_id l) (ct_aliases ct) (pl_id l # pl_aliases l) = None"
    unfolding check_selectors_None selectors_of_def .
  let ?q = "l\<lparr>pl_aliases := normalize_aliases (pl_aliases l)\<rparr>"
  let ?ct = "ct\<lparr>ct_pipelines := ct_pipelines ct @ [(pl_id l, ?q)],
    ct_aliases := fold (\<lambda>a. AList.update a (pl_id l)) (pl_id l # normalize_aliases (pl_aliases l)) (ct_aliases ct)\<rparr>"
  have r: "register_pipeline l ct = Inr ?ct"
    using norm(3-6) new m chk unfolding register_pipeline_def Let_def norm(1,2) same by simp
  have "set (normalize_aliases (pl_aliases l)) = set (pl_aliases l)"
    using norm(7) by (force simp: set_normalize_aliases selectors_of_def)
  then have keys: "set (map fst (ct_aliases ?ct)) = set (selectors_of l) \<union> set (map fst (ct_aliases ct))"
    using keys_of_updates [of "pl_id l" "pl_id l # normalize_aliases (pl_aliases l)" "ct_aliases ct"]
    by (simp add: selectors_of_def del: fold_simps)
  have "\<exists>ct'. must_all register_pipeline ls ?ct = Inr ct' \<and> map fst (ct_pipelines ct') = map fst (ct_pipelines ?ct) @ map pl_id ls"
  proof (rule Cons.IH)
    show "list_all (pipeline_fits (map fst (ct_models ?ct))) ls" using Cons.prems(1) by simp
    show "distinct (concat (map selectors_of ls))" using Cons.prems(2) by simp
    show "set (concat (map selectors_of ls)) \<inter> set (map fst (ct_aliases ?ct)) = {}"
      using Cons.prems(2,3) unfolding keys by auto
    show "set (map fst (ct_pipelines ?ct)) \<subseteq> set (map fst (ct_aliases ?ct))"
      using Cons.prems(4) unfolding keys by (auto simp: selectors_of_def)
  qed
  then show ?case by (simp add: r and_then_def del: fold_simps)
qed simp

text \<open>the process always gets its catalog. Whatever the configuration and the environment, none of
  the default registrations fails (each failure is a panic), and the catalog has the five
  pipelines.\<close>

lemma default_catalog_total:
  "\<exists>ct. new_default_registry net conf env = Inr ct \<and>
     map fst (ct_pipelines ct) = [''openai'', ''rag'', ''mcp'', ''ollama'', ''ark'']"
proof -
  obtain c1 where c1: "must_all register_provider default_providers (new_registry (duration_from_environment env)) = Inr c1"
    "map fst (ct_providers c1) = [''openai-compatible'', ''ollama'', ''ark'']" "ct_models c1 = []" "ct_pipelines c1 = []" "ct_aliases c1 = []"
    using default_providers_registered [of "duration_from_environment env"] by (elim exE conjE)
  have ids: "map md_id (default_models net conf env) = [''openai.default'', ''ollama.default'', ''rag.default'', ''ark.default'']"
    by (simp add: default_models_def default_model_def Let_def split: prod.split)
  have "list_all (model_fits (map fst (ct_providers c1))) (default_models net conf env)"
    by (simp add: c1(2) default_models_def default_model_def model_fits_def Let_def default_ids displayed_name default_names split: prod.split)
  then obtain c2 where c2: "must_all register_model (default_models net conf env) c1 = Inr c2"
    "map fst (ct_models c2) = map md_id (default_models net conf env)" "ct_pipelines c2 = []" "ct_aliases c2 = []"
    using register_models_keys [of c1 "default_models net conf env"] c1 by (auto simp: ids)
  have "list_all (pipeline_fits (map fst (ct_models c2))) default_pipelines"
    by (simp add: c2(2) ids default_pipelines_def default_pipeline_def pipeline_fits_def selectors_of_def default_ids default_names)
  moreover have "distinct (concat (map selectors_of default_pipelines))"
    by (simp add: default_pipelines_def default_pipeline_def selectors_of_def)
  ultimately obtain c3 where "must_all register_pipeline default_pipelines c2 = Inr c3"
    "map fst (ct_pipelines c3) = map pl_id default_pipelines"
    using register_pipelines_keys [of c2 default_pipelines] c2 by auto
  then show ?thesis
    using c1(1) c2(1) by (simp add: new_default_registry_def and_then_def default_pipelines_def default_pipeline_def)
qed

lemma demo_upper_chars [simp]: "char_of (114 :: nat) = CHR ''r''" "char_of (99 :: nat) = CHR ''c''" "char_of (111 :: nat) = CHR ''o''"
  "char_of (105 :: nat) = CHR ''i''"
  by code_simp+

definition demo_catalog :: catalog where
  "demo_catalog = run_catalog [CatProvider (default_providers ! 0), CatModel (default_model ''openai.default'' ''openai-compatible'' ''Ollama'' True)]
     (new_registry 0)"

lemma demo_pipeline_registered: "\<exists>ct. register_pipeline (default_pipelines ! 0) demo_catalog = Inr ct"
  by (simp add: demo_catalog_def run_catalog_def default_providers_def default_pipelines_def default_model_def default_pipeline_def
    register_provider_def register_model_def register_pipeline_def new_registry_def default_ids default_names Let_def missing_reason_def)

lemma demo_lower_chat: "normalize_id ''Chat.OpenAI'' = ''chat.openai''"
  by (simp add: normalize_id_def trim_graphic graphic_def byte_of_def to_lower_def to_lower_char_def Let_def)

lemma registration_roundtrip_witness:
  "\<exists>ct r. register_pipeline (default_pipelines ! 0) demo_catalog = Inr ct \<and> resolve_pipeline ct ''Chat.OpenAI'' = Inr r \<and>
     pl_id (rp_pipeline r) = ''openai''"
proof -
  obtain ct where ct: "register_pipeline (default_pipelines ! 0) demo_catalog = Inr ct" using demo_pipeline_registered by blast
  have ok: "catalog_ok demo_catalog" unfolding demo_catalog_def by (rule run_catalog_ok [OF catalog_ok_new])
  have sel: "''chat.openai'' \<in> set (selectors_of (default_pipelines ! 0))" "pl_id (default_pipelines ! 0) = ''openai''"
    by (simp_all add: default_pipelines_def default_pipeline_def selectors_of_def)
  have "normalize_id ''Chat.OpenAI'' = normalize_id ''chat.openai''" by (simp add: demo_lower_chat default_ids)
  with registration_roundtrip [OF ok ct] sel(1)
  obtain r where "resolve_pipeline ct ''Chat.OpenAI'' = Inr r" "pl_id (rp_pipeline r) = normalize_id (pl_id (default_pipelines ! 0))" by blast
  then show ?thesis using ct sel(2) by (auto simp: default_ids)
qed

end
