(* ===== verification/AgentApi.thy ===== *)
theory AgentApi
  imports AgentPlanning ModelCatalog
begin

text \<open>
  \<open>src/service/agent/service.go\<close>: the operations the API offers to a user. The service is the
  state of its store, gateway and models, the catalog of pipelines, the channel of hints to the
  worker and the tasks whose run was cancelled in this process.
\<close>

section \<open>The service\<close>

record 'g service =
  sv_agent :: "'g agent_state"
  sv_catalog :: catalog
  sv_hints :: "string list"
  sv_running :: "string list"
  sv_cancelled :: "string list"

type_synonym ('g, 'a) api_call = "('g service, svc_error, 'a) call"

definition in_agent :: "('g agent_state, 'e, 'a) call \<Rightarrow> ('g service, 'e, 'a) call" where
  "in_agent m = (\<lambda>s. case m (sv_agent s) of (r, t) \<Rightarrow> (r, s\<lparr>sv_agent := t\<rparr>))"

definition api_store :: "'l agent_library_scheme \<Rightarrow> (unit, 'a) db_call \<Rightarrow> ('g, 'a) api_call" where
  "api_store lib m = in_agent (store_call lib m)"

text \<open>\<open>make(chan string, 128)\<close>: a hint that does not fit is dropped.\<close>

definition hint_capacity :: nat where "hint_capacity = 128"

definition hint :: "string \<Rightarrow> ('g, unit) api_call" where
  "hint taskID = modifies (\<lambda>s. if length (sv_hints s) < hint_capacity then s\<lparr>sv_hints := sv_hints s @ [taskID]\<rparr> else s)"

definition register_running :: "string \<Rightarrow> ('g, unit) api_call" where
  "register_running taskID = modifies (\<lambda>s. s\<lparr>sv_running := taskID # filter (\<lambda>i. i \<noteq> taskID) (sv_running s)\<rparr>)"

definition unregister_running :: "string \<Rightarrow> ('g, unit) api_call" where
  "unregister_running taskID = modifies (\<lambda>s. s\<lparr>sv_running := filter (\<lambda>i. i \<noteq> taskID) (sv_running s)\<rparr>)"

definition cancel_running :: "string \<Rightarrow> ('g, unit) api_call" where
  "cancel_running taskID = modifies (\<lambda>s. if taskID \<in> set (sv_running s)
     then s\<lparr>sv_cancelled := taskID # sv_cancelled s\<rparr> else s)"

section \<open>Creating and reading tasks\<close>

definition validate_model_selector :: "string \<Rightarrow> ('g, string) api_call" where
  "validate_model_selector selector = bindE (gets sv_catalog) (\<lambda>ct. case resolve_pipeline ct selector of
     Inl _ \<Rightarrow> fail (because KindInvalidInput ''unknown model selector'')
   | Inr r \<Rightarrow>
       if \<not> rp_available r then fail (because KindInvalidInput ''selected model is unavailable'')
       else if \<not> equal_fold (trim_space (pl_kind (rp_pipeline r))) ''chat''
       then fail (because KindInvalidInput ''Agent planning requires an available chat pipeline'')
       else ret (pl_id (rp_pipeline r)))"

definition new_task :: "string \<Rightarrow> string \<Rightarrow> string \<Rightarrow> string \<Rightarrow> agent_task" where
  "new_task taskID userName goal canonical = zero_task\<lparr>t_id := taskID, t_user := userName, t_goal := goal,
     t_model := canonical, t_status := TaskPending\<rparr>"

definition new_plan_step :: "string \<Rightarrow> string \<Rightarrow> string \<Rightarrow> agent_step" where
  "new_plan_step stepID taskID userName = zero_step\<lparr>s_id := stepID, s_task := taskID, s_user := userName, s_seq := 0,
     s_kind := KindPlan, s_node := node_plan, s_title := plan_title, s_status := StepPending,
     s_decision := DecisionPending\<rparr>"

text \<open>The store completes the task it is given and attaches the step: the caller gets both.\<close>

definition create_task :: "'l agent_library_scheme \<Rightarrow> string \<Rightarrow> string \<Rightarrow> string \<Rightarrow> ('g, loaded_task) api_call" where
  "create_task lib userName0 goal0 modelID0 =
     (let userName = trim_space userName0; goal = trim_space goal0; modelID = trim_space modelID0 in
     bindE (guardE (userName \<noteq> [] \<and> goal \<noteq> [] \<and> modelID \<noteq> [] \<and> rune_count goal \<le> max_goal_runes)
       (because KindInvalidInput ''username, goal and model ID are required and goal is limited to 12000 characters'')) (\<lambda>_.
     bindE (validate_model_selector modelID) (\<lambda>canonical.
     bindE (in_agent new_uuid) (\<lambda>taskID.
     bindE (in_agent new_uuid) (\<lambda>stepID.
     bindE (api_store lib (create_task_with_initial_step (Some (new_task taskID userName goal canonical))
        (Some (new_plan_step stepID taskID userName)))) (\<lambda>task.
     bindE (hint (t_id (fst task))) (\<lambda>_. ret task)))))))"

definition get_task :: "'l agent_library_scheme \<Rightarrow> string \<Rightarrow> string \<Rightarrow> ('g, loaded_task) api_call" where
  "get_task lib userName taskID =
     bindE (guardE (trim_space userName \<noteq> [] \<and> trim_space taskID \<noteq> [])
       (because KindInvalidInput ''username and task ID are required'')) (\<lambda>_.
     api_store lib (get_owned_task userName taskID))"

section \<open>Listing\<close>

definition default_list_limit :: int where "default_list_limit = 30"
definition max_list_limit :: int where "max_list_limit = 200"

definition status_words :: "(string \<times> task_status) list" where
  "status_words = [(''pending'', TaskPending), (''planning'', TaskPlanning), (''running'', TaskRunning),
     (''waiting_approval'', TaskWaitingApproval), (''requires_review'', TaskRequiresReview),
     (''succeeded'', TaskSucceeded), (''failed'', TaskFailed), (''rejected'', TaskRejected),
     (''cancelled'', TaskCancelled)]"

definition valid_task_status :: "string \<Rightarrow> bool" where
  "valid_task_status w \<longleftrightarrow> map_of status_words w \<noteq> None"

text \<open>
  The walk over the owner's pages. It ends: another actor changes the table between two pages
  only as often as the schedule says, and with the table at rest the offset grows.
\<close>

lemma api_store_Inr:
  assumes "api_store lib m s = (Inr x, t)"
  shows "m (ag_db (interfered (sv_agent s))) = (Inr x, ag_db (sv_agent t)) \<and>
    ag_others (sv_agent t) = ag_others (interfered (sv_agent s)) \<and> t = s\<lparr>sv_agent := sv_agent t\<rparr>"
proof -
  obtain u where u: "store_call lib m (sv_agent s) = (Inr x, u)" and t: "t = s\<lparr>sv_agent := u\<rparr>"
    using assms by (auto simp: api_store_def in_agent_def split: prod.splits)
  have "u = (interfered (sv_agent s))\<lparr>ag_db := ag_db u\<rparr>" using store_call_state [OF u] .
  then have "ag_others u = ag_others (interfered (sv_agent s))" by (metis agent_state.select_convs(2) agent_state.surjective agent_state.update_convs(1))
  then show ?thesis using store_call_Inr [OF u] by (simp add: t)
qed

lemma interfered_others: "ag_others (interfered s) = tl (ag_others s)"
  by (simp add: interfered_def split: list.split)

text \<open>A user's tasks as the store orders them: the newest first.\<close>

definition owned_order :: "string \<Rightarrow> world \<Rightarrow> agent_task list" where
  "owned_order userName w = rev (sort_key (\<lambda>t. (t_created_at t, t_id t)) (filter (\<lambda>t. t_user t = userName) (d_tasks w)))"

lemma list_page:
  assumes "list_owned_tasks userName (int offset) max_list_limit w = (Inr (page, tot), w')"
  shows "page = take 200 (drop offset (owned_order (trim_space userName) w)) \<and>
    tot = length (owned_order (trim_space userName) w) \<and> tables w' = tables w"
  using assms unfolding list_owned_tasks_def Let_def
  by (auto elim!: bindE_InrE dest!: database_Inr select_tasks_Inr
      simp: tables_def owned_order_def count_where_def clamp_limit_def max_list_limit_def max_task_list_limit_def default_task_list_limit_def)

lemma page_progress:
  assumes "api_store lib (list_owned_tasks userName (int offset) max_list_limit) s = (Inr (page, tot), t)"
    and "\<not> tot \<le> offset + length page"
  shows "length (ag_others (sv_agent t)) < length (ag_others (sv_agent s)) \<or>
    (ag_others (sv_agent s) = [] \<and> ag_others (sv_agent t) = [] \<and>
     d_tasks (ag_db (sv_agent t)) = d_tasks (ag_db (sv_agent s)) \<and> offset < length (d_tasks (ag_db (sv_agent s))))"
proof (cases "ag_others (sv_agent s)")
  case Nil
  from api_store_Inr [OF assms(1)] Nil
  have l: "list_owned_tasks userName (int offset) max_list_limit (ag_db (sv_agent s)) = (Inr (page, tot), ag_db (sv_agent t))"
    and o: "ag_others (sv_agent t) = []" by simp_all
  have "tot \<le> length (d_tasks (ag_db (sv_agent s)))" "d_tasks (ag_db (sv_agent t)) = d_tasks (ag_db (sv_agent s))"
    using list_page [OF l] by (auto simp: tables_def owned_order_def)
  then show ?thesis using Nil o assms(2) by auto
next
  case (Cons ops rest)
  then show ?thesis using api_store_Inr [OF assms(1)] by (simp add: interfered_others)
qed

function walk_pages :: "'l agent_library_scheme \<Rightarrow> string \<Rightarrow> task_status \<Rightarrow> nat \<Rightarrow> ('g, agent_task list) api_call" where
  "walk_pages lib userName status offset s =
     (case api_store lib (list_owned_tasks userName (int offset) max_list_limit) s of
        (Inl e, t) \<Rightarrow> (Inl e, t)
      | (Inr (page, tot), t) \<Rightarrow>
          (let kept = filter (\<lambda>x. t_status x = status) page in
           if tot \<le> offset + length page \<or> page = [] then (Inr kept, t)
           else case walk_pages lib userName status (offset + nat max_list_limit) t of
               (Inl e, u) \<Rightarrow> (Inl e, u) | (Inr rest, u) \<Rightarrow> (Inr (kept @ rest), u)))"
  by pat_completeness auto
termination
proof (relation "measures [\<lambda>(_, _, _, _, s). length (ag_others (sv_agent s)),
    \<lambda>(_, _, _, offset, s). length (d_tasks (ag_db (sv_agent s))) - offset]", goal_cases)
  case 1
  show ?case by simp
next
  case (2 lib userName status offset s r t x page tot kept)
  then have a: "api_store lib (list_owned_tasks userName (int offset) max_list_limit) s = (Inr (page, tot), t)" by simp
  from page_progress [OF this] 2 show ?case by (auto simp: max_list_limit_def)
qed

definition list_tasks :: "'l agent_library_scheme \<Rightarrow> string \<Rightarrow> string \<Rightarrow> int \<Rightarrow> int \<Rightarrow> ('g, agent_task list \<times> nat) api_call" where
  "list_tasks lib userName0 status0 limit0 offset =
     (let userName = trim_space userName0; status = trim_space (to_lower status0);
          limit1 = (if limit0 \<le> 0 then default_list_limit else limit0);
          limit = (if limit1 > max_list_limit then max_list_limit else limit1)
      in bindE (guardE (userName \<noteq> [] \<and> 0 \<le> offset) (because KindInvalidInput ''invalid list query'')) (\<lambda>_.
         if status = [] then api_store lib (list_owned_tasks userName offset limit)
         else case map_of status_words status of
           None \<Rightarrow> fail (because KindInvalidInput ''unknown task status'')
         | Some st \<Rightarrow> bindE (walk_pages lib userName st 0) (\<lambda>all.
             ret (take (nat limit) (drop (nat offset) all), length all))))"

section \<open>Decisions\<close>

definition owned_approval_step :: "'l agent_library_scheme \<Rightarrow> string \<Rightarrow> string \<Rightarrow> string \<Rightarrow> ('g, agent_task \<times> agent_step) api_call" where
  "owned_approval_step lib userName taskID stepID =
     bindE (get_task lib userName taskID) (\<lambda>(task, steps).
     case find (\<lambda>s. s_id s = stepID) steps of
       None \<Rightarrow> fail (sentinel KindNotFound)
     | Some step \<Rightarrow> ret (task, step))"

definition awaiting_decision :: "agent_task \<Rightarrow> agent_step \<Rightarrow> bool" where
  "awaiting_decision task step \<longleftrightarrow> s_requires_approval step \<and> t_status task = TaskWaitingApproval \<and>
     s_status step = StepWaitingApproval"

definition approve_task :: "'l agent_library_scheme \<Rightarrow> string \<Rightarrow> string \<Rightarrow> string \<Rightarrow> string \<Rightarrow> ('g, loaded_task) api_call" where
  "approve_task lib userName taskID stepID expected0 =
     (let expected = to_lower (trim_space expected0) in
     bindE (guardE (expected \<noteq> [])
       (because KindInvalidInput ''expected arguments digest is required to approve a step'')) (\<lambda>_.
     bindE (owned_approval_step lib userName taskID stepID) (\<lambda>(task, step).
     bindE (guardE (awaiting_decision task step) (because KindConflict ''step is not waiting for approval'')) (\<lambda>_.
     bindE (guardE (equal_fold (trim_space (s_args_digest step)) expected)
       (because KindConflict ''approved arguments no longer match the pending step'')) (\<lambda>_.
     bindE (api_store lib (update_owned_step_decision userName taskID stepID ''approved'' [] expected)) (\<lambda>_.
     bindE (hint taskID) (\<lambda>_.
     get_task lib userName taskID)))))))"

definition reject_task :: "'l agent_library_scheme \<Rightarrow> string \<Rightarrow> string \<Rightarrow> string \<Rightarrow> string \<Rightarrow> ('g, loaded_task) api_call" where
  "reject_task lib userName taskID stepID reason =
     bindE (owned_approval_step lib userName taskID stepID) (\<lambda>(task, step).
     bindE (guardE (awaiting_decision task step) (because KindConflict ''step is not waiting for approval'')) (\<lambda>_.
     bindE (api_store lib (update_owned_step_decision userName taskID stepID ''rejected'' (shorten (trim_space reason) 500) [])) (\<lambda>_.
     get_task lib userName taskID)))"

definition resume_task :: "'l agent_library_scheme \<Rightarrow> string \<Rightarrow> string \<Rightarrow> bool \<Rightarrow> ('g, loaded_task) api_call" where
  "resume_task lib userName taskID retryUnknown =
     bindE (get_task lib userName taskID) (\<lambda>_.
     bindE (api_store lib (resume_owned_task userName taskID retryUnknown)) (\<lambda>_.
     bindE (hint taskID) (\<lambda>_.
     get_task lib userName taskID)))"

definition cancel_task :: "'l agent_library_scheme \<Rightarrow> string \<Rightarrow> string \<Rightarrow> ('g, loaded_task) api_call" where
  "cancel_task lib userName taskID =
     bindE (get_task lib userName taskID) (\<lambda>(task, steps).
     if t_status task = TaskCancelled then ret (task, steps)
     else bindE (guardE (\<not> task_terminal (t_status task)) (because KindConflict ''terminal task cannot be cancelled'')) (\<lambda>_.
       bindE (api_store lib (cancel_owned_task userName taskID)) (\<lambda>_.
       bindE (cancel_running taskID) (\<lambda>_.
       get_task lib userName taskID))))"

section \<open>Listing with a status\<close>

lemma list_page_healthy:
  assumes "healthy w" and "trim_space userName \<noteq> []"
  shows "list_owned_tasks userName (int offset) max_list_limit w =
    (Inr (take 200 (drop offset (owned_order (trim_space userName) w)), length (owned_order (trim_space userName) w)), w)"
  using assms by (simp add: list_owned_tasks_def Let_def bindE_def database_def gets_def guardE_def ret_def healthy_def
      select_tasks_def statement_healthy clamp_limit_def max_list_limit_def max_task_list_limit_def owned_order_def count_where_def)

lemma api_store_quiet:
  assumes "m (ag_db (sv_agent s)) = (Inr x, ag_db (sv_agent s))" and "ag_others (sv_agent s) = []"
  shows "api_store lib m s = (Inr x, s)"
  using assms by (simp add: api_store_def in_agent_def store_call_def map_err_def on_store_def Let_def)

lemma walk_pages_healthy:
  assumes "healthy (ag_db (sv_agent s))" and "ag_others (sv_agent s) = []" and "trim_space userName \<noteq> []"
  shows "walk_pages lib userName status offset s =
    (Inr (filter (\<lambda>x. t_status x = status) (drop offset (owned_order (trim_space userName) (ag_db (sv_agent s))))), s)"
proof (induction "length (owned_order (trim_space userName) (ag_db (sv_agent s))) - offset" arbitrary: offset rule: less_induct)
  case less
  let ?L = "owned_order (trim_space userName) (ag_db (sv_agent s))"
  have p: "api_store lib (list_owned_tasks userName (int offset) max_list_limit) s = (Inr (take 200 (drop offset ?L), length ?L), s)"
    by (rule api_store_quiet) (rule list_page_healthy [OF assms(1,3)], rule assms(2))
  show ?case
  proof (cases "length ?L \<le> offset + length (take 200 (drop offset ?L)) \<or> take 200 (drop offset ?L) = []")
    case True
    then have "take 200 (drop offset ?L) = drop offset ?L" by auto
    then show ?thesis using True p by (simp add: Let_def)
  next
    case False
    then have "walk_pages lib userName status (offset + 200) s = (Inr (filter (\<lambda>x. t_status x = status) (drop (offset + 200) ?L)), s)"
      by (intro less) auto
    moreover have "drop offset ?L = take 200 (drop offset ?L) @ drop (offset + 200) ?L"
      by (metis append_take_drop_id drop_drop add.commute)
    ultimately show ?thesis using False p by (simp add: Let_def max_list_limit_def) (metis filter_append)
  qed
qed

text \<open>a listing with a status is exact. The page walk ends and, on a store at rest, returns what
  filtering the whole list of the user's tasks would: the requested window of the tasks with that
  status, the newest first, and their number.\<close>

lemma filtered_listing:
  assumes "healthy (ag_db (sv_agent s))" and "ag_others (sv_agent s) = []" and "trim_space userName \<noteq> []" and "0 \<le> offset"
    and "map_of status_words (trim_space (to_lower status)) = Some st"
  shows "list_tasks lib userName status limit offset s =
    (let all = filter (\<lambda>t. t_status t = st) (owned_order (trim_space userName) (ag_db (sv_agent s)));
         window = nat (if limit \<le> 0 then 30 else min limit 200)
     in (Inr (take window (drop (nat offset) all), length all), s))"
proof -
  have "trim_space (to_lower status) \<noteq> []" using assms(5) by (auto simp: status_words_def)
  moreover have "trim_space (trim_space userName) \<noteq> []" using assms(3) by simp
  ultimately show ?thesis
    using assms(3-5) walk_pages_healthy [OF assms(1,2), of "trim_space userName" lib st 0]
    by (simp add: list_tasks_def Let_def bindE_def guardE_def ret_def default_list_limit_def max_list_limit_def min_def
        del: walk_pages.simps)
qed

definition demo_service :: "nat service" where
  "demo_service = \<lparr>sv_agent = demo_agent 0, sv_catalog = new_registry 0, sv_hints = [], sv_running = [], sv_cancelled = []\<rparr>"

lemma demo_running_word: "map_of status_words (trim_space (to_lower ''Running'')) = Some TaskRunning"
proof -
  have "trim_space (to_lower ''Running'') = ''running''"
    by (simp add: trim_graphic graphic_def byte_of_def to_lower_def to_lower_char_def Let_def)
  then show ?thesis by (simp add: status_words_def)
qed

lemma filtered_listing_witness:
  "list_tasks demo_agent_library ''alice'' ''Running'' 10 0 demo_service = (Inr ([demo_task], 1), demo_service)"
proof -
  have db: "ag_db (sv_agent demo_service) = demo_agent_db" by (simp add: demo_service_def demo_agent_def)
  have rows: "filter (\<lambda>t. t_status t = TaskRunning) (owned_order ''alice'' demo_agent_db) = [demo_task]"
    by (simp add: owned_order_def demo_agent_db_def demo_rows)
  have "healthy (ag_db (sv_agent demo_service))" by (simp add: db healthy_def demo_agent_db_def demo_world_def)
  moreover have "ag_others (sv_agent demo_service) = []" by (simp add: demo_service_def demo_agent_def)
  ultimately show ?thesis
    using filtered_listing [OF _ _ _ _ demo_running_word, of demo_service "''alice''" 0 demo_agent_library 10]
    by (simp add: db rows Let_def)
qed

end
