(* ===== verification/AgentWorker.thy ===== *)
theory AgentWorker
  imports AgentApi
begin

text \<open>
  \<open>src/service/agent/worker.go\<close>: claiming a task, running its graph, and what is recorded when
  a run ends. The graph engine is third-party code, a parameter: from a context, an input and
  whether a new run is forced it gives the way one invocation ended. Goroutines, tickers and the
  cancellation of contexts are not modelled; each function of the worker is one call.
\<close>

section \<open>Options\<close>

record worker_options =
  wo_id :: string
  wo_poll_interval :: int
  wo_lease :: int
  wo_stale_after :: int
  wo_batch_size :: int

definition default_poll_interval :: int where "default_poll_interval = 2 * second"
definition default_worker_lease :: int where "default_worker_lease = 30 * second"
definition default_stale_after :: int where "default_stale_after = 600 * second"
definition default_max_run_steps :: nat where "default_max_run_steps = 40"

definition normalize_worker_options :: "worker_options \<Rightarrow> ('g, worker_options) svc_call" where
  "normalize_worker_options o0 =
     bindE (if trim_space (wo_id o0) = [] then bindE new_uuid (\<lambda>i. ret (''agent-worker-'' @ i)) else ret (wo_id o0)) (\<lambda>i.
     ret \<lparr>wo_id = i,
       wo_poll_interval = (if wo_poll_interval o0 \<le> 0 then default_poll_interval else wo_poll_interval o0),
       wo_lease = (if wo_lease o0 \<le> 0 then default_worker_lease else wo_lease o0),
       wo_stale_after = (if wo_stale_after o0 \<le> 0 then default_stale_after else wo_stale_after o0),
       wo_batch_size = (if wo_batch_size o0 \<le> 0 \<or> wo_batch_size o0 > max_list_limit then 20 else wo_batch_size o0)\<rparr>)"

section \<open>The engine\<close>

text \<open>
  What \<open>compose.ExtractInterruptInfo\<close> finds in an interrupt: the approval a rerun node left
  under \<open>approval_gate\<close>, the interrupts of sub-graphs, and the nodes after which the graph
  stopped.
\<close>

datatype interrupt_info = InterruptInfo "approval_interrupt option" "interrupt_info list" "string list"

datatype run_outcome = RunDone | RunFailed svc_error | RunInterrupted interrupt_info svc_error

type_synonym 'g engine = "run_ctx \<Rightarrow> string \<Rightarrow> bool \<Rightarrow> 'g agent_state \<Rightarrow> run_outcome \<times> 'g agent_state"

fun approval_from_interrupt :: "interrupt_info \<Rightarrow> approval_interrupt option" and
    approval_from_children :: "interrupt_info list \<Rightarrow> approval_interrupt option" where
  "approval_from_interrupt (InterruptInfo extra children after) = (case extra of
     Some a \<Rightarrow> Some a | None \<Rightarrow> approval_from_children children)"
| "approval_from_children [] = None"
| "approval_from_children (i # is) = (case approval_from_interrupt i of
     Some a \<Rightarrow> Some a | None \<Rightarrow> approval_from_children is)"

definition after_nodes :: "interrupt_info \<Rightarrow> string list" where
  "after_nodes i = (case i of InterruptInfo extra children after \<Rightarrow> after)"

text \<open>
  The loop of \<open>runClaimedTask\<close>: \<open>n\<close> invocations are left; every one but the first resumes
  the checkpoint the one before it wrote.
\<close>

fun run_graph :: "'g engine \<Rightarrow> run_ctx \<Rightarrow> nat \<Rightarrow> string \<Rightarrow> bool \<Rightarrow> ('g, unit) svc_call" where
  "run_graph engine c 0 input forced = fail (plain_error ''Agent graph exceeded automatic checkpoint resume limit'')"
| "run_graph engine c (Suc n) input forced = (\<lambda>s. case engine c input forced s of
     (RunDone, t) \<Rightarrow> (Inr (), t)
   | (RunFailed e, t) \<Rightarrow> (Inl e, t)
   | (RunInterrupted info e, t) \<Rightarrow>
       if approval_from_interrupt info \<noteq> None then (Inl (sentinel KindApprovalPending), t)
       else if after_nodes info = [] then (Inl e, t)
       else run_graph engine c n [] False t)"

definition run_claimed_task :: "'l agent_library_scheme \<Rightarrow> 'g engine \<Rightarrow> nat \<Rightarrow> run_ctx \<Rightarrow> string \<Rightarrow> ('g, unit) svc_call" where
  "run_claimed_task lib engine maxRunSteps c taskID =
     bindE (map_err (\<lambda>e. wrapped ''load Agent checkpoint'' (SvcError (if e = Driver ContextCanceled then KindCanceled else KindOther)
        (al_store_text lib e))) (on_store (get_checkpoint taskID))) (\<lambda>found.
     run_graph engine c (Suc maxRunSteps) taskID (found = None))"

section \<open>A run that failed\<close>

text \<open>A call whose error is looked at and dropped.\<close>

definition attempt :: "('s, 'e, 'a) call \<Rightarrow> ('s, 'd, 'e + 'a) call" where
  "attempt m = (\<lambda>s. case m s of (r, t) \<Rightarrow> (Inr r, t))"

definition step_finished :: "step_status \<Rightarrow> bool" where
  "step_finished st \<longleftrightarrow> st \<in> {StepSucceeded, StepRejected, StepSkipped}"

definition current_failure_step :: "agent_task \<Rightarrow> agent_step list \<Rightarrow> agent_step option" where
  "current_failure_step task steps =
     (case find (\<lambda>s. s_id s = t_current_step task \<and> \<not> step_finished (s_status s)) steps of
        Some s \<Rightarrow> Some s
      | None \<Rightarrow> (case find (\<lambda>s. \<not> step_finished (s_status s)) steps of
          Some s \<Rightarrow> Some s
        | None \<Rightarrow> find (\<lambda>s. s_kind s = KindFinal) steps))"

definition uncertain_tool :: "agent_step \<Rightarrow> bool" where
  "uncertain_tool s \<longleftrightarrow> s_kind s = KindTool \<and> s_status s = StepRunning \<and>
     (s_destructive s \<or> (\<not> s_read_only s \<and> \<not> s_idempotent s))"

definition settled_status :: "task_status \<Rightarrow> bool" where
  "settled_status st \<longleftrightarrow> st \<in> {TaskWaitingApproval, TaskRequiresReview, TaskSucceeded, TaskRejected, TaskCancelled}"

definition fail_current_step :: "run_ctx \<Rightarrow> agent_task \<Rightarrow> agent_step option \<Rightarrow> nat \<Rightarrow> string \<Rightarrow> time \<Rightarrow> ('g, unit) svc_call" where
  "fail_current_step c current step v message now = (case step of
     Some s \<Rightarrow>
       if s_status s \<noteq> StepFailed \<and> s_status s \<noteq> StepExecutionUnknown
       then ignoring (on_store (update_step_fenced c (t_id current) (s_id s) v
          [(''status'', VStepStatus StepFailed), (''finished_at'', VTime now), (''error_message'', VStr message)]))
       else ret ()
   | None \<Rightarrow> ret ())"

definition mark_run_failed :: "run_ctx \<Rightarrow> agent_task \<Rightarrow> svc_error \<Rightarrow> ('g, unit) svc_call" where
  "mark_run_failed c claimed cause =
     bindE clock_now (\<lambda>now.
     bindE (attempt (on_store (get_task_by_id (t_id claimed)))) (\<lambda>loaded. case loaded of
       Inl _ \<Rightarrow> ret ()
     | Inr (current, steps) \<Rightarrow>
        (let step = current_failure_step current steps; v = t_run_version claimed; message = step_error cause in
         if t_run_version current \<noteq> v \<or> settled_status (t_status current) then ret ()
         else if (case step of None \<Rightarrow> False | Some s \<Rightarrow> uncertain_tool s)
         then ignoring (on_store (mark_execution_unknown_fenced c (t_id current) (s_id (the step)) v message))
         else bindE (fail_current_step c current step v message now) (\<lambda>_.
           ignoring (on_store (update_task_fenced c (t_id claimed) v
             [(''status'', VTaskStatus TaskFailed),
              (''current_step_id'', VStr (case step of None \<Rightarrow> t_current_step current | Some s \<Rightarrow> s_id s)),
              (''finished_at'', VTime now), (''error_message'', VStr message), (''lease_owner'', VStr []),
              (''lease_until'', VNull), (''heartbeat_at'', VNull)]))))))"

section \<open>Processing a task\<close>

definition quiet_end :: "svc_error \<Rightarrow> bool" where
  "quiet_end e \<longleftrightarrow> svc_kind_of e \<in> {KindApprovalPending, KindTaskStopped, KindCanceled, KindNeedsReview}"

definition run_context :: "ctx \<Rightarrow> agent_task \<Rightarrow> string \<Rightarrow> run_ctx" where
  "run_context c task workerID = with_worker_fencing_token
     (with_run_version (ctx.extend c \<lparr>cx_version = 0\<rparr>) (t_run_version task)) (t_id task) (t_run_version task) workerID"

definition process_task_id :: "'l agent_library_scheme \<Rightarrow> 'g engine \<Rightarrow> nat \<Rightarrow> worker_options \<Rightarrow> ctx \<Rightarrow> string \<Rightarrow>
    ('g, unit) api_call" where
  "process_task_id lib engine maxRunSteps opts c taskID =
     bindE (api_store lib (claim_task taskID (wo_id opts) (wo_lease opts))) (\<lambda>claimed. case claimed of
       None \<Rightarrow> ret ()
     | Some (task, steps) \<Rightarrow>
         bindE (register_running (t_id task)) (\<lambda>_.
         bindE (tryE (in_agent (run_claimed_task lib engine maxRunSteps (run_context c task (wo_id opts)) (t_id task)))) (\<lambda>outcome.
         case outcome of
           Inr _ \<Rightarrow> unregister_running (t_id task)
         | Inl e \<Rightarrow>
             if quiet_end e then unregister_running (t_id task)
             else bindE (in_agent (mark_run_failed (run_context c task (wo_id opts)) task e)) (\<lambda>_.
               bindE (unregister_running (t_id task)) (\<lambda>_. fail e)))))"

section \<open>The loop\<close>

definition stop_requested :: "('g, bool) api_call" where
  "stop_requested = (\<lambda>s. case ctx_err (ag_db (sv_agent s)) of
     (r, w) \<Rightarrow> (Inr (r = Inr True), s\<lparr>sv_agent := (sv_agent s)\<lparr>ag_db := w\<rparr>\<rparr>))"

text \<open>The poll: stale tasks are recovered, then the pending ones processed; errors are only logged.\<close>

fun process_all :: "'l agent_library_scheme \<Rightarrow> 'g engine \<Rightarrow> nat \<Rightarrow> worker_options \<Rightarrow> ctx \<Rightarrow> string list \<Rightarrow> ('g, unit) api_call" where
  "process_all lib engine n opts c [] = ret ()"
| "process_all lib engine n opts c (i # is) =
     bindE stop_requested (\<lambda>stop. if stop then ret ()
     else bindE (ignoring (process_task_id lib engine n opts c i)) (\<lambda>_. process_all lib engine n opts c is))"

definition poll_pending :: "'l agent_library_scheme \<Rightarrow> 'g engine \<Rightarrow> nat \<Rightarrow> worker_options \<Rightarrow> ctx \<Rightarrow> ('g, unit) api_call" where
  "poll_pending lib engine n opts c =
     bindE stop_requested (\<lambda>stop. if stop then ret ()
     else bindE (in_agent clock_now) (\<lambda>now.
       bindE (ignoring (in_agent (on_store (recover_stale_tasks (now - wo_stale_after opts))))) (\<lambda>_.
       bindE (attempt (in_agent (on_store (list_pending_task_ids (wo_batch_size opts))))) (\<lambda>listed. case listed of
         Inl _ \<Rightarrow> ret ()
       | Inr ids \<Rightarrow> process_all lib engine n opts c ids))))"

datatype worker_event = HintReceived | PollDue

text \<open>One turn of the select in \<open>workerLoop\<close>: the next hint, or the poll that is due.\<close>

definition worker_turn :: "'l agent_library_scheme \<Rightarrow> 'g engine \<Rightarrow> nat \<Rightarrow> worker_options \<Rightarrow> ctx \<Rightarrow> worker_event \<Rightarrow>
    ('g, unit) api_call" where
  "worker_turn lib engine n opts c ev = (case ev of
     PollDue \<Rightarrow> poll_pending lib engine n opts c
   | HintReceived \<Rightarrow> bindE (gets sv_hints) (\<lambda>hints. case hints of
       [] \<Rightarrow> ret ()
     | i # rest \<Rightarrow> bindE (modifies (\<lambda>s. s\<lparr>sv_hints := rest\<rparr>)) (\<lambda>_.
         ignoring (process_task_id lib engine n opts c i))))"

fun worker_turns :: "'l agent_library_scheme \<Rightarrow> 'g engine \<Rightarrow> nat \<Rightarrow> worker_options \<Rightarrow> ctx \<Rightarrow> worker_event list \<Rightarrow>
    ('g, unit) api_call" where
  "worker_turns lib engine n opts c [] = ret ()"
| "worker_turns lib engine n opts c (ev # evs) =
     bindE (worker_turn lib engine n opts c ev) (\<lambda>_. worker_turns lib engine n opts c evs)"

text \<open>The loop polls once before it waits; it takes events until its context is done.\<close>

definition worker_loop :: "'l agent_library_scheme \<Rightarrow> 'g engine \<Rightarrow> nat \<Rightarrow> worker_options \<Rightarrow> ctx \<Rightarrow> worker_event list \<Rightarrow>
    ('g, unit) api_call" where
  "worker_loop lib engine n opts c evs =
     bindE (poll_pending lib engine n opts c) (\<lambda>_. worker_turns lib engine n opts c evs)"

section \<open>The heartbeat\<close>

datatype beat = BeatAgain | BeatStop | BeatCancel

definition beat_after :: "task_status \<Rightarrow> beat" where
  "beat_after st = (case st of
     TaskWaitingApproval \<Rightarrow> BeatStop | TaskSucceeded \<Rightarrow> BeatStop | TaskFailed \<Rightarrow> BeatStop
   | TaskRejected \<Rightarrow> BeatStop | TaskCancelled \<Rightarrow> BeatStop
   | TaskPlanning \<Rightarrow> BeatAgain | TaskRunning \<Rightarrow> BeatAgain
   | _ \<Rightarrow> BeatCancel)"

definition heartbeat_tick :: "worker_options \<Rightarrow> agent_task \<Rightarrow> ('g, beat) svc_call" where
  "heartbeat_tick opts task =
     bindE (attempt (on_store (renew_lease_fenced (t_id task) (t_run_version task) (wo_id opts) (wo_lease opts)))) (\<lambda>renewed.
     case renewed of
       Inr _ \<Rightarrow> ret BeatAgain
     | Inl _ \<Rightarrow>
         bindE (attempt (on_store (get_task_by_id (t_id task)))) (\<lambda>loaded. case loaded of
           Inl _ \<Rightarrow> ret BeatCancel
         | Inr (current, steps) \<Rightarrow>
             if t_run_version current = t_run_version task then ret (beat_after (t_status current)) else ret BeatCancel))"

end
