(* ===== verification/AgentWorkerSafety.thy ===== *)
theory AgentWorkerSafety
  imports AgentWorker
begin

text \<open>
  What the worker guarantees over whole runs: a run that ended in an error never turns an
  uncertain tool call into an ordinary failure, and every request the worker's loop hands to the
  MCP gateway was made for a verified and begun step under the fence of a task it had claimed.
\<close>

section \<open>A run that failed\<close>

lemma attempt_eval: "bindE (attempt m) f s = (case m s of (r, t) \<Rightarrow> f r t)"
  by (simp add: attempt_def bindE_def split: prod.split)

lemma ignored_store:
  assumes "ignoring (on_store m) s = (r, t)" and "ag_others s = []"
  shows "r = Inr () \<and> (\<exists>u. m (ag_db s) = (u, ag_db t)) \<and> ag_others t = []"
  using assms on_store_quiet [of m s] by (auto simp: ignoring_def split: prod.splits)

lemma safe_write_key: "s_id (assign_step (stamped now (sanitized_updates us immutable_step_columns)) s) = s_id s"
  "s_task (assign_step (stamped now (sanitized_updates us immutable_step_columns)) s) = s_task s"
  using safe_step_write_identity [of now us s] by (simp_all add: step_identity_def safe_step_write_def)

text \<open>A fenced update of one step, whether it is refused or not, leaves the other steps alone.\<close>

lemma other_step_untouched:
  assumes "update_step_fenced c i j v us w = (u, w')" and "k \<noteq> j" and "step_in i' k S w"
  shows "step_in i' k S w'"
proof (cases u)
  case (Inl e)
  then show ?thesis using assms error_restores(2) step_in_tables by blast
next
  case (Inr x)
  have "d_steps w' = update_where (\<lambda>s. s_id s = j \<and> s_task s = i)
      (assign_step (stamped (d_clock w) (sanitized_updates us immutable_step_columns))) (d_steps w)"
    using update_step_Inr [of c i j v us w w'] assms(1) Inr by simp
  then show ?thesis using assms(2,3) by (auto simp: step_in_def update_where_def safe_write_key)
qed

lemma task_update_keeps_steps:
  assumes "update_task_fenced c i v us w = (u, w')" and "step_in i' k S w"
  shows "step_in i' k S w'"
proof (cases u)
  case (Inl e)
  then show ?thesis using assms error_restores(3) step_in_tables by blast
next
  case (Inr x)
  then have "d_steps w' = d_steps w" using update_task_Inr assms(1) by simp
  then show ?thesis using assms(2) by (simp add: step_in_def)
qed

lemma marking_keeps_uncertain:
  assumes "mark_execution_unknown_fenced c i j v m w = (u, w')" and "step_in i' k {StepRunning, StepExecutionUnknown} w"
  shows "step_in i' k {StepRunning, StepExecutionUnknown} w'"
proof (cases u)
  case (Inl e)
  then show ?thesis using assms error_restores(1) step_in_tables by blast
next
  case (Inr x)
  have "d_steps w' = update_where (running_tool_row i j) (unknown_step (d_clock w) (bounded_message unknown_default_message m)) (d_steps w)"
    using mark_unknown_Inr [of c i j v m w w'] assms(1) Inr by simp
  then show ?thesis using assms(2) by (auto simp: step_in_def update_where_def unknown_step_def)
qed

text \<open>What \<open>markRunFailed\<close> does once it has read the task.\<close>

definition settle_failed :: "run_ctx \<Rightarrow> agent_task \<Rightarrow> svc_error \<Rightarrow> time \<Rightarrow> agent_task \<Rightarrow> agent_step option \<Rightarrow> ('g, unit) svc_call" where
  "settle_failed c claimed cause now current step =
     (if (case step of None \<Rightarrow> False | Some s \<Rightarrow> uncertain_tool s)
      then ignoring (on_store (mark_execution_unknown_fenced c (t_id current) (s_id (the step)) (t_run_version claimed) (step_error cause)))
      else bindE (fail_current_step c current step (t_run_version claimed) (step_error cause) now) (\<lambda>_.
        ignoring (on_store (update_task_fenced c (t_id claimed) (t_run_version claimed)
          [(''status'', VTaskStatus TaskFailed),
           (''current_step_id'', VStr (case step of None \<Rightarrow> t_current_step current | Some s \<Rightarrow> s_id s)),
           (''finished_at'', VTime now), (''error_message'', VStr (step_error cause)), (''lease_owner'', VStr []),
           (''lease_until'', VNull), (''heartbeat_at'', VNull)]))))"

lemma mark_run_failed_settles:
  "mark_run_failed c claimed cause = bindE clock_now (\<lambda>now.
     bindE (attempt (on_store (get_task_by_id (t_id claimed)))) (\<lambda>loaded. case loaded of
       Inl _ \<Rightarrow> ret ()
     | Inr (current, steps) \<Rightarrow>
         if t_run_version current \<noteq> t_run_version claimed \<or> settled_status (t_status current) then ret ()
         else settle_failed c claimed cause now current (current_failure_step current steps)))"
  by (simp add: mark_run_failed_def settle_failed_def Let_def cong: sum.case_cong prod.case_cong if_cong option.case_cong)

lemma settle_failed_status:
  assumes run: "settle_failed c claimed cause now current step s = (r, t)" and q: "ag_others s = []"
    and other: "\<And>y. step = Some y \<Longrightarrow> uncertain_tool y \<or> s_id y \<noteq> k"
    and st: "step_in i k {StepRunning, StepExecutionUnknown} (ag_db s)"
  shows "r = Inr () \<and> step_in i k {StepRunning, StepExecutionUnknown} (ag_db t)"
proof (cases "case step of None \<Rightarrow> False | Some s \<Rightarrow> uncertain_tool s")
  case True
  then show ?thesis
    using run ignored_store [OF _ q] marking_keeps_uncertain st by (fastforce simp: settle_failed_def)
next
  case False
  then obtain x u where x: "fail_current_step c current step (t_run_version claimed) (step_error cause) now s = (x, u)"
    by (cases "fail_current_step c current step (t_run_version claimed) (step_error cause) now s")
  have "x = Inr () \<and> ag_others u = [] \<and> step_in i k {StepRunning, StepExecutionUnknown} (ag_db u)"
  proof (cases step)
    case None
    then show ?thesis using x q st by (simp add: fail_current_step_def ret_def)
  next
    case (Some y)
    then have "s_id y \<noteq> k" using other False by auto
    then show ?thesis
      using x q st Some ignored_store [OF _ q] other_step_untouched [where k = k]
      by (fastforce simp: fail_current_step_def ret_def split: if_splits)
  qed
  then show ?thesis
    using run False x ignored_store [of _ u] task_update_keeps_steps
    by (fastforce simp: settle_failed_def bindE_def)
qed

lemma settle_failed_returns: "settle_failed c claimed cause now current step s = (r, t) \<Longrightarrow> r = Inr ()"
  by (auto simp: settle_failed_def fail_current_step_def bindE_def ignoring_def ret_def split: if_splits option.splits prod.splits sum.splits)

lemma failure_step_row:
  assumes "current_failure_step task steps = Some y"
  shows "y \<in> set steps"
  using assms by (auto simp: current_failure_step_def dest!: find_SomeD split: option.splits)

lemma loading_keeps_tables:
  assumes "get_task_by_id i w = (u, w')"
  shows "tables w' = tables w"
  using keepsD [OF reads.keeps_get_task_by_id assms] by simp

lemma step_id_unique:
  "wf_tables w \<Longrightarrow> x \<in> set (d_steps w) \<Longrightarrow> y \<in> set (d_steps w) \<Longrightarrow> s_id x = s_id y \<Longrightarrow> x = y"
  by (auto simp: wf_tables_def distinct_map dest: inj_onD)

lemma running_row:
  assumes "wf_tables w" and "x \<in> set (d_steps w)" and "uncertain_tool x"
  shows "step_in i (s_id x) {StepRunning} w"
  using step_id_unique [OF assms(1) _ assms(2)] assms(3) by (auto simp: step_in_def uncertain_tool_def)

text \<open>A run that ends in an error never turns an uncertain outcome into an ordinary failure.
  Whatever the error, and whatever faults the store shows meanwhile, \<open>markRunFailed\<close> returns,
  and a tool call of the task that was running and must not be replayed is afterwards still
  recorded as running or as of unknown outcome; and it leaves every row as it was when the task
  was claimed anew or has already waited, finished or stopped.\<close>

lemma mark_run_failed_safe:
  assumes run: "mark_run_failed c task cause s = (r, t)" and q: "ag_others s = []" and wf: "wf_tables (ag_db s)"
  shows "r = Inr () \<and>
    (\<forall>x \<in> set (d_steps (ag_db s)). s_task x = t_id task \<and> uncertain_tool x \<longrightarrow>
       step_in (t_id task) (s_id x) {StepRunning, StepExecutionUnknown} (ag_db t)) \<and>
    (\<forall>y. task_row (t_id task) (ag_db s) = Some y \<and> (t_run_version y \<noteq> t_run_version task \<or> settled_status (t_status y)) \<longrightarrow>
       tables (ag_db t) = tables (ag_db s))"
proof -
  obtain x u where l: "on_store (get_task_by_id (t_id task)) s = (x, u)" by fastforce
  from on_store_quiet [OF this q] have g: "get_task_by_id (t_id task) (ag_db s) = (x, ag_db u)" and qu: "ag_others u = []" by auto
  show ?thesis
  proof (cases x)
    case (Inl e)
    then have "r = Inr ()" "t = u" using run l by (auto simp: mark_run_failed_settles clock_now_def call_eval attempt_eval)
    moreover have tb: "tables (ag_db u) = tables (ag_db s)" using loading_keeps_tables [OF g] .
    ultimately show ?thesis using running_row [OF wf] step_in_tables [OF tb] step_in_mono by blast
  next
    case (Inr p)
    obtain current steps where p: "p = (current, steps)" by (cases p)
    from loaded_task_Inr [OF g [unfolded Inr p]]
    have row: "task_row (t_id task) (ag_db s) = Some current" and tb: "tables (ag_db u) = tables (ag_db s)"
      and steps: "steps = order_steps (filter (\<lambda>s. s_task s = t_id current) (d_steps (ag_db s)))"
      by (simp_all add: task_row_def)
    show ?thesis
    proof (cases "t_run_version current \<noteq> t_run_version task \<or> settled_status (t_status current)")
      case True
      then have "r = Inr ()" "t = u" using run l Inr p by (auto simp: mark_run_failed_settles clock_now_def call_eval attempt_eval)
      then show ?thesis using tb running_row [OF wf] step_in_tables [OF tb] step_in_mono by blast
    next
      case False
      then have m: "settle_failed c task cause (d_clock (ag_db s)) current (current_failure_step current steps) u = (r, t)"
        using run l Inr p by (auto simp: mark_run_failed_settles clock_now_def call_eval attempt_eval)
      have "r = Inr () \<and> step_in (t_id task) (s_id x) {StepRunning, StepExecutionUnknown} (ag_db t)"
        if x: "x \<in> set (d_steps (ag_db s))" "uncertain_tool x" for x
      proof (rule settle_failed_status [OF m qu])
        fix y assume "current_failure_step current steps = Some y"
        then have "y \<in> set (d_steps (ag_db s))" using failure_step_row steps by (fastforce simp: order_steps_def)
        then show "uncertain_tool y \<or> s_id y \<noteq> s_id x" using x wf by (metis step_id_unique)
      next
        show "step_in (t_id task) (s_id x) {StepRunning, StepExecutionUnknown} (ag_db u)"
          using running_row [OF wf x] step_in_tables [OF tb] step_in_mono by blast
      qed
      moreover have "r = Inr ()" using settle_failed_returns [OF m] .
      ultimately show ?thesis using False row by auto
    qed
  qed
qed

definition demo_failed_run :: "nat agent_state" where
  "demo_failed_run = (demo_agent 0)\<lparr>ag_db := demo_world\<rparr>"

lemma mark_run_failed_safe_witness:
  "fst (mark_run_failed demo_ctx demo_task (plain_error ''x'') demo_failed_run) = Inr () \<and>
   step_in ''t1'' ''s1'' {StepRunning, StepExecutionUnknown} (ag_db (snd (mark_run_failed demo_ctx demo_task (plain_error ''x'') demo_failed_run)))"
proof -
  obtain r t where rt: "mark_run_failed demo_ctx demo_task (plain_error ''x'') demo_failed_run = (r, t)" by fastforce
  have w: "ag_others demo_failed_run = []" "ag_db demo_failed_run = demo_world" by (simp_all add: demo_failed_run_def demo_agent_def)
  then have wf: "wf_tables (ag_db demo_failed_run)" by (simp add: demo_wf)
  have x: "demo_tool_step \<in> set (d_steps (ag_db demo_failed_run))" by (simp add: w demo_world_def)
  have k: "s_task demo_tool_step = t_id demo_task" "uncertain_tool demo_tool_step" "s_id demo_tool_step = ''s1''" "t_id demo_task = ''t1''"
    by (simp_all add: uncertain_tool_def demo_rows)
  from mark_run_failed_safe [OF rt w(1) wf] x k show ?thesis unfolding rt by auto
qed

end
