(* ===== verification/AgentWorkerCalls.thy ===== *)
theory AgentWorkerCalls
  imports AgentWorkerSafety
begin

text \<open>
  Which requests the worker's loop hands to the MCP gateway, for every engine that runs the
  graph by running its nodes, saving checkpoints and restoring the graph's local state.
\<close>

section \<open>Requests that are authorized\<close>

text \<open>
  On what authority a request is made in a run with context \<open>c\<close>: for a tool step that was
  loaded as its task's current one, approved when it needs approval, recorded as running under
  the fence of \<open>c\<close>, with its verified arguments and a definition of unchanged policy.
\<close>

definition authorized_request :: "'l agent_library_scheme \<Rightarrow> 'g mcp_gateway \<Rightarrow> run_ctx \<Rightarrow> invoke_request \<Rightarrow> bool" where
  "authorized_request lib gw c q \<longleftrightarrow> (\<exists>w0 i task step args tok op w w' ds g g' d.
     q = called_request task step args tok op \<and> loaded_tool_step w0 i task step \<and>
     (s_requires_approval step \<longrightarrow> s_decision step = DecisionApproved) \<and>
     begun c task step op w w' \<and> verified_arguments lib step args \<and>
     gw_tools gw g = (Inr ds, g') \<and> definition_by_name ds (s_tool step) = Some d \<and> \<not> tool_policy_changed step d \<and>
     validate_arguments (rx_compile lib) (td_input_schema d) args = None)"

definition grows :: "(invoke_request \<Rightarrow> bool) \<Rightarrow> 'g agent_state \<Rightarrow> 'g agent_state \<Rightarrow> bool" where
  "grows A s t \<longleftrightarrow> (\<exists>L. ag_log t = ag_log s @ L \<and> list_all A L)"

interpretation grows: state_preorder "grows A" for A
proof unfold_locales
  show "grows A s s" for s by (simp add: grows_def)
  show "grows A s t \<Longrightarrow> grows A t u \<Longrightarrow> grows A s u" for s t u by (auto simp: grows_def)
qed

lemma silent_grows: "keeps same_log m \<Longrightarrow> keeps (grows A) m"
  by (auto simp: keeps_def same_log_def grows_def)

lemma tool_node_grows: "keeps (grows (authorized_request lib gw c)) (tool_node lib gw c i)"
proof (rule keepsI)
  fix s r t assume run: "tool_node lib gw c i s = (r, t)"
  show "grows (authorized_request lib gw c) s t"
  proof (cases "ag_log t = ag_log s")
    case False
    from run this show ?thesis
    proof (rule tool_call_chain)
      fix i task step args tok op d w ds reply g and s2 s3 s4 s5 :: "'a agent_state"
      assume l: "ag_log t = ag_log s @ [called_request task step args tok op]"
        and h: "loaded_tool_step (ag_db (interfered s)) i task step" "s_requires_approval step \<longrightarrow> s_decision step = DecisionApproved"
          "begun c task step op w (ag_db s3)" "verified_arguments lib step args"
        and d: "gw_tools gw (ag_gateway s) = (Inr ds, ag_gateway s4)" "definition_by_name ds (s_tool step) = Some d"
          "\<not> tool_policy_changed step d" "validate_arguments (rx_compile lib) (td_input_schema d) args = None"
      have "authorized_request lib gw c (called_request task step args tok op)"
        unfolding authorized_request_def using h d by blast
      then show ?thesis using l by (simp add: grows_def)
    qed
  qed (simp add: grows_def)
qed

section \<open>The other nodes are silent\<close>

lemma logs_begin_planning: "keeps same_log (begin_planning lib c task step v now)"
  unfolding begin_planning_def by (intro logs.keeps_intros logs_store)

lemma logs_materialize_step: "keeps same_log (materialize_step lib task ds n p)"
  unfolding materialize_step_def by (intro logs.keeps_intros logs_basic)

lemma logs_materialize_steps: "keeps same_log (materialize_steps lib task ds n ps)"
proof (induction ps arbitrary: n)
  case Nil
  show ?case by (simp add: logs.keeps_ret)
next
  case (Cons p ps)
  show ?case unfolding materialize_steps.simps by (intro logs.keeps_intros logs_materialize_step Cons.IH)
qed

lemma logs_materialize_plan: "keeps same_log (materialize_plan lib task plan ds)"
  unfolding materialize_plan_def by (intro logs.keeps_intros logs_basic logs_materialize_steps)

lemma logs_make_plan: "keeps same_log (make_plan lib gw c task v)"
  unfolding make_plan_def by (intro logs.keeps_intros logs_store logs_basic logs_from_sum logs_materialize_plan)

lemma logs_plan_node: "keeps same_log (plan_node lib gw c i)"
  unfolding plan_node_def
  by (intro logs.keeps_intros logs_graph_task_id logs_store logs_run_version logs_basic logs_begin_planning logs_make_plan)

lemma logs_next_route: "keeps same_log (next_route lib c i b)"
  unfolding next_route_def by (intro logs.keeps_intros logs_store logs_run_version logs_from_sum)

lemma logs_dispatch: "keeps same_log (dispatch_node lib c i)" "keeps same_log (dispatch_route lib c i)"
  unfolding dispatch_node_def dispatch_route_def by (intro logs.keeps_intros logs_graph_task_id logs_next_route)+

lemma logs_approval_node: "keeps same_log (approval_node lib c i)"
  unfolding approval_node_def wait_for_approval_def
  by (intro logs.keeps_intros logs_graph_task_id logs_current_tool_step logs_run_version logs_store)

lemma logs_finalize_node: "keeps same_log (finalize_node lib c i)"
  unfolding finalize_node_def save_answer_def
  by (intro logs.keeps_intros logs_graph_task_id logs_store logs_run_version logs_basic logs_fail_tool_step)

section \<open>The engine\<close>

text \<open>One thing the engine may do in an invocation with context \<open>c\<close>.\<close>

inductive engine_step :: "'l agent_library_scheme \<Rightarrow> 'g mcp_gateway \<Rightarrow> run_ctx \<Rightarrow> 'g agent_state \<Rightarrow> 'g agent_state \<Rightarrow> bool"
  for lib gw c where
  runs_plan: "plan_node lib gw c i s = (r, t) \<Longrightarrow> engine_step lib gw c s t"
| runs_dispatch: "dispatch_node lib c i s = (r, t) \<Longrightarrow> engine_step lib gw c s t"
| takes_branch: "dispatch_route lib c i s = (r', t) \<Longrightarrow> engine_step lib gw c s t"
| runs_approval: "approval_node lib c i s = (r, t) \<Longrightarrow> engine_step lib gw c s t"
| runs_tool: "tool_node lib gw c i s = (r, t) \<Longrightarrow> engine_step lib gw c s t"
| runs_final: "finalize_node lib c i s = (r, t) \<Longrightarrow> engine_step lib gw c s t"
| saves: "on_store (set_checkpoint c k v) s = (r'', t) \<Longrightarrow> engine_step lib gw c s t"
| loads: "on_store (get_checkpoint k) s = (r3, t) \<Longrightarrow> engine_step lib gw c s t"
| restores: "engine_step lib gw c s (s\<lparr>ag_graph := x\<rparr>)"

inductive_cases engine_stepE: "engine_step lib gw c s t"

definition runs_graph :: "'l agent_library_scheme \<Rightarrow> 'g mcp_gateway \<Rightarrow> 'g engine \<Rightarrow> bool" where
  "runs_graph lib gw engine \<longleftrightarrow> (\<forall>c input forced s. (engine_step lib gw c)\<^sup>*\<^sup>* s (snd (engine c input forced s)))"

lemma engine_step_grows: "engine_step lib gw c s t \<Longrightarrow> grows (authorized_request lib gw c) s t"
proof (induction rule: engine_step.induct)
  case (runs_tool i s r t)
  then show ?case by (rule keepsD [OF tool_node_grows])
next
  case (restores s x)
  then show ?case by (simp add: grows_def)
qed (erule keepsD [OF silent_grows, rotated], rule logs_plan_node logs_dispatch logs_approval_node logs_finalize_node logs_store)+

lemma engine_grows:
  assumes "runs_graph lib gw engine" and "engine c input forced s = (r, t)"
  shows "grows (authorized_request lib gw c) s t"
proof -
  have "(engine_step lib gw c)\<^sup>*\<^sup>* s t" using assms unfolding runs_graph_def by (metis snd_conv)
  then show ?thesis
    by (induction rule: rtranclp_induct) (auto intro: grows.R_refl grows.R_trans engine_step_grows)
qed

lemma run_graph_grows:
  assumes "runs_graph lib gw engine"
  shows "keeps (grows (authorized_request lib gw c)) (run_graph engine c n input forced)"
proof (induction n arbitrary: input forced)
  case 0
  show ?case by (simp add: grows.keeps_fail)
next
  case (Suc n)
  show ?case
  proof (rule keepsI)
    fix s r t assume run: "run_graph engine c (Suc n) input forced s = (r, t)"
    obtain out u where e: "engine c input forced s = (out, u)" by fastforce
    have g: "grows (authorized_request lib gw c) s u" by (rule engine_grows [OF assms e])
    show "grows (authorized_request lib gw c) s t"
    proof (cases "\<exists>info x. out = RunInterrupted info x \<and> approval_from_interrupt info = None \<and> after_nodes info \<noteq> []")
      case True
      then have "run_graph engine c n [] False u = (r, t)" using run e by auto
      then show ?thesis using keepsD [OF Suc.IH] g grows.R_trans by blast
    next
      case False
      then have "t = u" using run e by (auto split: run_outcome.splits if_splits)
      then show ?thesis using g by simp
    qed
  qed
qed

lemma run_claimed_task_grows:
  assumes "runs_graph lib gw engine"
  shows "keeps (grows (authorized_request lib gw c)) (run_claimed_task lib engine n c i)"
  unfolding run_claimed_task_def
  by (intro grows.keeps_intros run_graph_grows [OF assms] silent_grows [OF logs_store(1)])

section \<open>The worker\<close>

text \<open>The request is authorized under a task that this worker has claimed.\<close>

definition claimed_request :: "'l agent_library_scheme \<Rightarrow> 'g mcp_gateway \<Rightarrow> worker_options \<Rightarrow> ctx \<Rightarrow> invoke_request \<Rightarrow> bool" where
  "claimed_request lib gw opts c q \<longleftrightarrow> (\<exists>i task steps w w'.
     claim_task i (wo_id opts) (wo_lease opts) (w :: world) = (Inr (Some (task, steps)), w') \<and>
     authorized_request lib gw (run_context c task (wo_id opts)) q)"

definition service_grows :: "(invoke_request \<Rightarrow> bool) \<Rightarrow> 'g service \<Rightarrow> 'g service \<Rightarrow> bool" where
  "service_grows A s t \<longleftrightarrow> grows A (sv_agent s) (sv_agent t)"

interpretation sgrows: state_preorder "service_grows A" for A
  by unfold_locales (auto simp: service_grows_def intro: grows.R_refl grows.R_trans)

lemma grows_mono: "grows A s t \<Longrightarrow> (\<And>q. A q \<Longrightarrow> B q) \<Longrightarrow> grows B s t"
  by (auto simp: grows_def list_all_iff)

lemma in_agent_grows: "keeps (grows A) m \<Longrightarrow> keeps (service_grows A) (in_agent m)"
  by (auto simp: keeps_def service_grows_def in_agent_def split: prod.splits) (metis snd_conv)

lemma api_store_grows: "keeps (service_grows A) (api_store lib m)"
  unfolding api_store_def by (intro in_agent_grows silent_grows logs_store)

lemma service_field_grows:
  "keeps (service_grows A) (register_running i)" "keeps (service_grows A) (unregister_running i)"
  "keeps (service_grows A) stop_requested" "keeps (service_grows A) (modifies (\<lambda>s. s\<lparr>sv_hints := hs\<rparr>))"
  by (auto simp: keeps_def service_grows_def grows_def register_running_def unregister_running_def modifies_def
      stop_requested_def split: prod.splits)

lemma sgrows_ignoring: "keeps (service_grows A) m \<Longrightarrow> keeps (service_grows A) (ignoring m)"
  by (auto simp: keeps_def ignoring_def split: prod.splits) (metis snd_conv)

lemma sgrows_attempt: "keeps (service_grows A) m \<Longrightarrow> keeps (service_grows A) (attempt m)"
  by (auto simp: keeps_def attempt_def split: prod.splits) (metis snd_conv)

lemma logs_mark_run_failed: "keeps same_log (mark_run_failed c task cause)"
proof -
  have a: "keeps same_log (attempt m)" if "keeps same_log m" for m :: "('a agent_state, 'e, 'b) call"
    using that by (auto simp: keeps_def attempt_def split: prod.splits) (metis snd_conv)
  have f: "keeps same_log (fail_current_step c current step v msg now)" for current step v msg now
    unfolding fail_current_step_def by (intro logs.keeps_intros logs_ignoring logs_store)
  show ?thesis unfolding mark_run_failed_settles settle_failed_def
    by (intro logs.keeps_intros logs_ignoring logs_store logs_basic a f)
qed

lemma process_task_grows:
  assumes "runs_graph lib gw engine"
  shows "keeps (service_grows (claimed_request lib gw opts c)) (process_task_id lib engine n opts c i)"
  unfolding process_task_id_def
proof (rule sgrows.keeps_bindE_result [OF api_store_grows], rule sgrows.keeps_option, rule sgrows.keeps_ret, rule sgrows.keeps_prod)
  fix claimed s t p task steps
  assume m: "api_store lib (claim_task i (wo_id opts) (wo_lease opts)) s = (Inr claimed, t)" and "claimed = Some p" "p = (task, steps)"
  then have "claim_task i (wo_id opts) (wo_lease opts) (ag_db (interfered (sv_agent s))) = (Inr (Some (task, steps)), ag_db (sv_agent t))"
    using api_store_Inr [OF m] by simp
  then have c: "claimed_request lib gw opts c q" if "authorized_request lib gw (run_context c task (wo_id opts)) q" for q
    using that unfolding claimed_request_def by blast
  have "keeps (grows (claimed_request lib gw opts c)) (run_claimed_task lib engine n (run_context c task (wo_id opts)) (t_id task))"
    by (rule keepsI) (rule grows_mono [OF keepsD [OF run_claimed_task_grows [OF assms]] c])
  then show "keeps (service_grows (claimed_request lib gw opts c)) (bindE (register_running (t_id task)) (\<lambda>_.
         bindE (tryE (in_agent (run_claimed_task lib engine n (run_context c task (wo_id opts)) (t_id task)))) (\<lambda>outcome.
         case outcome of
           Inr _ \<Rightarrow> unregister_running (t_id task)
         | Inl e \<Rightarrow>
             if quiet_end e then unregister_running (t_id task)
             else bindE (in_agent (mark_run_failed (run_context c task (wo_id opts)) task e)) (\<lambda>_.
               bindE (unregister_running (t_id task)) (\<lambda>_. fail e)))))"
    by (intro sgrows.keeps_intros service_field_grows in_agent_grows silent_grows [OF logs_mark_run_failed])
qed

lemma process_all_grows:
  assumes "runs_graph lib gw engine"
  shows "keeps (service_grows (claimed_request lib gw opts c)) (process_all lib engine n opts c is)"
proof (induction "is")
  case Nil
  show ?case by (simp add: sgrows.keeps_ret)
next
  case (Cons i "is")
  show ?case unfolding process_all.simps
    by (intro sgrows.keeps_intros service_field_grows sgrows_ignoring process_task_grows [OF assms] Cons.IH)
qed

lemma poll_pending_grows:
  assumes "runs_graph lib gw engine"
  shows "keeps (service_grows (claimed_request lib gw opts c)) (poll_pending lib engine n opts c)"
  unfolding poll_pending_def
  by (intro sgrows.keeps_intros service_field_grows sgrows_ignoring sgrows_attempt in_agent_grows silent_grows [OF logs_store(1)]
      silent_grows [OF logs_basic(1)] process_all_grows [OF assms])

lemma worker_turn_grows:
  assumes "runs_graph lib gw engine"
  shows "keeps (service_grows (claimed_request lib gw opts c)) (worker_turn lib engine n opts c ev)"
proof (cases ev)
  case HintReceived
  then show ?thesis
    by (simp only: worker_turn_def worker_event.case)
      (intro sgrows.keeps_intros service_field_grows sgrows_ignoring process_task_grows [OF assms])
next
  case PollDue
  then show ?thesis by (simp add: worker_turn_def poll_pending_grows [OF assms])
qed

lemma worker_turns_grows:
  assumes "runs_graph lib gw engine"
  shows "keeps (service_grows (claimed_request lib gw opts c)) (worker_turns lib engine n opts c evs)"
proof (induction evs)
  case Nil
  show ?case by (simp add: sgrows.keeps_ret)
next
  case (Cons ev evs)
  show ?case unfolding worker_turns.simps by (intro sgrows.keeps_intros worker_turn_grows [OF assms] Cons.IH)
qed


text \<open>An engine that runs the tool node and stops.\<close>

definition demo_engine :: "nat engine" where
  "demo_engine c input forced s = (RunDone, snd (tool_node demo_agent_library demo_gateway c input s))"

lemma demo_engine_runs: "runs_graph demo_agent_library demo_gateway demo_engine"
  unfolding runs_graph_def demo_engine_def
  by (auto intro!: r_into_rtranclp engine_step.runs_tool [OF surjective_pairing])

definition demo_worker :: worker_options where
  "demo_worker = \<lparr>wo_id = ''w2'', wo_poll_interval = 2, wo_lease = 30, wo_stale_after = 600, wo_batch_size = 20\<rparr>"

definition demo_busy :: "nat service" where
  "demo_busy = demo_service\<lparr>sv_agent := (demo_agent 0)\<lparr>ag_db := demo_agent_db\<lparr>d_tasks := [demo_task\<lparr>t_status := TaskPending\<rparr>]\<rparr>\<rparr>,
     sv_hints := [''t1'']\<rparr>"


end
