(* ===== verification/AgentData.thy ===== *)
theory AgentData
  imports AgentRecovery
begin

text \<open>
  The data the Agent store keeps for its callers: the reviewed call of a step, the checkpoint of a
  graph run, bounded texts, and which step a resume puts back.
\<close>

section \<open>The reviewed call of a step\<close>

definition call_of :: "agent_step \<Rightarrow> (string \<times> string \<times> string) \<times> (string \<times> string \<times> nat)" where
  "call_of s = ((s_tool s, s_args_json s, s_args_digest s), (s_task s, s_user s, s_seq s))"

fun reviews_policy :: "store_op \<Rightarrow> bool" where
  "reviews_policy (OpMarkPolicy c i j v m p) = True"
| "reviews_policy _ = False"

definition call_kept :: "store_op \<Rightarrow> agent_step \<Rightarrow> agent_step \<Rightarrow> bool" where
  "call_kept op s s' \<longleftrightarrow> call_of s' = call_of s \<and> (\<not> reviews_policy op \<longrightarrow> step_policy s' = step_policy s)"

lemma step_write_call: "step_write op s s' \<Longrightarrow> call_kept op s s'"
  by (induction rule: step_write.induct)
    (auto simp: call_kept_def call_of_def step_policy_def completed_plan_step_def unknown_step_def
      reviewed_step_def decided_step_def resumed_step_def cancelled_step_def interrupted_step_def
      safe_step_write_identity [unfolded step_identity_def step_payload_def step_policy_def policy.simps prod.inject])

lemma step_writes_call:
  assumes "(step_write op)\<^sup>*\<^sup>* s s'"
  shows "call_kept op s s'"
  using assms
proof induction
  case base
  show ?case by (simp add: call_kept_def)
next
  case (step u v)
  then show ?case using step_write_call [OF step.hyps(2)] by (auto simp: call_kept_def)
qed



section \<open>Checkpoints\<close>

lemma has_prefix_append [simp]: "has_prefix p (p @ s)"
  by (simp add: has_prefix_def)

lemma decode_encode_checkpoint:
  "decode_checkpoint_envelope (encode_checkpoint_envelope cp) = (if cp = [] then None else Some cp)"
proof (cases "cp = []")
  case True
  then show ?thesis
    by (simp add: decode_checkpoint_envelope_def encode_checkpoint_envelope_def has_prefix_def
        checkpoint_envelope_prefix_def)
next
  case False
  then show ?thesis by (simp add: decode_checkpoint_envelope_def encode_checkpoint_envelope_def)
qed

text \<open>C12: a stored checkpoint is read back byte for byte, and a checkpoint of another schema is no
  checkpoint: after a successful \<open>Set\<close> on a healthy database \<open>Get\<close> returns exactly the
  bytes (absent when they are empty), and a stored value that does not carry this version's
  prefix reads as absent instead of being decoded.\<close>

theorem checkpoint_roundtrip:
  assumes "healthy w" and "wf_tables w" and "set_checkpoint c i cp w = (Inr (), w')"
  shows "fst (get_checkpoint i w') = Inr (if cp = [] then None else Some cp) \<and>
    (\<forall>other. \<not> has_prefix checkpoint_envelope_prefix other \<longrightarrow> decode_checkpoint_envelope other = None)"
proof -
  let ?P = "\<lambda>t. t_id t = i \<and> (case fencing_token_from_context c of None \<Rightarrow> True | Some (_, v) \<Rightarrow> t_run_version t = v)"
  let ?f = "\<lambda>t. t\<lparr>t_checkpoint := encode_checkpoint_envelope cp, t_checkpoint_version := t_checkpoint_version t + 1,
      t_updated_at := d_clock w\<rparr>"
  have up: "d_connected w" using assms(1) by (simp add: healthy_def)
  from assms(1,3) have w': "w' = w\<lparr>d_tasks := update_where ?P ?f (d_tasks w)\<rparr>"
    and i: "trim_space i \<noteq> []" and n: "count_where ?P (d_tasks w) \<noteq> 0"
    by (auto simp: set_checkpoint_def Let_def database_def current_time_def gets_def update_tasks_def
        healthy_statement elim!: bindE_InrE)
  from n obtain t where "t \<in> set (d_tasks w)" "?P t" by (auto simp: count_where_0)
  have row: "task_row i w' = map_option (\<lambda>t. if ?P t then ?f t else t) (task_row i w)"
  proof -
    have d: "d_tasks w' = update_where ?P ?f (d_tasks w)" by (simp add: w')
    show ?thesis unfolding task_row_def d by (rule find_update_where) simp
  qed
  have "task_row i w = Some t"
    using find_key_unique [of t_id "d_tasks w" t] \<open>t \<in> set (d_tasks w)\<close> \<open>?P t\<close> assms(2)
    by (simp add: wf_tables_def task_row_def)
  with row \<open>?P t\<close> have "task_row i w' = Some (?f t)" by simp
  moreover have "healthy w'" using assms(1) by (simp add: w')
  ultimately have "first_task (\<lambda>t. t_id t = i) w' = (Inr (?f t), w')"
    by (intro first_task_healthy) (simp_all add: task_row_def)
  then have "fst (get_checkpoint i w') = Inr (if encode_checkpoint_envelope cp = [] then None
      else decode_checkpoint_envelope (encode_checkpoint_envelope cp))"
    using i up by (simp add: get_checkpoint_def database_def gets_def bindE_def guardE_def ret_def w')
  moreover have "decode_checkpoint_envelope other = None" if "\<not> has_prefix checkpoint_envelope_prefix other" for other
    using that by (simp add: decode_checkpoint_envelope_def)
  ultimately show ?thesis by (simp add: decode_encode_checkpoint) (simp add: encode_checkpoint_envelope_def)
qed

lemma checkpoint_roundtrip_witness:
  "\<exists>w'. set_checkpoint background ''t1'' ''state'' demo_world = (Inr (), w') \<and>
     fst (get_checkpoint ''t1'' w') = Inr (Some ''state'')"
proof -
  have h: "healthy demo_world" by (simp add: healthy_def demo_world_def)
  obtain r w' where c: "set_checkpoint background ''t1'' ''state'' demo_world = (r, w')" by fastforce
  then have "r = Inr ()"
    by (auto simp: set_checkpoint_def run_defs background_def fencing_token_from_context_def)
  with c checkpoint_roundtrip [OF h demo_wf, of background "''t1''" "''state''" w'] show ?thesis by simp
qed

section \<open>Resuming\<close>

text \<open>C10: a resume restarts one step of a failed task, or, only with the explicit retry flag, of a
  task under review. When \<open>ResumeOwnedTask\<close> succeeds, the task is the caller's and in such a
  status; exactly one step row changes, one that failed (or, with the flag, whose outcome is
  unknown) and that is the current step when the task has one, and it becomes pending with its
  timings and error cleared; the task is pending at the next run version.\<close>

theorem resume_restarts_one_step:
  assumes "wf_tables w" and "resume_owned_task u i retry w = (Inr (), w')"
  shows "\<exists>t s. task_row i w = Some t \<and> t_user t = trim_space u \<and>
    (t_status t = TaskFailed \<or> t_status t = TaskRequiresReview \<and> retry) \<and>
    s \<in> set (d_steps w) \<and> s_task s = i \<and> s_user s = trim_space u \<and>
    (s_status s = StepFailed \<or> s_status s = StepExecutionUnknown \<and> retry) \<and>
    (t_current_step t = [] \<or> s_id s = t_current_step t) \<and>
    d_steps w' = update_where (\<lambda>x. x = s) (resumed_step (d_clock w)) (d_steps w) \<and>
    task_row i w' = Some (requeued_task (d_clock w) (s_id s) t)"
  using assms(2) [unfolded resume_owned_task_def Let_def]
proof (elim bindE_InrE)
  fix a b c d now w1
  let ?u = "trim_space u"
  assume pre: "database w = (Inr a, b)" "guardE (?u \<noteq> [] \<and> trim_space i \<noteq> []) InvalidInput b = (Inr c, d)"
    "current_time d = (Inr now, w1)"
    and t: "transaction (bindE (first_task (\<lambda>t. t_id t = i \<and> t_user t = ?u)) (\<lambda>task.
       bindE (guardE (task_can_resume (t_status task) retry) Conflict) (\<lambda>_.
       bindE (select_steps (resume_candidates ?u i retry (t_current_step task))) (\<lambda>candidates.
       case candidates of
         [] \<Rightarrow> fail Conflict
       | step # _ \<Rightarrow>
         bindE (guardE (step_can_resume (s_status step) retry) Conflict) (\<lambda>_.
         bindE (update_steps (\<lambda>s. s_id s = s_id step \<and> s_task s = i \<and> s_user s = ?u \<and>
                    s_status s = s_status step) (resumed_step now)) (\<lambda>n.
         bindE (guardE (n \<noteq> 0) Conflict) (\<lambda>_.
         bindE (update_tasks (\<lambda>t. t_id t = i \<and> t_user t = ?u \<and> t_status t = t_status task \<and>
                    t_run_version t = t_run_version task) (requeued_task now (s_id step))) (\<lambda>m.
         guardE (m \<noteq> 0) Conflict)))))))) w1 = (Inr (), w')"
  then have w1: "w1 = w" "now = d_clock w" by (auto dest!: database_Inr current_time_Inr)
  from t show ?thesis
  proof (elim transaction_Inr bindE_InrE)
    fix fs fs' v task w2 x w3 candidates w4
    assume f: "first_task (\<lambda>t. t_id t = i \<and> t_user t = ?u) (w1\<lparr>d_faults := fs\<rparr>) = (Inr task, w2)"
      and g: "guardE (task_can_resume (t_status task) retry) Conflict w2 = (Inr x, w3)"
      and c: "select_steps (resume_candidates ?u i retry (t_current_step task)) w3 = (Inr candidates, w4)"
      and body: "(case candidates of
         [] \<Rightarrow> fail Conflict
       | step # _ \<Rightarrow>
         bindE (guardE (step_can_resume (s_status step) retry) Conflict) (\<lambda>_.
         bindE (update_steps (\<lambda>s. s_id s = s_id step \<and> s_task s = i \<and> s_user s = ?u \<and>
                    s_status s = s_status step) (resumed_step now)) (\<lambda>n.
         bindE (guardE (n \<noteq> 0) Conflict) (\<lambda>_.
         bindE (update_tasks (\<lambda>t. t_id t = i \<and> t_user t = ?u \<and> t_status t = t_status task \<and>
                    t_run_version t = t_run_version task) (requeued_task now (s_id step))) (\<lambda>m.
         guardE (m \<noteq> 0) Conflict))))) w4 = (Inr (), v)"
      and w': "w' = v\<lparr>d_faults := fs'\<rparr>"
    from first_task_Inr [OF f] g select_steps_Inr [OF c] w1 have rows: "tables w4 = tables w"
      and task: "find (\<lambda>t. t_id t = i \<and> t_user t = ?u) (d_tasks w) = Some task"
      and cand: "candidates = resume_candidates ?u i retry (t_current_step task) (d_steps w)"
      and can: "task_can_resume (t_status task) retry"
      by (auto simp: tables_def)
    from body obtain s rest where cs: "candidates = s # rest" by (cases candidates) auto
    have "s \<in> set candidates" by (simp add: cs)
    then have s: "s \<in> set (d_steps w)" "s_task s = i" "s_user s = ?u"
        "s_status s = StepFailed \<or> s_status s = StepExecutionUnknown \<and> retry"
        "t_current_step task = [] \<or> s_id s = t_current_step task"
      unfolding cand resume_candidates_def by (auto split: if_splits)
    from body cs obtain n u1 m u2 where
        us: "update_steps (\<lambda>x. s_id x = s_id s \<and> s_task x = i \<and> s_user x = ?u \<and> s_status x = s_status s)
          (resumed_step now) w4 = (Inr n, u1)"
      and ut: "update_tasks (\<lambda>t. t_id t = i \<and> t_user t = ?u \<and> t_status t = t_status task \<and>
          t_run_version t = t_run_version task) (requeued_task now (s_id s)) u1 = (Inr m, u2)" and v: "v = u2"
      by (auto elim!: bindE_InrE)
    have t: "t_id task = i" "t_user task = ?u" "task_row i w = Some task"
      using task find_task_row [OF task assms(1)] by (auto dest: find_SomeD)
    have "d_steps w' = update_where (\<lambda>x. s_id x = s_id s \<and> s_task x = i \<and> s_user x = ?u \<and> s_status x = s_status s)
        (resumed_step (d_clock w)) (d_steps w)"
      using update_steps_Inr(2) [OF us] update_tasks_Inr(3) [OF ut] rows v w' w1(2) by (simp add: tables_def)
    also have "\<dots> = update_where (\<lambda>x. x = s) (resumed_step (d_clock w)) (d_steps w)"
      using same_row [OF assms(1) _ s(1)] s(2,3) by (intro update_where_cong) auto
    finally have steps: "d_steps w' = update_where (\<lambda>x. x = s) (resumed_step (d_clock w)) (d_steps w)" .
    have d: "d_tasks w' = update_where (\<lambda>t. t_id t = i \<and> t_user t = ?u \<and> t_status t = t_status task \<and>
          t_run_version t = t_run_version task) (requeued_task (d_clock w) (s_id s)) (d_tasks w)"
      using update_steps_Inr(3) [OF us] update_tasks_Inr(2) [OF ut] rows v w' w1(2) by (simp add: tables_def)
    have "task_row i w' = Some (requeued_task (d_clock w) (s_id s) task)"
      using t unfolding task_row_def d by (subst find_update_where) simp_all
    with steps s t can show ?thesis by (auto simp: task_can_resume_def)
  qed
qed

lemma resume_restarts_one_step_witness:
  "\<exists>(w :: world) w' t s. resume_owned_task ''alice'' ''t1'' True w = (Inr (), w') \<and> task_row ''t1'' w = Some t \<and>
     s_status s = StepExecutionUnknown \<and> s \<in> set (d_steps w) \<and>
     task_row ''t1'' w' = Some (requeued_task (d_clock w) (s_id s) t)"
proof -
  let ?w = "demo_world\<lparr>d_tasks := [demo_task\<lparr>t_status := TaskRequiresReview\<rparr>],
     d_steps := [demo_tool_step\<lparr>s_status := StepExecutionUnknown\<rparr>]\<rparr>"
  have wf: "wf_tables ?w" by (simp add: wf_tables_def)
  obtain r w' where c: "resume_owned_task ''alice'' ''t1'' True ?w = (r, w')" by fastforce
  then have r: "r = Inr ()"
    by (auto simp: resume_owned_task_def run_defs task_can_resume_def resume_candidates_def step_can_resume_def)
  from resume_restarts_one_step [OF wf c [unfolded r]] obtain t s where ts:
      "task_row ''t1'' ?w = Some t" "s \<in> set (d_steps ?w)"
      "task_row ''t1'' w' = Some (requeued_task (d_clock ?w) (s_id s) t)"
    by blast
  then have "s_status s = StepExecutionUnknown" by simp
  with c r ts show ?thesis by blast
qed

end
