(* ===== verification/RagChunk.thy ===== *)
theory RagChunk
  imports GoTrim Prelude
begin

text \<open>
  \<open>src/common/rag/chunk.go\<close>: splitting a Markdown document into overlapping chunks for retrieval.
  A document is the list of its runes; an index of the code is an index of that list. SHA-256 is
  a parameter. The loop of \<open>ChunkMarkdown\<close> need not end, so it is a partial function: \<open>None\<close> is a
  call that never returns.
\<close>

section \<open>Options\<close>

record chunk_options =
  co_max :: int
  co_min :: int
  co_overlap :: int

definition default_chunk_max_runes :: int where "default_chunk_max_runes = 1000"
definition default_chunk_min_runes :: int where "default_chunk_min_runes = 400"
definition default_chunk_overlap :: int where "default_chunk_overlap = 120"

text \<open>The assignments of \<open>normalizedChunkOptions\<close>, in their order; the maximum is positive when divided.\<close>

definition normalized_max :: "chunk_options \<Rightarrow> int" where
  "normalized_max o0 = (if co_max o0 \<le> 0 then default_chunk_max_runes else co_max o0)"

definition normalized_min :: "int \<Rightarrow> int \<Rightarrow> int" where
  "normalized_min m k = (if k \<le> 0 \<or> m \<le> k then min default_chunk_min_runes (m div 2) else k)"

definition normalized_overlap :: "int \<Rightarrow> int \<Rightarrow> int" where
  "normalized_overlap m k0 = (let k1 = (if k0 < 0 then 0 else k0);
       k2 = (if k1 = 0 then min default_chunk_overlap (m div 5) else k1)
     in if m \<le> k2 then m div 5 else k2)"

definition normalized_chunk_options :: "chunk_options \<Rightarrow> chunk_options" where
  "normalized_chunk_options o0 = (let m = normalized_max o0
     in \<lparr>co_max = m, co_min = normalized_min m (co_min o0), co_overlap = normalized_overlap m (co_overlap o0)\<rparr>)"

section \<open>Boundaries\<close>

definition is_sentence_boundary :: "nat \<Rightarrow> bool" where
  "is_sentence_boundary r \<longleftrightarrow> r \<in> {46, 33, 63, 59, 12290, 65281, 65311, 65307, 8230}"

text \<open>A loop of \<open>chooseChunkEnd\<close>: the largest end from \<open>hi\<close> down to \<open>lo\<close> with the property.\<close>

definition last_end :: "(nat \<Rightarrow> bool) \<Rightarrow> nat \<Rightarrow> nat \<Rightarrow> nat option" where
  "last_end P lo hi = find P (rev [lo..<Suc hi])"

definition paragraph_end :: "nat list \<Rightarrow> nat \<Rightarrow> bool" where
  "paragraph_end rs e \<longleftrightarrow> 2 \<le> e \<and> rs ! (e - 1) = 10 \<and> rs ! (e - 2) = 10"

definition ends_with :: "(nat \<Rightarrow> bool) \<Rightarrow> nat list \<Rightarrow> nat \<Rightarrow> bool" where
  "ends_with P rs e \<longleftrightarrow> 1 \<le> e \<and> P (rs ! (e - 1))"

definition choose_chunk_end :: "nat list \<Rightarrow> nat \<Rightarrow> chunk_options \<Rightarrow> nat" where
  "choose_chunk_end rs start opts =
     (let maxEnd = min (length rs) (start + nat (co_max opts)) in
      if maxEnd = length rs then maxEnd
      else let minEnd = min maxEnd (start + nat (co_min opts)) in
        case last_end (paragraph_end rs) minEnd maxEnd of Some e \<Rightarrow> e | None \<Rightarrow>
        (case last_end (ends_with (\<lambda>r. r = 10) rs) minEnd maxEnd of Some e \<Rightarrow> e | None \<Rightarrow>
        (case last_end (ends_with is_sentence_boundary rs) minEnd maxEnd of Some e \<Rightarrow> e | None \<Rightarrow>
        (case last_end (ends_with is_space rs) minEnd maxEnd of Some e \<Rightarrow> e | None \<Rightarrow> maxEnd))))"

function skip_spaces :: "nat list \<Rightarrow> nat \<Rightarrow> nat \<Rightarrow> nat" where
  "skip_spaces rs i stop = (if i < stop \<and> is_space (rs ! i) then skip_spaces rs (Suc i) stop else i)"
  by pat_completeness auto
termination by (relation "measure (\<lambda>(_, i, stop). stop - i)") auto

fun drop_spaces :: "nat list \<Rightarrow> nat \<Rightarrow> nat \<Rightarrow> nat" where
  "drop_spaces rs start 0 = 0"
| "drop_spaces rs start (Suc e) = (if start < Suc e \<and> is_space (rs ! e) then drop_spaces rs start e else Suc e)"

definition trim_rune_range :: "nat list \<Rightarrow> nat \<Rightarrow> nat \<Rightarrow> nat \<times> nat" where
  "trim_rune_range rs start stop = (let a = skip_spaces rs start stop in (a, drop_spaces rs a stop))"

section \<open>Headings\<close>

record markdown_heading =
  mh_offset :: nat
  mh_level :: nat
  mh_title :: string

definition trim_hashes :: "string \<Rightarrow> string" where
  "trim_hashes s = rev (dropWhile (\<lambda>c. c = CHR ''#'') (rev s))"

definition line_heading :: "nat \<Rightarrow> nat list \<Rightarrow> markdown_heading option" where
  "line_heading offset line =
     (let level = min 6 (length (takeWhile (\<lambda>r. r = 35) line)) in
      if 0 < level \<and> level < length line \<and> is_space (line ! level) then
        (let title = trim_space (trim_hashes (trim_space (string_of_runes (drop level line))))
         in if title \<noteq> [] then Some \<lparr>mh_offset = offset, mh_level = level, mh_title = title\<rparr> else None)
      else None)"

function headings_from :: "nat list \<Rightarrow> nat \<Rightarrow> markdown_heading list" where
  "headings_from rs lineStart = (if lineStart < length rs then
      (let line = takeWhile (\<lambda>r. r \<noteq> 10) (drop lineStart rs);
           rest = headings_from rs (Suc (lineStart + length line))
       in case line_heading lineStart line of None \<Rightarrow> rest | Some h \<Rightarrow> h # rest)
    else [])"
  by pat_completeness auto
termination by (relation "measure (\<lambda>(rs, i). length rs - i)") auto

definition parse_markdown_headings :: "nat list \<Rightarrow> markdown_heading list" where
  "parse_markdown_headings rs = headings_from rs 0"

text \<open>The six titles in force: a heading sets its own and clears the deeper ones.\<close>

definition set_level :: "markdown_heading \<Rightarrow> string list \<Rightarrow> string list" where
  "set_level h levels = take (mh_level h - 1) levels @ [mh_title h] @ replicate (6 - mh_level h) []"

fun join_with :: "string \<Rightarrow> string list \<Rightarrow> string" where
  "join_with sep [] = []"
| "join_with sep [s] = s"
| "join_with sep (s # ss) = s @ sep @ join_with sep ss"

definition heading_path_at :: "markdown_heading list \<Rightarrow> nat \<Rightarrow> string" where
  "heading_path_at hs offset =
     (let levels = fold set_level (takeWhile (\<lambda>h. mh_offset h \<le> offset) hs) (replicate 6 [])
      in join_with '' > '' (filter (\<lambda>t. t \<noteq> []) levels))"

section \<open>Chunks\<close>

record text_chunk =
  tc_id :: string
  tc_content :: string
  tc_heading :: string
  tc_index :: nat
  tc_start :: nat
  tc_end :: nat

fun itoa :: "nat \<Rightarrow> string" where
  "itoa n = (if n < 10 then [char_of (48 + n)] else itoa (n div 10) @ [char_of (48 + n mod 10)])"

definition stable_chunk_id :: "(string \<Rightarrow> string) \<Rightarrow> string \<Rightarrow> nat \<Rightarrow> nat \<Rightarrow> string \<Rightarrow> string" where
  "stable_chunk_id sha doc i j content =
     sha (doc @ [char_of (0 :: nat)] @ itoa i @ '':'' @ itoa j @ [char_of (0 :: nat)] @ content)"

definition slice :: "nat list \<Rightarrow> nat \<Rightarrow> nat \<Rightarrow> nat list" where
  "slice rs i j = take (j - i) (drop i rs)"

definition new_chunk :: "(string \<Rightarrow> string) \<Rightarrow> string \<Rightarrow> nat list \<Rightarrow> markdown_heading list \<Rightarrow> nat \<Rightarrow> nat \<Rightarrow> nat \<Rightarrow> text_chunk" where
  "new_chunk sha doc rs hs n i j = (let text = string_of_runes (slice rs i j) in
     \<lparr>tc_id = stable_chunk_id sha doc i j text, tc_content = text, tc_heading = heading_path_at hs i,
      tc_index = n, tc_start = i, tc_end = j\<rparr>)"

definition add_chunk :: "(string \<Rightarrow> string) \<Rightarrow> string \<Rightarrow> nat list \<Rightarrow> markdown_heading list \<Rightarrow> nat \<Rightarrow> nat \<Rightarrow> text_chunk list \<Rightarrow>
    text_chunk list" where
  "add_chunk sha doc rs hs start rawEnd chunks = (let (i, j) = trim_rune_range rs start rawEnd
     in if i < j then chunks @ [new_chunk sha doc rs hs (length chunks) i j] else chunks)"

definition next_start :: "nat list \<Rightarrow> nat \<Rightarrow> nat \<Rightarrow> chunk_options \<Rightarrow> nat" where
  "next_start rs start rawEnd opts =
     (let back = int rawEnd - co_overlap opts; i = (if back \<le> int start then rawEnd else nat back)
      in skip_spaces rs i (min rawEnd (length rs)))"

partial_function (option) chunk_loop :: "(string \<Rightarrow> string) \<Rightarrow> string \<Rightarrow> nat list \<Rightarrow> markdown_heading list \<Rightarrow> chunk_options \<Rightarrow>
    nat \<Rightarrow> text_chunk list \<Rightarrow> text_chunk list option" where
  "chunk_loop sha doc rs hs opts start chunks =
     (if \<not> start < length rs then Some chunks
      else if length rs \<le> choose_chunk_end rs start opts
      then Some (add_chunk sha doc rs hs start (choose_chunk_end rs start opts) chunks)
      else chunk_loop sha doc rs hs opts (next_start rs start (choose_chunk_end rs start opts) opts)
        (add_chunk sha doc rs hs start (choose_chunk_end rs start opts) chunks))"

definition chunk_markdown :: "(string \<Rightarrow> string) \<Rightarrow> string \<Rightarrow> string \<Rightarrow> chunk_options \<Rightarrow> text_chunk list option" where
  "chunk_markdown sha doc content o0 =
     (let opts = normalized_chunk_options o0; rs = runes content
      in if rs = [] then Some [] else chunk_loop sha doc rs (parse_markdown_headings rs) opts 0 [])"

declare skip_spaces.simps [simp del] headings_from.simps [simp del]

section \<open>The options and the ends\<close>

lemma normalized_options:
  assumes "opts = normalized_chunk_options o0"
  shows "0 < co_max opts" and "0 \<le> co_min opts" and "co_min opts < co_max opts" and "0 \<le> co_overlap opts"
    and "co_max opts = 1 \<longleftrightarrow> co_max o0 = 1" and "co_max o0 \<noteq> 1 \<Longrightarrow> 1 \<le> co_min opts"
  unfolding assms normalized_chunk_options_def Let_def normalized_max_def normalized_min_def normalized_overlap_def
    default_chunk_max_runes_def default_chunk_min_runes_def default_chunk_overlap_def
  by (auto simp: min_def)

lemma last_end_range: "last_end P lo hi = Some e \<Longrightarrow> lo \<le> e \<and> e \<le> hi"
  unfolding last_end_def by (drule find_SomeD) auto

lemma choose_chunk_end_range:
  assumes "start < length rs" and "co_min opts \<le> co_max opts" and "e = choose_chunk_end rs start opts"
  shows "e \<le> length rs \<and> e \<le> start + nat (co_max opts) \<and> (e < length rs \<longrightarrow> start + nat (co_min opts) \<le> e)"
proof -
  let ?hi = "min (length rs) (start + nat (co_max opts))"
  have lo: "?hi \<noteq> length rs \<Longrightarrow> min ?hi (start + nat (co_min opts)) = start + nat (co_min opts)"
    using assms(2) by (auto simp: min_def)
  have "e \<le> ?hi \<and> (e < length rs \<longrightarrow> start + nat (co_min opts) \<le> e)"
  proof (cases "?hi = length rs")
    case True
    then show ?thesis by (simp add: assms(3) choose_chunk_end_def Let_def)
  next
    case False
    have m: "start + nat (co_min opts) \<le> ?hi" using False assms(2) by (auto simp: min_def)
    show ?thesis
      unfolding assms(3) choose_chunk_end_def Let_def if_not_P [OF False] lo [OF False]
      using m by (auto split: option.split dest: last_end_range)
  qed
  then show ?thesis by simp
qed

lemma skip_spaces_spec:
  "i \<le> stop \<Longrightarrow> i \<le> skip_spaces rs i stop \<and> skip_spaces rs i stop \<le> stop \<and> (\<forall>k. i \<le> k \<and> k < skip_spaces rs i stop \<longrightarrow> is_space (rs ! k))"
proof (induction rs i stop rule: skip_spaces.induct)
  case (1 rs i stop)
  show ?case
  proof (cases "i < stop \<and> is_space (rs ! i)")
    case True
    then have eq: "skip_spaces rs i stop = skip_spaces rs (Suc i) stop" by (simp add: skip_spaces.simps)
    from True 1 have ih: "Suc i \<le> skip_spaces rs (Suc i) stop \<and> skip_spaces rs (Suc i) stop \<le> stop \<and>
        (\<forall>k. Suc i \<le> k \<and> k < skip_spaces rs (Suc i) stop \<longrightarrow> is_space (rs ! k))" by simp
    show ?thesis unfolding eq using ih True by (metis Suc_leD le_antisym not_less_eq_eq)
  next
    case False
    then have "skip_spaces rs i stop = i" by (simp add: skip_spaces.simps)
    then show ?thesis using 1(2) by auto
  qed
qed

lemma drop_spaces_spec:
  "start \<le> stop \<Longrightarrow> start \<le> drop_spaces rs start stop \<and> drop_spaces rs start stop \<le> stop \<and>
    (\<forall>k. drop_spaces rs start stop \<le> k \<and> k < stop \<longrightarrow> is_space (rs ! k))"
proof (induction rs start stop rule: drop_spaces.induct)
  case (2 rs start e)
  then show ?case by (auto simp: less_Suc_eq)
qed simp

lemma trim_rune_range_spec:
  assumes "trim_rune_range rs start stop = (i, j)" and "start \<le> stop"
  shows "start \<le> i \<and> i \<le> j \<and> j \<le> stop \<and> (\<forall>k. start \<le> k \<and> k < stop \<and> \<not> is_space (rs ! k) \<longrightarrow> i \<le> k \<and> k < j)"
proof -
  have i: "i = skip_spaces rs start stop" and j: "j = drop_spaces rs i stop"
    using assms(1) by (auto simp: trim_rune_range_def Let_def)
  have a: "start \<le> i \<and> i \<le> stop \<and> (\<forall>k. start \<le> k \<and> k < i \<longrightarrow> is_space (rs ! k))"
    unfolding i by (rule skip_spaces_spec [OF assms(2)])
  then have "i \<le> j \<and> j \<le> stop \<and> (\<forall>k. j \<le> k \<and> k < stop \<longrightarrow> is_space (rs ! k))"
    unfolding j by (intro drop_spaces_spec) simp
  with a show ?thesis by (meson not_less)
qed

lemma next_start_spec:
  assumes "start < rawEnd" and "rawEnd \<le> length rs" and "0 \<le> co_overlap opts"
  shows "start < next_start rs start rawEnd opts \<and> next_start rs start rawEnd opts \<le> rawEnd"
proof -
  let ?prev = "int rawEnd - co_overlap opts"
  let ?i = "if ?prev \<le> int start then rawEnd else nat ?prev"
  have "start < ?i" "?i \<le> rawEnd" using assms by auto
  moreover have "next_start rs start rawEnd opts = skip_spaces rs ?i rawEnd"
    using assms(2) by (simp add: next_start_def Let_def min_def)
  moreover have "?i \<le> skip_spaces rs ?i rawEnd \<and> skip_spaces rs ?i rawEnd \<le> rawEnd"
    using skip_spaces_spec [OF \<open>?i \<le> rawEnd\<close>] by blast
  ultimately show ?thesis by linarith
qed

section \<open>What a chunk is\<close>

text \<open>The exact slice of its range, neither empty nor longer than the maximum, with its identifier and heading.\<close>

definition chunk_ok :: "(string \<Rightarrow> string) \<Rightarrow> string \<Rightarrow> nat list \<Rightarrow> nat \<Rightarrow> text_chunk \<Rightarrow> bool" where
  "chunk_ok sha doc rs maximum c \<longleftrightarrow> tc_start c < tc_end c \<and> tc_end c \<le> length rs \<and> tc_end c - tc_start c \<le> maximum \<and>
     tc_content c = string_of_runes (slice rs (tc_start c) (tc_end c)) \<and>
     tc_id c = stable_chunk_id sha doc (tc_start c) (tc_end c) (tc_content c) \<and>
     tc_heading c = heading_path_at (parse_markdown_headings rs) (tc_start c)"

definition covers :: "text_chunk list \<Rightarrow> nat \<Rightarrow> bool" where
  "covers cs k \<longleftrightarrow> (\<exists>c \<in> set cs. tc_start c \<le> k \<and> k < tc_end c)"

lemma add_chunk_spec:
  assumes "start \<le> rawEnd" and "rawEnd \<le> length rs" and "rawEnd \<le> start + m" and "hs = parse_markdown_headings rs"
  shows "\<exists>cs. add_chunk sha doc rs hs start rawEnd chunks = chunks @ cs \<and> list_all (chunk_ok sha doc rs m) cs \<and>
    map tc_index cs = [length chunks..<length chunks + length cs] \<and>
    (\<forall>k. start \<le> k \<and> k < rawEnd \<and> \<not> is_space (rs ! k) \<longrightarrow> covers cs k)"
proof -
  obtain i j where t: "trim_rune_range rs start rawEnd = (i, j)" by fastforce
  note spec = trim_rune_range_spec [OF t assms(1)]
  show ?thesis
  proof (cases "i < j")
    case True
    let ?c = "new_chunk sha doc rs hs (length chunks) i j"
    have "chunk_ok sha doc rs m ?c"
      using True spec assms by (auto simp: chunk_ok_def new_chunk_def Let_def)
    moreover have "tc_index ?c = length chunks" "tc_start ?c = i" "tc_end ?c = j" by (simp_all add: new_chunk_def Let_def)
    ultimately show ?thesis using True t spec
      by (intro exI [of _ "[?c]"]) (auto simp: add_chunk_def covers_def)
  next
    case False
    then have "add_chunk sha doc rs hs start rawEnd chunks = chunks @ []" using t by (simp add: add_chunk_def)
    moreover have "\<forall>k. start \<le> k \<and> k < rawEnd \<longrightarrow> is_space (rs ! k)" using False spec by (meson le_less_trans)
    ultimately show ?thesis by (intro exI [of _ "[]"]) auto
  qed
qed

lemma chunk_loop_spec:
  assumes m: "1 \<le> co_min opts" "co_min opts < co_max opts" "0 \<le> co_overlap opts" and hs: "hs = parse_markdown_headings rs"
  shows "\<exists>cs. chunk_loop sha doc rs hs opts start chunks = Some (chunks @ cs) \<and>
    list_all (chunk_ok sha doc rs (nat (co_max opts))) cs \<and>
    map tc_index cs = [length chunks..<length chunks + length cs] \<and>
    (\<forall>k. start \<le> k \<and> k < length rs \<and> \<not> is_space (rs ! k) \<longrightarrow> covers cs k)"
proof (induction "length rs - start" arbitrary: start chunks rule: less_induct)
  case less
  show ?case
  proof (cases "start < length rs")
    case False
    then show ?thesis by (intro exI [of _ "[]"]) (auto simp: chunk_loop.simps)
  next
    case True
    define e where "e = choose_chunk_end rs start opts"
    have e: "e \<le> length rs" "e \<le> start + nat (co_max opts)" "e < length rs \<Longrightarrow> start + nat (co_min opts) \<le> e"
      using choose_chunk_end_range [OF True _ e_def] m(2) by auto
    have se: "start < e" using e(3) m(1) True by (cases "e < length rs") auto
    obtain cs where cs: "add_chunk sha doc rs hs start e chunks = chunks @ cs" "list_all (chunk_ok sha doc rs (nat (co_max opts))) cs"
      "map tc_index cs = [length chunks..<length chunks + length cs]"
      "\<forall>k. start \<le> k \<and> k < e \<and> \<not> is_space (rs ! k) \<longrightarrow> covers cs k"
      using add_chunk_spec [OF less_imp_le [OF se] e(1,2) hs] by blast
    show ?thesis
    proof (cases "length rs \<le> e")
      case True
      then show ?thesis using cs e(1) \<open>start < length rs\<close>
        by (intro exI [of _ cs]) (auto simp: chunk_loop.simps e_def [symmetric])
    next
      case False
      let ?n = "next_start rs start e opts"
      have n: "start < ?n" "?n \<le> e" using next_start_spec [OF se e(1) m(3)] by auto
      obtain ds where ds: "chunk_loop sha doc rs hs opts ?n (chunks @ cs) = Some ((chunks @ cs) @ ds)"
        "list_all (chunk_ok sha doc rs (nat (co_max opts))) ds"
        "map tc_index ds = [length (chunks @ cs)..<length (chunks @ cs) + length ds]"
        "\<forall>k. ?n \<le> k \<and> k < length rs \<and> \<not> is_space (rs ! k) \<longrightarrow> covers ds k"
        using less [of ?n "chunks @ cs"] diff_less_mono2 [OF n(1) True] by blast
      have loop: "chunk_loop sha doc rs hs opts start chunks = Some (chunks @ (cs @ ds))"
        using True False ds(1) cs(1) by (subst chunk_loop.simps) (simp add: e_def [symmetric])
      have idx: "map tc_index (cs @ ds) = [length chunks..<length chunks + length (cs @ ds)]"
        using cs(3) ds(3) upt_add_eq_append [of "length chunks" "length chunks + length cs" "length ds"]
        by (simp add: add.assoc)
      have "covers (cs @ ds) k" if k: "start \<le> k" "k < length rs" "\<not> is_space (rs ! k)" for k
      proof (cases "k < e")
        case True
        then show ?thesis using cs(4) k by (auto simp: covers_def)
      next
        case False
        then have "?n \<le> k" using n(2) by simp
        then show ?thesis using ds(4) k by (auto simp: covers_def)
      qed
      then show ?thesis using loop idx cs(2) ds(2) by (intro exI [of _ "cs @ ds"]) auto
    qed
  qed
qed

section \<open>A maximum of one rune\<close>

text \<open>Such a call stands still where a boundary lies before the position it has reached.\<close>

lemma options_of_one: "co_max o0 = 1 \<Longrightarrow> normalized_chunk_options o0 = \<lparr>co_max = 1, co_min = 0, co_overlap = 0\<rparr>"
  by (auto simp: normalized_chunk_options_def normalized_max_def normalized_min_def normalized_overlap_def
      default_chunk_min_runes_def default_chunk_overlap_def Let_def)

definition stuck_text :: string where "stuck_text = ''a.bc''"

lemma stuck_runes: "runes stuck_text = [97, 46, 98, 99]"
  by (subst runes_ascii) (simp_all add: stuck_text_def ascii_def byte_of_def)

lemma stuck_ends:
  "choose_chunk_end [97, 46, 98, 99] 0 \<lparr>co_max = 1, co_min = 0, co_overlap = 0\<rparr> = 1"
  "choose_chunk_end [97, 46, 98, 99] 1 \<lparr>co_max = 1, co_min = 0, co_overlap = 0\<rparr> = 2"
  "choose_chunk_end [97, 46, 98, 99] 2 \<lparr>co_max = 1, co_min = 0, co_overlap = 0\<rparr> = 2"
  by (simp_all add: choose_chunk_end_def last_end_def paragraph_end_def ends_with_def is_sentence_boundary_def is_space_def
      upt_rec [of 0] upt_rec [of 1] upt_rec [of 2] upt_rec [of 3] Let_def)

definition stuck :: "nat list \<Rightarrow> chunk_options \<Rightarrow> nat \<Rightarrow> bool" where
  "stuck rs opts start \<longleftrightarrow> rs = [97, 46, 98, 99] \<and> opts = \<lparr>co_max = 1, co_min = 0, co_overlap = 0\<rparr> \<and> start = 2"

lemma stuck_next:
  assumes "stuck rs opts start"
  shows "start < length rs" and "choose_chunk_end rs start opts = 2" and "\<not> length rs \<le> 2"
    and "next_start rs start 2 opts = start"
  using assms stuck_ends(3) by (auto simp: stuck_def next_start_def skip_spaces.simps)

lemma stuck_loop:
  assumes "chunk_loop sha doc rs hs opts start chunks = Some y"
  shows "\<not> stuck rs opts start"
proof (rule chunk_loop.raw_induct [where P = "\<lambda>sha doc rs hs opts start chunks y. \<not> stuck rs opts start", OF _ assms])
  fix loop :: "(string \<Rightarrow> string) \<Rightarrow> string \<Rightarrow> nat list \<Rightarrow> markdown_heading list \<Rightarrow> chunk_options \<Rightarrow> nat \<Rightarrow> text_chunk list \<Rightarrow> text_chunk list option"
    and sha doc rs hs opts start chunks y
  assume ih: "\<And>sha doc rs hs opts start chunks y. loop sha doc rs hs opts start chunks = Some y \<Longrightarrow> \<not> stuck rs opts start"
    and run: "(if \<not> start < length rs then Some chunks
      else if length rs \<le> choose_chunk_end rs start opts
      then Some (add_chunk sha doc rs hs start (choose_chunk_end rs start opts) chunks)
      else loop sha doc rs hs opts (next_start rs start (choose_chunk_end rs start opts) opts)
        (add_chunk sha doc rs hs start (choose_chunk_end rs start opts) chunks)) = Some y"
  show "\<not> stuck rs opts start"
  proof
    assume at: "stuck rs opts start"
    then have "loop sha doc rs hs opts start (add_chunk sha doc rs hs start 2 chunks) = Some y"
      using run by (simp add: stuck_next)
    from ih [OF this] at show False by simp
  qed
qed

lemma stuck_start:
  "chunk_loop sha doc [97, 46, 98, 99] hs \<lparr>co_max = 1, co_min = 0, co_overlap = 0\<rparr> 0 [] = None"
proof -
  let ?o = "\<lparr>co_max = 1, co_min = 0, co_overlap = 0\<rparr>" let ?rs = "[97, 46, 98, 99]"
  have n: "next_start ?rs 0 1 ?o = 1" "next_start ?rs 1 2 ?o = 2" by (simp_all add: next_start_def skip_spaces.simps)
  have two: "chunk_loop sha doc ?rs hs ?o 2 chunks = None" for chunks
    using stuck_loop [of sha doc ?rs hs ?o 2 chunks] by (cases "chunk_loop sha doc ?rs hs ?o 2 chunks") (auto simp: stuck_def)
  have one: "chunk_loop sha doc ?rs hs ?o 1 chunks = None" for chunks
    by (subst chunk_loop.simps) (simp del: One_nat_def add: stuck_ends n two)
  show ?thesis by (subst chunk_loop.simps) (simp del: One_nat_def add: stuck_ends n one)
qed

section \<open>Guarantees\<close>

text \<open>C33: what chunking yields. Unless the maximum is one rune, \<open>ChunkMarkdown\<close> returns, for every
  document and all options; its chunks are numbered from zero, each is the exact text of its
  range of runes, not empty and not longer than the maximum, with the identifier and heading of
  that range; and every rune of the document that is not white space lies in a chunk.\<close>

theorem chunking_covers:
  assumes "co_max o0 \<noteq> 1"
  shows "\<exists>cs. chunk_markdown sha doc content o0 = Some cs \<and>
    list_all (chunk_ok sha doc (runes content) (nat (normalized_max o0))) cs \<and>
    map tc_index cs = [0..<length cs] \<and>
    (\<forall>k < length (runes content). \<not> is_space (runes content ! k) \<longrightarrow> covers cs k)"
proof (cases "runes content = []")
  case True
  then show ?thesis by (simp add: chunk_markdown_def)
next
  case False
  let ?o = "normalized_chunk_options o0"
  note n = normalized_options [OF refl, of o0]
  have m: "co_max ?o = normalized_max o0" by (simp add: normalized_chunk_options_def Let_def)
  show ?thesis
    using chunk_loop_spec [OF n(6) [OF assms] n(3,4) refl, where sha = sha and doc = doc and rs = "runes content" and start = 0 and chunks = "[]"] False
    by (auto simp: chunk_markdown_def m Let_def)
qed

text \<open>C34: exactly the maximum of one rune is unsafe. \<open>ChunkMarkdown\<close> returns for every document
  unless the maximum is one; with a maximum of one the string \<open>a.bc\<close> keeps it in its loop for ever,
  since the minimum is then none and a chunk may end where it starts.\<close>

theorem chunking_terminates_iff:
  "(\<forall>content. chunk_markdown sha doc content o0 \<noteq> None) = (co_max o0 \<noteq> 1)"
proof (cases "co_max o0 = 1")
  case True
  then have "chunk_markdown sha doc stuck_text o0 = None"
    by (simp add: chunk_markdown_def options_of_one stuck_runes stuck_start)
  then show ?thesis using True by auto
next
  case False
  let ?o = "normalized_chunk_options o0"
  note n = normalized_options [OF refl, of o0]
  have "chunk_markdown sha doc content o0 \<noteq> None" for content
    using chunk_loop_spec [OF n(6) [OF False] n(3,4) refl, where sha = sha and doc = doc and rs = "runes content" and start = 0 and chunks = "[]"]
    by (auto simp: chunk_markdown_def Let_def)
  then show ?thesis using False by simp
qed

lemma chunking_covers_witness:
  "\<exists>cs. chunk_markdown (\<lambda>s. s) ''d'' stuck_text \<lparr>co_max = 2, co_min = 1, co_overlap = 0\<rparr> = Some cs \<and> covers cs 3"
proof -
  have "length (runes stuck_text) = 4" "\<not> is_space (runes stuck_text ! 3)" by (simp_all add: stuck_runes is_space_def)
  then show ?thesis
    using chunking_covers [of "\<lparr>co_max = 2, co_min = 1, co_overlap = 0\<rparr>" "\<lambda>s. s" "''d''" stuck_text] by fastforce
qed

end
