(* ===== verification/KbStore.thy ===== *)
theory KbStore
  imports Database
begin

text \<open>
  \<open>src/model/knowledge.go\<close> and \<open>src/dao/knowledgebase/knowledgebase.go\<close>: the durable records of
  knowledge bases, their documents and the queue of indexing and deletion work. The database is
  modelled as the Agent store's is: three tables, one entry of the fault schedule per statement,
  transactions that roll back on every error, row locks that make a transaction one step. Bases
  and documents are deleted softly, and every query of theirs skips the deleted rows; index tasks
  are removed. Widths of columns are not modelled.
\<close>

section \<open>Rows\<close>

datatype kb_status = KbActive | KbDeleting
datatype doc_status = DocPending | DocIndexing | DocReady | DocFailed | DocDeleting
datatype itask_type = IndexWork | DeleteWork
datatype itask_status = ItPending | ItRunning | ItSucceeded | ItFailed | ItCancelled

record knowledge_base =
  kb_id :: string
  kb_user :: string
  kb_name :: string
  kb_description :: string
  kb_state :: kb_status
  kb_created_at :: time
  kb_updated_at :: time
  kb_deleted_at :: "time option"

record knowledge_document =
  kd_id :: string
  kd_base :: string
  kd_user :: string
  kd_original_name :: string
  kd_storage_path :: string
  kd_content_type :: string
  kd_size :: int
  kd_checksum :: string
  kd_status :: doc_status
  kd_chunk_count :: int
  kd_error :: string
  kd_created_at :: time
  kd_updated_at :: time
  kd_deleted_at :: "time option"

record index_task =
  it_id :: string
  it_base :: string
  it_document :: string
  it_user :: string
  it_type :: itask_type
  it_status :: itask_status
  it_attempts :: nat
  it_error :: string
  it_started_at :: "time option"
  it_finished_at :: "time option"
  it_created_at :: time
  it_updated_at :: time

record kb_summary =
  ks_base :: knowledge_base
  ks_documents :: nat
  ks_chunks :: int

datatype kb_error = KbUnavailable | TaskSuperseded | DocumentLifecycleChanged | DeleteAlreadyScheduled
  | KbNotFound | KbDriver driver_fault

section \<open>The database\<close>

record kb_world =
  kw_connected :: bool
  kw_bases :: "knowledge_base list"
  kw_docs :: "knowledge_document list"
  kw_tasks :: "index_task list"
  kw_clock :: time
  kw_faults :: "driver_fault option list"

type_synonym 'a kb_call = "(kb_world, kb_error, 'a) call"

definition kb_statement :: "'a kb_call \<Rightarrow> 'a kb_call" where
  "kb_statement body = (\<lambda>w. case kw_faults w of
     [] \<Rightarrow> body w
   | None # fs \<Rightarrow> body (w\<lparr>kw_faults := fs\<rparr>)
   | Some e # fs \<Rightarrow> (Inl (KbDriver e), w\<lparr>kw_faults := fs\<rparr>))"

definition kb_transaction :: "'a kb_call \<Rightarrow> 'a kb_call" where
  "kb_transaction m = (\<lambda>w. case bindE (kb_statement (ret ())) (\<lambda>_.
       bindE m (\<lambda>x. bindE (kb_statement (ret ())) (\<lambda>_. ret x))) w of
     (Inl e, w') \<Rightarrow> (Inl e, w'\<lparr>kw_bases := kw_bases w, kw_docs := kw_docs w, kw_tasks := kw_tasks w\<rparr>)
   | (Inr x, w') \<Rightarrow> (Inr x, w'))"

definition kb_database :: "unit kb_call" where
  "kb_database = bindE (gets kw_connected) (\<lambda>up. guardE up KbUnavailable)"

definition kb_now :: "time kb_call" where
  "kb_now = gets kw_clock"

definition kb_select :: "(kb_world \<Rightarrow> 'a) \<Rightarrow> 'a kb_call" where
  "kb_select q = kb_statement (gets q)"

text \<open>\<open>First(&row)\<close>.\<close>

definition kb_first :: "(kb_world \<Rightarrow> 'a option) \<Rightarrow> 'a kb_call" where
  "kb_first q = bindE (kb_select q) (\<lambda>r. case r of None \<Rightarrow> fail KbNotFound | Some x \<Rightarrow> ret x)"

text \<open>UPDATE writes \<open>updated_at\<close> as well; on the softly deleted tables it skips deleted rows.\<close>

definition live_base :: "knowledge_base \<Rightarrow> bool" where
  "live_base b \<longleftrightarrow> kb_deleted_at b = None"

definition live_doc :: "knowledge_document \<Rightarrow> bool" where
  "live_doc d \<longleftrightarrow> kd_deleted_at d = None"

definition update_bases :: "(knowledge_base \<Rightarrow> bool) \<Rightarrow> (knowledge_base \<Rightarrow> knowledge_base) \<Rightarrow> nat kb_call" where
  "update_bases P f = kb_statement (\<lambda>w. let Q = (\<lambda>b. live_base b \<and> P b) in
     (Inr (count_where Q (kw_bases w)),
      w\<lparr>kw_bases := update_where Q (\<lambda>b. (f b)\<lparr>kb_updated_at := kw_clock w\<rparr>) (kw_bases w)\<rparr>))"

definition update_docs :: "(knowledge_document \<Rightarrow> bool) \<Rightarrow> (knowledge_document \<Rightarrow> knowledge_document) \<Rightarrow> nat kb_call" where
  "update_docs P f = kb_statement (\<lambda>w. let Q = (\<lambda>d. live_doc d \<and> P d) in
     (Inr (count_where Q (kw_docs w)),
      w\<lparr>kw_docs := update_where Q (\<lambda>d. (f d)\<lparr>kd_updated_at := kw_clock w\<rparr>) (kw_docs w)\<rparr>))"

definition update_itasks :: "(index_task \<Rightarrow> bool) \<Rightarrow> (index_task \<Rightarrow> index_task) \<Rightarrow> nat kb_call" where
  "update_itasks P f = kb_statement (\<lambda>w.
     (Inr (count_where P (kw_tasks w)),
      w\<lparr>kw_tasks := update_where P (\<lambda>t. (f t)\<lparr>it_updated_at := kw_clock w\<rparr>) (kw_tasks w)\<rparr>))"

text \<open>Deleting: softly, or for good.\<close>

definition delete_bases :: "(knowledge_base \<Rightarrow> bool) \<Rightarrow> nat kb_call" where
  "delete_bases P = kb_statement (\<lambda>w. let Q = (\<lambda>b. live_base b \<and> P b) in
     (Inr (count_where Q (kw_bases w)),
      w\<lparr>kw_bases := update_where Q (\<lambda>b. b\<lparr>kb_deleted_at := Some (kw_clock w)\<rparr>) (kw_bases w)\<rparr>))"

definition delete_docs :: "(knowledge_document \<Rightarrow> bool) \<Rightarrow> nat kb_call" where
  "delete_docs P = kb_statement (\<lambda>w. let Q = (\<lambda>d. live_doc d \<and> P d) in
     (Inr (count_where Q (kw_docs w)),
      w\<lparr>kw_docs := update_where Q (\<lambda>d. d\<lparr>kd_deleted_at := Some (kw_clock w)\<rparr>) (kw_docs w)\<rparr>))"

definition delete_itasks :: "(index_task \<Rightarrow> bool) \<Rightarrow> unit kb_call" where
  "delete_itasks P = kb_statement (\<lambda>w. (Inr (), w\<lparr>kw_tasks := filter (Not \<circ> P) (kw_tasks w)\<rparr>))"

text \<open>INSERT checks the primary key, which a softly deleted row still holds.\<close>

definition insert_base :: "knowledge_base \<Rightarrow> unit kb_call" where
  "insert_base b = kb_statement (\<lambda>w.
     if kb_id b \<in> kb_id ` set (kw_bases w) then (Inl (KbDriver DriverError), w)
     else (Inr (), w\<lparr>kw_bases := kw_bases w @ [b\<lparr>kb_created_at := kw_clock w, kb_updated_at := kw_clock w\<rparr>]\<rparr>))"

definition insert_doc :: "knowledge_document \<Rightarrow> unit kb_call" where
  "insert_doc d = kb_statement (\<lambda>w.
     if kd_id d \<in> kd_id ` set (kw_docs w) then (Inl (KbDriver DriverError), w)
     else (Inr (), w\<lparr>kw_docs := kw_docs w @ [d\<lparr>kd_created_at := kw_clock w, kd_updated_at := kw_clock w\<rparr>]\<rparr>))"

definition insert_itask :: "index_task \<Rightarrow> unit kb_call" where
  "insert_itask t = kb_statement (\<lambda>w.
     if it_id t \<in> it_id ` set (kw_tasks w) then (Inl (KbDriver DriverError), w)
     else (Inr (), w\<lparr>kw_tasks := kw_tasks w @ [t\<lparr>it_created_at := kw_clock w, it_updated_at := kw_clock w\<rparr>]\<rparr>))"

section \<open>Knowledge bases\<close>

definition create_knowledge_base :: "knowledge_base \<Rightarrow> unit kb_call" where
  "create_knowledge_base b = bindE kb_database (\<lambda>_. insert_base b)"

definition get_knowledge_base :: "string \<Rightarrow> string \<Rightarrow> knowledge_base kb_call" where
  "get_knowledge_base userName i = bindE kb_database (\<lambda>_.
     kb_first (\<lambda>w. find (\<lambda>b. live_base b \<and> kb_id b = i \<and> kb_user b = userName) (kw_bases w)))"

definition find_knowledge_base_by_name :: "string \<Rightarrow> string \<Rightarrow> knowledge_base kb_call" where
  "find_knowledge_base_by_name userName name = bindE kb_database (\<lambda>_.
     kb_first (\<lambda>w. find (\<lambda>b. live_base b \<and> kb_user b = userName \<and> kb_name b = name)
       (sort_key (\<lambda>b. (kb_created_at b, kb_id b)) (kw_bases w))))"

definition summary_documents :: "string \<Rightarrow> string \<Rightarrow> kb_world \<Rightarrow> knowledge_document list" where
  "summary_documents userName i w = filter (\<lambda>d. live_doc d \<and> kd_base d = i \<and> kd_user d = userName) (kw_docs w)"

fun summarize :: "string \<Rightarrow> knowledge_base list \<Rightarrow> kb_summary list kb_call" where
  "summarize userName [] = ret []"
| "summarize userName (b # bs) =
     bindE (kb_select (\<lambda>w. length (summary_documents userName (kb_id b) w))) (\<lambda>n.
     bindE (kb_select (\<lambda>w. sum_list (map kd_chunk_count
        (filter (\<lambda>d. kd_status d = DocReady) (summary_documents userName (kb_id b) w))))) (\<lambda>c.
     bindE (summarize userName bs) (\<lambda>rest. ret (\<lparr>ks_base = b, ks_documents = n, ks_chunks = c\<rparr> # rest))))"

definition list_knowledge_bases :: "string \<Rightarrow> nat \<Rightarrow> nat \<Rightarrow> kb_summary list kb_call" where
  "list_knowledge_bases userName offset limit = bindE kb_database (\<lambda>_.
     bindE (kb_select (\<lambda>w. take limit (drop offset
        (rev (sort_key kb_created_at (filter (\<lambda>b. live_base b \<and> kb_user b = userName) (kw_bases w))))))) (\<lambda>bases.
     summarize userName bases))"

definition list_ready_knowledge_bases :: "string \<Rightarrow> knowledge_base list kb_call" where
  "list_ready_knowledge_bases userName = bindE kb_database (\<lambda>_.
     kb_select (\<lambda>w. filter (\<lambda>b. live_base b \<and> kb_user b = userName \<and> kb_state b = KbActive \<and>
        list_ex (\<lambda>d. live_doc d \<and> kd_base d = kb_id b \<and> kd_status d = DocReady) (kw_docs w)) (kw_bases w)))"

definition mark_knowledge_base_deleting :: "string \<Rightarrow> string \<Rightarrow> unit kb_call" where
  "mark_knowledge_base_deleting userName i = bindE kb_database (\<lambda>_.
     bindE (update_bases (\<lambda>b. kb_id b = i \<and> kb_user b = userName \<and> kb_state b = KbActive) (\<lambda>b. b\<lparr>kb_state := KbDeleting\<rparr>)) (\<lambda>n.
     guardE (n \<noteq> 0) KbNotFound))"

definition restore_knowledge_base_active :: "string \<Rightarrow> string \<Rightarrow> unit kb_call" where
  "restore_knowledge_base_active userName i = bindE kb_database (\<lambda>_.
     bindE (update_bases (\<lambda>b. kb_id b = i \<and> kb_user b = userName) (\<lambda>b. b\<lparr>kb_state := KbActive\<rparr>)) (\<lambda>_. ret ()))"

section \<open>Documents and their tasks\<close>

definition create_document_and_task :: "knowledge_document \<Rightarrow> index_task \<Rightarrow> unit kb_call" where
  "create_document_and_task d t = bindE kb_database (\<lambda>_. kb_transaction (bindE (insert_doc d) (\<lambda>_. insert_itask t)))"

definition active_status :: "itask_status \<Rightarrow> bool" where
  "active_status s \<longleftrightarrow> s = ItPending \<or> s = ItRunning"

definition create_delete_document_task :: "string \<Rightarrow> string \<Rightarrow> string \<Rightarrow> index_task \<Rightarrow> unit kb_call" where
  "create_delete_document_task userName baseID docID t = bindE kb_database (\<lambda>_. kb_transaction (
     bindE (kb_first (\<lambda>w. find (\<lambda>d. live_doc d \<and> kd_id d = docID \<and> kd_base d = baseID \<and> kd_user d = userName) (kw_docs w))) (\<lambda>_.
     bindE (kb_select (\<lambda>w. list_ex (\<lambda>k. it_document k = docID \<and> it_type k = DeleteWork \<and> active_status (it_status k)) (kw_tasks w))) (\<lambda>active.
     bindE (guardE (\<not> active) DeleteAlreadyScheduled) (\<lambda>_.
     bindE (update_docs (\<lambda>d. kd_id d = docID) (\<lambda>d. d\<lparr>kd_status := DocDeleting, kd_error := []\<rparr>)) (\<lambda>_.
     bindE kb_now (\<lambda>now.
     bindE (update_itasks (\<lambda>k. it_document k = docID \<and> it_type k = IndexWork \<and> it_status k = ItPending)
        (\<lambda>k. k\<lparr>it_status := ItFailed, it_finished_at := Some now, it_error := ''superseded by document deletion''\<rparr>)) (\<lambda>_.
     insert_itask t))))))))"

text \<open>The fence of an attempt: the task still runs, as this kind of work, in this attempt.\<close>

definition owned_attempt :: "string \<Rightarrow> itask_type \<Rightarrow> nat \<Rightarrow> index_task \<Rightarrow> bool" where
  "owned_attempt i k attempt t \<longleftrightarrow> it_id t = i \<and> it_type t = k \<and> it_status t = ItRunning \<and> it_attempts t = attempt"

definition update_owned :: "string \<Rightarrow> itask_type \<Rightarrow> nat \<Rightarrow> (index_task \<Rightarrow> index_task) \<Rightarrow> unit kb_call" where
  "update_owned i k attempt f = bindE (update_itasks (owned_attempt i k attempt) f) (\<lambda>n. guardE (n \<noteq> 0) TaskSuperseded)"

definition complete_delete_task :: "string \<Rightarrow> string \<Rightarrow> nat \<Rightarrow> unit kb_call" where
  "complete_delete_task i docID attempt = bindE kb_database (\<lambda>_. bindE kb_now (\<lambda>now. kb_transaction (
     bindE (delete_docs (\<lambda>d. kd_id d = docID \<and> kd_status d = DocDeleting)) (\<lambda>n.
     bindE (guardE (n \<noteq> 0) DocumentLifecycleChanged) (\<lambda>_.
     update_owned i DeleteWork attempt (\<lambda>t. t\<lparr>it_status := ItSucceeded, it_finished_at := Some now, it_error := []\<rparr>))))))"

definition bounded_text :: "string \<Rightarrow> string" where
  "bounded_text m = (if 1000 < length m then take 1000 m else m)"

text \<open>\<open>First\<close> with not-found mapped to another error.\<close>

definition first_or :: "kb_error \<Rightarrow> (kb_world \<Rightarrow> 'a option) \<Rightarrow> 'a kb_call" where
  "first_or e q = map_err (\<lambda>x. if x = KbNotFound then e else x) (kb_first q)"

definition fail_delete_task :: "string \<Rightarrow> string \<Rightarrow> string \<Rightarrow> bool \<Rightarrow> nat \<Rightarrow> unit kb_call" where
  "fail_delete_task i docID message0 retry attempt = bindE kb_database (\<lambda>_. bindE kb_now (\<lambda>now.
     let message = bounded_text message0 in kb_transaction (
     bindE (first_or DocumentLifecycleChanged
        (\<lambda>w. find (\<lambda>d. live_doc d \<and> kd_id d = docID \<and> kd_status d = DocDeleting) (kw_docs w))) (\<lambda>_.
     bindE (update_docs (\<lambda>d. kd_id d = docID) (\<lambda>d. d\<lparr>kd_status := DocDeleting, kd_error := message\<rparr>)) (\<lambda>_.
     update_owned i DeleteWork attempt (\<lambda>t. t\<lparr>it_status := (if retry then ItPending else ItFailed),
        it_finished_at := (if retry then None else Some now), it_error := message\<rparr>))))))"

definition requeue_delete_task :: "string \<Rightarrow> string \<Rightarrow> string \<Rightarrow> nat \<Rightarrow> unit kb_call" where
  "requeue_delete_task i docID message0 attempt = bindE kb_database (\<lambda>_.
     let message = bounded_text message0 in kb_transaction (
     bindE (first_or TaskSuperseded (\<lambda>w. find (owned_attempt i DeleteWork attempt) (kw_tasks w))) (\<lambda>_.
     bindE (first_or DocumentLifecycleChanged (\<lambda>w. find (\<lambda>d. live_doc d \<and> kd_id d = docID) (kw_docs w))) (\<lambda>_.
     bindE (update_docs (\<lambda>d. kd_id d = docID) (\<lambda>d. d\<lparr>kd_status := DocDeleting, kd_error := message\<rparr>)) (\<lambda>_.
     update_owned i DeleteWork attempt (\<lambda>t. t\<lparr>it_status := ItPending, it_started_at := None, it_finished_at := None,
        it_error := message\<rparr>))))))"

definition get_document :: "string \<Rightarrow> string \<Rightarrow> string \<Rightarrow> knowledge_document kb_call" where
  "get_document userName baseID docID = bindE kb_database (\<lambda>_.
     kb_first (\<lambda>w. find (\<lambda>d. live_doc d \<and> kd_id d = docID \<and> kd_base d = baseID \<and> kd_user d = userName) (kw_docs w)))"

definition list_documents :: "string \<Rightarrow> string \<Rightarrow> knowledge_document list kb_call" where
  "list_documents userName baseID = bindE kb_database (\<lambda>_.
     kb_select (\<lambda>w. rev (sort_key kd_created_at (filter (\<lambda>d. live_doc d \<and> kd_base d = baseID \<and> kd_user d = userName) (kw_docs w)))))"

definition get_index_task :: "string \<Rightarrow> string \<Rightarrow> index_task kb_call" where
  "get_index_task userName i = bindE kb_database (\<lambda>_.
     kb_first (\<lambda>w. find (\<lambda>t. it_id t = i \<and> it_user t = userName) (kw_tasks w)))"

definition get_index_task_by_id :: "string \<Rightarrow> index_task kb_call" where
  "get_index_task_by_id i = bindE kb_database (\<lambda>_. kb_first (\<lambda>w. find (\<lambda>t. it_id t = i) (kw_tasks w)))"

definition task_of_document :: "string \<Rightarrow> string \<Rightarrow> string \<Rightarrow> index_task \<Rightarrow> bool" where
  "task_of_document userName baseID docID t \<longleftrightarrow> it_user t = userName \<and> it_base t = baseID \<and> it_document t = docID"

definition get_active_delete_task :: "string \<Rightarrow> string \<Rightarrow> string \<Rightarrow> index_task kb_call" where
  "get_active_delete_task userName baseID docID = bindE kb_database (\<lambda>_.
     kb_first (\<lambda>w. find (\<lambda>t. task_of_document userName baseID docID t \<and> it_type t = DeleteWork \<and> active_status (it_status t))
       (rev (sort_key (\<lambda>t. (it_created_at t, it_id t)) (kw_tasks w)))))"

definition get_latest_document_task :: "string \<Rightarrow> string \<Rightarrow> string \<Rightarrow> index_task kb_call" where
  "get_latest_document_task userName baseID docID = bindE kb_database (\<lambda>_.
     kb_first (\<lambda>w. find (task_of_document userName baseID docID) (sort_key (\<lambda>t. (- it_created_at t, it_id t)) (kw_tasks w))))"

definition list_pending_tasks :: "nat \<Rightarrow> index_task list kb_call" where
  "list_pending_tasks limit = bindE kb_database (\<lambda>_.
     kb_select (\<lambda>w. take limit (sort_key it_created_at (filter (\<lambda>t. it_status t = ItPending) (kw_tasks w)))))"

definition list_failed_delete_tasks :: "nat \<Rightarrow> index_task list kb_call" where
  "list_failed_delete_tasks limit = bindE kb_database (\<lambda>_.
     kb_select (\<lambda>w. take limit (sort_key it_updated_at
       (filter (\<lambda>t. it_type t = DeleteWork \<and> it_status t = ItFailed) (kw_tasks w)))))"

text \<open>A task that is no longer failed is not an error: the call returns \<open>False\<close>.\<close>

definition requeue_failed_delete_task :: "string \<Rightarrow> bool kb_call" where
  "requeue_failed_delete_task i = bindE kb_database (\<lambda>_. kb_transaction (
     bindE (kb_select (\<lambda>w. find (\<lambda>t. it_id t = i \<and> it_type t = DeleteWork \<and> it_status t = ItFailed) (kw_tasks w))) (\<lambda>found.
     case found of None \<Rightarrow> ret False
     | Some t \<Rightarrow>
         bindE (first_or DocumentLifecycleChanged (\<lambda>w. find (\<lambda>d. live_doc d \<and> kd_id d = it_document t) (kw_docs w))) (\<lambda>_.
         bindE (update_docs (\<lambda>d. kd_id d = it_document t) (\<lambda>d. d\<lparr>kd_status := DocDeleting, kd_error := ''retrying delete cleanup''\<rparr>)) (\<lambda>_.
         bindE (update_itasks (\<lambda>k. it_id k = it_id t \<and> it_status k = ItFailed)
           (\<lambda>k. k\<lparr>it_status := ItPending, it_started_at := None, it_finished_at := None, it_error := ''retrying delete cleanup''\<rparr>)) (\<lambda>n.
         ret (n \<noteq> 0)))))))"

definition claimed_itask :: "time \<Rightarrow> index_task \<Rightarrow> index_task" where
  "claimed_itask now t = t\<lparr>it_status := ItRunning, it_attempts := it_attempts t + 1, it_started_at := Some now,
     it_finished_at := None, it_error := []\<rparr>"

text \<open>Losing the race for a task is no error: the call returns \<open>None\<close>.\<close>

definition claim_itask :: "string \<Rightarrow> index_task option kb_call" where
  "claim_itask i = bindE kb_database (\<lambda>_. bindE kb_now (\<lambda>now. \<lambda>w.
     case kb_transaction (
       bindE (kb_first (\<lambda>w. find (\<lambda>t. it_id t = i \<and> it_status t = ItPending) (kw_tasks w))) (\<lambda>t.
       bindE (update_itasks (\<lambda>k. it_id k = i \<and> it_status k = ItPending) (claimed_itask now)) (\<lambda>n.
       bindE (guardE (n \<noteq> 0) TaskSuperseded) (\<lambda>_. ret (claimed_itask now t))))) w of
       (Inl e, w') \<Rightarrow> if e = KbNotFound \<or> e = TaskSuperseded then (Inr None, w') else (Inl e, w')
     | (Inr t, w') \<Rightarrow> (Inr (Some t), w')))"

definition complete_index_task :: "string \<Rightarrow> string \<Rightarrow> int \<Rightarrow> nat \<Rightarrow> unit kb_call" where
  "complete_index_task i docID chunkCount attempt = bindE kb_database (\<lambda>_. bindE kb_now (\<lambda>now. kb_transaction (
     bindE (update_docs (\<lambda>d. kd_id d = docID \<and> kd_status d = DocIndexing)
        (\<lambda>d. d\<lparr>kd_status := DocReady, kd_chunk_count := chunkCount, kd_error := []\<rparr>)) (\<lambda>n.
     bindE (guardE (n \<noteq> 0) DocumentLifecycleChanged) (\<lambda>_.
     update_owned i IndexWork attempt (\<lambda>t. t\<lparr>it_status := ItSucceeded, it_finished_at := Some now, it_error := []\<rparr>))))))"

definition fail_index_task :: "string \<Rightarrow> string \<Rightarrow> string \<Rightarrow> bool \<Rightarrow> nat \<Rightarrow> unit kb_call" where
  "fail_index_task i docID message0 retry attempt = bindE kb_database (\<lambda>_. bindE kb_now (\<lambda>now.
     let message = bounded_text message0 in kb_transaction (
     bindE (update_docs (\<lambda>d. kd_id d = docID \<and> kd_status d = DocIndexing)
        (\<lambda>d. d\<lparr>kd_status := (if retry then DocPending else DocFailed), kd_error := message\<rparr>)) (\<lambda>n.
     bindE (guardE (n \<noteq> 0) DocumentLifecycleChanged) (\<lambda>_.
     update_owned i IndexWork attempt (\<lambda>t. t\<lparr>it_status := (if retry then ItPending else ItFailed),
        it_finished_at := (if retry then None else Some now), it_error := message\<rparr>))))))"

definition cancel_index_task :: "string \<Rightarrow> nat \<Rightarrow> string \<Rightarrow> unit kb_call" where
  "cancel_index_task i attempt message = bindE kb_database (\<lambda>_. bindE kb_now (\<lambda>now.
     update_owned i IndexWork attempt (\<lambda>t. t\<lparr>it_status := ItCancelled, it_finished_at := Some now, it_error := message\<rparr>)))"

definition mark_document_indexing :: "string \<Rightarrow> unit kb_call" where
  "mark_document_indexing docID = bindE kb_database (\<lambda>_.
     bindE (update_docs (\<lambda>d. kd_id d = docID \<and> kd_status d = DocPending) (\<lambda>d. d\<lparr>kd_status := DocIndexing, kd_error := []\<rparr>)) (\<lambda>n.
     guardE (n \<noteq> 0) DocumentLifecycleChanged))"

section \<open>Recovery\<close>

definition can_retry :: "index_task \<Rightarrow> knowledge_document option \<Rightarrow> bool" where
  "can_retry t doc = (case doc of None \<Rightarrow> False | Some d \<Rightarrow>
     (if it_type t = IndexWork then kd_status d = DocPending \<or> kd_status d = DocIndexing else kd_status d = DocDeleting))"

definition recover_itask :: "index_task \<Rightarrow> unit kb_call" where
  "recover_itask t =
     bindE (kb_select (\<lambda>w. find (\<lambda>d. live_doc d \<and> kd_id d = it_document t) (kw_docs w))) (\<lambda>doc.
     if \<not> can_retry t doc then
       bindE kb_now (\<lambda>now.
       bindE (update_itasks (\<lambda>k. it_id k = it_id t \<and> it_status k = ItRunning)
         (\<lambda>k. k\<lparr>it_status := ItCancelled, it_finished_at := Some now, it_error := ''superseded by document lifecycle change''\<rparr>)) (\<lambda>_. ret ()))
     else
       bindE (if it_type t = IndexWork \<and> kd_status (the doc) = DocIndexing
         then bindE (update_docs (\<lambda>d. kd_id d = it_document t \<and> kd_status d = DocIndexing)
           (\<lambda>d. d\<lparr>kd_status := DocPending, kd_error := ''recovered stale indexing task''\<rparr>)) (\<lambda>_. ret ())
         else ret ()) (\<lambda>_.
       bindE (update_itasks (\<lambda>k. it_id k = it_id t \<and> it_status k = ItRunning)
         (\<lambda>k. k\<lparr>it_status := ItPending, it_started_at := None, it_finished_at := None\<rparr>)) (\<lambda>n.
       guardE (n \<noteq> 0) TaskSuperseded)))"

fun recover_itasks :: "index_task list \<Rightarrow> unit kb_call" where
  "recover_itasks [] = ret ()"
| "recover_itasks (t # ts) = bindE (recover_itask t) (\<lambda>_. recover_itasks ts)"

definition stale_itask :: "time \<Rightarrow> index_task \<Rightarrow> bool" where
  "stale_itask before t \<longleftrightarrow> it_status t = ItRunning \<and> (case it_started_at t of None \<Rightarrow> False | Some s \<Rightarrow> s < before)"

definition recover_stale_itasks :: "time \<Rightarrow> unit kb_call" where
  "recover_stale_itasks before = bindE kb_database (\<lambda>_. kb_transaction (
     bindE (kb_select (\<lambda>w. filter (stale_itask before) (kw_tasks w))) recover_itasks))"

section \<open>Removing records\<close>

text \<open>
  The WHERE clause of the second statement of \<open>DeleteDocumentRecords\<close> has three placeholders and
  two arguments. GORM leaves the third one in the text, and the driver refuses a statement whose
  arguments do not match its placeholders.
\<close>

definition delete_document_records :: "string \<Rightarrow> string \<Rightarrow> string \<Rightarrow> unit kb_call" where
  "delete_document_records userName baseID docID = bindE kb_database (\<lambda>_. kb_transaction (
     bindE (delete_itasks (\<lambda>t. it_document t = docID \<and> it_user t = userName)) (\<lambda>_.
     kb_statement (fail (KbDriver DriverError)))))"

definition delete_knowledge_base_records :: "string \<Rightarrow> string \<Rightarrow> unit kb_call" where
  "delete_knowledge_base_records userName baseID = bindE kb_database (\<lambda>_. kb_transaction (
     bindE (delete_itasks (\<lambda>t. it_base t = baseID \<and> it_user t = userName)) (\<lambda>_.
     bindE (delete_docs (\<lambda>d. kd_base d = baseID \<and> kd_user d = userName)) (\<lambda>_.
     bindE (delete_bases (\<lambda>b. kb_id b = baseID \<and> kb_user b = userName)) (\<lambda>n.
     guardE (n \<noteq> 0) KbNotFound)))))"

end
