(* ===== verification/KbLifecycle.thy ===== *)
theory KbLifecycle
  imports KbStore
begin

text \<open>
  The life of a document and of an index task as small state machines, and the fact that every
  operation of the knowledge base store, whatever fails, moves each row along its machine only.
  The machines are the abstract specification; \<open>doc_phase\<close> and \<open>task_phase\<close> abstract a database.
\<close>

section \<open>The machines\<close>

datatype doc_phase = NoDocument | Live doc_status | Removed

inductive doc_life :: "doc_phase \<Rightarrow> doc_phase \<Rightarrow> bool" where
  doc_created: "doc_life NoDocument (Live st)"
| doc_started: "doc_life (Live DocPending) (Live DocIndexing)"
| doc_indexed: "doc_life (Live DocIndexing) (Live DocReady)"
| doc_given_up: "doc_life (Live DocIndexing) (Live DocFailed)"
| doc_retried: "doc_life (Live DocIndexing) (Live DocPending)"
| doc_doomed: "doc_life (Live st) (Live DocDeleting)"
| doc_removed: "doc_life (Live st) Removed"

text \<open>A task with its kind, its status and the number of its attempts.\<close>

datatype task_phase = NoTask | Queued itask_type itask_status nat

inductive task_life :: "task_phase \<Rightarrow> task_phase \<Rightarrow> bool" where
  task_created: "task_life NoTask (Queued k st n)"
| task_claimed: "task_life (Queued k ItPending n) (Queued k ItRunning (Suc n))"
| task_succeeded: "task_life (Queued k ItRunning n) (Queued k ItSucceeded n)"
| task_failed: "task_life (Queued k ItRunning n) (Queued k ItFailed n)"
| task_retried: "task_life (Queued k ItRunning n) (Queued k ItPending n)"
| task_cancelled: "task_life (Queued k ItRunning n) (Queued k ItCancelled n)"
| task_overtaken: "task_life (Queued IndexWork ItPending n) (Queued IndexWork ItFailed n)"
| task_requeued: "task_life (Queued k ItFailed n) (Queued k ItPending n)"
| task_removed: "task_life (Queued k st n) NoTask"

inductive_cases doc_lifeE: "doc_life a b"
inductive_cases task_lifeE: "task_life a b"

definition phase_of_doc :: "knowledge_document \<Rightarrow> doc_phase" where
  "phase_of_doc d = (if live_doc d then Live (kd_status d) else Removed)"

definition doc_phase :: "string \<Rightarrow> kb_world \<Rightarrow> doc_phase" where
  "doc_phase i w = (case find (\<lambda>d. kd_id d = i) (kw_docs w) of None \<Rightarrow> NoDocument | Some d \<Rightarrow> phase_of_doc d)"

definition phase_of_task :: "index_task \<Rightarrow> task_phase" where
  "phase_of_task t = Queued (it_type t) (it_status t) (it_attempts t)"

definition task_phase :: "string \<Rightarrow> kb_world \<Rightarrow> task_phase" where
  "task_phase i w = (case find (\<lambda>t. it_id t = i) (kw_tasks w) of None \<Rightarrow> NoTask | Some t \<Rightarrow> phase_of_task t)"

definition kb_wf :: "kb_world \<Rightarrow> bool" where
  "kb_wf w \<longleftrightarrow> distinct (map kd_id (kw_docs w)) \<and> distinct (map it_id (kw_tasks w))"

definition kb_tables :: "kb_world \<Rightarrow> knowledge_base list \<times> knowledge_document list \<times> index_task list" where
  "kb_tables w = (kw_bases w, kw_docs w, kw_tasks w)"

section \<open>Relations every operation keeps\<close>

locale kb_relation = state_preorder R for R :: "kb_world \<Rightarrow> kb_world \<Rightarrow> bool" +
  assumes R_tables: "kb_tables s = kb_tables t \<Longrightarrow> R s t"
begin

lemma keeps_kb_statement:
  assumes "keeps R body"
  shows "keeps R (kb_statement body)"
proof (rule keepsI)
  fix s r t assume run: "kb_statement body s = (r, t)"
  show "R s t"
  proof (cases "kw_faults s")
    case Nil
    then show ?thesis using run keepsD [OF assms] by (simp add: kb_statement_def)
  next
    case (Cons f fs)
    have "R s (s\<lparr>kw_faults := fs\<rparr>)" by (rule R_tables) (simp add: kb_tables_def)
    then show ?thesis using run Cons keepsD [OF assms] R_trans
      by (cases f) (auto simp: kb_statement_def)
  qed
qed

lemma keeps_kb_transaction:
  assumes "keeps R m"
  shows "keeps R (kb_transaction m)"
proof (rule keepsI)
  fix s r t assume run: "kb_transaction m s = (r, t)"
  let ?body = "bindE (kb_statement (ret ())) (\<lambda>_. bindE m (\<lambda>x. bindE (kb_statement (ret ())) (\<lambda>_. ret x)))"
  have k: "keeps R ?body" by (intro keeps_intros keeps_kb_statement assms)
  obtain x u where b: "?body s = (x, u)" by fastforce
  show "R s t"
  proof (cases x)
    case (Inl e)
    then have "kb_tables s = kb_tables t" using run b by (auto simp: kb_transaction_def kb_tables_def)
    then show ?thesis by (rule R_tables)
  next
    case (Inr y)
    then have "t = u" using run b by (simp add: kb_transaction_def)
    then show ?thesis using keepsD [OF k b] by simp
  qed
qed

lemma keeps_kb_reads:
  "keeps R kb_database" "keeps R kb_now" "keeps R (kb_select q)" "keeps R (kb_first q')" "keeps R (first_or e q')"
  unfolding kb_database_def kb_now_def kb_select_def kb_first_def first_or_def
  by (intro keeps_intros keeps_kb_statement)+

end

text \<open>What an update of the store may do to a row.\<close>

definition legal_doc_update :: "(knowledge_document \<Rightarrow> bool) \<Rightarrow> (knowledge_document \<Rightarrow> knowledge_document) \<Rightarrow> bool" where
  "legal_doc_update P f \<longleftrightarrow> (\<forall>d. P d \<longrightarrow> kd_id (f d) = kd_id d \<and> kd_deleted_at (f d) = kd_deleted_at d \<and>
     doc_life (Live (kd_status d)) (Live (kd_status (f d))))"

definition legal_task_update :: "(index_task \<Rightarrow> bool) \<Rightarrow> (index_task \<Rightarrow> index_task) \<Rightarrow> bool" where
  "legal_task_update P f \<longleftrightarrow> (\<forall>t. P t \<longrightarrow> it_id (f t) = it_id t \<and> task_life (phase_of_task t) (phase_of_task (f t)))"

lemma legal_task_update_mono:
  "legal_task_update P f \<Longrightarrow> (\<And>t. Q t \<Longrightarrow> P t) \<Longrightarrow> legal_task_update Q f"
  by (simp add: legal_task_update_def)

text \<open>An update that ends the attempt of a task.\<close>

definition settles :: "(index_task \<Rightarrow> index_task) \<Rightarrow> bool" where
  "settles f \<longleftrightarrow> (\<forall>t :: index_task. it_id (f t) = it_id t \<and> it_type (f t) = it_type t \<and> it_attempts (f t) = it_attempts t \<and>
     it_status (f t) \<in> {ItSucceeded, ItFailed, ItPending, ItCancelled})"

lemma settles_legal:
  assumes "settles f"
  shows "legal_task_update (\<lambda>t. it_status t = ItRunning) f"
  unfolding legal_task_update_def
proof (intro allI impI)
  fix t :: index_task assume run: "it_status t = ItRunning"
  have f: "it_id (f t) = it_id t" "it_type (f t) = it_type t" "it_attempts (f t) = it_attempts t"
    "it_status (f t) \<in> {ItSucceeded, ItFailed, ItPending, ItCancelled}"
    using assms by (simp_all add: settles_def)
  have "task_life (Queued (it_type t) ItRunning (it_attempts t)) (Queued (it_type t) (it_status (f t)) (it_attempts t))"
    using f(4) by (auto intro: task_life.intros)
  then show "it_id (f t) = it_id t \<and> task_life (phase_of_task t) (phase_of_task (f t))"
    using f run by (simp add: phase_of_task_def)
qed

text \<open>Dooming a document, finishing its indexing, overtaking its pending work, claiming a task.\<close>

lemma doom_legal: "legal_doc_update P (\<lambda>d. d\<lparr>kd_status := DocDeleting, kd_error := m\<rparr>)"
  by (simp add: legal_doc_update_def doc_doomed)

lemma indexed_legal:
  "legal_doc_update (\<lambda>d. kd_id d = i \<and> kd_status d = DocIndexing) (\<lambda>d. d\<lparr>kd_status := DocReady, kd_chunk_count := c, kd_error := m\<rparr>)"
  "legal_doc_update (\<lambda>d. kd_id d = i \<and> kd_status d = DocIndexing) (\<lambda>d. d\<lparr>kd_status := (if retry then DocPending else DocFailed), kd_error := m\<rparr>)"
  "legal_doc_update (\<lambda>d. kd_id d = i \<and> kd_status d = DocIndexing) (\<lambda>d. d\<lparr>kd_status := DocPending, kd_error := m\<rparr>)"
  "legal_doc_update (\<lambda>d. kd_id d = i \<and> kd_status d = DocPending) (\<lambda>d. d\<lparr>kd_status := DocIndexing, kd_error := m\<rparr>)"
  by (auto simp: legal_doc_update_def intro: doc_life.intros)

lemma overtake_legal:
  "legal_task_update (\<lambda>k. it_document k = d \<and> it_type k = IndexWork \<and> it_status k = ItPending)
     (\<lambda>k. k\<lparr>it_status := ItFailed, it_finished_at := f, it_error := m\<rparr>)"
  by (auto simp: legal_task_update_def phase_of_task_def intro: task_life.intros)

lemma claim_legal: "legal_task_update (\<lambda>k. it_id k = i \<and> it_status k = ItPending) (claimed_itask now)"
  by (auto simp: legal_task_update_def phase_of_task_def claimed_itask_def intro: task_life.intros)

lemma requeue_legal:
  "legal_task_update (\<lambda>k. it_id k = i \<and> it_status k = ItFailed)
     (\<lambda>k. k\<lparr>it_status := ItPending, it_started_at := a, it_finished_at := b, it_error := m\<rparr>)"
  by (auto simp: legal_task_update_def phase_of_task_def intro: task_life.intros)

lemma recovered_legal:
  "settles f \<Longrightarrow> legal_task_update (\<lambda>k. it_id k = i \<and> it_status k = ItRunning) f"
  by (rule legal_task_update_mono [OF settles_legal]) simp_all

text \<open>A relation that every legal change of a row keeps is kept by every operation.\<close>

locale kb_history = kb_relation R for R :: "kb_world \<Rightarrow> kb_world \<Rightarrow> bool" +
  assumes bases_free: "keeps R (update_bases P f)" "keeps R (delete_bases P)" "keeps R (insert_base b)"
    and docs_legal: "legal_doc_update Pd fd \<Longrightarrow> keeps R (update_docs Pd fd)" "keeps R (delete_docs Pd)" "keeps R (insert_doc d)"
    and tasks_legal: "legal_task_update Pt ft \<Longrightarrow> keeps R (update_itasks Pt ft)" "keeps R (delete_itasks Pt)" "keeps R (insert_itask t)"
begin

lemmas kb_intros = keeps_intros keeps_kb_transaction keeps_kb_reads bases_free docs_legal tasks_legal

lemma keeps_update_owned:
  assumes "settles f"
  shows "keeps R (update_owned i k n f)"
proof -
  have "legal_task_update (owned_attempt i k n) f"
    by (rule legal_task_update_mono [OF settles_legal [OF assms]]) (simp add: owned_attempt_def)
  then show ?thesis unfolding update_owned_def by (intro kb_intros)
qed

lemma keeps_kb_bases:
  "keeps R (create_knowledge_base b)" "keeps R (get_knowledge_base u i)" "keeps R (find_knowledge_base_by_name u n)"
  "keeps R (list_ready_knowledge_bases u)" "keeps R (mark_knowledge_base_deleting u i)" "keeps R (restore_knowledge_base_active u i)"
  unfolding create_knowledge_base_def get_knowledge_base_def find_knowledge_base_by_name_def list_ready_knowledge_bases_def
    mark_knowledge_base_deleting_def restore_knowledge_base_active_def
  by (intro kb_intros)+

lemma keeps_summarize: "keeps R (summarize u bs)"
proof (induction bs)
  case Nil
  show ?case by (simp add: keeps_ret)
next
  case (Cons b bs)
  show ?case unfolding summarize.simps by (intro kb_intros Cons.IH)
qed

lemma keeps_list_knowledge_bases: "keeps R (list_knowledge_bases u m n)"
  unfolding list_knowledge_bases_def by (intro kb_intros keeps_summarize)

lemma keeps_kb_queries:
  "keeps R (get_document u b d)" "keeps R (list_documents u b)" "keeps R (get_index_task u i)" "keeps R (get_index_task_by_id i)"
  "keeps R (get_active_delete_task u b d)" "keeps R (get_latest_document_task u b d)" "keeps R (list_pending_tasks n)"
  "keeps R (list_failed_delete_tasks n)"
  unfolding get_document_def list_documents_def get_index_task_def get_index_task_by_id_def get_active_delete_task_def
    get_latest_document_task_def list_pending_tasks_def list_failed_delete_tasks_def
  by (intro kb_intros)+

lemma keeps_create_document_and_task: "keeps R (create_document_and_task d t)"
  unfolding create_document_and_task_def by (intro kb_intros)

lemma keeps_create_delete_document_task: "keeps R (create_delete_document_task u b d t)"
  unfolding create_delete_document_task_def by (intro kb_intros doom_legal overtake_legal)

lemma keeps_delete_work:
  "keeps R (complete_delete_task i d n)" "keeps R (fail_delete_task i d m retry n)" "keeps R (requeue_delete_task i d m n)"
  unfolding complete_delete_task_def fail_delete_task_def requeue_delete_task_def Let_def
  by (intro kb_intros doom_legal keeps_update_owned; simp add: settles_def)+

lemma keeps_index_work:
  "keeps R (complete_index_task i d c n)" "keeps R (fail_index_task i d m retry n)" "keeps R (cancel_index_task i n m)"
  "keeps R (mark_document_indexing d)"
  unfolding complete_index_task_def fail_index_task_def cancel_index_task_def mark_document_indexing_def Let_def
  by (intro kb_intros indexed_legal keeps_update_owned; simp add: settles_def)+

lemma keeps_requeue_failed_delete_task: "keeps R (requeue_failed_delete_task i)"
  unfolding requeue_failed_delete_task_def
  by (intro kb_intros; simp split: option.split; intro impI allI conjI kb_intros doom_legal requeue_legal)

lemma keeps_claim_itask: "keeps R (claim_itask i)"
proof -
  have tx: "keeps R (kb_transaction (bindE (kb_first q) (\<lambda>t.
       bindE (update_itasks (\<lambda>k. it_id k = i \<and> it_status k = ItPending) (claimed_itask now)) (\<lambda>n.
       bindE (guardE (n \<noteq> 0) TaskSuperseded) (\<lambda>_. ret (claimed_itask now t))))))" for q now
    by (intro kb_intros claim_legal)
  show ?thesis unfolding claim_itask_def
    by (intro kb_intros) (auto intro!: keepsI dest!: keepsD [OF tx] simp del: neq0_conv split: prod.splits sum.splits if_splits)
qed

lemma keeps_recover_itask: "keeps R (recover_itask t)"
  unfolding recover_itask_def
  by (intro kb_intros; simp split: if_split; intro impI allI conjI kb_intros indexed_legal recovered_legal; simp add: settles_def)

lemma keeps_recover_itasks: "keeps R (recover_itasks ts)"
  by (induction ts) (simp_all add: keeps_intros keeps_recover_itask)

lemma keeps_recover_stale_itasks: "keeps R (recover_stale_itasks before)"
  unfolding recover_stale_itasks_def by (intro kb_intros keeps_recover_itasks)

lemma keeps_kb_deletions:
  "keeps R (delete_document_records u b d)" "keeps R (delete_knowledge_base_records u b)"
  unfolding delete_document_records_def delete_knowledge_base_records_def
  by (intro kb_intros keeps_kb_statement keeps_fail)+

end

end
