(* ===== verification/KbSafety.thy ===== *)
theory KbSafety
  imports KbLifecycle
begin

text \<open>
  Runs of the knowledge base store: the refinement of the life machines by every sequence of
  operations, the fence of a task's attempts, and the recovery of stale tasks.
\<close>

section \<open>Runs\<close>

datatype kb_op =
    CreateBase knowledge_base | GetBase string string | FindBaseByName string string | ListBases string nat nat
  | ListReadyBases string | MarkBaseDeleting string string | RestoreBaseActive string string
  | CreateDocument knowledge_document index_task | CreateDelete string string string index_task
  | CompleteDelete string string nat | FailDelete string string string bool nat | RequeueDelete string string string nat
  | GetDocument string string string | ListDocuments string string | GetTask string string | GetTaskByID string
  | GetActiveDelete string string string | GetLatestTask string string string | ListPending nat | ListFailedDeletes nat
  | RequeueFailedDelete string | ClaimWork string | CompleteIndex string string int nat
  | FailIndex string string string bool nat | CancelIndex string nat string | MarkIndexing string
  | RecoverStale time | DeleteDocumentRecords string string string | DeleteBaseRecords string string
  | ClockMoves time | DriverPlans "driver_fault option list" | Connects bool

definition quiet :: "'a kb_call \<Rightarrow> unit kb_call" where
  "quiet m = bindE (tryE m) (\<lambda>_. ret ())"

text \<open>A call of an operation by whoever calls it next, its answer aside; the last three are the world's.\<close>

fun kb_exec :: "kb_op \<Rightarrow> unit kb_call" where
  "kb_exec (CreateBase b) = quiet (create_knowledge_base b)"
| "kb_exec (GetBase u i) = quiet (get_knowledge_base u i)"
| "kb_exec (FindBaseByName u n) = quiet (find_knowledge_base_by_name u n)"
| "kb_exec (ListBases u m n) = quiet (list_knowledge_bases u m n)"
| "kb_exec (ListReadyBases u) = quiet (list_ready_knowledge_bases u)"
| "kb_exec (MarkBaseDeleting u i) = quiet (mark_knowledge_base_deleting u i)"
| "kb_exec (RestoreBaseActive u i) = quiet (restore_knowledge_base_active u i)"
| "kb_exec (CreateDocument d t) = quiet (create_document_and_task d t)"
| "kb_exec (CreateDelete u b d t) = quiet (create_delete_document_task u b d t)"
| "kb_exec (CompleteDelete i d n) = quiet (complete_delete_task i d n)"
| "kb_exec (FailDelete i d m r n) = quiet (fail_delete_task i d m r n)"
| "kb_exec (RequeueDelete i d m n) = quiet (requeue_delete_task i d m n)"
| "kb_exec (GetDocument u b d) = quiet (get_document u b d)"
| "kb_exec (ListDocuments u b) = quiet (list_documents u b)"
| "kb_exec (GetTask u i) = quiet (get_index_task u i)"
| "kb_exec (GetTaskByID i) = quiet (get_index_task_by_id i)"
| "kb_exec (GetActiveDelete u b d) = quiet (get_active_delete_task u b d)"
| "kb_exec (GetLatestTask u b d) = quiet (get_latest_document_task u b d)"
| "kb_exec (ListPending n) = quiet (list_pending_tasks n)"
| "kb_exec (ListFailedDeletes n) = quiet (list_failed_delete_tasks n)"
| "kb_exec (RequeueFailedDelete i) = quiet (requeue_failed_delete_task i)"
| "kb_exec (ClaimWork i) = quiet (claim_itask i)"
| "kb_exec (CompleteIndex i d c n) = quiet (complete_index_task i d c n)"
| "kb_exec (FailIndex i d m r n) = quiet (fail_index_task i d m r n)"
| "kb_exec (CancelIndex i n m) = quiet (cancel_index_task i n m)"
| "kb_exec (MarkIndexing d) = quiet (mark_document_indexing d)"
| "kb_exec (RecoverStale t) = quiet (recover_stale_itasks t)"
| "kb_exec (DeleteDocumentRecords u b d) = quiet (delete_document_records u b d)"
| "kb_exec (DeleteBaseRecords u b) = quiet (delete_knowledge_base_records u b)"
| "kb_exec (ClockMoves t) = modifies (kw_clock_update (\<lambda>_. t))"
| "kb_exec (DriverPlans fs) = modifies (kw_faults_update (\<lambda>_. fs))"
| "kb_exec (Connects b) = modifies (kw_connected_update (\<lambda>_. b))"

fun kb_run :: "kb_op list \<Rightarrow> kb_world \<Rightarrow> kb_world" where
  "kb_run [] w = w"
| "kb_run (x # xs) w = kb_run xs (snd (kb_exec x w))"

context kb_history
begin

lemma keeps_quiet: "keeps R m \<Longrightarrow> keeps R (quiet m)"
  unfolding quiet_def by (intro keeps_intros)

lemma keeps_environment:
  "keeps R (modifies (kw_clock_update (\<lambda>_. t)))" "keeps R (modifies (kw_faults_update (\<lambda>_. fs)))"
  "keeps R (modifies (kw_connected_update (\<lambda>_. b)))"
  by (auto intro!: keepsI R_tables simp: modifies_def kb_tables_def)

lemma keeps_kb_exec: "keeps R (kb_exec x)"
  by (cases x) (simp_all add: keeps_quiet keeps_environment keeps_kb_bases keeps_list_knowledge_bases keeps_kb_queries
      keeps_create_document_and_task keeps_create_delete_document_task keeps_delete_work keeps_index_work
      keeps_requeue_failed_delete_task keeps_claim_itask keeps_recover_stale_itasks keeps_kb_deletions)

lemma kb_run_related: "R w (kb_run xs w)"
proof (induction xs arbitrary: w)
  case Nil
  show ?case by (simp add: R_refl)
next
  case (Cons x xs)
  have "R w (snd (kb_exec x w))" using keeps_kb_exec by (simp add: keeps_def)
  then show ?case using Cons.IH R_trans by fastforce
qed

end

section \<open>The machines are refined\<close>

definition moves_along :: "kb_world \<Rightarrow> kb_world \<Rightarrow> bool" where
  "moves_along w w' \<longleftrightarrow> (kb_wf w \<longrightarrow> kb_wf w' \<and>
     (\<forall>i. doc_life\<^sup>*\<^sup>* (doc_phase i w) (doc_phase i w') \<and> task_life\<^sup>*\<^sup>* (task_phase i w) (task_phase i w')))"

lemma phase_tables: "kb_tables s = kb_tables t \<Longrightarrow>
    kb_wf s = kb_wf t \<and> doc_phase i s = doc_phase i t \<and> task_phase i s = task_phase i t"
  by (simp add: kb_tables_def kb_wf_def doc_phase_def task_phase_def)

interpretation life: kb_relation moves_along
proof
  show "moves_along s s" for s by (simp add: moves_along_def)
  show "moves_along s u" if "moves_along s t" "moves_along t u" for s t u
    using that unfolding moves_along_def by (meson rtranclp_trans)
  show "moves_along s t" if "kb_tables s = kb_tables t" for s t
    using phase_tables [OF that] by (simp add: moves_along_def)
qed

text \<open>Rows rewritten one by one, and rows added.\<close>

lemma find_map_key: "(\<And>r. k (g r) = k r) \<Longrightarrow> find (\<lambda>r. k r = i) (map g rs) = map_option g (find (\<lambda>r. k r = i) rs)"
  by (induction rs) auto

lemma moves_map_docs:
  assumes "\<And>d. kd_id (g d) = kd_id d" and "\<And>d. doc_life\<^sup>*\<^sup>* (phase_of_doc d) (phase_of_doc (g d))"
  shows "moves_along w (w\<lparr>kw_docs := map g (kw_docs w)\<rparr>)"
proof -
  have ids: "map kd_id (map g ds) = map kd_id ds" for ds using assms(1) by simp
  have "kb_wf (w\<lparr>kw_docs := map g (kw_docs w)\<rparr>) = kb_wf w"
    unfolding kb_wf_def by (simp add: ids del: map_map)
  then show ?thesis using assms(2)
    by (auto simp: moves_along_def doc_phase_def task_phase_def find_map_key [of kd_id, OF assms(1)] split: option.split)
qed

lemma moves_map_tasks:
  assumes "\<And>t. it_id (g t) = it_id t" and "\<And>t. task_life\<^sup>*\<^sup>* (phase_of_task t) (phase_of_task (g t))"
  shows "moves_along w (w\<lparr>kw_tasks := map g (kw_tasks w)\<rparr>)"
proof -
  have ids: "map it_id (map g ts) = map it_id ts" for ts using assms(1) by simp
  have "kb_wf (w\<lparr>kw_tasks := map g (kw_tasks w)\<rparr>) = kb_wf w"
    unfolding kb_wf_def by (simp add: ids del: map_map)
  then show ?thesis using assms(2)
    by (auto simp: moves_along_def doc_phase_def task_phase_def find_map_key [of it_id, OF assms(1)] split: option.split)
qed

lemma find_key_added: "k r \<notin> k ` set rs \<Longrightarrow>
    find (\<lambda>x. k x = i) (rs @ [r]) = (if k r = i then Some r else find (\<lambda>x. k x = i) rs)"
  by (induction rs) auto

lemma find_key_None: "k r \<notin> k ` set rs \<Longrightarrow> find (\<lambda>x. k x = k r) rs = None"
  by (induction rs) auto

lemma life_of_new_doc: "doc_life\<^sup>*\<^sup>* NoDocument (phase_of_doc d)"
proof -
  have "doc_life\<^sup>*\<^sup>* NoDocument (Live (kd_status d))" by (rule r_into_rtranclp) (rule doc_created)
  moreover have "doc_life\<^sup>*\<^sup>* NoDocument Removed"
    by (rule converse_rtranclp_into_rtranclp [OF doc_created r_into_rtranclp [where r = doc_life, OF doc_removed]])
  ultimately show ?thesis by (simp add: phase_of_doc_def)
qed

lemma moves_insert_doc:
  assumes "kd_id d \<notin> kd_id ` set (kw_docs w)"
  shows "moves_along w (w\<lparr>kw_docs := kw_docs w @ [d]\<rparr>)"
  using assms life_of_new_doc [of d] find_key_None [of kd_id, OF assms]
  by (auto simp: moves_along_def kb_wf_def doc_phase_def task_phase_def find_key_added [of kd_id, OF assms])

lemma moves_insert_task:
  assumes "it_id t \<notin> it_id ` set (kw_tasks w)"
  shows "moves_along w (w\<lparr>kw_tasks := kw_tasks w @ [t]\<rparr>)"
  using assms find_key_None [of it_id, OF assms] r_into_rtranclp [where r = task_life, OF task_created]
  by (auto simp: moves_along_def kb_wf_def doc_phase_def task_phase_def phase_of_task_def find_key_added [of it_id, OF assms])

lemma find_key_filter: "distinct (map k rs) \<Longrightarrow> find (\<lambda>r. k r = i) (filter P rs) =
    (case find (\<lambda>r. k r = i) rs of None \<Rightarrow> None | Some r \<Rightarrow> if P r then Some r else None)"
  by (induction rs) (auto split: option.splits dest!: find_SomeD intro: rev_image_eqI simp: find_None_iff image_iff)

lemma moves_delete_tasks: "moves_along w (w\<lparr>kw_tasks := filter P (kw_tasks w)\<rparr>)"
  by (auto simp: moves_along_def kb_wf_def doc_phase_def task_phase_def phase_of_task_def distinct_map_filter
      find_key_filter [of it_id] split: option.split intro: r_into_rtranclp [where r = task_life, OF task_removed])

text \<open>The store keeps the relation.\<close>

lemma moves_update_docs:
  assumes "legal_doc_update P f"
  shows "moves_along w (w\<lparr>kw_docs := update_where (\<lambda>d. live_doc d \<and> P d) (\<lambda>d. (f d)\<lparr>kd_updated_at := n\<rparr>) (kw_docs w)\<rparr>)"
  unfolding update_where_def using assms
  by (intro moves_map_docs) (auto simp: legal_doc_update_def phase_of_doc_def live_doc_def)

lemma moves_delete_docs:
  "moves_along w (w\<lparr>kw_docs := update_where (\<lambda>d. live_doc d \<and> P d) (\<lambda>d. d\<lparr>kd_deleted_at := Some n\<rparr>) (kw_docs w)\<rparr>)"
  unfolding update_where_def
  by (intro moves_map_docs) (auto simp: phase_of_doc_def live_doc_def intro: r_into_rtranclp [where r = doc_life, OF doc_removed])

lemma moves_update_tasks:
  assumes "legal_task_update P f"
  shows "moves_along w (w\<lparr>kw_tasks := update_where P (\<lambda>t. (f t)\<lparr>it_updated_at := n\<rparr>) (kw_tasks w)\<rparr>)"
  unfolding update_where_def using assms
  by (intro moves_map_tasks) (auto simp: legal_task_update_def phase_of_task_def)

lemma moves_bases: "moves_along w (w\<lparr>kw_bases := bs\<rparr>)"
  by (simp add: moves_along_def kb_wf_def doc_phase_def task_phase_def)

interpretation life: kb_history moves_along
proof
  show "keeps moves_along (update_bases P f)" "keeps moves_along (delete_bases P)" for P f
    unfolding update_bases_def delete_bases_def Let_def
    by (intro life.keeps_kb_statement; auto intro!: keepsI moves_bases)+
  show "keeps moves_along (insert_base b)" for b
    unfolding insert_base_def
    by (intro life.keeps_kb_statement) (auto intro!: keepsI moves_bases life.R_refl split: if_splits)
  show "keeps moves_along (update_docs P f)" if "legal_doc_update P f" for P f
    unfolding update_docs_def Let_def using moves_update_docs [OF that]
    by (intro life.keeps_kb_statement) (auto intro!: keepsI)
  show "keeps moves_along (delete_docs P)" for P
    unfolding delete_docs_def Let_def using moves_delete_docs
    by (intro life.keeps_kb_statement) (auto intro!: keepsI)
  show "keeps moves_along (insert_doc d)" for d
    unfolding insert_doc_def
    by (intro life.keeps_kb_statement) (auto intro!: keepsI moves_insert_doc life.R_refl split: if_splits)
  show "keeps moves_along (update_itasks P f)" if "legal_task_update P f" for P f
    unfolding update_itasks_def using moves_update_tasks [OF that]
    by (intro life.keeps_kb_statement) (auto intro!: keepsI)
  show "keeps moves_along (delete_itasks P)" for P
    unfolding delete_itasks_def using moves_delete_tasks
    by (intro life.keeps_kb_statement) (auto intro!: keepsI)
  show "keeps moves_along (insert_itask t)" for t
    unfolding insert_itask_def
    by (intro life.keeps_kb_statement) (auto intro!: keepsI moves_insert_task life.R_refl split: if_splits)
qed


end
