(* ===== verification/KbIndex.thy ===== *)
theory KbIndex
  imports KbSafety RagChunk
begin

text \<open>
  The world of the knowledge base service: the store, the Redis hashes and search indexes that
  \<open>src/common/rag/rag.go\<close> keeps for it, the uploaded files and the queue of hints. Redis and the
  embedding service answer by a schedule of outcomes; before every call to the store, to Redis or
  to the file system other workers and users may act, by another schedule. A write of several keys
  may stop after any of them.
\<close>

section \<open>The world\<close>

datatype outcome = Fine | Broken nat

datatype kx_change = StoreOp kb_op | KeyWritten string | KeyRemoved string | FileRemoved string

datatype kx_error = InStore kb_error | SvcInvalidInput | SvcNotFound | SvcConflict | IndexFailure | FileFailure | NoText
  | TaskIs itask_status | RepairFailed kx_error | UpdateFailed kx_error kx_error | CleanupFailed kx_error

record kx_world =
  kx_store :: kb_world
  kx_keys :: "string list"
  kx_indexes :: "string list"
  kx_files :: "(string \<times> string) list"
  kx_hints :: "string list"
  kx_started :: bool
  kx_uuids :: nat
  kx_replies :: "outcome list"
  kx_others :: "kx_change list list"

type_synonym 'a kx_call = "(kx_world, kx_error, 'a) call"

fun kx_event :: "kx_change \<Rightarrow> kx_world \<Rightarrow> kx_world" where
  "kx_event (StoreOp x) w = w\<lparr>kx_store := snd (kb_exec x (kx_store w))\<rparr>"
| "kx_event (KeyWritten k) w = w\<lparr>kx_keys := List.insert k (kx_keys w)\<rparr>"
| "kx_event (KeyRemoved k) w = w\<lparr>kx_keys := removeAll k (kx_keys w)\<rparr>"
| "kx_event (FileRemoved p) w = w\<lparr>kx_files := filter (\<lambda>f. fst f \<noteq> p) (kx_files w)\<rparr>"

text \<open>The others' turn.\<close>

definition interfere :: "unit kx_call" where
  "interfere = modifies (\<lambda>w. case kx_others w of [] \<Rightarrow> w | xs # rest \<Rightarrow> fold kx_event xs (w\<lparr>kx_others := rest\<rparr>))"

text \<open>A call of the store, and the next outcome of an outside service.\<close>

definition store :: "'a kb_call \<Rightarrow> 'a kx_call" where
  "store m = bindE interfere (\<lambda>_ w. case m (kx_store w) of (r, s) \<Rightarrow> (map_sum InStore id r, w\<lparr>kx_store := s\<rparr>))"

definition ask :: "outcome kx_call" where
  "ask = bindE interfere (\<lambda>_ w. case kx_replies w of [] \<Rightarrow> (Inr Fine, w) | r # rs \<Rightarrow> (Inr r, w\<lparr>kx_replies := rs\<rparr>))"

definition attempt_of :: "kx_error \<Rightarrow> unit kx_call" where
  "attempt_of e = bindE ask (\<lambda>r. guardE (r = Fine) e)"

text \<open>\<open>EnqueueIndexTask\<close>: the hint is dropped when the channel is full.\<close>

definition enqueue_index_task :: "string \<Rightarrow> unit kx_call" where
  "enqueue_index_task i = modifies (\<lambda>w. if length (kx_hints w) < 128 then w\<lparr>kx_hints := kx_hints w @ [i]\<rparr> else w)"

section \<open>Names and keys\<close>

text \<open>The hash is a parameter that returns the digest in hexadecimal; its first 16 bytes are 32 digits.\<close>

definition knowledge_index_token :: "(string \<Rightarrow> string) \<Rightarrow> string \<Rightarrow> string \<Rightarrow> string" where
  "knowledge_index_token sha userName baseID = take 32 (sha (userName @ [char_of (0 :: nat)] @ baseID))"

definition knowledge_index_name :: "(string \<Rightarrow> string) \<Rightarrow> string \<Rightarrow> string \<Rightarrow> string" where
  "knowledge_index_name sha userName baseID = ''rag_kb_'' @ knowledge_index_token sha userName baseID @ ''_idx''"

definition knowledge_key_prefix :: "(string \<Rightarrow> string) \<Rightarrow> string \<Rightarrow> string \<Rightarrow> string" where
  "knowledge_key_prefix sha userName baseID = ''rag_kb:'' @ knowledge_index_token sha userName baseID @ '':''"

definition document_prefix :: "(string \<Rightarrow> string) \<Rightarrow> string \<Rightarrow> string \<Rightarrow> string \<Rightarrow> string" where
  "document_prefix sha userName baseID docID = knowledge_key_prefix sha userName baseID @ docID @ '':''"

definition starts_with :: "string \<Rightarrow> string \<Rightarrow> bool" where
  "starts_with p s \<longleftrightarrow> take (length p) s = p"

section \<open>Redis\<close>

text \<open>Document identifiers hold no glob characters, so the pattern of SCAN is a prefix.\<close>

definition scan_keys :: "string \<Rightarrow> string list kx_call" where
  "scan_keys p = bindE (attempt_of IndexFailure) (\<lambda>_. gets (\<lambda>w. filter (starts_with p) (kx_keys w)))"

definition unlink :: "string list \<Rightarrow> unit kx_call" where
  "unlink ks = bindE ask (\<lambda>r. case r of
     Fine \<Rightarrow> modifies (\<lambda>w. w\<lparr>kx_keys := filter (\<lambda>k. k \<notin> set ks) (kx_keys w)\<rparr>)
   | Broken n \<Rightarrow> bindE (modifies (\<lambda>w. w\<lparr>kx_keys := filter (\<lambda>k. k \<notin> set (take n ks)) (kx_keys w)\<rparr>)) (\<lambda>_. fail IndexFailure))"

text \<open>Embedding and storing hashes under the given keys, in batches: third-party code.\<close>

definition store_hashes :: "string list \<Rightarrow> unit kx_call" where
  "store_hashes ks = bindE ask (\<lambda>r. case r of
     Fine \<Rightarrow> modifies (\<lambda>w. w\<lparr>kx_keys := fold List.insert ks (kx_keys w)\<rparr>)
   | Broken n \<Rightarrow> bindE (modifies (\<lambda>w. w\<lparr>kx_keys := fold List.insert (take n ks) (kx_keys w)\<rparr>)) (\<lambda>_. fail IndexFailure))"

definition delete_knowledge_document_index :: "(string \<Rightarrow> string) \<Rightarrow> string \<Rightarrow> string \<Rightarrow> string \<Rightarrow> unit kx_call" where
  "delete_knowledge_document_index sha userName baseID docID =
     bindE (scan_keys (document_prefix sha userName baseID docID)) (\<lambda>ks. if ks = [] then ret () else unlink ks)"

text \<open>FT.DROPINDEX with DD removes the hashes of the index; an index that does not exist is no error.\<close>

definition delete_knowledge_base_index :: "(string \<Rightarrow> string) \<Rightarrow> string \<Rightarrow> string \<Rightarrow> unit kx_call" where
  "delete_knowledge_base_index sha userName baseID = bindE (attempt_of IndexFailure) (\<lambda>_. modifies (\<lambda>w.
     if knowledge_index_name sha userName baseID \<in> set (kx_indexes w)
     then w\<lparr>kx_indexes := removeAll (knowledge_index_name sha userName baseID) (kx_indexes w),
       kx_keys := filter (\<lambda>k. \<not> starts_with (knowledge_key_prefix sha userName baseID) k) (kx_keys w)\<rparr>
     else w))"

definition index_exists :: "string \<Rightarrow> bool kx_call" where
  "index_exists name = bindE (attempt_of IndexFailure) (\<lambda>_. gets (\<lambda>w. name \<in> set (kx_indexes w)))"

definition ensure_knowledge_index :: "(string \<Rightarrow> string) \<Rightarrow> int \<Rightarrow> string \<Rightarrow> string \<Rightarrow> unit kx_call" where
  "ensure_knowledge_index sha dimension userName baseID = (let name = knowledge_index_name sha userName baseID in
     bindE (index_exists name) (\<lambda>there.
     if there then ret ()
     else bindE (guardE (0 < dimension) IndexFailure) (\<lambda>_. bindE ask (\<lambda>r. case r of
       Fine \<Rightarrow> modifies (\<lambda>w. w\<lparr>kx_indexes := List.insert name (kx_indexes w)\<rparr>)
     | Broken n \<Rightarrow> bindE (index_exists name) (\<lambda>there. guardE there IndexFailure)))))"

definition new_knowledge_base_indexer :: "(string \<Rightarrow> string) \<Rightarrow> int \<Rightarrow> string \<Rightarrow> string \<Rightarrow> unit kx_call" where
  "new_knowledge_base_indexer sha dimension userName baseID =
     bindE (guardE (trim_space userName \<noteq> [] \<and> trim_space baseID \<noteq> []) IndexFailure) (\<lambda>_.
     bindE (attempt_of IndexFailure) (\<lambda>_. ensure_knowledge_index sha dimension userName baseID))"

section \<open>Files and indexing\<close>

definition read_file :: "string \<Rightarrow> string kx_call" where
  "read_file path = bindE (attempt_of FileFailure) (\<lambda>_. bindE (gets (\<lambda>w. map_of (kx_files w) path)) (\<lambda>f.
     case f of None \<Rightarrow> fail FileFailure | Some content \<Rightarrow> ret content))"

text \<open>\<open>os.Remove\<close>, a missing file being no error to its callers.\<close>

definition remove_file :: "string \<Rightarrow> unit kx_call" where
  "remove_file path = bindE ask (\<lambda>r. bindE (gets (\<lambda>w. map_of (kx_files w) path)) (\<lambda>f.
     if f = None then ret ()
     else bindE (guardE (r = Fine) FileFailure) (\<lambda>_.
       modifies (\<lambda>w. w\<lparr>kx_files := filter (\<lambda>f. fst f \<noteq> path) (kx_files w)\<rparr>))))"

definition valid_utf8 :: "string \<Rightarrow> bool" where
  "valid_utf8 s \<longleftrightarrow> string_of_runes (runes s) = s"

definition default_options :: chunk_options where
  "default_options = \<lparr>co_max = 0, co_min = 0, co_overlap = 0\<rparr>"

text \<open>
  \<open>IndexFile\<close>: chunk the text, write a hash per chunk, then remove the hashes of the document that
  were there before and are not among them. With the default options the chunker always returns.
\<close>

definition index_file :: "(string \<Rightarrow> string) \<Rightarrow> string \<Rightarrow> string \<Rightarrow> string \<Rightarrow> string \<Rightarrow> int kx_call" where
  "index_file sha userName baseID docID path =
     bindE (read_file path) (\<lambda>content.
     bindE (guardE (valid_utf8 content) NoText) (\<lambda>_.
     case chunk_markdown sha docID content default_options of
       None \<Rightarrow> fail NoText
     | Some chunks \<Rightarrow>
         bindE (guardE (chunks \<noteq> []) NoText) (\<lambda>_.
         let p = document_prefix sha userName baseID docID; retained = map (\<lambda>c. p @ tc_id c) chunks in
         bindE (scan_keys p) (\<lambda>existing.
         bindE (store_hashes retained) (\<lambda>_.
         let stale = filter (\<lambda>k. k \<notin> set retained) existing in
         bindE (if stale \<noteq> [] then unlink stale else ret ()) (\<lambda>_. ret (int (length chunks))))))))"

section \<open>What these calls may do to the store\<close>

locale kx_relation = state_preorder R for R :: "kx_world \<Rightarrow> kx_world \<Rightarrow> bool" +
  assumes keeps_interfere: "keeps R interfere"
    and rest_kept: "R w (w\<lparr>kx_replies := rs\<rparr>)" "R w (w\<lparr>kx_keys := ks\<rparr>)"
      "R w (w\<lparr>kx_indexes := ns\<rparr>)" "R w (w\<lparr>kx_files := fs\<rparr>)" "R w (w\<lparr>kx_hints := hs\<rparr>)" "R w (w\<lparr>kx_started := b\<rparr>)"
      "R w (w\<lparr>kx_uuids := n\<rparr>)"
begin

lemma keeps_ask: "keeps R ask"
proof -
  have "keeps R (\<lambda>w. case kx_replies w of [] \<Rightarrow> (Inr Fine, w) | r # rs \<Rightarrow> (Inr r, w\<lparr>kx_replies := rs\<rparr>))"
    by (rule keepsI) (auto split: list.splits intro: R_refl rest_kept(1))
  then show ?thesis unfolding ask_def by (intro keeps_bindE keeps_interfere)
qed

lemma keeps_modifies: "(\<And>w. R w (f w)) \<Longrightarrow> keeps R (modifies f)"
  by (auto simp: keeps_def modifies_def)

lemma keeps_outcome: "(v = Fine \<Longrightarrow> keeps R m) \<Longrightarrow> (\<And>n. v = Broken n \<Longrightarrow> keeps R (f n)) \<Longrightarrow>
    keeps R (case v of Fine \<Rightarrow> m | Broken n \<Rightarrow> f n)"
  by (cases v) auto

lemmas kx_intros = keeps_intros keeps_ask keeps_interfere keeps_outcome

lemma keeps_key_changes:
  "keeps R (modifies (\<lambda>w. w\<lparr>kx_keys := f w\<rparr>))" "keeps R (modifies (\<lambda>w. w\<lparr>kx_indexes := g w\<rparr>))"
  "keeps R (modifies (\<lambda>w. w\<lparr>kx_files := h w\<rparr>))" "keeps R (modifies (\<lambda>w. if b w then w\<lparr>kx_indexes := g w, kx_keys := f w\<rparr> else w))"
  "keeps R (enqueue_index_task i)"
  unfolding enqueue_index_task_def
  by (auto intro!: keeps_modifies rest_kept R_refl intro: R_trans [OF rest_kept(3) rest_kept(2)])

lemma keeps_attempt: "keeps R (attempt_of e)"
  unfolding attempt_of_def by (intro kx_intros)

lemma keeps_index_calls:
  "keeps R (scan_keys p)" "keeps R (unlink ks)" "keeps R (store_hashes ks)" "keeps R (delete_knowledge_document_index sha u b d)"
  "keeps R (delete_knowledge_base_index sha u b)" "keeps R (ensure_knowledge_index sha dim u b)"
  "keeps R (new_knowledge_base_indexer sha dim u b)" "keeps R (read_file path)" "keeps R (remove_file path)"
  unfolding scan_keys_def unlink_def store_hashes_def delete_knowledge_document_index_def delete_knowledge_base_index_def
    ensure_knowledge_index_def new_knowledge_base_indexer_def read_file_def remove_file_def index_exists_def Let_def
  by (intro kx_intros keeps_attempt keeps_key_changes)+

lemma keeps_index_file: "keeps R (index_file sha u b d path)"
  unfolding index_file_def Let_def by (intro kx_intros keeps_index_calls)

end

definition stores_move :: "kx_world \<Rightarrow> kx_world \<Rightarrow> bool" where
  "stores_move w w' \<longleftrightarrow> moves_along (kx_store w) (kx_store w')"

lemma fold_events_move: "stores_move w (fold kx_event xs w)"
proof (induction xs arbitrary: w)
  case Nil
  show ?case by (simp add: stores_move_def life.R_refl)
next
  case (Cons x xs)
  have "stores_move w (kx_event x w)"
    using life.keeps_kb_exec by (cases x) (simp_all add: stores_move_def life.R_refl keeps_def)
  then show ?case using Cons.IH [of "kx_event x w"] life.R_trans by (auto simp: stores_move_def)
qed

interpretation moving: kx_relation stores_move
proof
  show "stores_move w w" for w by (simp add: stores_move_def life.R_refl)
  show "stores_move s u" if "stores_move s t" "stores_move t u" for s t u
    using that life.R_trans unfolding stores_move_def by blast
  show "keeps stores_move interfere"
  proof (rule keepsI)
    fix w t :: kx_world and r :: "kx_error + unit" assume "interfere w = (r, t)"
    then show "stores_move w t"
      using fold_events_move [of "w\<lparr>kx_others := tl (kx_others w)\<rparr>" "hd (kx_others w)"]
      by (cases "kx_others w") (auto simp: interfere_def modifies_def stores_move_def life.R_refl)
  qed
qed (simp_all add: stores_move_def life.R_refl)

lemma store_moves:
  assumes "keeps moves_along m"
  shows "keeps stores_move (store m)"
proof -
  have "keeps stores_move (\<lambda>w. case m (kx_store w) of (r, s) \<Rightarrow> (map_sum InStore id r, w\<lparr>kx_store := s\<rparr>))"
    using assms by (auto intro!: keepsI simp: stores_move_def dest: keepsD split: prod.splits)
  then show ?thesis unfolding store_def by (intro moving.keeps_bindE moving.keeps_interfere)
qed

end
