(* ===== verification/KbWorker.thy ===== *)
theory KbWorker
  imports KbIndex
begin

text \<open>
  \<open>src/service/knowledgebase/worker.go\<close>: the worker that indexes documents and carries out their
  deletion. The lock of a document orders the workers of one process; what other processes do
  between its calls is the schedule of the world. Goroutines and tickers are turns of a loop.
\<close>

section \<open>Constants\<close>

definition max_index_attempts :: nat where "max_index_attempts = 3"
definition a_minute :: int where "a_minute = 60 * 1000000000"
definition stale_task_age :: int where "stale_task_age = 10 * a_minute"
definition delete_retry_base :: int where "delete_retry_base = a_minute"
definition delete_retry_max :: int where "delete_retry_max = 30 * a_minute"

definition delete_failed_text :: string where
  "delete_failed_text = string_of_runes [21024, 38500, 25991, 26723, 22833, 36133, 65292, 35831, 31245, 21518, 37325, 35797]"

definition index_failed_text :: string where
  "index_failed_text = string_of_runes [32034, 24341, 22833, 36133, 65292, 35831, 26816, 26597, 32, 101, 109, 98, 101, 100, 100,
     105, 110, 103, 32, 26381, 21153, 37197, 32622, 25110, 31245, 21518, 37325, 35797]"

definition gone_text :: string where
  "gone_text = string_of_runes [30693, 35782, 24211, 25110, 25991, 26723, 24050, 19981, 23384, 22312]"

section \<open>One task\<close>

definition superseded :: kx_error where "superseded = InStore TaskSuperseded"

text \<open>A call whose superseded error is no error.\<close>

definition unless_superseded :: "unit kx_call \<Rightarrow> (kx_error \<Rightarrow> unit kx_call) \<Rightarrow> unit kx_call \<Rightarrow> unit kx_call" where
  "unless_superseded m onError next = bindE (tryE m) (\<lambda>r. case r of
     Inl e \<Rightarrow> if e \<noteq> superseded then onError e else next
   | Inr x \<Rightarrow> next)"

text \<open>The body of a deletion under the lock of the document.\<close>

definition delete_everything :: "(string \<Rightarrow> string) \<Rightarrow> index_task \<Rightarrow> unit kx_call" where
  "delete_everything sha t =
     bindE (store (get_document (it_user t) (it_base t) (it_document t))) (\<lambda>document.
     bindE (delete_knowledge_document_index sha (it_user t) (it_base t) (it_document t)) (\<lambda>_.
     bindE (remove_file (kd_storage_path document)) (\<lambda>_.
     store (complete_delete_task (it_id t) (it_document t) (it_attempts t)))))"

definition after_delete_error :: "index_task \<Rightarrow> kx_error \<Rightarrow> unit kx_call" where
  "after_delete_error t e =
     (if e = superseded then ret ()
      else if e = InStore DocumentLifecycleChanged then
        unless_superseded (store (requeue_delete_task (it_id t) (it_document t) ''retrying delete after document lifecycle conflict'' (it_attempts t)))
          (\<lambda>e'. fail (RepairFailed e')) (enqueue_index_task (it_id t))
      else
        unless_superseded (store (fail_delete_task (it_id t) (it_document t) delete_failed_text
            (it_attempts t < max_index_attempts \<and> e \<noteq> InStore KbNotFound) (it_attempts t)))
          (\<lambda>e'. fail (UpdateFailed e e')) (fail e))"

definition process_delete :: "(string \<Rightarrow> string) \<Rightarrow> index_task \<Rightarrow> unit kx_call" where
  "process_delete sha t = bindE (tryE (delete_everything sha t)) (\<lambda>r. case r of
     Inr x \<Rightarrow> ret () | Inl e \<Rightarrow> after_delete_error t e)"

text \<open>The body of an indexing run under the lock of the document.\<close>

definition index_everything :: "(string \<Rightarrow> string) \<Rightarrow> int \<Rightarrow> index_task \<Rightarrow> unit kx_call" where
  "index_everything sha dimension t =
     bindE (store (get_knowledge_base (it_user t) (it_base t))) (\<lambda>base.
     bindE (guardE (kb_state base = KbActive) SvcConflict) (\<lambda>_.
     bindE (store (get_document (it_user t) (it_base t) (it_document t))) (\<lambda>document.
     bindE (guardE (kd_status document \<noteq> DocDeleting) SvcConflict) (\<lambda>_.
     bindE (store (mark_document_indexing (kd_id document))) (\<lambda>_.
     bindE (new_knowledge_base_indexer sha dimension (it_user t) (it_base t)) (\<lambda>_.
     bindE (index_file sha (it_user t) (it_base t) (kd_id document) (kd_storage_path document)) (\<lambda>chunkCount.
     store (complete_index_task (it_id t) (kd_id document) chunkCount (it_attempts t)))))))))"

text \<open>Whether the hashes of the document are this task's to remove.\<close>

definition owns_cleanup :: "kx_error \<Rightarrow> kx_error + knowledge_document \<Rightarrow> bool" where
  "owns_cleanup e found = (case found of
     Inl e' \<Rightarrow> e' = InStore KbNotFound
   | Inr d \<Rightarrow> if kd_status d = DocDeleting then True else e = SvcConflict)"

definition after_superseded_index :: "(string \<Rightarrow> string) \<Rightarrow> index_task \<Rightarrow> kx_error \<Rightarrow> unit kx_call" where
  "after_superseded_index sha t e =
     bindE (tryE (store (get_document (it_user t) (it_base t) (it_document t)))) (\<lambda>found.
     bindE (if owns_cleanup e found
       then map_err CleanupFailed (delete_knowledge_document_index sha (it_user t) (it_base t) (it_document t)) else ret ()) (\<lambda>_.
     unless_superseded (store (cancel_index_task (it_id t) (it_attempts t) ''superseded by document lifecycle change''))
       fail (ret ())))"

definition after_index_error :: "(string \<Rightarrow> string) \<Rightarrow> index_task \<Rightarrow> kx_error \<Rightarrow> unit kx_call" where
  "after_index_error sha t e =
     (if e = superseded \<or> e = InStore DocumentLifecycleChanged \<or> e = SvcConflict then after_superseded_index sha t e
      else
        unless_superseded (store (fail_index_task (it_id t) (it_document t)
            (if e = InStore KbNotFound \<or> e = SvcNotFound then gone_text else index_failed_text)
            (it_attempts t < max_index_attempts \<and> e \<noteq> SvcConflict \<and> e \<noteq> InStore KbNotFound) (it_attempts t)))
          (\<lambda>e'. fail (UpdateFailed e e')) (fail e))"

definition process_index :: "(string \<Rightarrow> string) \<Rightarrow> int \<Rightarrow> index_task \<Rightarrow> unit kx_call" where
  "process_index sha dimension t = bindE (tryE (index_everything sha dimension t)) (\<lambda>r. case r of
     Inr x \<Rightarrow> ret () | Inl e \<Rightarrow> after_index_error sha t e)"

definition process_index_task_now :: "(string \<Rightarrow> string) \<Rightarrow> int \<Rightarrow> string \<Rightarrow> unit kx_call" where
  "process_index_task_now sha dimension i =
     bindE (store (claim_itask i)) (\<lambda>claimed. case claimed of
       None \<Rightarrow> bindE (store (get_index_task_by_id i)) (\<lambda>current.
         guardE (it_status current = ItSucceeded) (TaskIs (it_status current)))
     | Some t \<Rightarrow> if it_type t = DeleteWork then process_delete sha t else process_index sha dimension t)"

section \<open>Retrying deletions\<close>

text \<open>The loop of \<open>deleteRetryDelay\<close>; a larger number of attempts ends it at the maximum.\<close>

function delay_loop :: "nat \<Rightarrow> nat \<Rightarrow> int \<Rightarrow> int" where
  "delay_loop attempts retry delay =
     (if retry < attempts \<and> delay < delete_retry_max then delay_loop attempts (Suc retry) (delay * 2) else delay)"
  by pat_completeness auto
termination by (relation "measure (\<lambda>(attempts, retry, delay). attempts - retry)") auto

definition delete_retry_delay :: "nat \<Rightarrow> int" where
  "delete_retry_delay attempts =
     (if attempts < 1 then delete_retry_base
      else let delay = delay_loop attempts 1 delete_retry_base
        in if delete_retry_max < delay then delete_retry_max else delay)"

fun requeue_each :: "time \<Rightarrow> index_task list \<Rightarrow> unit kx_call" where
  "requeue_each now [] = ret ()"
| "requeue_each now (t # ts) =
     (if now < it_updated_at t + delete_retry_delay (it_attempts t) then requeue_each now ts
      else bindE (tryE (store (requeue_failed_delete_task (it_id t)))) (\<lambda>r. case r of
        Inl e \<Rightarrow> if e = InStore DocumentLifecycleChanged then requeue_each now ts else fail e
      | Inr requeued \<Rightarrow> bindE (if requeued then enqueue_index_task (it_id t) else ret ()) (\<lambda>_. requeue_each now ts)))"

definition requeue_failed_delete_tasks :: "time \<Rightarrow> unit kx_call" where
  "requeue_failed_delete_tasks now = bindE (store (list_failed_delete_tasks 20)) (requeue_each now)"

section \<open>The loop\<close>

datatype kx_turn = HintReceived | PollTick | RecoveryTick

text \<open>An error is logged.\<close>

definition logged :: "'a kx_call \<Rightarrow> unit kx_call" where
  "logged m = bindE (tryE m) (\<lambda>_. ret ())"

fun process_each :: "(string \<Rightarrow> string) \<Rightarrow> int \<Rightarrow> index_task list \<Rightarrow> unit kx_call" where
  "process_each sha dimension [] = ret ()"
| "process_each sha dimension (t # ts) = bindE (logged (process_index_task_now sha dimension (it_id t))) (\<lambda>_. process_each sha dimension ts)"

fun worker_step :: "(string \<Rightarrow> string) \<Rightarrow> int \<Rightarrow> kx_turn \<Rightarrow> unit kx_call" where
  "worker_step sha dimension HintReceived = bindE (gets kx_hints) (\<lambda>hints. case hints of
     [] \<Rightarrow> ret ()
   | i # rest \<Rightarrow> bindE (modifies (\<lambda>w. w\<lparr>kx_hints := rest\<rparr>)) (\<lambda>_. logged (process_index_task_now sha dimension i)))"
| "worker_step sha dimension PollTick = logged (bindE (store (list_pending_tasks 10)) (process_each sha dimension))"
| "worker_step sha dimension RecoveryTick =
     bindE (gets (kw_clock \<circ> kx_store)) (\<lambda>now.
     bindE (logged (store (recover_stale_itasks (now - stale_task_age)))) (\<lambda>_.
     bindE (gets (kw_clock \<circ> kx_store)) (\<lambda>now. logged (requeue_failed_delete_tasks now))))"

fun run_index_worker :: "(string \<Rightarrow> string) \<Rightarrow> int \<Rightarrow> kx_turn list \<Rightarrow> unit kx_call" where
  "run_index_worker sha dimension [] = ret ()"
| "run_index_worker sha dimension (x # xs) = bindE (worker_step sha dimension x) (\<lambda>_. run_index_worker sha dimension xs)"

definition start_index_worker :: "unit kx_call" where
  "start_index_worker = bindE (gets kx_started) (\<lambda>started.
     if started then ret ()
     else bindE (store (list_pending_tasks 1)) (\<lambda>_.
       bindE (gets (kw_clock \<circ> kx_store)) (\<lambda>now.
       bindE (store (recover_stale_itasks (now - stale_task_age))) (\<lambda>_.
       modifies (\<lambda>w. w\<lparr>kx_started := True\<rparr>)))))"

declare delay_loop.simps [simp del]

section \<open>The worker moves rows along their machines\<close>

lemma store_ops_move:
  "keeps moves_along (claim_itask i)" "keeps moves_along (get_index_task_by_id i)" "keeps moves_along (get_document u b d)"
  "keeps moves_along (get_knowledge_base u b)" "keeps moves_along (mark_document_indexing d)"
  "keeps moves_along (complete_index_task i d c n)" "keeps moves_along (fail_index_task i d m r n)"
  "keeps moves_along (cancel_index_task i n m)" "keeps moves_along (complete_delete_task i d n)"
  "keeps moves_along (fail_delete_task i d m r n)" "keeps moves_along (requeue_delete_task i d m n)"
  "keeps moves_along (requeue_failed_delete_task i)" "keeps moves_along (list_failed_delete_tasks k)"
  "keeps moves_along (list_pending_tasks k)" "keeps moves_along (recover_stale_itasks before)"
  by (rule life.keeps_claim_itask life.keeps_kb_queries life.keeps_kb_bases life.keeps_index_work life.keeps_delete_work
      life.keeps_requeue_failed_delete_task life.keeps_recover_stale_itasks)+

lemmas worker_intros = moving.kx_intros moving.keeps_index_calls moving.keeps_index_file moving.keeps_key_changes
  store_moves store_ops_move

lemma unless_superseded_moves:
  "keeps stores_move m \<Longrightarrow> (\<And>e. keeps stores_move (f e)) \<Longrightarrow> keeps stores_move n \<Longrightarrow> keeps stores_move (unless_superseded m f n)"
  unfolding unless_superseded_def by (intro worker_intros)

lemma process_moves: "keeps stores_move (process_index_task_now sha dimension i)"
  unfolding process_index_task_now_def process_delete_def process_index_def delete_everything_def index_everything_def
    after_delete_error_def after_index_error_def after_superseded_index_def
  by (intro worker_intros unless_superseded_moves)

lemma logged_moves: "keeps stores_move m \<Longrightarrow> keeps stores_move (logged m)"
  unfolding logged_def by (intro worker_intros)

lemma process_each_moves: "keeps stores_move (process_each sha dimension ts)"
  by (induction ts) (auto intro!: worker_intros logged_moves process_moves)

lemma requeue_each_moves: "keeps stores_move (requeue_each now ts)"
proof (induction ts)
  case (Cons t ts)
  show ?case unfolding requeue_each.simps by (intro worker_intros Cons.IH)
qed (simp add: moving.keeps_ret)

lemma worker_step_moves: "keeps stores_move (worker_step sha dimension x)"
proof (cases x)
  case HintReceived
  have "keeps stores_move (modifies (\<lambda>w. w\<lparr>kx_hints := rest\<rparr>))" for rest
    by (rule moving.keeps_modifies) (rule moving.rest_kept)
  then show ?thesis unfolding HintReceived worker_step.simps by (intro worker_intros logged_moves process_moves)
next
  case PollTick
  show ?thesis unfolding PollTick worker_step.simps by (intro worker_intros logged_moves process_each_moves)
next
  case RecoveryTick
  show ?thesis unfolding RecoveryTick worker_step.simps requeue_failed_delete_tasks_def
    by (intro worker_intros logged_moves requeue_each_moves)
qed

lemma run_index_worker_moves: "keeps stores_move (run_index_worker sha dimension xs)"
proof (induction xs)
  case (Cons x xs)
  show ?case unfolding run_index_worker.simps by (intro worker_intros worker_step_moves Cons.IH)
qed (simp add: moving.keeps_ret)

end
