(* ===== verification/KbFencing.thy ===== *)
theory KbFencing
  imports KbSafety
begin

text \<open>
  The fence of a task's attempts: what a worker that settles the work of an attempt can and cannot
  do, and what its settling leaves behind.
\<close>

section \<open>Settling\<close>

datatype settlement = IndexDone int | IndexFailed string bool | IndexCancelled string
  | DeleteDone | DeleteFailed string bool | DeleteRequeued string

fun settle :: "settlement \<Rightarrow> string \<Rightarrow> string \<Rightarrow> nat \<Rightarrow> unit kb_call" where
  "settle (IndexDone c) i d n = complete_index_task i d c n"
| "settle (IndexFailed m retry) i d n = fail_index_task i d m retry n"
| "settle (IndexCancelled m) i d n = cancel_index_task i n m"
| "settle DeleteDone i d n = complete_delete_task i d n"
| "settle (DeleteFailed m retry) i d n = fail_delete_task i d m retry n"
| "settle (DeleteRequeued m) i d n = requeue_delete_task i d m n"

fun settled_kind :: "settlement \<Rightarrow> itask_type" where
  "settled_kind (IndexDone c) = IndexWork"
| "settled_kind (IndexFailed m retry) = IndexWork"
| "settled_kind (IndexCancelled m) = IndexWork"
| "settled_kind DeleteDone = DeleteWork"
| "settled_kind (DeleteFailed m retry) = DeleteWork"
| "settled_kind (DeleteRequeued m) = DeleteWork"

fun settled_status :: "settlement \<Rightarrow> itask_status" where
  "settled_status (IndexDone c) = ItSucceeded"
| "settled_status (IndexFailed m retry) = (if retry then ItPending else ItFailed)"
| "settled_status (IndexCancelled m) = ItCancelled"
| "settled_status DeleteDone = ItSucceeded"
| "settled_status (DeleteFailed m retry) = (if retry then ItPending else ItFailed)"
| "settled_status (DeleteRequeued m) = ItPending"

text \<open>What the document must be for the settlement, and what it is after it.\<close>

fun document_before :: "settlement \<Rightarrow> doc_status \<Rightarrow> bool" where
  "document_before (IndexDone c) st \<longleftrightarrow> st = DocIndexing"
| "document_before (IndexFailed m retry) st \<longleftrightarrow> st = DocIndexing"
| "document_before (IndexCancelled m) st \<longleftrightarrow> True"
| "document_before DeleteDone st \<longleftrightarrow> st = DocDeleting"
| "document_before (DeleteFailed m retry) st \<longleftrightarrow> st = DocDeleting"
| "document_before (DeleteRequeued m) st \<longleftrightarrow> True"

fun document_after :: "settlement \<Rightarrow> doc_status \<Rightarrow> doc_phase" where
  "document_after (IndexDone c) st = Live DocReady"
| "document_after (IndexFailed m retry) st = Live (if retry then DocPending else DocFailed)"
| "document_after (IndexCancelled m) st = Live st"
| "document_after DeleteDone st = Removed"
| "document_after (DeleteFailed m retry) st = Live DocDeleting"
| "document_after (DeleteRequeued m) st = Live DocDeleting"

section \<open>Without the attempt nothing happens\<close>

interpretation tasks_kept: kb_relation "\<lambda>s t. kw_tasks s = kw_tasks t"
  by unfold_locales (auto simp: kb_tables_def)

lemma docs_keep_tasks:
  "keeps (\<lambda>s t. kw_tasks s = kw_tasks t) (update_docs P f)" "keeps (\<lambda>s t. kw_tasks s = kw_tasks t) (delete_docs P)"
  unfolding update_docs_def delete_docs_def Let_def
  by (intro tasks_kept.keeps_kb_statement; simp add: keeps_def)+

definition demands :: "(index_task \<Rightarrow> bool) \<Rightarrow> 'a kb_call \<Rightarrow> bool" where
  "demands P m \<longleftrightarrow> (\<forall>w x w'. m w = (Inr x, w') \<longrightarrow> (\<exists>t \<in> set (kw_tasks w). P t))"

definition undone :: "'a kb_call \<Rightarrow> bool" where
  "undone m \<longleftrightarrow> (\<forall>w e w'. m w = (Inl e, w') \<longrightarrow> kb_tables w' = kb_tables w)"

lemma demands_bindE:
  assumes "keeps (\<lambda>s t. kw_tasks s = kw_tasks t) m" and "\<And>x. demands P (f x)"
  shows "demands P (bindE m f)"
  unfolding demands_def
proof (intro allI impI)
  fix w x w' assume "bindE m f w = (Inr x, w')"
  then obtain y u where "m w = (Inr y, u)" "f y u = (Inr x, w')" by (rule bindE_InrE)
  then show "\<exists>t\<in>set (kw_tasks w). P t" using assms keepsD [OF assms(1)] by (fastforce simp: demands_def)
qed

lemma kb_statement_InrE:
  assumes "kb_statement body w = (Inr x, w')"
  obtains fs where "body (w\<lparr>kw_faults := fs\<rparr>) = (Inr x, w')"
proof (cases "kw_faults w")
  case Nil
  then have "body (w\<lparr>kw_faults := []\<rparr>) = (Inr x, w')" using assms by (simp add: kb_statement_def) (metis kb_world.surjective kb_world.update_convs(6))
  then show ?thesis by (rule that)
next
  case (Cons f fs)
  then show ?thesis using assms that by (cases f) (auto simp: kb_statement_def)
qed

lemma demands_transaction:
  assumes "demands P m"
  shows "demands P (kb_transaction m)"
  unfolding demands_def
proof (intro allI impI)
  fix w x w' assume "kb_transaction m w = (Inr x, w')"
  then obtain u where "bindE (kb_statement (ret ())) (\<lambda>_. bindE m (\<lambda>x. bindE (kb_statement (ret ())) (\<lambda>_. ret x))) w = (Inr x, u)"
    by (auto simp: kb_transaction_def split: prod.splits sum.splits)
  then obtain y v z where b: "kb_statement (ret ()) w = (Inr y, v)" and m: "m v = (Inr x, z)"
    by (auto elim!: bindE_InrE)
  from b have "kw_tasks v = kw_tasks w" by (auto elim!: kb_statement_InrE)
  then show "\<exists>t\<in>set (kw_tasks w). P t" using assms m unfolding demands_def by metis
qed

lemma demands_update_owned: "demands (owned_attempt i k n) (update_owned i k n f)"
  unfolding demands_def update_owned_def update_itasks_def
  using count_where_0 [of "owned_attempt i k n"]
  by (auto elim!: bindE_InrE kb_statement_InrE) (metis neq0_conv)

lemma undone_transaction: "undone (kb_transaction m)"
  by (auto simp: undone_def kb_transaction_def kb_tables_def split: prod.splits sum.splits)

lemma undone_update_owned: "undone (update_owned i k n f)"
  unfolding undone_def update_owned_def update_itasks_def kb_statement_def
  by (auto simp: bindE_def kb_tables_def guardE_def fail_def ret_def update_where_none
      split: list.splits option.splits if_splits)

lemma undone_prefix: "(\<And>now. undone (m now)) \<Longrightarrow> undone (bindE kb_database (\<lambda>_. bindE kb_now m))"
  "undone m' \<Longrightarrow> undone (bindE kb_database (\<lambda>_. m'))"
  by (auto simp: undone_def kb_database_def kb_now_def call_eval bindE_assoc split: if_splits)

lemma undone_settle: "undone (settle s i d n)"
  by (cases s) (simp_all add: complete_index_task_def fail_index_task_def cancel_index_task_def complete_delete_task_def
      fail_delete_task_def requeue_delete_task_def Let_def undone_prefix undone_transaction undone_update_owned)

lemmas demands_intros = demands_bindE demands_transaction demands_update_owned tasks_kept.keeps_kb_reads
  tasks_kept.keeps_guardE docs_keep_tasks

lemma demands_settle: "demands (owned_attempt i (settled_kind s) n) (settle s i d n)"
  by (cases s) (simp_all only: settle.simps settled_kind.simps, simp_all only: complete_index_task_def fail_index_task_def cancel_index_task_def complete_delete_task_def
      fail_delete_task_def requeue_delete_task_def Let_def, (intro demands_intros)+)

text \<open>C28: A worker whose attempt is no longer the running one (the task was recovered, claimed again,
  settled or removed) settles nothing: whatever it reports, it gets an error and no row changes.\<close>

theorem stale_attempt_rejected:
  assumes "\<not> list_ex (owned_attempt i (settled_kind s) n) (kw_tasks w)"
  shows "\<exists>e w'. settle s i d n w = (Inl e, w') \<and> kb_tables w' = kb_tables w"
proof (cases "settle s i d n w")
  case (Pair r w')
  show ?thesis
  proof (cases r)
    case (Inl e)
    then show ?thesis using Pair undone_settle by (auto simp: undone_def)
  next
    case (Inr x)
    then show ?thesis using Pair demands_settle assms by (fastforce simp: demands_def list_ex_iff)
  qed
qed

section \<open>With the attempt, on a healthy database, everything does\<close>

definition kb_healthy :: "kb_world \<Rightarrow> bool" where
  "kb_healthy w \<longleftrightarrow> kw_connected w \<and> kw_faults w = []"

lemma statement_healthy_kb: "kw_faults w = [] \<Longrightarrow> kb_statement body w = body w"
  by (simp add: kb_statement_def)

lemma transaction_healthy_kb:
  assumes "kw_faults w = []" and "m w = (Inr x, w')" and "kw_faults w' = []"
  shows "kb_transaction m w = (Inr x, w')"
  using assms by (simp add: kb_transaction_def bindE_def statement_healthy_kb ret_def)

text \<open>One healthy call at a time.\<close>

lemma healthy_steps:
  assumes "kb_healthy w"
  shows "bindE kb_database f w = f () w" "bindE kb_now g w = g (kw_clock w) w"
    "bindE (kb_select q) h w = h (q w) w"
    "q' w = Some x \<Longrightarrow> bindE (first_or e q') h' w = h' x w"
    "q' w = Some x \<Longrightarrow> bindE (kb_first q') h' w = h' x w"
    "bindE (update_docs P fd) k w = k (count_where (\<lambda>d. live_doc d \<and> P d) (kw_docs w))
       (w\<lparr>kw_docs := update_where (\<lambda>d. live_doc d \<and> P d) (\<lambda>d. (fd d)\<lparr>kd_updated_at := kw_clock w\<rparr>) (kw_docs w)\<rparr>)"
    "bindE (delete_docs P) k w = k (count_where (\<lambda>d. live_doc d \<and> P d) (kw_docs w))
       (w\<lparr>kw_docs := update_where (\<lambda>d. live_doc d \<and> P d) (\<lambda>d. d\<lparr>kd_deleted_at := Some (kw_clock w)\<rparr>) (kw_docs w)\<rparr>)"
    "bindE (update_itasks Q ft) k w = k (count_where Q (kw_tasks w))
       (w\<lparr>kw_tasks := update_where Q (\<lambda>t. (ft t)\<lparr>it_updated_at := kw_clock w\<rparr>) (kw_tasks w)\<rparr>)"
  using assms
  by (simp_all add: kb_healthy_def kb_database_def kb_now_def kb_select_def kb_first_def first_or_def update_docs_def
      delete_docs_def update_itasks_def statement_healthy_kb monad_defs Let_def)

lemma count_where_pos: "r \<in> set rs \<Longrightarrow> P r \<Longrightarrow> 0 < count_where P rs"
  by (auto simp: count_where_def filter_empty_conv)

lemma phase_of_member:
  "kb_wf w \<Longrightarrow> t \<in> set (kw_tasks w) \<Longrightarrow> task_phase (it_id t) w = phase_of_task t"
  "kb_wf w \<Longrightarrow> d \<in> set (kw_docs w) \<Longrightarrow> doc_phase (kd_id d) w = phase_of_doc d"
  by (simp_all add: kb_wf_def task_phase_def doc_phase_def find_key_unique [of it_id] find_key_unique [of kd_id])

lemma find_key_update:
  assumes "distinct (map k rs)" "r \<in> set rs" "\<And>r. k (f r) = k r"
  shows "find (\<lambda>x. k x = k r) (update_where P f rs) = Some (if P r then f r else r)"
  using find_key_unique [OF assms(1,2)] by (simp add: find_update_where assms(3))

lemma settled_task_row:
  assumes "kb_wf w" "kb_healthy w" "t \<in> set (kw_tasks w)" "owned_attempt i k n t" "settles f"
  shows "\<exists>w'. update_owned i k n f w = (Inr (), w') \<and> task_phase i w' = Queued k (it_status (f t)) n \<and>
     kw_docs w' = kw_docs w \<and> kw_faults w' = [] \<and> kb_healthy w' \<and> kb_wf w'"
proof -
  have t: "it_id t = i" "it_type t = k" "it_attempts t = n" using assms(4) by (simp_all add: owned_attempt_def)
  have f: "it_id (f t) = it_id t" "it_type (f t) = it_type t" "it_attempts (f t) = it_attempts t" for t :: index_task
    using assms(5) by (simp_all add: settles_def)
  let ?f = "\<lambda>t. (f t)\<lparr>it_updated_at := kw_clock w\<rparr>"
  let ?w = "w\<lparr>kw_tasks := update_where (owned_attempt i k n) ?f (kw_tasks w)\<rparr>"
  have "update_owned i k n f w = (Inr (), ?w)"
    using count_where_pos [where P = "owned_attempt i k n", OF assms(3,4)] by (simp add: update_owned_def healthy_steps [OF assms(2)] guard_eval)
  moreover have "task_phase i ?w = Queued k (it_status (f t)) n"
    using assms(1,4) find_key_update [of it_id "kw_tasks w" t ?f "owned_attempt i k n"] assms(3) f t
    by (simp add: task_phase_def kb_wf_def phase_of_task_def)
  moreover have "kb_wf ?w" using assms(1) f(1) by (simp add: kb_wf_def map_update_where)
  ultimately show ?thesis using assms(2) by (auto simp: kb_healthy_def)
qed

lemma doc_row_written:
  assumes "kb_wf w" "d \<in> set (kw_docs w)" "live_doc d \<and> P d" "\<And>d. kd_id (f d) = kd_id d"
  shows "doc_phase (kd_id d) (w\<lparr>kw_docs := update_where (\<lambda>d. live_doc d \<and> P d) f (kw_docs w)\<rparr>) = phase_of_doc (f d)"
    "kb_wf (w\<lparr>kw_docs := update_where (\<lambda>d. live_doc d \<and> P d) f (kw_docs w)\<rparr>)"
  using assms find_key_update [of kd_id "kw_docs w" d f "\<lambda>d. live_doc d \<and> P d"]
  by (simp_all add: doc_phase_def kb_wf_def map_update_where)

lemma document_and_task_settled:
  assumes "kb_wf w" "kb_healthy w" "t \<in> set (kw_tasks w)" "owned_attempt i k n t" "settles f"
    and "d \<in> set (kw_docs w)" "live_doc d" "P d" "\<And>d. kd_id (g d) = kd_id d"
    and body: "m w = update_owned i k n f (w\<lparr>kw_docs := update_where (\<lambda>d. live_doc d \<and> P d) g (kw_docs w)\<rparr>)"
  shows "\<exists>w'. kb_transaction m w = (Inr (), w') \<and> task_phase i w' = Queued k (it_status (f t)) n \<and>
     doc_phase (kd_id d) w' = phase_of_doc (g d)"
proof -
  let ?u = "w\<lparr>kw_docs := update_where (\<lambda>d. live_doc d \<and> P d) g (kw_docs w)\<rparr>"
  have row: "doc_phase (kd_id d) ?u = phase_of_doc (g d)" "kb_wf ?u"
    using doc_row_written [of w d P g] assms by simp_all
  have "kb_healthy ?u" "t \<in> set (kw_tasks ?u)" using assms(2,3) by (simp_all add: kb_healthy_def)
  then obtain w' where w': "update_owned i k n f ?u = (Inr (), w')" "task_phase i w' = Queued k (it_status (f t)) n"
      "kw_docs w' = kw_docs ?u" "kw_faults w' = []"
    using settled_task_row [OF row(2) _ _ assms(4,5)] by blast
  then have "kb_transaction m w = (Inr (), w')"
    using assms(2) body by (intro transaction_healthy_kb) (simp_all add: kb_healthy_def)
  moreover have "doc_phase (kd_id d) w' = phase_of_doc (g d)" using row(1) w'(3) by (simp add: doc_phase_def)
  ultimately show ?thesis using w'(2) by blast
qed

lemma found: "x \<in> set xs \<Longrightarrow> P x \<Longrightarrow> \<exists>y. find P xs = Some y"
  by (induction xs) auto

lemma live_phase: "live_doc d \<Longrightarrow> phase_of_doc d = Live (kd_status d)"
  by (simp add: phase_of_doc_def)

lemma guarded_settlement:
  assumes "kb_wf w" "kb_healthy w" "t \<in> set (kw_tasks w)" "owned_attempt i k n t" "settles f"
    and "d \<in> set (kw_docs w)" "live_doc d" "P d" "it_status (f t) = st"
    and "\<And>d. kd_id (fd d) = kd_id d" "phase_of_doc (fd d) = ph"
  shows "\<exists>w'. kb_transaction (bindE (update_docs P fd) (\<lambda>c. bindE (guardE (c \<noteq> 0) e) (\<lambda>_. update_owned i k n f))) w = (Inr (), w') \<and>
        task_phase i w' = Queued k st n \<and> doc_phase (kd_id d) w' = ph"
proof -
  have c: "0 < count_where (\<lambda>d. live_doc d \<and> P d) (kw_docs w)"
    using count_where_pos [where P = "\<lambda>d. live_doc d \<and> P d"] assms(6-8) by blast
  have body: "(bindE (update_docs P fd) (\<lambda>c. bindE (guardE (c \<noteq> 0) e) (\<lambda>_. update_owned i k n f))) w = update_owned i k n f
      (w\<lparr>kw_docs := update_where (\<lambda>d. live_doc d \<and> P d) (\<lambda>d. (fd d)\<lparr>kd_updated_at := kw_clock w\<rparr>) (kw_docs w)\<rparr>)"
    using c by (simp add: healthy_steps [OF assms(2)] bind_guard_eval)
  have ph: "phase_of_doc ((fd d)\<lparr>kd_updated_at := kw_clock w\<rparr>) = ph"
    using assms(11) by (simp add: phase_of_doc_def live_doc_def split: if_splits)
  show ?thesis
    using document_and_task_settled [of w t i k n f d P "\<lambda>d. (fd d)\<lparr>kd_updated_at := kw_clock w\<rparr>"
      "bindE (update_docs P fd) (\<lambda>c. bindE (guardE (c \<noteq> 0) e) (\<lambda>_. update_owned i k n f))", OF assms(1-8) _ body] assms(9,10) ph by simp
qed

lemma removing_settlement:
  assumes "kb_wf w" "kb_healthy w" "t \<in> set (kw_tasks w)" "owned_attempt i k n t" "settles f"
    and "d \<in> set (kw_docs w)" "live_doc d" "P d" "it_status (f t) = st"
  shows "\<exists>w'. kb_transaction (bindE (delete_docs P) (\<lambda>c. bindE (guardE (c \<noteq> 0) e) (\<lambda>_. update_owned i k n f))) w = (Inr (), w') \<and>
        task_phase i w' = Queued k st n \<and> doc_phase (kd_id d) w' = Removed"
proof -
  have c: "0 < count_where (\<lambda>d. live_doc d \<and> P d) (kw_docs w)"
    using count_where_pos [where P = "\<lambda>d. live_doc d \<and> P d"] assms(6-8) by blast
  have body: "(bindE (delete_docs P) (\<lambda>c. bindE (guardE (c \<noteq> 0) e) (\<lambda>_. update_owned i k n f))) w = update_owned i k n f
      (w\<lparr>kw_docs := update_where (\<lambda>d. live_doc d \<and> P d) (\<lambda>d. d\<lparr>kd_deleted_at := Some (kw_clock w)\<rparr>) (kw_docs w)\<rparr>)"
    using c by (simp add: healthy_steps [OF assms(2)] bind_guard_eval)
  have ph: "phase_of_doc (d\<lparr>kd_deleted_at := Some (kw_clock w)\<rparr>) = Removed"
    by (simp add: phase_of_doc_def live_doc_def)
  show ?thesis
    using document_and_task_settled [of w t i k n f d P "\<lambda>d. d\<lparr>kd_deleted_at := Some (kw_clock w)\<rparr>"
      "bindE (delete_docs P) (\<lambda>c. bindE (guardE (c \<noteq> 0) e) (\<lambda>_. update_owned i k n f))", OF assms(1-8) _ body] assms(9) ph by simp
qed

lemma read_settlement:
  assumes "kb_wf w" "kb_healthy w" "t \<in> set (kw_tasks w)" "owned_attempt i k n t" "settles f"
    and "d \<in> set (kw_docs w)" "live_doc d" "kd_id d = j" "it_status (f t) = st" "Q d"
  shows "\<exists>w'. kb_transaction (bindE (first_or e (\<lambda>w. find (\<lambda>d. live_doc d \<and> Q d) (kw_docs w))) (\<lambda>_.
        bindE (update_docs (\<lambda>d. kd_id d = j) (\<lambda>d. d\<lparr>kd_status := ds, kd_error := m\<rparr>)) (\<lambda>_. update_owned i k n f))) w = (Inr (), w') \<and>
        task_phase i w' = Queued k st n \<and> doc_phase j w' = Live ds" (is "?doc")
    and "\<exists>w'. kb_transaction (bindE (first_or e' (\<lambda>w. find (owned_attempt i k n) (kw_tasks w))) (\<lambda>_.
        bindE (first_or e (\<lambda>w. find (\<lambda>d. live_doc d \<and> Q d) (kw_docs w))) (\<lambda>_.
        bindE (update_docs (\<lambda>d. kd_id d = j) (\<lambda>d. d\<lparr>kd_status := ds, kd_error := m\<rparr>)) (\<lambda>_. update_owned i k n f)))) w = (Inr (), w') \<and>
        task_phase i w' = Queued k st n \<and> doc_phase j w' = Live ds" (is "?both")
proof -
  note settled = document_and_task_settled [of w t i k n f d "\<lambda>d. kd_id d = j"
      "\<lambda>d. d\<lparr>kd_status := ds, kd_error := m, kd_updated_at := kw_clock w\<rparr>", OF assms(1-8)]
  obtain d' where d': "find (\<lambda>d. live_doc d \<and> Q d) (kw_docs w) = Some d'"
    using found [OF assms(6), of "\<lambda>d. live_doc d \<and> Q d"] assms(7,10) by auto
  obtain t' where t': "find (owned_attempt i k n) (kw_tasks w) = Some t'"
    using found [OF assms(3), of "owned_attempt i k n"] assms(4) by auto
  let ?m = "bindE (first_or e (\<lambda>w. find (\<lambda>d. live_doc d \<and> Q d) (kw_docs w))) (\<lambda>_.
        bindE (update_docs (\<lambda>d. kd_id d = j) (\<lambda>d. d\<lparr>kd_status := ds, kd_error := m\<rparr>)) (\<lambda>_. update_owned i k n f))"
  let ?m' = "bindE (first_or e' (\<lambda>w. find (owned_attempt i k n) (kw_tasks w))) (\<lambda>_. ?m)"
  have m: "?m w = update_owned i k n f (w\<lparr>kw_docs := update_where (\<lambda>d. live_doc d \<and> kd_id d = j)
      (\<lambda>d. d\<lparr>kd_status := ds, kd_error := m, kd_updated_at := kw_clock w\<rparr>) (kw_docs w)\<rparr>)" "?m' w = ?m w"
    using d' t' by (simp_all add: healthy_steps [OF assms(2)])
  show ?doc using settled [of ?m] m assms(7-9) by (simp add: phase_of_doc_def live_doc_def)
  show ?both using settled [of ?m'] m assms(7-9) by (simp add: phase_of_doc_def live_doc_def)
qed

text \<open>The settlement of an attempt that does not touch the document.\<close>

lemma cancelled_settlement:
  assumes "kb_wf w" "kb_healthy w" "t \<in> set (kw_tasks w)" "owned_attempt i IndexWork n t"
  shows "\<exists>w'. cancel_index_task i n m w = (Inr (), w') \<and> task_phase i w' = Queued IndexWork ItCancelled n \<and> doc_phase j w' = doc_phase j w"
  using settled_task_row [OF assms, of "\<lambda>t. t\<lparr>it_status := ItCancelled, it_finished_at := Some (kw_clock w), it_error := m\<rparr>"]
  by (auto simp: cancel_index_task_def healthy_steps [OF assms(2)] settles_def doc_phase_def)

lemma attempt_settles:
  assumes "kb_wf w" "kb_healthy w" "t \<in> set (kw_tasks w)" "owned_attempt i (settled_kind s) n t"
    and "d \<in> set (kw_docs w)" "live_doc d" "document_before s (kd_status d)"
  shows "\<exists>w'. settle s i (kd_id d) n w = (Inr (), w') \<and> task_phase i w' = Queued (settled_kind s) (settled_status s) n \<and>
     doc_phase (kd_id d) w' = document_after s (kd_status d)"
proof -
  note unfold = healthy_steps(1,2) [OF assms(2)] Let_def
  have live: "phase_of_doc d = Live (kd_status d)" by (rule live_phase [OF assms(6)])
  show ?thesis
  proof (cases s)
    case (IndexDone c)
    show ?thesis using assms(4,6,7) unfolding IndexDone settle.simps settled_kind.simps settled_status.simps document_after.simps
        complete_index_task_def unfold
      by (intro guarded_settlement [OF assms(1-3) _ _ assms(5,6)]) (simp_all add: settles_def phase_of_doc_def live_doc_def)
  next
    case (IndexFailed m r)
    show ?thesis using assms(4,6,7) unfolding IndexFailed settle.simps settled_kind.simps settled_status.simps document_after.simps
        fail_index_task_def unfold
      by (intro guarded_settlement [OF assms(1-3) _ _ assms(5,6)]) (simp_all add: settles_def phase_of_doc_def live_doc_def)
  next
    case (IndexCancelled m)
    then show ?thesis using cancelled_settlement [OF assms(1-3), of i n m "kd_id d"] assms(4) phase_of_member(2) [OF assms(1,5)] live by auto
  next
    case DeleteDone
    show ?thesis using assms(4,6,7) unfolding DeleteDone settle.simps settled_kind.simps settled_status.simps document_after.simps
        complete_delete_task_def unfold
      by (intro removing_settlement [OF assms(1-3) _ _ assms(5,6)]) (simp_all add: settles_def)
  next
    case (DeleteFailed m r)
    show ?thesis using assms(4,6,7) unfolding DeleteFailed settle.simps settled_kind.simps settled_status.simps document_after.simps
        fail_delete_task_def unfold
      by (intro read_settlement(1) [OF assms(1-3) _ _ assms(5,6)]) (simp_all add: settles_def)
  next
    case (DeleteRequeued m)
    show ?thesis using assms(4,6,7) unfolding DeleteRequeued settle.simps settled_kind.simps settled_status.simps document_after.simps
        requeue_delete_task_def unfold
      by (intro read_settlement(2) [OF assms(1-3) _ _ assms(5,6)]) (simp_all add: settles_def)
  qed
qed


end
