(* ===== verification/KbRecovery.thy ===== *)
theory KbRecovery
  imports KbFencing
begin

text \<open>
  The recovery of stale index tasks on a healthy database, as a function of the rows it finds; what
  deletion of a document makes final; the statement that can never succeed; and example databases.
\<close>

section \<open>One stale task\<close>

text \<open>Whether the document still wants the work.\<close>

fun retryable :: "itask_type \<Rightarrow> doc_phase \<Rightarrow> bool" where
  "retryable IndexWork (Live st) \<longleftrightarrow> st = DocPending \<or> st = DocIndexing"
| "retryable DeleteWork (Live st) \<longleftrightarrow> st = DocDeleting"
| "retryable k NoDocument \<longleftrightarrow> False"
| "retryable k Removed \<longleftrightarrow> False"

definition recovered_phase :: "index_task \<Rightarrow> kb_world \<Rightarrow> task_phase" where
  "recovered_phase t w = Queued (it_type t) (if retryable (it_type t) (doc_phase (it_document t) w) then ItPending else ItCancelled) (it_attempts t)"

definition reopened :: "index_task list \<Rightarrow> string \<Rightarrow> kb_world \<Rightarrow> doc_phase" where
  "reopened ts j w = (if doc_phase j w = Live DocIndexing \<and> list_ex (\<lambda>t. it_type t = IndexWork \<and> it_document t = j) ts
     then Live DocPending else doc_phase j w)"

lemma find_live:
  assumes "distinct (map kd_id ds)"
  shows "find (\<lambda>d. live_doc d \<and> kd_id d = j) ds =
    (case find (\<lambda>d. kd_id d = j) ds of None \<Rightarrow> None | Some d \<Rightarrow> if live_doc d then Some d else None)"
  using assms by (induction ds) (auto split: option.splits dest!: find_SomeD intro: rev_image_eqI simp: find_None_iff image_iff)

lemma can_retry_phase:
  assumes "kb_wf w"
  shows "can_retry t (find (\<lambda>d. live_doc d \<and> kd_id d = it_document t) (kw_docs w)) =
      retryable (it_type t) (doc_phase (it_document t) w)"
    "retryable (it_type t) (doc_phase (it_document t) w) \<Longrightarrow>
      Live (kd_status (the (find (\<lambda>d. live_doc d \<and> kd_id d = it_document t) (kw_docs w)))) = doc_phase (it_document t) w"
  using assms unfolding kb_wf_def
  by (auto simp: find_live can_retry_def doc_phase_def phase_of_doc_def split: option.splits itask_type.splits)
     (cases "it_type t"; simp)+

lemma reopened_docs:
  fixes i m :: string and n :: time
  assumes "kb_wf w"
  defines "u \<equiv> w\<lparr>kw_docs := update_where (\<lambda>d. live_doc d \<and> kd_id d = i \<and> kd_status d = DocIndexing)
      (\<lambda>d. d\<lparr>kd_status := DocPending, kd_error := m, kd_updated_at := n\<rparr>) (kw_docs w)\<rparr>"
  shows "kb_wf u" "doc_phase j u = (if j = i \<and> doc_phase j w = Live DocIndexing then Live DocPending else doc_phase j w)"
proof -
  show "kb_wf u" using assms(1) by (simp add: u_def kb_wf_def map_update_where)
  show "doc_phase j u = (if j = i \<and> doc_phase j w = Live DocIndexing then Live DocPending else doc_phase j w)"
  proof (cases "find (\<lambda>d. kd_id d = j) (kw_docs w)")
    case None
    then show ?thesis by (simp add: u_def doc_phase_def find_update_where)
  next
    case (Some d)
    then have "kd_id d = j" by (auto dest: find_SomeD)
    then show ?thesis using Some by (auto simp: u_def doc_phase_def find_update_where phase_of_doc_def live_doc_def)
  qed
qed

text \<open>The row of the task after a write that ends its run.\<close>

lemma running_row_written:
  assumes "kb_wf w" "kb_healthy w" "find (\<lambda>x. it_id x = it_id t) (kw_tasks w) = Some t" "it_status t = ItRunning" "settles f"
  defines "u \<equiv> w\<lparr>kw_tasks := update_where (\<lambda>k. it_id k = it_id t \<and> it_status k = ItRunning)
      (\<lambda>k. (f k)\<lparr>it_updated_at := kw_clock w\<rparr>) (kw_tasks w)\<rparr>"
  shows "bindE (update_itasks (\<lambda>k. it_id k = it_id t \<and> it_status k = ItRunning) f) g w =
      g (count_where (\<lambda>k. it_id k = it_id t \<and> it_status k = ItRunning) (kw_tasks w)) u"
    "0 < count_where (\<lambda>k. it_id k = it_id t \<and> it_status k = ItRunning) (kw_tasks w)"
    "kb_wf u" "kb_healthy u" "task_phase (it_id t) u = Queued (it_type t) (it_status (f t)) (it_attempts t)"
    "i \<noteq> it_id t \<Longrightarrow> find (\<lambda>x. it_id x = i) (kw_tasks u) = find (\<lambda>x. it_id x = i) (kw_tasks w)"
    "doc_phase j u = doc_phase j w"
proof -
  have f: "it_id (f t) = it_id t" "it_type (f t) = it_type t" "it_attempts (f t) = it_attempts t" for t :: index_task
    using assms(5) by (simp_all add: settles_def)
  show "bindE (update_itasks (\<lambda>k. it_id k = it_id t \<and> it_status k = ItRunning) f) g w =
      g (count_where (\<lambda>k. it_id k = it_id t \<and> it_status k = ItRunning) (kw_tasks w)) u"
    by (simp add: u_def healthy_steps [OF assms(2)])
  show "0 < count_where (\<lambda>k. it_id k = it_id t \<and> it_status k = ItRunning) (kw_tasks w)"
    using count_where_pos [where P = "\<lambda>k. it_id k = it_id t \<and> it_status k = ItRunning"] find_SomeD [OF assms(3)] assms(4) by blast
  show "kb_wf u" "kb_healthy u" using assms(1,2) f(1) by (simp_all add: u_def kb_wf_def kb_healthy_def map_update_where)
  show "task_phase (it_id t) u = Queued (it_type t) (it_status (f t)) (it_attempts t)"
    using assms(3,4) f by (simp add: u_def task_phase_def find_update_where phase_of_task_def)
  show "find (\<lambda>x. it_id x = i) (kw_tasks u) = find (\<lambda>x. it_id x = i) (kw_tasks w)" if "i \<noteq> it_id t"
    using that f(1) find_SomeD by (cases "find (\<lambda>x. it_id x = i) (kw_tasks w)") (fastforce simp: u_def find_update_where)+
  show "doc_phase j u = doc_phase j w" by (simp add: u_def doc_phase_def)
qed

section \<open>All of them\<close>

lemma recover_one:
  assumes "kb_wf w" "kb_healthy w" "find (\<lambda>x. it_id x = it_id t) (kw_tasks w) = Some t" "it_status t = ItRunning"
  shows "\<exists>w'. recover_itask t w = (Inr (), w') \<and> kb_wf w' \<and> kb_healthy w' \<and>
    task_phase (it_id t) w' = recovered_phase t w \<and>
    (\<forall>i. i \<noteq> it_id t \<longrightarrow> find (\<lambda>x. it_id x = i) (kw_tasks w') = find (\<lambda>x. it_id x = i) (kw_tasks w)) \<and>
    (\<forall>j. doc_phase j w' = reopened [t] j w)"
proof -
  note retry = can_retry_phase [OF assms(1), of t]
  let ?doc = "find (\<lambda>d. live_doc d \<and> kd_id d = it_document t) (kw_docs w)"
  let ?requeue = "\<lambda>k. k\<lparr>it_status := ItPending, it_started_at := None, it_finished_at := None\<rparr>"
  have settles: "settles ?requeue" "settles (\<lambda>k. k\<lparr>it_status := ItCancelled, it_finished_at := Some (kw_clock w), it_error := m\<rparr>)" for m
    by (simp_all add: settles_def)
  show ?thesis
  proof (cases "can_retry t ?doc")
    case False
    then have "reopened [t] j w = doc_phase j w" for j
      using retry(1) by (cases "it_type t") (auto simp: reopened_def)
    then show ?thesis using False retry(1) running_row_written [OF assms settles(2)]
      by (simp add: recover_itask_def healthy_steps(2,3,8) [OF assms(2)] ret_eval recovered_phase_def)
  next
    case True
    let ?u = "w\<lparr>kw_docs := update_where (\<lambda>d. live_doc d \<and> kd_id d = it_document t \<and> kd_status d = DocIndexing)
      (\<lambda>d. d\<lparr>kd_status := DocPending, kd_error := ''recovered stale indexing task'', kd_updated_at := kw_clock w\<rparr>) (kw_docs w)\<rparr>"
    let ?v = "if it_type t = IndexWork \<and> kd_status (the ?doc) = DocIndexing then ?u else w"
    have v: "kb_wf ?v" "kb_healthy ?v" "find (\<lambda>x. it_id x = it_id t) (kw_tasks ?v) = Some t" "kw_tasks ?v = kw_tasks w"
      using assms reopened_docs(1) [OF assms(1)] by (simp_all add: kb_healthy_def)
    have docs: "doc_phase j ?v = reopened [t] j w" for j
      using True retry reopened_docs(2) [OF assms(1)] by (cases "it_type t") (auto simp: reopened_def)
    have run: "recover_itask t w = bindE (update_itasks (\<lambda>k. it_id k = it_id t \<and> it_status k = ItRunning) ?requeue)
        (\<lambda>n. guardE (n \<noteq> 0) TaskSuperseded) ?v"
      using True by (simp add: recover_itask_def healthy_steps(3,6) [OF assms(2)] bindE_assoc)
    show ?thesis using True retry(1) docs v(4) running_row_written [OF v(1-3) assms(4) settles(1)]
      by (simp add: run healthy_steps(8) [OF v(2)] guard_eval recovered_phase_def del: if_split)
  qed
qed

lemma task_phase_find: "find (\<lambda>x. it_id x = i) (kw_tasks w') = find (\<lambda>x. it_id x = i) (kw_tasks w) \<Longrightarrow> task_phase i w' = task_phase i w"
  by (simp add: task_phase_def)

lemma retryable_reopened: "retryable k (reopened ts j w) = retryable k (doc_phase j w)"
  by (cases k; cases "doc_phase j w") (auto simp: reopened_def)

lemma recover_all:
  assumes "kb_wf w" "kb_healthy w" "distinct (map it_id ts)"
    and "\<And>t. t \<in> set ts \<Longrightarrow> find (\<lambda>x. it_id x = it_id t) (kw_tasks w) = Some t \<and> it_status t = ItRunning"
  shows "\<exists>w'. recover_itasks ts w = (Inr (), w') \<and> kb_wf w' \<and> kb_healthy w' \<and>
    (\<forall>t \<in> set ts. task_phase (it_id t) w' = recovered_phase t w) \<and>
    (\<forall>i. i \<notin> it_id ` set ts \<longrightarrow> task_phase i w' = task_phase i w) \<and>
    (\<forall>j. doc_phase j w' = reopened ts j w)"
  using assms
proof (induction ts arbitrary: w)
  case Nil
  then show ?case by (simp add: ret_eval reopened_def)
next
  case (Cons t ts)
  from recover_one [OF Cons.prems(1,2), of t] Cons.prems(4)
  obtain u where u: "recover_itask t w = (Inr (), u)" "kb_wf u" "kb_healthy u" "task_phase (it_id t) u = recovered_phase t w"
      "\<And>i. i \<noteq> it_id t \<Longrightarrow> find (\<lambda>x. it_id x = i) (kw_tasks u) = find (\<lambda>x. it_id x = i) (kw_tasks w)"
      "\<And>j. doc_phase j u = reopened [t] j w"
    by auto
  have other: "x \<in> set ts \<Longrightarrow> it_id x \<noteq> it_id t" for x using Cons.prems(3) by (auto intro: rev_image_eqI)
  then have rows: "find (\<lambda>y. it_id y = it_id x) (kw_tasks u) = Some x \<and> it_status x = ItRunning" if "x \<in> set ts" for x
    using that Cons.prems(4) [of x] u(5) by simp
  obtain w' where w': "recover_itasks ts u = (Inr (), w')" "kb_wf w'" "kb_healthy w'"
      "\<And>x. x \<in> set ts \<Longrightarrow> task_phase (it_id x) w' = recovered_phase x u"
      "\<And>i. i \<notin> it_id ` set ts \<Longrightarrow> task_phase i w' = task_phase i u" "\<And>j. doc_phase j w' = reopened ts j u"
    using Cons.IH [OF u(2,3) _ rows] Cons.prems(3) by auto
  have run: "recover_itasks (t # ts) w = (Inr (), w')" by (simp add: bindE_def u(1) w'(1))
  have "recovered_phase x u = recovered_phase x w" for x
    by (simp add: recovered_phase_def u(6) retryable_reopened)
  moreover have "it_id t \<notin> it_id ` set ts" using Cons.prems(3) by simp
  ultimately have mine: "\<forall>x \<in> set (t # ts). task_phase (it_id x) w' = recovered_phase x w"
    using u(4) w'(4,5) by auto
  have rest: "task_phase i w' = task_phase i w" if "i \<notin> it_id ` set (t # ts)" for i
    using that w'(5) [of i] task_phase_find [OF u(5), of i] by simp
  have docs: "doc_phase j w' = reopened (t # ts) j w" for j
    by (auto simp: w'(6) reopened_def u(6))
  show ?case using run w'(2,3) mine rest docs by blast
qed

text \<open>C30: Recovery: on a healthy database one call of RecoverStaleTasks succeeds and makes every stale
  running task pending again, with its attempt count, if its document still wants the work, and
  cancelled if it does not; it reopens the documents whose indexing it found interrupted, and
  leaves every other task and document where it was.\<close>

theorem recovery_settles_stale_work:
  assumes "kb_wf w" "kb_healthy w"
  shows "\<exists>w'. recover_stale_itasks before w = (Inr (), w') \<and>
    (\<forall>t \<in> set (kw_tasks w). task_phase (it_id t) w' = (if stale_itask before t then recovered_phase t w else phase_of_task t)) \<and>
    (\<forall>j. doc_phase j w' = reopened (filter (stale_itask before) (kw_tasks w)) j w)"
proof -
  let ?ts = "filter (stale_itask before) (kw_tasks w)"
  have key: "find (\<lambda>x. it_id x = it_id t) (kw_tasks w) = Some t" if "t \<in> set (kw_tasks w)" for t
    using find_key_unique [of it_id "kw_tasks w" t] that assms(1) by (simp add: kb_wf_def)
  have ids: "distinct (map it_id ?ts)" using assms(1) by (simp add: kb_wf_def distinct_map_filter)
  have rows: "find (\<lambda>x. it_id x = it_id t) (kw_tasks w) = Some t \<and> it_status t = ItRunning" if "t \<in> set ?ts" for t
    using that key [of t] by (simp add: stale_itask_def)
  have "\<exists>w'. recover_itasks ?ts w = (Inr (), w') \<and> kb_wf w' \<and> kb_healthy w' \<and>
      (\<forall>t \<in> set ?ts. task_phase (it_id t) w' = recovered_phase t w) \<and>
      (\<forall>i. i \<notin> it_id ` set ?ts \<longrightarrow> task_phase i w' = task_phase i w) \<and> (\<forall>j. doc_phase j w' = reopened ?ts j w)"
    by (rule recover_all [OF assms ids rows])
  then obtain w' where w': "recover_itasks ?ts w = (Inr (), w')" "kb_healthy w'"
      "\<forall>t \<in> set ?ts. task_phase (it_id t) w' = recovered_phase t w"
      "\<forall>i. i \<notin> it_id ` set ?ts \<longrightarrow> task_phase i w' = task_phase i w" "\<forall>j. doc_phase j w' = reopened ?ts j w"
    by (elim exE conjE) (rule that)
  have "recover_stale_itasks before w = (Inr (), w')"
    unfolding recover_stale_itasks_def healthy_steps(1) [OF assms(2)]
    by (rule transaction_healthy_kb) (use assms(2) w'(1,2) in \<open>simp_all add: healthy_steps(3) [OF assms(2)] kb_healthy_def\<close>)
  moreover have "task_phase (it_id t) w' = phase_of_task t" if "t \<in> set (kw_tasks w)" "\<not> stale_itask before t" for t
  proof -
    have "it_id t \<notin> it_id ` set ?ts"
    proof
      assume "it_id t \<in> it_id ` set ?ts"
      then obtain x where x: "x \<in> set ?ts" "it_id x = it_id t" by auto
      then have "x = t" using rows [OF x(1)] key [OF that(1)] unfolding x(2) by (metis option.inject)
      then show False using x(1) that(2) by simp
    qed
    then have "task_phase (it_id t) w' = task_phase (it_id t) w" using w'(4) by blast
    then show ?thesis using phase_of_member(1) [OF assms(1) that(1)] by (rule trans)
  qed
  ultimately show ?thesis using w'(3,5) by (intro exI [of _ w'] conjI ballI) simp_all
qed

section \<open>Deletion\<close>

lemma deleting_closed: "doc_life\<^sup>*\<^sup>* p q \<Longrightarrow> p \<in> {Live DocDeleting, Removed} \<Longrightarrow> q \<in> {Live DocDeleting, Removed}"
  by (induction rule: rtranclp_induct) (auto elim: doc_lifeE)

text \<open>The statement of \<open>DeleteDocumentRecords\<close> with one argument too few.\<close>

lemma delete_document_records_refused:
  "\<exists>e w'. delete_document_records userName baseID docID w = (Inl e, w') \<and> kb_tables w' = kb_tables w"
proof (cases "delete_document_records userName baseID docID w")
  case (Pair r w')
  have "demands (\<lambda>t. False) (kb_statement (fail (KbDriver DriverError)) :: unit kb_call)"
    by (auto simp: demands_def elim!: kb_statement_InrE)
  then have "\<nexists>x. r = Inr x"
    using Pair by (auto simp: delete_document_records_def kb_transaction_def demands_def elim!: bindE_InrE split: prod.splits sum.splits)
  moreover have "undone (delete_document_records userName baseID docID)"
    unfolding delete_document_records_def by (intro undone_prefix undone_transaction)
  ultimately show ?thesis using Pair by (cases r) (auto simp: undone_def)
qed

end
