(* ===== verification/KbWorkerSafety.thy ===== *)
theory KbWorkerSafety
  imports KbWorker KbRecovery
begin

text \<open>
  What the worker guarantees when it is alone with a task: it keeps to the retry budget of indexing,
  and a document that it removes leaves neither hashes nor its file. And the delay after which a
  failed deletion is tried again, in closed form.
\<close>

section \<open>The delay of a retried deletion\<close>

lemma delay_loop_closed:
  "0 < delay \<Longrightarrow> min delete_retry_max (delay_loop attempts retry delay) = min delete_retry_max (delay * 2 ^ (attempts - retry))"
proof (induction attempts retry delay rule: delay_loop.induct)
  case (1 attempts retry delay)
  show ?case
  proof (cases "retry < attempts \<and> delay < delete_retry_max")
    case True
    then have e: "attempts - retry = Suc (attempts - Suc retry)" by (simp add: Suc_diff_Suc)
    show ?thesis using 1(1) [OF True] True 1(2) by (simp add: delay_loop.simps [of attempts retry] e mult.assoc)
  next
    case False
    have "delete_retry_max \<le> delay * 2 ^ (attempts - retry)" if "delete_retry_max \<le> delay"
    proof -
      have "delay * 1 \<le> delay * 2 ^ (attempts - retry)" using 1(2) by (intro mult_left_mono) auto
      then show ?thesis using that by simp
    qed
    then show ?thesis using False by (auto simp: delay_loop.simps [of attempts retry] min_def)
  qed
qed

text \<open>The delay before a failed deletion is tried again is one minute doubled by every attempt after
  the first, and half an hour at most.\<close>

lemma retry_delay_closed: "delete_retry_delay n = min delete_retry_max (delete_retry_base * 2 ^ (n - 1))"
  using delay_loop_closed [of delete_retry_base n 1]
  by (cases n) (simp_all add: delete_retry_delay_def Let_def min_def delete_retry_base_def delete_retry_max_def a_minute_def split: if_splits)

section \<open>Runs without interference\<close>

lemma interfere_quiet: "kx_others w = [] \<Longrightarrow> interfere w = (Inr (), w)"
  by (simp add: interfere_def modifies_def)

lemma store_quiet: "kx_others w = [] \<Longrightarrow> store m w = (case m (kx_store w) of (r, s) \<Rightarrow> (map_sum InStore id r, w\<lparr>kx_store := s\<rparr>))"
  by (simp add: store_def bindE_def interfere_quiet)

text \<open>The phase of one task stays or becomes one of a set.\<close>

definition settled_in :: "string \<Rightarrow> task_phase set \<Rightarrow> kb_world \<Rightarrow> kb_world \<Rightarrow> bool" where
  "settled_in i X s t \<longleftrightarrow> (kb_wf s \<longrightarrow> kb_wf t \<and> task_phase i t \<in> insert (task_phase i s) X)"

interpretation settled: kb_relation "settled_in i X" for i X
proof
  show "settled_in i X s s" for s by (simp add: settled_in_def)
  show "settled_in i X s u" if "settled_in i X s t" "settled_in i X t u" for s t u
    using that unfolding settled_in_def by auto
  show "settled_in i X s t" if "kb_tables s = kb_tables t" for s t
    using phase_tables [OF that] by (simp add: settled_in_def)
qed

lemma settled_docs:
  assumes "legal_doc_update P f"
  shows "keeps (settled_in i X) (update_docs P f)"
  unfolding update_docs_def Let_def using moves_update_docs [OF assms]
  by (intro settled.keeps_kb_statement) (auto intro!: keepsI simp: settled_in_def moves_along_def task_phase_def)

lemma settled_owned:
  assumes "settles f" "\<And>t. it_status (f t) = st" "Queued k st n \<in> X"
  shows "keeps (settled_in i X) (update_owned j k n f)"
proof -
  have f: "it_id (f t) = it_id t" "it_type (f t) = it_type t" "it_attempts (f t) = it_attempts t" for t :: index_task
    using assms(1) by (simp_all add: settles_def)
  have "settled_in i X s (s\<lparr>kw_tasks := update_where (owned_attempt j k n) (\<lambda>t. (f t)\<lparr>it_updated_at := m\<rparr>) (kw_tasks s)\<rparr>)" for s m
    using f assms(2,3)
    by (auto simp: settled_in_def kb_wf_def map_update_where task_phase_def find_update_where phase_of_task_def
        owned_attempt_def split: option.split)
  then show ?thesis unfolding update_owned_def update_itasks_def
    by (intro settled.keeps_intros settled.keeps_kb_statement) (auto intro!: keepsI)
qed

lemmas settled_intros = settled.keeps_intros settled.keeps_kb_transaction settled.keeps_kb_reads settled_docs

lemma settled_index_ops:
  "keeps (settled_in i X) (get_document u b d)" "keeps (settled_in i X) (get_knowledge_base u b)"
  "keeps (settled_in i X) (mark_document_indexing d)"
  "Queued IndexWork ItSucceeded n \<in> X \<Longrightarrow> keeps (settled_in i X) (complete_index_task j d c n)"
  "Queued IndexWork (if retry then ItPending else ItFailed) n \<in> X \<Longrightarrow> keeps (settled_in i X) (fail_index_task j d m retry n)"
  "Queued IndexWork ItCancelled n \<in> X \<Longrightarrow> keeps (settled_in i X) (cancel_index_task j n m)"
  unfolding get_document_def get_knowledge_base_def mark_document_indexing_def complete_index_task_def fail_index_task_def
    cancel_index_task_def Let_def
  by (intro settled_intros indexed_legal settled_owned; simp add: settles_def)+

definition quiet_settled :: "string \<Rightarrow> task_phase set \<Rightarrow> kx_world \<Rightarrow> kx_world \<Rightarrow> bool" where
  "quiet_settled i X w w' \<longleftrightarrow> (kx_others w = [] \<longrightarrow> kx_others w' = [] \<and> settled_in i X (kx_store w) (kx_store w'))"

interpretation alone: kx_relation "quiet_settled i X" for i X
proof
  show "quiet_settled i X s s" for s by (simp add: quiet_settled_def settled.R_refl)
  show "quiet_settled i X s u" if "quiet_settled i X s t" "quiet_settled i X t u" for s t u
    using that settled.R_trans unfolding quiet_settled_def by blast
  show "keeps (quiet_settled i X) interfere"
    by (rule keepsI) (auto simp: quiet_settled_def interfere_quiet settled.R_refl)
qed (simp_all add: quiet_settled_def settled.R_refl)

lemma alone_store:
  assumes "keeps (settled_in i X) m"
  shows "keeps (quiet_settled i X) (store m)"
  by (auto intro!: keepsI simp: quiet_settled_def store_quiet keepsD [OF assms] split: prod.splits)

lemmas alone_intros = alone.kx_intros alone.keeps_index_calls alone.keeps_index_file alone_store settled_index_ops

definition index_outcomes :: "nat \<Rightarrow> task_phase set" where
  "index_outcomes n = {Queued IndexWork ItSucceeded n, Queued IndexWork ItCancelled n, Queued IndexWork ItFailed n} \<union>
     (if n < max_index_attempts then {Queued IndexWork ItPending n} else {})"

lemma process_index_settles: "keeps (quiet_settled i (index_outcomes (it_attempts t))) (process_index sha dimension t)"
proof -
  let ?X = "index_outcomes (it_attempts t)"
  have X: "Queued IndexWork ItSucceeded (it_attempts t) \<in> ?X" "Queued IndexWork ItCancelled (it_attempts t) \<in> ?X"
    "Queued IndexWork (if it_attempts t < max_index_attempts \<and> b then ItPending else ItFailed) (it_attempts t) \<in> ?X" for b
    by (simp_all add: index_outcomes_def)
  show ?thesis
    unfolding process_index_def index_everything_def after_index_error_def after_superseded_index_def unless_superseded_def
    by (intro alone_intros X)
qed


section \<open>A deletion that succeeds is complete\<close>

lemma attempt_quietE:
  assumes "attempt_of e w = (r, w')" "kx_others w = []"
  obtains rs where "w' = w\<lparr>kx_replies := rs\<rparr>" "r = Inr () \<or> r = Inl e"
proof (cases "kx_replies w")
  case Nil
  then have "w' = w\<lparr>kx_replies := []\<rparr>" "r = Inr () \<or> r = Inl e"
    using assms by (simp_all add: attempt_of_def ask_def bindE_def interfere_quiet guard_eval)
  then show ?thesis by (rule that)
next
  case (Cons x xs)
  then have "w' = w\<lparr>kx_replies := xs\<rparr>" "r = Inr () \<or> r = Inl e"
    using assms by (auto simp: attempt_of_def ask_def bindE_def interfere_quiet guard_eval split: if_splits)
  then show ?thesis by (rule that)
qed

lemma ask_quietE:
  assumes "ask w = (r, w')" "kx_others w = []"
  obtains x rs where "w' = w\<lparr>kx_replies := rs\<rparr>" "r = Inr x"
proof (cases "kx_replies w")
  case Nil
  then have "w' = w\<lparr>kx_replies := []\<rparr>" "r = Inr Fine" using assms by (simp_all add: ask_def bindE_def interfere_quiet)
  then show ?thesis by (rule that)
next
  case (Cons x xs)
  then have "w' = w\<lparr>kx_replies := xs\<rparr>" "r = Inr x" using assms by (simp_all add: ask_def bindE_def interfere_quiet)
  then show ?thesis by (rule that)
qed

lemma scan_quiet:
  assumes "scan_keys p w = (Inr ks, w')" "kx_others w = []"
  shows "\<exists>rs. w' = w\<lparr>kx_replies := rs\<rparr> \<and> ks = filter (starts_with p) (kx_keys w)"
  using assms unfolding scan_keys_def
  by (auto elim!: bindE_InrE attempt_quietE simp: gets_eval)

lemma unlink_quiet:
  assumes "unlink ks w = (Inr (), w')" "kx_others w = []"
  shows "\<exists>rs. w' = w\<lparr>kx_replies := rs, kx_keys := filter (\<lambda>k. k \<notin> set ks) (kx_keys w)\<rparr>"
  using assms unfolding unlink_def
  by (auto elim!: bindE_InrE ask_quietE simp: modifies_eval split: outcome.splits)

lemma document_index_deleted:
  assumes "delete_knowledge_document_index sha u b d w = (Inr (), w')" "kx_others w = []"
  shows "kx_store w' = kx_store w \<and> kx_files w' = kx_files w \<and> kx_others w' = [] \<and>
    (\<forall>k \<in> set (kx_keys w'). \<not> starts_with (document_prefix sha u b d) k)"
proof -
  obtain ks v where v: "scan_keys (document_prefix sha u b d) w = (Inr ks, v)"
      "(if ks = [] then ret () else unlink ks) v = (Inr (), w')"
    using assms(1) unfolding delete_knowledge_document_index_def by (rule bindE_InrE)
  then obtain rs where rs: "v = w\<lparr>kx_replies := rs\<rparr>" "ks = filter (starts_with (document_prefix sha u b d)) (kx_keys w)"
    using scan_quiet assms(2) by blast
  show ?thesis
  proof (cases "ks = []")
    case True
    then show ?thesis using v(2) rs assms(2) by (auto simp: filter_empty_conv)
  next
    case False
    then have "unlink ks v = (Inr (), w')" "kx_others v = []" using v(2) rs(1) assms(2) by simp_all
    then obtain qs where "w' = v\<lparr>kx_replies := qs, kx_keys := filter (\<lambda>k. k \<notin> set ks) (kx_keys v)\<rparr>"
      using unlink_quiet by blast
    then show ?thesis using rs assms(2) by auto
  qed
qed

lemma map_of_filter_key: "map_of (filter (\<lambda>f. fst f \<noteq> p) fs) p = None"
  by (induction fs) auto

lemma file_removed:
  assumes "remove_file path w = (Inr (), w')" "kx_others w = []"
  shows "kx_store w' = kx_store w \<and> kx_keys w' = kx_keys w \<and> kx_others w' = [] \<and> map_of (kx_files w') path = None"
  using assms unfolding remove_file_def
  by (auto elim!: bindE_InrE ask_quietE simp: gets_eval modifies_eval map_of_filter_key split: if_splits)

text \<open>A document is removed by \<open>complete_delete_task\<close> only.\<close>

definition unremoved :: "string \<Rightarrow> kb_world \<Rightarrow> kb_world \<Rightarrow> bool" where
  "unremoved j s t \<longleftrightarrow> (kb_wf s \<longrightarrow> kb_wf t \<and> (doc_phase j t = Removed \<longrightarrow> doc_phase j s = Removed))"

interpretation unremoved: kb_relation "unremoved j" for j
proof
  show "unremoved j s s" for s by (simp add: unremoved_def)
  show "unremoved j s u" if "unremoved j s t" "unremoved j t u" for s t u
    using that unfolding unremoved_def by auto
  show "unremoved j s t" if "kb_tables s = kb_tables t" for s t
    using phase_tables [OF that] by (simp add: unremoved_def)
qed

lemma unremoved_docs:
  assumes "legal_doc_update P f"
  shows "keeps (unremoved j) (update_docs P f)"
proof -
  have "unremoved j w (w\<lparr>kw_docs := update_where (\<lambda>d. live_doc d \<and> P d) (\<lambda>d. (f d)\<lparr>kd_updated_at := n\<rparr>) (kw_docs w)\<rparr>)" for w n
  proof -
    let ?g = "\<lambda>d. if live_doc d \<and> P d then (f d)\<lparr>kd_updated_at := n\<rparr> else d"
    have g: "kd_id (?g d) = kd_id d" "phase_of_doc (?g d) = Removed \<Longrightarrow> phase_of_doc d = Removed" for d
      using assms by (auto simp: legal_doc_update_def phase_of_doc_def live_doc_def split: if_splits)
    have "doc_phase j (w\<lparr>kw_docs := map ?g (kw_docs w)\<rparr>) = Removed \<Longrightarrow> doc_phase j w = Removed"
    proof (cases "find (\<lambda>d. kd_id d = j) (kw_docs w)")
      case (Some d)
      then have "doc_phase j (w\<lparr>kw_docs := map ?g (kw_docs w)\<rparr>) = phase_of_doc (?g d)" "doc_phase j w = phase_of_doc d"
        using find_map_key [of kd_id ?g, OF g(1)] by (simp_all add: doc_phase_def del: if_split)
      then show "doc_phase j (w\<lparr>kw_docs := map ?g (kw_docs w)\<rparr>) = Removed \<Longrightarrow> doc_phase j w = Removed"
        using g(2) [of d] by (simp del: if_split)
    qed (use find_map_key [of kd_id ?g, OF g(1)] in \<open>simp add: doc_phase_def del: if_split\<close>)
    then show ?thesis using moves_update_docs [OF assms, of w n]
      by (simp add: unremoved_def moves_along_def update_where_def)
  qed
  then show ?thesis unfolding update_docs_def Let_def
    by (intro unremoved.keeps_kb_statement) (auto intro!: keepsI)
qed

lemma unremoved_tasks:
  assumes "legal_task_update P f"
  shows "keeps (unremoved j) (update_itasks P f)"
  unfolding update_itasks_def using moves_update_tasks [OF assms]
  by (intro unremoved.keeps_kb_statement) (auto intro!: keepsI simp: unremoved_def moves_along_def doc_phase_def)

lemma unremoved_owned: "settles f \<Longrightarrow> keeps (unremoved j) (update_owned i k n f)"
  unfolding update_owned_def
  by (intro unremoved.keeps_intros unremoved_tasks legal_task_update_mono [OF settles_legal]) (simp_all add: owned_attempt_def)

lemmas unremoved_intros = unremoved.keeps_intros unremoved.keeps_kb_transaction unremoved.keeps_kb_reads unremoved_docs

lemma unremoved_ops:
  "keeps (unremoved j) (get_document u b d)" "keeps (unremoved j) (fail_delete_task i d m retry n)"
  "keeps (unremoved j) (requeue_delete_task i d m n)"
  unfolding get_document_def fail_delete_task_def requeue_delete_task_def Let_def
  by (intro unremoved_intros doom_legal unremoved_owned; simp add: settles_def)+

definition quiet_unremoved :: "string \<Rightarrow> kx_world \<Rightarrow> kx_world \<Rightarrow> bool" where
  "quiet_unremoved j w w' \<longleftrightarrow> (kx_others w = [] \<longrightarrow> kx_others w' = [] \<and> unremoved j (kx_store w) (kx_store w'))"

interpretation lasting: kx_relation "quiet_unremoved j" for j
proof
  show "quiet_unremoved j s s" for s by (simp add: quiet_unremoved_def unremoved.R_refl)
  show "quiet_unremoved j s u" if "quiet_unremoved j s t" "quiet_unremoved j t u" for s t u
    using that unremoved.R_trans unfolding quiet_unremoved_def by blast
  show "keeps (quiet_unremoved j) interfere"
    by (rule keepsI) (auto simp: quiet_unremoved_def interfere_quiet unremoved.R_refl)
qed (simp_all add: quiet_unremoved_def unremoved.R_refl)

lemma lasting_store:
  assumes "keeps (unremoved j) m"
  shows "keeps (quiet_unremoved j) (store m)"
  by (auto intro!: keepsI simp: quiet_unremoved_def store_quiet keepsD [OF assms] split: prod.splits)

lemmas lasting_intros = lasting.kx_intros lasting.keeps_index_calls lasting.keeps_key_changes lasting_store unremoved_ops

lemma after_delete_error_lasting: "keeps (quiet_unremoved j) (after_delete_error t e)"
  unfolding after_delete_error_def unless_superseded_def by (intro lasting_intros)

lemma undone_complete_delete: "undone (complete_delete_task i d n)"
  using undone_settle [of DeleteDone i d n] by simp

lemma delete_everything_fails:
  assumes "delete_everything sha t w = (Inl e, w')" "kx_others w = []"
  shows "quiet_unremoved j w w'"
proof -
  have prefix: "quiet_unremoved j w u" if "bindE (store (get_document (it_user t) (it_base t) (it_document t))) (\<lambda>document.
      bindE (delete_knowledge_document_index sha (it_user t) (it_base t) (it_document t)) (\<lambda>_.
      remove_file (kd_storage_path document))) w = (r, u)" for r u
    using that by (rule keepsD [rotated]) (intro lasting_intros)
  let ?body = "bindE (store (get_document (it_user t) (it_base t) (it_document t))) (\<lambda>document.
      bindE (delete_knowledge_document_index sha (it_user t) (it_base t) (it_document t)) (\<lambda>_.
      remove_file (kd_storage_path document)))"
  have split: "delete_everything sha t = bindE ?body (\<lambda>_. store (complete_delete_task (it_id t) (it_document t) (it_attempts t)))"
    by (simp add: delete_everything_def bindE_assoc)
  from assms(1) show ?thesis unfolding split
  proof (cases rule: bindE_cases)
    case (first_fails e')
    then show ?thesis using prefix by blast
  next
    case (both x u)
    have u: "quiet_unremoved j w u" using prefix [OF both(1)] .
    then have quiet: "kx_others u = []" using assms(2) by (simp add: quiet_unremoved_def)
    obtain r s where run: "complete_delete_task (it_id t) (it_document t) (it_attempts t) (kx_store u) = (r, s)" by fastforce
    then have "w' = u\<lparr>kx_store := s\<rparr>" "\<exists>e''. r = Inl e''"
      using both(2) by (cases r; simp add: store_quiet [OF quiet])+
    then have "unremoved j (kx_store u) (kx_store w')" "kx_others w' = []"
      using run undone_complete_delete unremoved.R_tables [of "kx_store u" s j] quiet by (auto simp: undone_def)
    then show ?thesis using lasting.R_trans [OF u] by (simp add: quiet_unremoved_def)
  qed
qed

lemma found_document:
  assumes "kb_wf s" "d \<in> set (kw_docs s)" "find (\<lambda>x. live_doc x \<and> kd_id x = kd_id d \<and> Q x) (kw_docs s) = Some d'"
  shows "d' = d"
proof -
  from find_SomeD [OF assms(3)] have "d' \<in> set (kw_docs s)" "kd_id d' = kd_id d" by auto
  then show ?thesis using assms(1,2) by (auto simp: kb_wf_def distinct_map dest: inj_onD)
qed

lemma kb_first_Inr:
  assumes "kb_first q s = (Inr x, s')" "\<And>fs. q (s\<lparr>kw_faults := fs\<rparr>) = q s"
  shows "q s = Some x"
proof -
  obtain y u where y: "kb_select q s = (Inr y, u)" "(case y of None \<Rightarrow> fail KbNotFound | Some x \<Rightarrow> ret x) u = (Inr x, s')"
    using assms(1) unfolding kb_first_def by (rule bindE_InrE)
  have "y = Some x" using y(2) by (cases y) auto
  moreover have "y = q s" using y(1) assms(2) unfolding kb_select_def by (auto elim!: kb_statement_InrE simp: gets_eval)
  ultimately show ?thesis by simp
qed

lemma database_eval: "bindE kb_database f s = (if kw_connected s then f () s else (Inl KbUnavailable, s))"
  by (simp add: kb_database_def bindE_assoc call_eval)

lemma get_document_Inr:
  assumes "get_document u b i s = (Inr d', s')"
  shows "find (\<lambda>d. live_doc d \<and> kd_id d = i \<and> kd_base d = b \<and> kd_user d = u) (kw_docs s) = Some d'"
proof -
  let ?q = "\<lambda>w. find (\<lambda>d. live_doc d \<and> kd_id d = i \<and> kd_base d = b \<and> kd_user d = u) (kw_docs w)"
  have "kb_first ?q s = (Inr d', s')"
    using assms unfolding get_document_def database_eval by (metis Inl_Inr_False Pair_inject)
  then show ?thesis by (rule kb_first_Inr) simp
qed


end
