(* ===== verification/KbIndexing.thy ===== *)
theory KbIndexing
  imports KbWorkerSafety
begin

text \<open>
  The worker alone on healthy services: an indexing task with a sound document is carried through to
  the end, from the claim in the store over the chunks of the text to the hashes in Redis.
\<close>

section \<open>One healthy call\<close>

definition kx_healthy :: "kx_world \<Rightarrow> bool" where
  "kx_healthy w \<longleftrightarrow> kb_wf (kx_store w) \<and> kb_healthy (kx_store w) \<and> kx_others w = [] \<and> kx_replies w = []"

lemma healthy_store: "kx_healthy w \<Longrightarrow> m (kx_store w) = (Inr x, s) \<Longrightarrow> bindE (store m) f w = f x (w\<lparr>kx_store := s\<rparr>)"
  by (simp add: kx_healthy_def bindE_def store_quiet)

lemma healthy_ask: "kx_healthy w \<Longrightarrow> ask w = (Inr Fine, w)" "kx_healthy w \<Longrightarrow> attempt_of e w = (Inr (), w)"
  by (simp_all add: kx_healthy_def ask_def attempt_of_def bindE_def interfere_quiet guard_eval)

lemma healthy_bind:
  assumes "kx_healthy w"
  shows "bindE ask f w = f Fine w" "bindE (attempt_of e) g w = g () w" "bindE (scan_keys p) h w = h (filter (starts_with p) (kx_keys w)) w"
    "bindE (store_hashes ks) g w = g () (w\<lparr>kx_keys := fold List.insert ks (kx_keys w)\<rparr>)"
    "bindE (unlink ks) g w = g () (w\<lparr>kx_keys := filter (\<lambda>k. k \<notin> set ks) (kx_keys w)\<rparr>)"
  by (simp_all add: bindE_def healthy_ask [OF assms] scan_keys_def store_hashes_def unlink_def gets_eval modifies_eval)

lemma database_healthy: "kb_healthy s \<Longrightarrow> bindE kb_database f s = f () s"
  by (simp add: database_eval kb_healthy_def)

lemma kb_first_healthy: "kb_healthy s \<Longrightarrow> q s = Some x \<Longrightarrow> kb_first q s = (Inr x, s)"
  by (simp add: kb_first_def kb_select_def bindE_def kb_healthy_def statement_healthy_kb gets_eval ret_eval)

lemma claim_healthy:
  assumes "kb_wf s" "kb_healthy s" "t \<in> set (kw_tasks s)" "it_status t = ItPending"
  shows "claim_itask (it_id t) s = (Inr (Some (claimed_itask (kw_clock s) t)),
    s\<lparr>kw_tasks := update_where (\<lambda>k. it_id k = it_id t \<and> it_status k = ItPending) (\<lambda>k. (claimed_itask (kw_clock s) k)\<lparr>it_updated_at := kw_clock s\<rparr>) (kw_tasks s)\<rparr>)"
proof -
  have row: "find (\<lambda>k. it_id k = it_id t \<and> it_status k = ItPending) (kw_tasks s) = Some t"
  proof -
    obtain x where x: "find (\<lambda>k. it_id k = it_id t \<and> it_status k = ItPending) (kw_tasks s) = Some x"
      using found [OF assms(3), of "\<lambda>k. it_id k = it_id t \<and> it_status k = ItPending"] assms(4) by auto
    then have "x \<in> set (kw_tasks s)" "it_id x = it_id t" using find_SomeD by fastforce+
    then have "x = t" using assms(1,3) by (auto simp: kb_wf_def distinct_map dest: inj_onD)
    then show ?thesis using x by simp
  qed
  have n: "0 < count_where (\<lambda>k. it_id k = it_id t \<and> it_status k = ItPending) (kw_tasks s)"
    using count_where_pos [where P = "\<lambda>k. it_id k = it_id t \<and> it_status k = ItPending"] assms(3,4) by blast
  let ?u = "s\<lparr>kw_tasks := update_where (\<lambda>k. it_id k = it_id t \<and> it_status k = ItPending)
      (\<lambda>k. (claimed_itask (kw_clock s) k)\<lparr>it_updated_at := kw_clock s\<rparr>) (kw_tasks s)\<rparr>"
  have tx: "kb_transaction (bindE (kb_first (\<lambda>w. find (\<lambda>k. it_id k = it_id t \<and> it_status k = ItPending) (kw_tasks w))) (\<lambda>x.
       bindE (update_itasks (\<lambda>k. it_id k = it_id t \<and> it_status k = ItPending) (claimed_itask (kw_clock s))) (\<lambda>n.
       bindE (guardE (n \<noteq> 0) TaskSuperseded) (\<lambda>_. ret (claimed_itask (kw_clock s) x))))) s = (Inr (claimed_itask (kw_clock s) t), ?u)"
    using assms(2) row n
    by (intro transaction_healthy_kb) (simp_all add: kb_healthy_def healthy_steps [OF assms(2)] bind_guard_eval ret_eval)
  then show ?thesis
    by (simp add: claim_itask_def healthy_steps(1,2) [OF assms(2)] del: neq0_conv)
qed

lemma mark_healthy:
  assumes "kb_healthy s" "d \<in> set (kw_docs s)" "live_doc d" "kd_status d = DocPending"
  shows "mark_document_indexing (kd_id d) s = (Inr (), s\<lparr>kw_docs := update_where (\<lambda>x. live_doc x \<and> kd_id x = kd_id d \<and> kd_status x = DocPending)
      (\<lambda>d. d\<lparr>kd_status := DocIndexing, kd_error := [], kd_updated_at := kw_clock s\<rparr>) (kw_docs s)\<rparr>)"
  using count_where_pos [where P = "\<lambda>x. live_doc x \<and> kd_id x = kd_id d \<and> kd_status x = DocPending", OF assms(2)] assms(3,4)
  by (simp add: mark_document_indexing_def healthy_steps [OF assms(1)] guard_eval)

section \<open>The chunks of a text\<close>

lemma default_chunks:
  assumes "k < length (runes content)" "\<not> is_space (runes content ! k)"
  shows "\<exists>cs. chunk_markdown sha i content default_options = Some cs \<and> cs \<noteq> []"
proof -
  let ?opts = "normalized_chunk_options default_options"
  have o1: "1 \<le> co_min ?opts" "co_min ?opts < co_max ?opts" "0 \<le> co_overlap ?opts"
    using normalized_options [of ?opts default_options] by (simp_all add: default_options_def)
  obtain cs where "chunk_loop sha i (runes content) (parse_markdown_headings (runes content)) ?opts 0 [] = Some cs"
      "covers cs k"
    using chunk_loop_spec [OF o1 refl, of sha i "runes content" 0 "[]"] assms by auto
  then show ?thesis using assms(1) by (auto simp: chunk_markdown_def Let_def covers_def)
qed

lemma starts_with_append: "starts_with p (p @ s)"
  by (simp add: starts_with_def)

lemma set_insert_all: "set (fold List.insert ks xs) = set ks \<union> set xs"
  by (induction ks arbitrary: xs) auto

lemma index_file_healthy:
  fixes u b :: string
  assumes "kx_healthy w" "map_of (kx_files w) path = Some content" "valid_utf8 content"
    and "chunk_markdown sha i content default_options = Some cs" "cs \<noteq> []"
  defines "p \<equiv> document_prefix sha u b i"
  shows "\<exists>keys. index_file sha u b i path w = (Inr (int (length cs)), w\<lparr>kx_keys := keys\<rparr>) \<and>
    (\<forall>k. starts_with p k \<longrightarrow> (k \<in> set keys) = (k \<in> (\<lambda>c. p @ tc_id c) ` set cs))"
proof -
  let ?retained = "map (\<lambda>c. p @ tc_id c) cs"
  let ?existing = "filter (starts_with p) (kx_keys w)"
  let ?stale = "filter (\<lambda>k. k \<notin> set ?retained) ?existing"
  let ?written = "fold List.insert ?retained (kx_keys w)"
  let ?keys = "if ?stale \<noteq> [] then filter (\<lambda>k. k \<notin> set ?stale) ?written else ?written"
  have w': "kx_healthy (w\<lparr>kx_keys := ?written\<rparr>)" using assms(1) by (simp add: kx_healthy_def)
  have content: "read_file path w = (Inr content, w)"
    using assms(2) by (simp add: read_file_def healthy_bind [OF assms(1)] bind_gets_eval ret_eval)
  have "index_file sha u b i path w = (Inr (int (length cs)), w\<lparr>kx_keys := ?keys\<rparr>)"
    unfolding index_file_def Let_def p_def [symmetric]
    using assms(3-5) by (simp add: bindE_def [of "read_file path"] content bind_guard_eval healthy_bind [OF assms(1)] healthy_bind(5) [OF w'] ret_eval)
  moreover have "(k \<in> set ?keys) = (k \<in> (\<lambda>c. p @ tc_id c) ` set cs)" if "starts_with p k" for k
    using that by (auto simp: set_insert_all filter_empty_conv)
  ultimately show ?thesis by blast
qed

section \<open>The whole task\<close>

text \<open>What the task finds: an active base of its user, its pending document, its readable file.\<close>

definition indexable :: "kx_world \<Rightarrow> index_task \<Rightarrow> knowledge_base \<Rightarrow> knowledge_document \<Rightarrow> string \<Rightarrow> bool" where
  "indexable w t b d content \<longleftrightarrow>
     t \<in> set (kw_tasks (kx_store w)) \<and> it_status t = ItPending \<and> it_type t = IndexWork \<and>
     trim_space (it_user t) \<noteq> [] \<and> trim_space (it_base t) \<noteq> [] \<and>
     find (\<lambda>b. live_base b \<and> kb_id b = it_base t \<and> kb_user b = it_user t) (kw_bases (kx_store w)) = Some b \<and> kb_state b = KbActive \<and>
     d \<in> set (kw_docs (kx_store w)) \<and> live_doc d \<and> kd_status d = DocPending \<and>
     kd_id d = it_document t \<and> kd_base d = it_base t \<and> kd_user d = it_user t \<and>
     map_of (kx_files w) (kd_storage_path d) = Some content \<and> valid_utf8 content \<and> list_ex (\<lambda>r. \<not> is_space r) (runes content)"

lemma new_indexer_healthy:
  assumes "kx_healthy w" "trim_space u \<noteq> []" "trim_space b \<noteq> []" "0 < dimension"
  shows "\<exists>ns. new_knowledge_base_indexer sha dimension u b w = (Inr (), w\<lparr>kx_indexes := ns\<rparr>)"
proof (cases "knowledge_index_name sha u b \<in> set (kx_indexes w)")
  case True
  then have "new_knowledge_base_indexer sha dimension u b w = (Inr (), w\<lparr>kx_indexes := kx_indexes w\<rparr>)"
    using assms(2-4) by (simp add: new_knowledge_base_indexer_def ensure_knowledge_index_def index_exists_def Let_def
        bind_guard_eval bindE_assoc healthy_bind [OF assms(1)] bind_gets_eval ret_eval)
  then show ?thesis by blast
next
  case False
  then have "new_knowledge_base_indexer sha dimension u b w =
      (Inr (), w\<lparr>kx_indexes := List.insert (knowledge_index_name sha u b) (kx_indexes w)\<rparr>)"
    using assms(2-4) by (simp add: new_knowledge_base_indexer_def ensure_knowledge_index_def index_exists_def Let_def
        bind_guard_eval bindE_assoc healthy_bind [OF assms(1)] bind_gets_eval modifies_eval)
  then show ?thesis by blast
qed

lemma get_document_healthy:
  assumes "kb_wf s" "kb_healthy s" "d \<in> set (kw_docs s)" "live_doc d"
  shows "get_document (kd_user d) (kd_base d) (kd_id d) s = (Inr d, s)"
proof -
  let ?P = "\<lambda>x. live_doc x \<and> kd_id x = kd_id d \<and> kd_base x = kd_base d \<and> kd_user x = kd_user d"
  obtain d' where d': "find ?P (kw_docs s) = Some d'" using found [OF assms(3), of ?P] assms(4) by auto
  then have "d' = d" by (rule found_document [OF assms(1,3)])
  then show ?thesis using d' unfolding get_document_def
    by (simp add: database_healthy [OF assms(2)] kb_first_healthy [OF assms(2)])
qed

text \<open>The store after the claim and after the mark.\<close>

definition claimed_store :: "index_task \<Rightarrow> kb_world \<Rightarrow> kb_world" where
  "claimed_store t s = s\<lparr>kw_tasks := update_where (\<lambda>k. it_id k = it_id t \<and> it_status k = ItPending)
     (\<lambda>k. (claimed_itask (kw_clock s) k)\<lparr>it_updated_at := kw_clock s\<rparr>) (kw_tasks s)\<rparr>"

definition marked_store :: "knowledge_document \<Rightarrow> kb_world \<Rightarrow> kb_world" where
  "marked_store d s = s\<lparr>kw_docs := update_where (\<lambda>x. live_doc x \<and> kd_id x = kd_id d \<and> kd_status x = DocPending)
      (\<lambda>d. d\<lparr>kd_status := DocIndexing, kd_error := [], kd_updated_at := kw_clock s\<rparr>) (kw_docs s)\<rparr>"

lemma claimed_store_props:
  assumes "kb_wf s" "kb_healthy s" "t \<in> set (kw_tasks s)" "it_status t = ItPending"
  shows "kb_wf (claimed_store t s)" "kb_healthy (claimed_store t s)" "kw_docs (claimed_store t s) = kw_docs s"
    "kw_bases (claimed_store t s) = kw_bases s"
    "(claimed_itask (kw_clock s) t)\<lparr>it_updated_at := kw_clock s\<rparr> \<in> set (kw_tasks (claimed_store t s))"
  using assms by (auto simp: claimed_store_def kb_wf_def kb_healthy_def map_update_where claimed_itask_def set_update_where image_iff
      intro!: bexI [of _ t])

lemma marked_store_props:
  assumes "kb_wf s" "kb_healthy s" "d \<in> set (kw_docs s)" "live_doc d" "kd_status d = DocPending"
  shows "kb_wf (marked_store d s)" "kb_healthy (marked_store d s)" "kw_tasks (marked_store d s) = kw_tasks s"
    "d\<lparr>kd_status := DocIndexing, kd_error := [], kd_updated_at := kw_clock s\<rparr> \<in> set (kw_docs (marked_store d s))"
  using assms by (auto simp: marked_store_def kb_wf_def kb_healthy_def map_update_where set_update_where image_iff intro!: bexI [of _ d])

text \<open>C26: Alone on healthy services, a pending task with a sound document is carried through: the call
  succeeds, the task succeeded in its next attempt, the document is ready, and the hashes of the
  document in Redis are those of the chunks of its text, no more and no fewer.\<close>

theorem indexing_carried_through:
  assumes "kx_healthy w" "indexable w t b d content" "0 < dimension"
  shows "\<exists>w' cs. process_index_task_now sha dimension (it_id t) w = (Inr (), w') \<and>
    chunk_markdown sha (kd_id d) content default_options = Some cs \<and> cs \<noteq> [] \<and>
    doc_phase (kd_id d) (kx_store w') = Live DocReady \<and>
    task_phase (it_id t) (kx_store w') = Queued IndexWork ItSucceeded (it_attempts t + 1) \<and>
    (\<forall>k. starts_with (document_prefix sha (it_user t) (it_base t) (kd_id d)) k \<longrightarrow>
       (k \<in> set (kx_keys w')) = (k \<in> (\<lambda>c. document_prefix sha (it_user t) (it_base t) (kd_id d) @ tc_id c) ` set cs))"
proof -
  let ?s = "kx_store w" let ?p = "document_prefix sha (it_user t) (it_base t) (kd_id d)"
  have s: "kb_wf ?s" "kb_healthy ?s" using assms(1) by (simp_all add: kx_healthy_def)
  have t: "t \<in> set (kw_tasks ?s)" "it_status t = ItPending" "it_type t = IndexWork" "trim_space (it_user t) \<noteq> []" "trim_space (it_base t) \<noteq> []"
    and b: "find (\<lambda>b. live_base b \<and> kb_id b = it_base t \<and> kb_user b = it_user t) (kw_bases ?s) = Some b" "kb_state b = KbActive"
    and d: "d \<in> set (kw_docs ?s)" "live_doc d" "kd_status d = DocPending" "kd_id d = it_document t" "kd_base d = it_base t" "kd_user d = it_user t"
    and f: "map_of (kx_files w) (kd_storage_path d) = Some content" "valid_utf8 content" "list_ex (\<lambda>r. \<not> is_space r) (runes content)"
    using assms(2) by (simp_all add: indexable_def)
  obtain k where "k < length (runes content)" "\<not> is_space (runes content ! k)"
    using f(3) by (auto simp: list_ex_length)
  then obtain cs where cs: "chunk_markdown sha (kd_id d) content default_options = Some cs" "cs \<noteq> []"
    using default_chunks by blast
  define t1 where "t1 = claimed_itask (kw_clock ?s) t"
  have t1: "it_id t1 = it_id t" "it_type t1 = IndexWork" "it_user t1 = it_user t" "it_base t1 = it_base t"
    "it_document t1 = kd_id d" "it_attempts t1 = it_attempts t + 1"
    using t(3) d(4) by (simp_all add: t1_def claimed_itask_def)
  define s1 where "s1 = claimed_store t ?s"
  note s1 = claimed_store_props [OF s t(1,2), folded s1_def t1_def]
  define w1 where "w1 = w\<lparr>kx_store := s1\<rparr>"
  have w1: "kx_healthy w1" "kx_store w1 = s1" using assms(1) s1(1,2) by (simp_all add: w1_def kx_healthy_def)
  have claim: "bindE (store (claim_itask (it_id t))) g w = g (Some t1) w1" for g :: "index_task option \<Rightarrow> unit kx_call"
    using healthy_store [OF assms(1)] claim_healthy [OF s t(1,2)] by (simp add: t1_def s1_def w1_def claimed_store_def)
  have base: "get_knowledge_base (it_user t) (it_base t) s1 = (Inr b, s1)"
    using b(1) s1(4) by (simp add: get_knowledge_base_def database_healthy [OF s1(2)] kb_first_healthy [OF s1(2)])
  have doc: "get_document (it_user t) (it_base t) (kd_id d) s1 = (Inr d, s1)"
    using get_document_healthy [OF s1(1,2), of d] d s1(3) by simp
  define s2 where "s2 = marked_store d s1"
  have d1: "d \<in> set (kw_docs s1)" using d(1) s1(3) by simp
  note s2 = marked_store_props [OF s1(1,2) d1 d(2,3), folded s2_def]
  have mark: "mark_document_indexing (kd_id d) s1 = (Inr (), s2)"
    using mark_healthy [OF s1(2) d1 d(2,3)] by (simp add: s2_def marked_store_def)
  define w2 where "w2 = w1\<lparr>kx_store := s2\<rparr>"
  have w2: "kx_healthy w2" "kx_store w2 = s2" using w1 s2(1,2) by (simp_all add: w2_def kx_healthy_def)
  obtain ns where ns: "new_knowledge_base_indexer sha dimension (it_user t) (it_base t) w2 = (Inr (), w2\<lparr>kx_indexes := ns\<rparr>)"
    using new_indexer_healthy [OF w2(1) t(4,5) assms(3)] by blast
  define w3 where "w3 = w2\<lparr>kx_indexes := ns\<rparr>"
  have w3: "kx_healthy w3" "map_of (kx_files w3) (kd_storage_path d) = Some content" "kx_store w3 = s2"
    using w2 f(1) by (simp_all add: w3_def w2_def w1_def kx_healthy_def)
  obtain keys where keys: "index_file sha (it_user t) (it_base t) (kd_id d) (kd_storage_path d) w3 = (Inr (int (length cs)), w3\<lparr>kx_keys := keys\<rparr>)"
      "\<forall>k. starts_with ?p k \<longrightarrow> (k \<in> set keys) = (k \<in> (\<lambda>c. ?p @ tc_id c) ` set cs)"
    using index_file_healthy [OF w3(1,2) f(2) cs] by blast
  define w4 where "w4 = w3\<lparr>kx_keys := keys\<rparr>"
  have w4: "kx_healthy w4" "kx_store w4 = s2" using w3 by (simp_all add: w4_def kx_healthy_def)
  let ?row = "t1\<lparr>it_updated_at := kw_clock ?s\<rparr>" and ?doc = "d\<lparr>kd_status := DocIndexing, kd_error := [], kd_updated_at := kw_clock s1\<rparr>"
  have "?row \<in> set (kw_tasks s2)" "owned_attempt (it_id t) (settled_kind (IndexDone (int (length cs)))) (it_attempts t + 1) ?row"
    using s1(5) s2(3) t1 by (simp_all add: owned_attempt_def t1_def claimed_itask_def)
  then obtain s3 where s3: "complete_index_task (it_id t) (kd_id d) (int (length cs)) (it_attempts t + 1) s2 = (Inr (), s3)"
      "task_phase (it_id t) s3 = Queued IndexWork ItSucceeded (it_attempts t + 1)" "doc_phase (kd_id d) s3 = Live DocReady"
    using attempt_settles [OF s2(1,2) _ _ s2(4), of ?row "it_id t" "IndexDone (int (length cs))" "it_attempts t + 1"] d(2)
    by (auto simp: live_doc_def)
  have same: "w1\<lparr>kx_store := s1\<rparr> = w1" by (simp add: w1_def)
  note step = healthy_store [where m = "get_knowledge_base (it_user t) (it_base t)", OF w1(1)]
    healthy_store [where m = "get_document (it_user t) (it_base t) (kd_id d)", OF w1(1)]
    healthy_store [where m = "mark_document_indexing (kd_id d)", OF w1(1)] w1(2)
  have last: "store (complete_index_task (it_id t) (kd_id d) (int (length cs)) (it_attempts t + 1)) w4 = (Inr (), w4\<lparr>kx_store := s3\<rparr>)"
    using w4 s3(1) by (simp add: kx_healthy_def store_quiet)
  have "index_everything sha dimension t1 w1 = (Inr (), w4\<lparr>kx_store := s3\<rparr>)"
    unfolding index_everything_def t1
    by (simp add: step base doc mark same b(2) d(3) bind_guard_eval bindE_Inr [where m = "new_knowledge_base_indexer sha dimension (it_user t) (it_base t)", OF ns]
        bindE_Inr [where m = "index_file sha (it_user t) (it_base t) (kd_id d) (kd_storage_path d)", OF keys(1)]
        w2_def [symmetric] w3_def [symmetric] w4_def [symmetric] last [simplified])
  then have "process_index_task_now sha dimension (it_id t) w = (Inr (), w4\<lparr>kx_store := s3\<rparr>)"
    unfolding process_index_task_now_def claim by (simp add: t1(2) process_index_def bindE_def tryE_def ret_eval)
  then show ?thesis using cs s3(2,3) keys(2) by (intro exI [of _ "w4\<lparr>kx_store := s3\<rparr>"] exI [of _ cs]) (simp add: w4_def)
qed

section \<open>An error before the document is marked\<close>

lemma kb_statement_cases:
  assumes "kb_statement body s = (r, s')"
  obtains (fault) f where "r = Inl (KbDriver f)" | (run) fs where "body (s\<lparr>kw_faults := fs\<rparr>) = (r, s')"
proof (cases "kw_faults s")
  case Nil
  have same: "s\<lparr>kw_faults := []\<rparr> = s" using Nil by (metis kb_world.surjective kb_world.update_convs(6))
  have "body (s\<lparr>kw_faults := []\<rparr>) = (r, s')" unfolding same using assms Nil by (simp add: kb_statement_def)
  then show ?thesis by (rule run)
next
  case (Cons f fs)
  then show ?thesis using assms that by (cases f) (auto simp: kb_statement_def)
qed

lemma kb_transaction_Inl:
  assumes "\<And>s' r u. kw_docs s' = kw_docs s \<Longrightarrow> m s' = (r, u) \<Longrightarrow> \<exists>e. r = Inl e \<and> P e" and "\<And>f. P (KbDriver f)"
  shows "\<exists>e s'. kb_transaction m s = (Inl e, s') \<and> P e"
proof (cases "kb_statement (ret ()) s")
  case (Pair r v)
  show ?thesis
  proof (cases r)
    case (Inl e)
    then have "P e" using Pair assms(2) by (auto elim!: kb_statement_cases)
    then show ?thesis using Pair Inl by (simp add: kb_transaction_def bindE_def)
  next
    case (Inr x)
    then have "kw_docs v = kw_docs s" using Pair by (auto elim!: kb_statement_InrE)
    moreover obtain q u where q: "m v = (q, u)" by fastforce
    ultimately obtain e where "q = Inl e" "P e" using assms(1) by blast
    then show ?thesis using Pair Inr q by (simp add: kb_transaction_def bindE_def)
  qed
qed

lemma fail_index_refused:
  assumes "\<not> list_ex (\<lambda>d. live_doc d \<and> kd_id d = j \<and> kd_status d = DocIndexing) (kw_docs s)"
  shows "\<exists>e s'. fail_index_task i j m retry n s = (Inl e, s') \<and> e \<noteq> TaskSuperseded \<and> kb_tables s' = kb_tables s"
proof -
  let ?P = "\<lambda>d. kd_id d = j \<and> kd_status d = DocIndexing"
  have body: "\<exists>e. r = Inl e \<and> e \<noteq> TaskSuperseded"
    if "kw_docs s' = kw_docs s" "bindE (update_docs ?P f) (\<lambda>c. bindE (guardE (c \<noteq> 0) DocumentLifecycleChanged) g) s' = (r, u)" for s' r u f and g :: "unit \<Rightarrow> unit kb_call"
  proof -
    have none: "count_where (\<lambda>d. live_doc d \<and> kd_id d = j \<and> kd_status d = DocIndexing) (kw_docs s) = 0"
      using assms by (auto simp: count_where_0 list_ex_iff)
    from that(2) show ?thesis
    proof (cases rule: bindE_cases)
      case (first_fails e)
      then show ?thesis unfolding update_docs_def by (auto elim!: kb_statement_cases simp: Let_def)
    next
      case (both x v)
      from both(1) have "x = 0"
        unfolding update_docs_def by (auto elim!: kb_statement_cases simp: Let_def that(1) none)
      then show ?thesis using both(2) by (auto simp: bind_guard_eval)
    qed
  qed
  have "\<exists>e s'. fail_index_task i j m retry n s = (Inl e, s') \<and> e \<noteq> TaskSuperseded"
  proof (cases "kw_connected s")
    case True
    show ?thesis
      unfolding fail_index_task_def database_eval Let_def kb_now_def bind_gets_eval if_P [OF True]
      by (rule kb_transaction_Inl, erule (1) body) simp
  qed (simp add: fail_index_task_def database_eval)
  then obtain e s' where run: "fail_index_task i j m retry n s = (Inl e, s')" "e \<noteq> TaskSuperseded" by blast
  then have "kb_tables s' = kb_tables s" using undone_settle [of "IndexFailed m retry" i j n] by (auto simp: undone_def)
  then show ?thesis using run by blast
qed

text \<open>C36: an indexing run that fails with an ordinary error before it has marked its document (say, the
  first read of the database fails) is not recorded as failed and not put back: the attempt to record
  it is refused as well, no row changes, and the task stays as it was until the recovery of stale tasks.\<close>

theorem early_failure_not_recorded:
  assumes "index_everything sha dimension t w = (Inl e, u)" "kx_others u = []"
    and "e \<noteq> superseded" "e \<noteq> InStore DocumentLifecycleChanged" "e \<noteq> SvcConflict"
    and "\<not> list_ex (\<lambda>d. live_doc d \<and> kd_id d = it_document t \<and> kd_status d = DocIndexing) (kw_docs (kx_store u))"
  shows "\<exists>e' w'. process_index sha dimension t w = (Inl (UpdateFailed e e'), w') \<and> kb_tables (kx_store w') = kb_tables (kx_store u)"
proof -
  let ?m = "if e = InStore KbNotFound \<or> e = SvcNotFound then gone_text else index_failed_text"
  let ?r = "it_attempts t < max_index_attempts \<and> e \<noteq> SvcConflict \<and> e \<noteq> InStore KbNotFound"
  obtain e' s' where f: "fail_index_task (it_id t) (it_document t) ?m ?r (it_attempts t) (kx_store u) = (Inl e', s')"
      "e' \<noteq> TaskSuperseded" "kb_tables s' = kb_tables (kx_store u)"
    using fail_index_refused [OF assms(6)] by blast
  have "store (fail_index_task (it_id t) (it_document t) ?m ?r (it_attempts t)) u = (Inl (InStore e'), u\<lparr>kx_store := s'\<rparr>)"
    using f(1) by (simp add: store_quiet [OF assms(2)])
  then have "after_index_error sha t e u = (Inl (UpdateFailed e (InStore e')), u\<lparr>kx_store := s'\<rparr>)"
    using assms(3-5) f(2) unfolding after_index_error_def unless_superseded_def
    by (simp add: bindE_def tryE_def superseded_def fail_eval)
  then have "process_index sha dimension t w = (Inl (UpdateFailed e (InStore e')), u\<lparr>kx_store := s'\<rparr>)"
    using assms(1) by (simp add: process_index_def bindE_def tryE_def)
  then show ?thesis using f(3) by fastforce
qed

end
