(* ===== verification/KbService.thy ===== *)
theory KbService
  imports KbIndexing
begin

text \<open>
  \<open>src/service/knowledgebase/service.go\<close>: the operations the API offers on knowledge bases and
  documents. Identifiers come from a numbered supply, the multipart file is its name, declared size,
  content type and bytes. The retrieval engine is not modelled: \<open>retrieve\<close> returns the request that
  reaches it.
\<close>

section \<open>Parameters and inputs\<close>

record kb_env =
  ke_sha :: "string \<Rightarrow> string"
  ke_dimension :: int
  ke_root :: string
  ke_uuid :: "nat \<Rightarrow> string"

record upload =
  up_name :: string
  up_size :: int
  up_content_type :: string
  up_bytes :: string

definition default_knowledge_base_name :: string where
  "default_knowledge_base_name = string_of_runes [40664, 35748, 30693, 35782, 24211]"

definition auto_created_text :: string where
  "auto_created_text = string_of_runes [30001, 20860, 23481, 19978, 20256, 25509, 21475, 33258, 21160, 21019, 24314]"

definition max_document_bytes :: nat where "max_document_bytes = 20 * 1048576"
definition max_page_size :: int where "max_page_size = 100"
definition max_search_query_runes :: nat where "max_search_query_runes = 16000"

definition new_uuid :: "kb_env \<Rightarrow> string kx_call" where
  "new_uuid env = bindE (gets kx_uuids) (\<lambda>n. bindE (modifies (\<lambda>w. w\<lparr>kx_uuids := Suc n\<rparr>)) (\<lambda>_. ret (ke_uuid env n)))"

definition normalize_not_found :: "kx_error \<Rightarrow> kx_error" where
  "normalize_not_found e = (if e = InStore KbNotFound then SvcNotFound else e)"

definition owned_base :: "string \<Rightarrow> string \<Rightarrow> knowledge_base kx_call" where
  "owned_base userName baseID =
     bindE (guardE (trim_space userName \<noteq> [] \<and> trim_space baseID \<noteq> []) SvcInvalidInput) (\<lambda>_.
     map_err normalize_not_found (store (get_knowledge_base userName baseID)))"

section \<open>Bases\<close>

definition new_base :: "string \<Rightarrow> string \<Rightarrow> string \<Rightarrow> string \<Rightarrow> knowledge_base" where
  "new_base i userName name description = \<lparr>kb_id = i, kb_user = userName, kb_name = name, kb_description = description,
     kb_state = KbActive, kb_created_at = 0, kb_updated_at = 0, kb_deleted_at = None\<rparr>"

definition svc_create :: "kb_env \<Rightarrow> string \<Rightarrow> string \<Rightarrow> string \<Rightarrow> knowledge_base kx_call" where
  "svc_create env userName0 name0 description0 =
     (let userName = trim_space userName0; name = trim_space name0; description = trim_space description0 in
      bindE (guardE (userName \<noteq> [] \<and> name \<noteq> [] \<and> rune_count name \<le> 100 \<and> rune_count description \<le> 1000) SvcInvalidInput) (\<lambda>_.
      bindE (new_uuid env) (\<lambda>i.
      let base = new_base i userName name description in
      bindE (store (create_knowledge_base base)) (\<lambda>_. ret base))))"

definition svc_list :: "string \<Rightarrow> int \<Rightarrow> int \<Rightarrow> kb_summary list kx_call" where
  "svc_list userName page0 pageSize =
     bindE (guardE (trim_space userName \<noteq> []) SvcInvalidInput) (\<lambda>_.
     let page = (if page0 \<le> 0 then 1 else page0);
         size1 = (if pageSize \<le> 0 then 20 else pageSize);
         limit = (if max_page_size < size1 then max_page_size else size1)
     in store (list_knowledge_bases userName (nat ((page - 1) * limit)) (nat limit)))"

definition svc_get :: "string \<Rightarrow> string \<Rightarrow> (knowledge_base \<times> knowledge_document list) kx_call" where
  "svc_get userName baseID = bindE (owned_base userName baseID) (\<lambda>base.
     bindE (store (list_documents userName (kb_id base))) (\<lambda>docs. ret (base, docs)))"

definition svc_list_documents :: "string \<Rightarrow> string \<Rightarrow> knowledge_document list kx_call" where
  "svc_list_documents userName baseID = bindE (owned_base userName baseID) (\<lambda>base. store (list_documents userName (kb_id base)))"

definition svc_get_document_status :: "string \<Rightarrow> string \<Rightarrow> string \<Rightarrow> (knowledge_document \<times> index_task option) kx_call" where
  "svc_get_document_status userName baseID docID =
     bindE (owned_base userName baseID) (\<lambda>_.
     bindE (map_err normalize_not_found (store (get_document userName baseID docID))) (\<lambda>d.
     bindE (tryE (store (get_latest_document_task userName baseID docID))) (\<lambda>r. case r of
       Inl e \<Rightarrow> if e = InStore KbNotFound then ret (d, None) else fail e
     | Inr t \<Rightarrow> ret (d, Some t))))"

definition svc_get_index_task :: "string \<Rightarrow> string \<Rightarrow> index_task kx_call" where
  "svc_get_index_task userName taskID =
     bindE (guardE (trim_space userName \<noteq> [] \<and> trim_space taskID \<noteq> []) SvcInvalidInput) (\<lambda>_.
     map_err normalize_not_found (store (get_index_task userName taskID)))"

section \<open>Uploads\<close>

text \<open>\<open>filepath.Base\<close> and \<open>filepath.Ext\<close>.\<close>

definition after_last_slash :: "string \<Rightarrow> string" where
  "after_last_slash s = rev (takeWhile (\<lambda>c. c \<noteq> CHR ''/'') (rev s))"

definition base_name :: "string \<Rightarrow> string" where
  "base_name s = (if s = [] then ''.''
     else let t = rev (dropWhile (\<lambda>c. c = CHR ''/'') (rev s)) in if t = [] then ''/'' else after_last_slash t)"

definition extension_of :: "string \<Rightarrow> string" where
  "extension_of s = (let n = after_last_slash s in
     if CHR ''.'' \<in> set n then CHR ''.'' # rev (takeWhile (\<lambda>c. c \<noteq> CHR ''.'') (rev n)) else [])"

definition validate_file :: "upload \<Rightarrow> bool" where
  "validate_file h \<longleftrightarrow> to_lower (extension_of (up_name h)) \<in> {''.md'', ''.txt''}"

definition safe_original_name :: "string \<Rightarrow> string" where
  "safe_original_name name0 = (let name = trim_space (base_name name0) in
     if name = [] \<or> name = ''.'' then ''document.txt''
     else if 255 < length (runes name) then string_of_runes (take 255 (runes name)) else name)"

text \<open>The path of an upload; the configured directory is taken to be in clean form.\<close>

definition upload_path :: "kb_env \<Rightarrow> string \<Rightarrow> string \<Rightarrow> string \<Rightarrow> upload \<Rightarrow> string" where
  "upload_path env userName baseID docID h =
     (let root = (if trim_space (ke_root env) = [] then ''uploads'' else trim_space (ke_root env))
      in root @ ''/knowledge-bases/'' @ take 16 (ke_sha env userName) @ ''/'' @ baseID @ ''/'' @ docID @ to_lower (extension_of (up_name h)))"

definition put_file :: "string \<Rightarrow> string \<Rightarrow> unit kx_call" where
  "put_file path content = modifies (\<lambda>w. w\<lparr>kx_files := (path, content) # filter (\<lambda>f. fst f \<noteq> path) (kx_files w)\<rparr>)"

definition remove_quietly :: "string \<Rightarrow> unit kx_call" where
  "remove_quietly path = bindE (tryE (remove_file path)) (\<lambda>_. ret ())"

text \<open>Copying into the temporary file: how many bytes arrived, and whether copying or closing failed.\<close>

definition copy_upload :: "string \<Rightarrow> upload \<Rightarrow> (nat \<times> bool) kx_call" where
  "copy_upload temporary h = bindE ask (\<lambda>r.
     let written = (case r of Fine \<Rightarrow> min (length (up_bytes h)) (max_document_bytes + 1)
       | Broken n \<Rightarrow> min n (min (length (up_bytes h)) (max_document_bytes + 1)))
     in bindE (put_file temporary (take written (up_bytes h))) (\<lambda>_. ret (written, r \<noteq> Fine)))"

definition persist_upload :: "kb_env \<Rightarrow> upload \<Rightarrow> string \<Rightarrow> string \<Rightarrow> string \<Rightarrow> (string \<times> nat \<times> string) kx_call" where
  "persist_upload env h userName baseID docID =
     (let path = upload_path env userName baseID docID h; temporary = path @ ''.uploading'' in
      bindE (attempt_of FileFailure) (\<lambda>_.
      bindE (attempt_of FileFailure) (\<lambda>_.
      bindE (attempt_of FileFailure) (\<lambda>_.
      bindE (gets (\<lambda>w. map_of (kx_files w) temporary)) (\<lambda>there.
      bindE (guardE (there = None) FileFailure) (\<lambda>_.
      bindE (put_file temporary []) (\<lambda>_.
      bindE (copy_upload temporary h) (\<lambda>(written, failed).
      if failed \<or> written = 0 \<or> max_document_bytes < written then
        bindE (remove_quietly temporary) (\<lambda>_. fail (if max_document_bytes < written \<or> written = 0 then SvcInvalidInput else FileFailure))
      else
        bindE ask (\<lambda>r.
        if r \<noteq> Fine then bindE (remove_quietly temporary) (\<lambda>_. fail FileFailure)
        else
          bindE (modifies (\<lambda>w. w\<lparr>kx_files := filter (\<lambda>f. fst f \<noteq> temporary) (kx_files w)\<rparr>)) (\<lambda>_.
          bindE (put_file path (take written (up_bytes h))) (\<lambda>_.
          ret (path, written, ke_sha env (take written (up_bytes h))))))))))))))"

definition uploaded_document :: "string \<Rightarrow> string \<Rightarrow> string \<Rightarrow> upload \<Rightarrow> string \<Rightarrow> nat \<Rightarrow> string \<Rightarrow> knowledge_document" where
  "uploaded_document i baseID userName h path bytes checksum = \<lparr>kd_id = i, kd_base = baseID, kd_user = userName,
     kd_original_name = safe_original_name (up_name h), kd_storage_path = path, kd_content_type = up_content_type h,
     kd_size = int bytes, kd_checksum = checksum, kd_status = DocPending, kd_chunk_count = 0, kd_error = [],
     kd_created_at = 0, kd_updated_at = 0, kd_deleted_at = None\<rparr>"

definition new_itask :: "string \<Rightarrow> string \<Rightarrow> string \<Rightarrow> string \<Rightarrow> itask_type \<Rightarrow> index_task" where
  "new_itask i baseID docID userName k = \<lparr>it_id = i, it_base = baseID, it_document = docID, it_user = userName, it_type = k,
     it_status = ItPending, it_attempts = 0, it_error = [], it_started_at = None, it_finished_at = None, it_created_at = 0, it_updated_at = 0\<rparr>"

text \<open>The rows and the file of an upload; the caller enqueues or processes the task.\<close>

definition store_upload :: "kb_env \<Rightarrow> string \<Rightarrow> string \<Rightarrow> upload \<Rightarrow> (knowledge_document \<times> index_task) kx_call" where
  "store_upload env userName baseID h =
     bindE (guardE (up_size h \<noteq> 0 \<and> up_size h \<le> int max_document_bytes) SvcInvalidInput) (\<lambda>_.
     bindE (guardE (validate_file h) SvcInvalidInput) (\<lambda>_.
     bindE (owned_base userName baseID) (\<lambda>base.
     bindE (guardE (kb_state base = KbActive) SvcConflict) (\<lambda>_.
     bindE (new_uuid env) (\<lambda>docID.
     bindE (persist_upload env h userName (kb_id base) docID) (\<lambda>(path, bytes, checksum).
     let document = uploaded_document docID (kb_id base) userName h path bytes checksum in
     bindE (new_uuid env) (\<lambda>taskID.
     let task = new_itask taskID (kb_id base) docID userName IndexWork in
     bindE (tryE (store (create_document_and_task document task))) (\<lambda>r. case r of
       Inl e \<Rightarrow> bindE (remove_quietly path) (\<lambda>_. fail e)
     | Inr x \<Rightarrow> ret (document, task)))))))))"

definition upload_document :: "kb_env \<Rightarrow> string \<Rightarrow> string \<Rightarrow> upload \<Rightarrow> bool \<Rightarrow> (knowledge_document \<times> index_task) kx_call" where
  "upload_document env userName baseID h async =
     bindE (store_upload env userName baseID h) (\<lambda>(document, task).
     if async then bindE (enqueue_index_task (it_id task)) (\<lambda>_. ret (document, task))
     else
       bindE (process_index_task_now (ke_sha env) (ke_dimension env) (it_id task)) (\<lambda>_.
       bindE (tryE (svc_get_document_status userName (kd_base document) (kd_id document))) (\<lambda>r. case r of
         Inl e \<Rightarrow> ret (document, task)
       | Inr (d, t) \<Rightarrow> ret (d, case t of None \<Rightarrow> task | Some t \<Rightarrow> t))))"

definition upload_legacy :: "kb_env \<Rightarrow> string \<Rightarrow> upload \<Rightarrow> string kx_call" where
  "upload_legacy env userName h =
     bindE (tryE (store (find_knowledge_base_by_name userName default_knowledge_base_name))) (\<lambda>r.
     bindE (case r of
         Inl e \<Rightarrow> if e = InStore KbNotFound then svc_create env userName default_knowledge_base_name auto_created_text else fail e
       | Inr base \<Rightarrow> ret base) (\<lambda>base.
     bindE (upload_document env userName (kb_id base) h False) (\<lambda>(document, task). ret (kd_storage_path document))))"

section \<open>Retrieval\<close>

record retrieval =
  rv_user :: string
  rv_bases :: "string list"
  rv_top :: int
  rv_query :: string

fun owned_ids :: "string \<Rightarrow> string list \<Rightarrow> string list \<Rightarrow> string list \<Rightarrow> string list kx_call" where
  "owned_ids userName [] seen owned = ret owned"
| "owned_ids userName (i # is) seen owned =
     (if i \<in> set seen then owned_ids userName is seen owned
      else bindE (owned_base userName i) (\<lambda>base.
        bindE (guardE (kb_state base = KbActive) SvcConflict) (\<lambda>_. owned_ids userName is (i # seen) (owned @ [kb_id base]))))"

definition retrieve :: "string \<Rightarrow> string list \<Rightarrow> string \<Rightarrow> int \<Rightarrow> retrieval kx_call" where
  "retrieve userName ids query0 top0 = (let query = trim_space query0 in
     bindE (guardE (query \<noteq> [] \<and> valid_utf8 query \<and> rune_count query \<le> max_search_query_runes \<and> ids \<noteq> [] \<and> length ids \<le> 20) SvcInvalidInput) (\<lambda>_.
     bindE (owned_ids userName ids [] []) (\<lambda>owned.
     let top1 = (if top0 \<le> 0 then 5 else top0); top = (if 20 < top1 then 20 else top1)
     in ret \<lparr>rv_user = userName, rv_bases = owned, rv_top = top, rv_query = query\<rparr>)))"

section \<open>Deletion\<close>

definition schedule_delete_document :: "kb_env \<Rightarrow> string \<Rightarrow> string \<Rightarrow> string \<Rightarrow> index_task kx_call" where
  "schedule_delete_document env userName baseID docID =
     bindE (owned_base userName baseID) (\<lambda>_.
     bindE (new_uuid env) (\<lambda>i.
     let task = new_itask i baseID docID userName DeleteWork in
     bindE (tryE (store (create_delete_document_task userName baseID docID task))) (\<lambda>r. case r of
       Inl e \<Rightarrow> if e = InStore DeleteAlreadyScheduled then store (get_active_delete_task userName baseID docID)
         else fail (normalize_not_found e)
     | Inr x \<Rightarrow> bindE (enqueue_index_task (it_id task)) (\<lambda>_. ret task))))"

definition svc_delete_document :: "kb_env \<Rightarrow> string \<Rightarrow> string \<Rightarrow> string \<Rightarrow> unit kx_call" where
  "svc_delete_document env userName baseID docID = bindE (schedule_delete_document env userName baseID docID) (\<lambda>_. ret ())"

text \<open>On an error the base is made active again, as far as the database allows it.\<close>

definition or_restore :: "string \<Rightarrow> string \<Rightarrow> (kx_error \<Rightarrow> kx_error) \<Rightarrow> 'a kx_call \<Rightarrow> 'a kx_call" where
  "or_restore userName baseID f m = bindE (tryE m) (\<lambda>r. case r of
     Inl e \<Rightarrow> bindE (tryE (store (restore_knowledge_base_active userName baseID))) (\<lambda>_. fail (f e))
   | Inr x \<Rightarrow> ret x)"

fun delete_documents :: "kb_env \<Rightarrow> string \<Rightarrow> string \<Rightarrow> knowledge_document list \<Rightarrow> unit kx_call" where
  "delete_documents env userName baseID [] = ret ()"
| "delete_documents env userName baseID (d # ds) =
     bindE (delete_knowledge_document_index (ke_sha env) userName baseID (kd_id d)) (\<lambda>_.
     bindE (remove_file (kd_storage_path d)) (\<lambda>_. delete_documents env userName baseID ds))"

definition svc_delete :: "kb_env \<Rightarrow> string \<Rightarrow> string \<Rightarrow> unit kx_call" where
  "svc_delete env userName baseID =
     bindE (owned_base userName baseID) (\<lambda>base.
     bindE (map_err normalize_not_found (store (mark_knowledge_base_deleting userName (kb_id base)))) (\<lambda>_.
     bindE (or_restore userName (kb_id base) id (store (list_documents userName (kb_id base)))) (\<lambda>docs.
     bindE (or_restore userName (kb_id base) id (delete_documents env userName (kb_id base) docs)) (\<lambda>_.
     bindE (or_restore userName (kb_id base) id (delete_knowledge_base_index (ke_sha env) userName (kb_id base))) (\<lambda>_.
     or_restore userName (kb_id base) normalize_not_found (store (delete_knowledge_base_records userName (kb_id base))))))))"

end
