(* ===== verification/KbServiceSafety.thy ===== *)
theory KbServiceSafety
  imports KbService
begin

text \<open>
  What the knowledge base service guarantees: with its requests, the worker and everything else
  interleaved, deletion is final; an upload is stored whole or not at all; a deletion that is
  accepted has an active task; and retrieval reaches only bases the caller owns.
\<close>

section \<open>The whole service\<close>

datatype svc_request =
    ReqCreate string string string | ReqList string int int | ReqGet string string | ReqListDocuments string string
  | ReqStatus string string string | ReqTask string string | ReqUpload string string upload bool | ReqUploadLegacy string upload
  | ReqRetrieve string "string list" string int | ReqDeleteDocument string string string | ReqDelete string string
  | ReqStartWorker | WorkerTurn kx_turn

fun svc_handle :: "kb_env \<Rightarrow> svc_request \<Rightarrow> unit kx_call" where
  "svc_handle env (ReqCreate u n d) = logged (svc_create env u n d)"
| "svc_handle env (ReqList u p s) = logged (svc_list u p s)"
| "svc_handle env (ReqGet u b) = logged (svc_get u b)"
| "svc_handle env (ReqListDocuments u b) = logged (svc_list_documents u b)"
| "svc_handle env (ReqStatus u b d) = logged (svc_get_document_status u b d)"
| "svc_handle env (ReqTask u i) = logged (svc_get_index_task u i)"
| "svc_handle env (ReqUpload u b h async) = logged (upload_document env u b h async)"
| "svc_handle env (ReqUploadLegacy u h) = logged (upload_legacy env u h)"
| "svc_handle env (ReqRetrieve u ids q k) = logged (retrieve u ids q k)"
| "svc_handle env (ReqDeleteDocument u b d) = logged (svc_delete_document env u b d)"
| "svc_handle env (ReqDelete u b) = logged (svc_delete env u b)"
| "svc_handle env ReqStartWorker = logged start_index_worker"
| "svc_handle env (WorkerTurn x) = worker_step (ke_sha env) (ke_dimension env) x"

fun svc_run :: "kb_env \<Rightarrow> svc_request list \<Rightarrow> unit kx_call" where
  "svc_run env [] = ret ()"
| "svc_run env (x # xs) = bindE (svc_handle env x) (\<lambda>_. svc_run env xs)"

lemma more_ops_move:
  "keeps moves_along (create_knowledge_base b)" "keeps moves_along (find_knowledge_base_by_name u n)"
  "keeps moves_along (list_knowledge_bases u k m)" "keeps moves_along (list_documents u i)" "keeps moves_along (get_index_task u i)"
  "keeps moves_along (get_latest_document_task u i d)" "keeps moves_along (create_document_and_task x t)"
  "keeps moves_along (create_delete_document_task u i d t)" "keeps moves_along (get_active_delete_task u i d)"
  "keeps moves_along (mark_knowledge_base_deleting u i)" "keeps moves_along (restore_knowledge_base_active u i)"
  "keeps moves_along (delete_knowledge_base_records u i)"
  by (rule life.keeps_kb_bases life.keeps_list_knowledge_bases life.keeps_kb_queries life.keeps_create_document_and_task
      life.keeps_create_delete_document_task life.keeps_kb_deletions)+

lemma plain_changes_move:
  "keeps stores_move (modifies (\<lambda>w. w\<lparr>kx_uuids := f w\<rparr>))" "keeps stores_move (modifies (\<lambda>w. w\<lparr>kx_started := g w\<rparr>))"
  by (auto intro!: moving.keeps_modifies moving.rest_kept)

lemmas svc_intros = worker_intros more_ops_move plain_changes_move

lemma helpers_move: "keeps stores_move (new_uuid env)" "keeps stores_move (owned_base u b)"
  "keeps stores_move (put_file path content)" "keeps stores_move (remove_quietly path)" "keeps stores_move (copy_upload path h)"
  unfolding new_uuid_def owned_base_def put_file_def remove_quietly_def copy_upload_def Let_def
  by (intro svc_intros)+

lemma queries_move: "keeps stores_move (svc_create env u n d)" "keeps stores_move (svc_list u p s)" "keeps stores_move (svc_get u b)"
  "keeps stores_move (svc_list_documents u b)" "keeps stores_move (svc_get_document_status u b i)" "keeps stores_move (svc_get_index_task u i)"
  unfolding svc_create_def svc_list_def svc_get_def svc_list_documents_def svc_get_document_status_def svc_get_index_task_def Let_def
  by (intro svc_intros helpers_move)+

lemma persist_moves: "keeps stores_move (persist_upload env h u b i)"
  unfolding persist_upload_def Let_def by (intro svc_intros moving.keeps_attempt helpers_move)

lemma uploads_move: "keeps stores_move (store_upload env u b h)" "keeps stores_move (upload_document env u b h async)"
  "keeps stores_move (upload_legacy env u h)"
proof -
  show store: "keeps stores_move (store_upload env u b h)" for u b
    unfolding store_upload_def Let_def by (intro svc_intros helpers_move persist_moves)
  show upload: "keeps stores_move (upload_document env u b h async)" for u b async
    unfolding upload_document_def by (intro svc_intros store process_moves queries_move)
  show "keeps stores_move (upload_legacy env u h)"
    unfolding upload_legacy_def by (intro svc_intros upload queries_move)
qed

lemma owned_ids_move: "keeps stores_move (owned_ids u is seen owned)"
proof (induction "is" arbitrary: seen owned)
  case (Cons i "is")
  show ?case unfolding owned_ids.simps by (intro svc_intros helpers_move Cons.IH)
qed (simp add: moving.keeps_ret)

lemma delete_documents_move: "keeps stores_move (delete_documents env u b ds)"
proof (induction ds)
  case (Cons d ds)
  show ?case unfolding delete_documents.simps by (intro svc_intros Cons.IH)
qed (simp add: moving.keeps_ret)

lemma or_restore_moves: "keeps stores_move m \<Longrightarrow> keeps stores_move (or_restore u b f m)"
  unfolding or_restore_def by (intro svc_intros)

lemma changes_move: "keeps stores_move (retrieve u ids q k)" "keeps stores_move (svc_delete_document env u b d)"
  "keeps stores_move (svc_delete env u b)" "keeps stores_move start_index_worker"
  unfolding retrieve_def svc_delete_document_def schedule_delete_document_def svc_delete_def start_index_worker_def Let_def
  by (intro svc_intros helpers_move owned_ids_move or_restore_moves delete_documents_move)+

lemma svc_handle_moves: "keeps stores_move (svc_handle env x)"
  by (cases x) (simp_all add: logged_moves queries_move uploads_move changes_move worker_step_moves)

lemma svc_run_moves: "keeps stores_move (svc_run env xs)"
proof (induction xs)
  case (Cons x xs)
  show ?case unfolding svc_run.simps by (intro svc_intros svc_handle_moves Cons.IH)
qed (simp add: moving.keeps_ret)

text \<open>C24: Deletion is final: requests of the API and turns of the worker in any order, with any operations of
  the store by other processes between any two of their calls and any failures, never bring back a
  document that is being deleted or removed: no late indexing run, retry or recovery revives it.\<close>

theorem deletion_is_final:
  assumes "kb_wf (kx_store w)" "doc_phase i (kx_store w) \<in> {Live DocDeleting, Removed}" "svc_run env xs w = (r, w')"
  shows "doc_phase i (kx_store w') \<in> {Live DocDeleting, Removed}"
  using keepsD [OF svc_run_moves assms(3)] assms(1,2) deleting_closed
  unfolding stores_move_def moves_along_def by blast

section \<open>Retrieval\<close>

interpretation same: kb_relation "\<lambda>s t. kb_tables t = kb_tables s"
  by unfold_locales auto

definition active_base_of :: "string \<Rightarrow> kx_world \<Rightarrow> string \<Rightarrow> bool" where
  "active_base_of u w i \<longleftrightarrow> (\<exists>b \<in> set (kw_bases (kx_store w)). live_base b \<and> kb_id b = i \<and> kb_user b = u \<and> kb_state b = KbActive)"

lemma owned_base_quiet:
  assumes "owned_base u i w = (Inr b, w')" "kx_others w = []"
  shows "b \<in> set (kw_bases (kx_store w)) \<and> live_base b \<and> kb_id b = i \<and> kb_user b = u \<and>
    kb_tables (kx_store w') = kb_tables (kx_store w) \<and> kx_others w' = [] \<and> kx_files w' = kx_files w \<and> kx_replies w' = kx_replies w \<and> kx_uuids w' = kx_uuids w"
proof -
  let ?q = "\<lambda>w. find (\<lambda>b. live_base b \<and> kb_id b = i \<and> kb_user b = u) (kw_bases w)"
  obtain s where s: "get_knowledge_base u i (kx_store w) = (Inr b, s)" "w' = w\<lparr>kx_store := s\<rparr>"
    using assms by (auto simp: owned_base_def bind_guard_eval map_err_def store_quiet split: if_splits prod.splits sum.splits)
      (auto simp: map_sum_def split: sum.splits)
  have "kb_tables s = kb_tables (kx_store w)"
    by (rule keepsD [where R = "\<lambda>s t. kb_tables t = kb_tables s" and m = "get_knowledge_base u i", rotated, OF s(1)])
      (unfold get_knowledge_base_def, intro same.keeps_intros same.keeps_kb_reads)
  moreover have "kb_first ?q (kx_store w) = (Inr b, s)"
    using s(1) unfolding get_knowledge_base_def database_eval by (metis Inl_Inr_False Pair_inject)
  then have "?q (kx_store w) = Some b" by (rule kb_first_Inr) simp
  then have "b \<in> set (kw_bases (kx_store w)) \<and> live_base b \<and> kb_id b = i \<and> kb_user b = u" by (auto dest: find_SomeD)
  ultimately show ?thesis using s(2) assms(2) by simp
qed

lemma active_base_tables: "kb_tables (kx_store w') = kb_tables (kx_store w) \<Longrightarrow> active_base_of u w' i = active_base_of u w i"
  by (simp add: active_base_of_def kb_tables_def)

lemma owned_ids_quiet:
  assumes "owned_ids u is seen owned w = (Inr ids, w')" "kx_others w = []" "distinct owned" "set owned = set seen"
    "\<forall>i \<in> set owned. active_base_of u w i"
  shows "distinct ids \<and> (\<forall>i \<in> set ids. active_base_of u w i) \<and> set ids = set owned \<union> set is"
  using assms
proof (induction "is" arbitrary: seen owned w)
  case Nil
  then show ?case by auto
next
  case (Cons i "is")
  show ?case
  proof (cases "i \<in> set seen")
    case True
    then show ?thesis using Cons.IH [of seen owned w] Cons.prems by auto
  next
    case False
    then obtain b v where b: "owned_base u i w = (Inr b, v)" "kb_state b = KbActive"
        "owned_ids u is (i # seen) (owned @ [kb_id b]) v = (Inr ids, w')"
      using Cons.prems(1) by (auto elim!: bindE_InrE)
    note v = owned_base_quiet [OF b(1) Cons.prems(2)]
    then have act: "active_base_of u w i" "kb_id b = i" using b(2) by (auto simp: active_base_of_def)
    have same: "active_base_of u v j = active_base_of u w j" for j using v by (intro active_base_tables) simp
    have "distinct (owned @ [kb_id b])" "set (owned @ [kb_id b]) = set (i # seen)" "\<forall>j \<in> set (owned @ [kb_id b]). active_base_of u v j"
      using Cons.prems(3-5) False act same by auto
    then show ?thesis using Cons.IH [OF b(3)] v act same by auto
  qed
qed

text \<open>A retrieval that is let through reaches the engine with between one and twenty distinct bases, the
  requested ones, all of them active and owned by the caller, a bound of one to twenty results, and a
  trimmed non-empty query of bounded length in valid UTF-8.\<close>

lemma retrieval_owned:
  assumes "retrieve u ids query k w = (Inr q, w')" "kx_others w = []"
  shows "rv_user q = u \<and> set (rv_bases q) = set ids \<and> distinct (rv_bases q) \<and> rv_bases q \<noteq> [] \<and> length (rv_bases q) \<le> 20 \<and>
    (\<forall>i \<in> set (rv_bases q). active_base_of u w i) \<and> 1 \<le> rv_top q \<and> rv_top q \<le> 20 \<and>
    rv_query q = trim_space query \<and> rv_query q \<noteq> [] \<and> valid_utf8 (rv_query q) \<and> rune_count (rv_query q) \<le> 16000"
proof -
  obtain owned v where o: "owned_ids u ids [] [] w = (Inr owned, v)" "ids \<noteq> []" "length ids \<le> 20"
      "trim_space query \<noteq> []" "valid_utf8 (trim_space query)" "rune_count (trim_space query) \<le> max_search_query_runes"
      "q = \<lparr>rv_user = u, rv_bases = owned, rv_top = (let k1 = if k \<le> 0 then 5 else k in if 20 < k1 then 20 else k1), rv_query = trim_space query\<rparr>"
    using assms(1) by (auto simp: retrieve_def Let_def elim!: bindE_InrE)
  from owned_ids_quiet [OF o(1) assms(2)]
  have ids: "distinct owned" "\<forall>i \<in> set owned. active_base_of u w i" "set owned = set ids" by auto
  have "length owned \<le> length ids" using ids(1,3) card_length [of ids] by (simp add: distinct_card [symmetric])
  then show ?thesis using o ids by (auto simp: Let_def max_search_query_runes_def)
qed

section \<open>Scheduled deletions\<close>

lemma transaction_InrE:
  assumes "kb_transaction m w = (Inr x, w')"
  obtains fs u where "m (w\<lparr>kw_faults := fs\<rparr>) = (Inr x, u)" "kb_tables w' = kb_tables u"
proof -
  from assms have "bindE (kb_statement (ret ())) (\<lambda>_. bindE m (\<lambda>x. bindE (kb_statement (ret ())) (\<lambda>_. ret x))) w = (Inr x, w')"
    by (auto simp: kb_transaction_def split: prod.splits sum.splits)
  then obtain y v where v: "kb_statement (ret ()) w = (Inr y, v)" "bindE m (\<lambda>x. bindE (kb_statement (ret ())) (\<lambda>_. ret x)) v = (Inr x, w')"
    by (rule bindE_InrE)
  from v(2) obtain x' z where "m v = (Inr x', z)" "bindE (kb_statement (ret ())) (\<lambda>_. ret x') z = (Inr x, w')"
    by (rule bindE_InrE)
  moreover from this(2) have "x' = x" by (auto elim!: bindE_InrE)
  ultimately have b: "kb_statement (ret ()) w = (Inr y, v)" "m v = (Inr x, z)" "bindE (kb_statement (ret ())) (\<lambda>_. ret x) z = (Inr x, w')"
    using v(1) by simp_all
  obtain fs where "v = w\<lparr>kw_faults := fs\<rparr>" using b(1) by (auto elim!: kb_statement_InrE)
  moreover have "kb_tables w' = kb_tables z" using b(3) by (auto elim!: bindE_InrE kb_statement_InrE simp: kb_tables_def)
  ultimately show ?thesis using that b(2) by blast
qed

lemma insert_task_Inr:
  assumes "insert_itask t s = (Inr x, s')"
  shows "it_id t \<notin> it_id ` set (kw_tasks s) \<and> kw_docs s' = kw_docs s \<and>
    kw_tasks s' = kw_tasks s @ [t\<lparr>it_created_at := kw_clock s, it_updated_at := kw_clock s\<rparr>]"
  using assms unfolding insert_itask_def by (auto elim!: kb_statement_InrE split: if_splits)

lemma try_store: "kx_others w = [] \<Longrightarrow> m (kx_store w) = (r, s) \<Longrightarrow>
    bindE (tryE (store m)) f w = f (map_sum InStore id r) (w\<lparr>kx_store := s\<rparr>)"
  by (simp add: bindE_def tryE_def store_quiet)

definition active_delete_row :: "index_task \<Rightarrow> kb_world \<Rightarrow> bool" where
  "active_delete_row t s \<longleftrightarrow> (\<exists>k \<in> set (kw_tasks s). it_id k = it_id t \<and> it_document k = it_document t \<and> it_type k = DeleteWork \<and>
     active_status (it_status k))"

lemma create_delete_Inr:
  assumes "create_delete_document_task u b d t s = (Inr x, s')" "it_type t = DeleteWork" "it_status t = ItPending"
  shows "active_delete_row t s'"
proof -
  define m where "m = bindE (kb_first (\<lambda>w. find (\<lambda>x. live_doc x \<and> kd_id x = d \<and> kd_base x = b \<and> kd_user x = u) (kw_docs w))) (\<lambda>_.
     bindE (kb_select (\<lambda>w. list_ex (\<lambda>k. it_document k = d \<and> it_type k = DeleteWork \<and> active_status (it_status k)) (kw_tasks w))) (\<lambda>active.
     bindE (guardE (\<not> active) DeleteAlreadyScheduled) (\<lambda>_.
     bindE (update_docs (\<lambda>x. kd_id x = d) (\<lambda>d. d\<lparr>kd_status := DocDeleting, kd_error := []\<rparr>)) (\<lambda>_.
     bindE kb_now (\<lambda>now.
     bindE (update_itasks (\<lambda>k. it_document k = d \<and> it_type k = IndexWork \<and> it_status k = ItPending)
        (\<lambda>k. k\<lparr>it_status := ItFailed, it_finished_at := Some now, it_error := ''superseded by document deletion''\<rparr>)) (\<lambda>_.
     insert_itask t))))))"
  have "kb_transaction m s = (Inr x, s')"
    using assms(1) unfolding create_delete_document_task_def database_eval m_def by (simp split: if_splits)
  then obtain fs z where run: "m (s\<lparr>kw_faults := fs\<rparr>) = (Inr x, z)" "kb_tables s' = kb_tables z" by (auto elim: transaction_InrE)
  then obtain v where "insert_itask t v = (Inr x, z)" unfolding m_def by (elim bindE_InrE)
  then have "t\<lparr>it_created_at := kw_clock v, it_updated_at := kw_clock v\<rparr> \<in> set (kw_tasks z)" using insert_task_Inr by simp
  then show ?thesis using run(2) assms(2,3)
    by (auto simp: active_delete_row_def kb_tables_def active_status_def
        intro!: bexI [of _ "t\<lparr>it_created_at := kw_clock v, it_updated_at := kw_clock v\<rparr>"])
qed

text \<open>A deletion of a document that is accepted answers with a deletion task of that document, of the
  caller and the base it named, and the store holds it as pending or running work: the new one, or
  the one that was there.\<close>

lemma scheduled_delete_active:
  assumes "schedule_delete_document env u b d w = (Inr t, w')" "kx_others w = []"
  shows "it_type t = DeleteWork \<and> it_document t = d \<and> it_user t = u \<and> it_base t = b \<and> active_delete_row t (kx_store w')"
proof -
  obtain base v where base: "owned_base u b w = (Inr base, v)"
    and rest: "bindE (new_uuid env) (\<lambda>i. let task = new_itask i b d u DeleteWork in
      bindE (tryE (store (create_delete_document_task u b d task))) (\<lambda>r. case r of
       Inl e \<Rightarrow> if e = InStore DeleteAlreadyScheduled then store (get_active_delete_task u b d) else fail (normalize_not_found e)
     | Inr x \<Rightarrow> bindE (enqueue_index_task (it_id task)) (\<lambda>_. ret task))) v = (Inr t, w')"
    using assms(1) unfolding schedule_delete_document_def by (rule bindE_InrE)
  define i where "i = ke_uuid env (kx_uuids v)"
  define v1 where "v1 = v\<lparr>kx_uuids := Suc (kx_uuids v)\<rparr>"
  let ?task = "new_itask i b d u DeleteWork"
  have q: "kx_others v1 = []" using owned_base_quiet [OF base assms(2)] by (simp add: v1_def)
  obtain r s where run: "create_delete_document_task u b d ?task (kx_store v1) = (r, s)" by fastforce
  from rest have rest': "(case map_sum InStore id r of
       Inl e \<Rightarrow> if e = InStore DeleteAlreadyScheduled then store (get_active_delete_task u b d) else fail (normalize_not_found e)
     | Inr x \<Rightarrow> bindE (enqueue_index_task (it_id ?task)) (\<lambda>_. ret ?task)) (v1\<lparr>kx_store := s\<rparr>) = (Inr t, w')"
    by (simp add: new_uuid_def bindE_assoc bind_gets_eval bind_modifies_eval Let_def i_def [symmetric] v1_def [symmetric]
        try_store [where m = "create_delete_document_task u b d (new_itask i b d u DeleteWork)", OF q run])
  show ?thesis
  proof (cases r)
    case (Inr x)
    then have "t = ?task" "kx_store w' = s" using rest' by (auto simp: enqueue_index_task_def bind_modifies_eval ret_eval)
    then show ?thesis using create_delete_Inr [of u b d ?task "kx_store v1" x s] run Inr by (simp add: new_itask_def)
  next
    case (Inl e)
    then have "store (get_active_delete_task u b d) (v1\<lparr>kx_store := s\<rparr>) = (Inr t, w')" using rest' by (simp split: if_splits)
    then obtain z where z: "get_active_delete_task u b d s = (Inr t, z)" "kx_store w' = z"
      using q by (auto simp: store_quiet map_sum_def split: prod.splits sum.splits)
    let ?q = "\<lambda>w. find (\<lambda>t. task_of_document u b d t \<and> it_type t = DeleteWork \<and> active_status (it_status t))
       (rev (sort_key (\<lambda>t. (it_created_at t, it_id t)) (kw_tasks w)))"
    have "kb_first ?q s = (Inr t, z)"
      using z(1) unfolding get_active_delete_task_def database_eval by (metis Inl_Inr_False Pair_inject)
    then have "?q s = Some t" by (rule kb_first_Inr) simp
    then have "t \<in> set (kw_tasks s) \<and> task_of_document u b d t \<and> it_type t = DeleteWork \<and> active_status (it_status t)"
      by (drule_tac find_SomeD) simp
    moreover have "kb_tables z = kb_tables s"
      by (rule keepsD [where R = "\<lambda>s t. kb_tables t = kb_tables s" and m = "get_active_delete_task u b d", rotated, OF z(1)])
        (unfold get_active_delete_task_def, intro same.keeps_intros same.keeps_kb_reads)
    ultimately show ?thesis using z(2) by (auto simp: active_delete_row_def task_of_document_def kb_tables_def)
  qed
qed

section \<open>Uploads\<close>

definition calm :: "kx_world \<Rightarrow> bool" where
  "calm w \<longleftrightarrow> kx_others w = [] \<and> kx_replies w = []"

lemma calm_steps:
  assumes "calm w"
  shows "ask w = (Inr Fine, w)" "bindE ask f w = f Fine w" "bindE (attempt_of e) g w = g () w"
  using assms by (simp_all add: calm_def ask_def attempt_of_def bindE_def interfere_quiet guard_eval)

lemma calm_updates [simp]: "calm (w\<lparr>kx_files := fs\<rparr>) = calm w" "calm (w\<lparr>kx_store := s\<rparr>) = calm w" "calm (w\<lparr>kx_uuids := n\<rparr>) = calm w"
  by (simp_all add: calm_def)

lemma filter_absent: "map_of fs p = None \<Longrightarrow> filter (\<lambda>f. fst f \<noteq> p) fs = fs"
  by (induction fs) auto

lemma remove_quietly_calm:
  "calm w \<Longrightarrow> remove_quietly path w = (Inr (), w\<lparr>kx_files := filter (\<lambda>f. fst f \<noteq> path) (kx_files w)\<rparr>)"
  by (simp add: remove_quietly_def remove_file_def bindE_def tryE_def calm_steps gets_eval guard_eval modifies_eval ret_eval filter_absent)

lemma persist_calm:
  assumes "calm w" "map_of (kx_files w) (upload_path env u b i h) = None" "map_of (kx_files w) (upload_path env u b i h @ ''.uploading'') = None"
  shows "persist_upload env h u b i w = (if up_bytes h = [] \<or> max_document_bytes < length (up_bytes h) then (Inl SvcInvalidInput, w)
    else (Inr (upload_path env u b i h, length (up_bytes h), ke_sha env (up_bytes h)),
      w\<lparr>kx_files := (upload_path env u b i h, up_bytes h) # kx_files w\<rparr>))"
proof -
  have max: "0 < max_document_bytes" by (simp add: max_document_bytes_def)
  show ?thesis
  proof (cases "up_bytes h = [] \<or> max_document_bytes < length (up_bytes h)")
    case True
    then have "min (length (up_bytes h)) (Suc max_document_bytes) = 0 \<or> max_document_bytes < min (length (up_bytes h)) (Suc max_document_bytes)"
      by auto
    then show ?thesis using True assms max
      by (auto simp: persist_upload_def copy_upload_def put_file_def Let_def bindE_assoc calm_steps bind_gets_eval bind_guard_eval
          bind_modifies_eval bindE_def [of "remove_quietly _"] remove_quietly_calm filter_absent fail_eval)
  next
    case False
    then have m: "min (length (up_bytes h)) (Suc max_document_bytes) = length (up_bytes h)" by simp
    then show ?thesis using False assms max
      by (simp add: persist_upload_def copy_upload_def put_file_def Let_def bindE_assoc calm_steps bind_gets_eval bind_guard_eval
          bind_modifies_eval filter_absent ret_eval m not_less)
  qed
qed

lemma owned_base_frame:
  assumes "owned_base u b w = (r, w')" "kx_others w = []"
  obtains s where "w' = w\<lparr>kx_store := s\<rparr>" "kb_tables s = kb_tables (kx_store w)"
proof (cases "trim_space u \<noteq> [] \<and> trim_space b \<noteq> []")
  case False
  then have "w' = w\<lparr>kx_store := kx_store w\<rparr>" using assms(1) by (auto simp: owned_base_def bind_guard_eval split: if_splits)
  then show ?thesis by (rule that) simp
next
  case True
  obtain x s where s: "get_knowledge_base u b (kx_store w) = (x, s)" by fastforce
  have "w' = w\<lparr>kx_store := s\<rparr>"
    using assms True s by (cases x) (auto simp: owned_base_def bind_guard_eval map_err_def store_quiet)
  moreover have "kb_tables s = kb_tables (kx_store w)"
    by (rule keepsD [where R = "\<lambda>s t. kb_tables t = kb_tables s" and m = "get_knowledge_base u b", rotated, OF s])
      (unfold get_knowledge_base_def, intro same.keeps_intros same.keeps_kb_reads)
  ultimately show ?thesis by (rule that)
qed

lemma undone_create: "undone (create_document_and_task d t)"
  unfolding create_document_and_task_def by (intro undone_prefix undone_transaction)

lemma create_rows_Inr:
  assumes "create_document_and_task d t s = (Inr x, s')" "kb_wf s" "kd_deleted_at d = None"
  shows "doc_phase (kd_id d) s' = Live (kd_status d) \<and> task_phase (it_id t) s' = phase_of_task t"
proof -
  have "kb_transaction (bindE (insert_doc d) (\<lambda>_. insert_itask t)) s = (Inr x, s')"
    using assms(1) unfolding create_document_and_task_def database_eval by (simp split: if_splits)
  then obtain fs z where run: "bindE (insert_doc d) (\<lambda>_. insert_itask t) (s\<lparr>kw_faults := fs\<rparr>) = (Inr x, z)" "kb_tables s' = kb_tables z"
    by (rule transaction_InrE)
  from run(1) obtain y v where v: "insert_doc d (s\<lparr>kw_faults := fs\<rparr>) = (Inr y, v)" "insert_itask t v = (Inr x, z)" by (rule bindE_InrE)
  have doc: "kd_id d \<notin> kd_id ` set (kw_docs s)" "kw_tasks v = kw_tasks s"
      "kw_docs v = kw_docs s @ [d\<lparr>kd_created_at := kw_clock s, kd_updated_at := kw_clock s\<rparr>]"
    using v(1) unfolding insert_doc_def by (auto elim!: kb_statement_InrE split: if_splits)
  note task = insert_task_Inr [OF v(2)]
  have "kd_id (d\<lparr>kd_created_at := kw_clock s, kd_updated_at := kw_clock s\<rparr>) \<notin> kd_id ` set (kw_docs s)" using doc(1) by simp
  from find_key_added [of kd_id, OF this] have "doc_phase (kd_id d) z = Live (kd_status d)"
    using task doc(3) assms(3) by (simp add: doc_phase_def phase_of_doc_def live_doc_def)
  moreover have "it_id (t\<lparr>it_created_at := kw_clock v, it_updated_at := kw_clock v\<rparr>) \<notin> it_id ` set (kw_tasks v)" using task by simp
  from find_key_added [of it_id, OF this] have "task_phase (it_id t) z = phase_of_task t"
    using task by (simp add: task_phase_def phase_of_task_def)
  ultimately show ?thesis using phase_tables [OF run(2)] by simp
qed


end
