(* ===== verification/KbExamples.thy ===== *)
theory KbExamples
  imports KbServiceSafety
begin

text \<open>Small worlds of the knowledge base service, at which its theorems apply.\<close>

definition demo_document :: "string \<Rightarrow> doc_status \<Rightarrow> knowledge_document" where
  "demo_document i st = \<lparr>kd_id = i, kd_base = ''b'', kd_user = ''ann'', kd_original_name = ''a.md'', kd_storage_path = ''p'',
     kd_content_type = ''text/markdown'', kd_size = 9, kd_checksum = ''c'', kd_status = st, kd_chunk_count = 0, kd_error = [],
     kd_created_at = 1, kd_updated_at = 1, kd_deleted_at = None\<rparr>"

definition demo_itask :: "string \<Rightarrow> string \<Rightarrow> itask_type \<Rightarrow> nat \<Rightarrow> index_task" where
  "demo_itask i d k n = \<lparr>it_id = i, it_base = ''b'', it_document = d, it_user = ''ann'', it_type = k, it_status = ItRunning,
     it_attempts = n, it_error = [], it_started_at = Some 5, it_finished_at = None, it_created_at = 2, it_updated_at = 5\<rparr>"

text \<open>One document is being indexed, one deleted, and the task of a third, ready one was left running.\<close>

definition demo_kb :: kb_world where
  "demo_kb = \<lparr>kw_connected = True, kw_bases = [],
     kw_docs = [demo_document ''d1'' DocIndexing, demo_document ''d2'' DocDeleting, demo_document ''d3'' DocReady],
     kw_tasks = [demo_itask ''t1'' ''d1'' IndexWork 2, demo_itask ''t2'' ''d2'' DeleteWork 1, demo_itask ''t3'' ''d3'' IndexWork 1],
     kw_clock = 10, kw_faults = []\<rparr>"

lemmas demo_kb_defs = demo_kb_def demo_document_def demo_itask_def

lemma demo_kb_good: "kb_wf demo_kb" "kb_healthy demo_kb"
  by (simp_all add: kb_wf_def kb_healthy_def demo_kb_defs)

lemma demo_kb_phases:
  "doc_phase ''d1'' demo_kb = Live DocIndexing" "doc_phase ''d2'' demo_kb = Live DocDeleting" "doc_phase ''d3'' demo_kb = Live DocReady"
  "task_phase ''t1'' demo_kb = Queued IndexWork ItRunning 2"
  by (simp_all add: demo_kb_defs doc_phase_def task_phase_def phase_of_doc_def phase_of_task_def live_doc_def)


theorem stale_attempt_rejected_witness:
  "\<exists>e w'. settle (IndexDone 3) ''t1'' ''d1'' 1 demo_kb = (Inl e, w') \<and> kb_tables w' = kb_tables demo_kb"
  using stale_attempt_rejected [of "''t1''" "IndexDone 3" 1 demo_kb "''d1''"] by (simp add: demo_kb_defs owned_attempt_def)


theorem recovery_settles_stale_work_witness:
  "\<exists>w'. recover_stale_itasks 8 demo_kb = (Inr (), w') \<and> task_phase ''t1'' w' = Queued IndexWork ItPending 2 \<and>
     task_phase ''t3'' w' = Queued IndexWork ItCancelled 1 \<and> doc_phase ''d1'' w' = Live DocPending"
proof -
  from recovery_settles_stale_work [OF demo_kb_good, of 8]
  obtain w' where w': "recover_stale_itasks 8 demo_kb = (Inr (), w')"
      "\<forall>t \<in> set (kw_tasks demo_kb). task_phase (it_id t) w' = (if stale_itask 8 t then recovered_phase t demo_kb else phase_of_task t)"
      "\<forall>j. doc_phase j w' = reopened (filter (stale_itask 8) (kw_tasks demo_kb)) j demo_kb"
    by blast
  have "task_phase ''t1'' w' = Queued IndexWork ItPending 2" "task_phase ''t3'' w' = Queued IndexWork ItCancelled 1"
    using w'(2) demo_kb_phases by (simp_all add: demo_kb_def demo_itask_def stale_itask_def recovered_phase_def)
  moreover have "doc_phase ''d1'' w' = Live DocPending"
    using w'(3) demo_kb_phases(1) by (simp add: reopened_def demo_kb_def demo_itask_def stale_itask_def)
  ultimately show ?thesis using w'(1) by blast
qed

section \<open>The service\<close>

definition demo_base :: knowledge_base where
  "demo_base = \<lparr>kb_id = ''b'', kb_user = ''ann'', kb_name = ''n'', kb_description = [], kb_state = KbActive, kb_created_at = 1,
     kb_updated_at = 1, kb_deleted_at = None\<rparr>"

definition demo_work :: "itask_type \<Rightarrow> itask_status \<Rightarrow> index_task" where
  "demo_work k st = (demo_itask ''t1'' ''d1'' k 0)\<lparr>it_status := st, it_started_at := None\<rparr>"

text \<open>One document with one task; \<open>faults\<close> are the database's, Redis and the file system work.\<close>

definition demo_kx :: "doc_status \<Rightarrow> index_task \<Rightarrow> driver_fault option list \<Rightarrow> kx_world" where
  "demo_kx st t faults = \<lparr>kx_store = \<lparr>kw_connected = True, kw_bases = [demo_base], kw_docs = [demo_document ''d1'' st], kw_tasks = [t],
       kw_clock = 10, kw_faults = faults\<rparr>,
     kx_keys = [], kx_indexes = [], kx_files = [(''p'', ''hi'')], kx_hints = [], kx_started = False, kx_uuids = 0, kx_replies = [], kx_others = []\<rparr>"

definition plain_sha :: "string \<Rightarrow> string" where "plain_sha s = ''0123456789abcdef''"

definition demo_env :: kb_env where
  "demo_env = \<lparr>ke_sha = plain_sha, ke_dimension = 4, ke_root = ''docs'', ke_uuid = (\<lambda>n. replicate (n + 2) CHR ''x'')\<rparr>"

lemmas demo_kx_defs = demo_kx_def demo_base_def demo_work_def demo_document_def demo_itask_def


theorem early_failure_not_recorded_witness:
  "\<exists>e' w'. process_index plain_sha 4 (demo_work IndexWork ItRunning) (demo_kx DocPending (demo_work IndexWork ItRunning) [Some DriverError]) =
     (Inl (UpdateFailed (InStore (KbDriver DriverError)) e'), w') \<and>
     kb_tables (kx_store w') = kb_tables (kx_store (demo_kx DocPending (demo_work IndexWork ItRunning) []))"
proof -
  let ?t = "demo_work IndexWork ItRunning"
  have "index_everything plain_sha 4 ?t (demo_kx DocPending ?t [Some DriverError]) = (Inl (InStore (KbDriver DriverError)), demo_kx DocPending ?t [])"
    by (simp add: index_everything_def bindE_def store_quiet demo_kx_def get_knowledge_base_def kb_database_def gets_eval guard_eval
        kb_first_def kb_select_def kb_statement_def)
  from early_failure_not_recorded [OF this] show ?thesis by (simp add: demo_kx_defs superseded_def)
qed

definition demo_removed :: kx_world where
  "demo_removed = (let t = demo_work DeleteWork ItRunning; w = demo_kx DocDeleting t [] in
     w\<lparr>kx_files := [], kx_store := (kx_store w)\<lparr>
       kw_docs := [(demo_document ''d1'' DocDeleting)\<lparr>kd_deleted_at := Some 10\<rparr>],
       kw_tasks := [t\<lparr>it_status := ItSucceeded, it_finished_at := Some 10, it_error := [], it_updated_at := 10\<rparr>]\<rparr>\<rparr>)"

lemma demo_removal:
  "process_delete plain_sha (demo_work DeleteWork ItRunning) (demo_kx DocDeleting (demo_work DeleteWork ItRunning) []) = (Inr (), demo_removed)"
  by (simp add: demo_removed_def process_delete_def delete_everything_def store_def ask_def attempt_of_def interfere_def modifies_def
    bindE_def tryE_def gets_eval guard_eval get_document_def kb_database_def kb_now_def kb_first_def kb_select_def kb_statement_def
    kb_transaction_def delete_docs_def update_owned_def update_itasks_def owned_attempt_def count_where_def update_where_def
    delete_knowledge_document_index_def scan_keys_def remove_file_def complete_delete_task_def live_doc_def demo_kx_defs ret_def)


lemma demo_ascii: "ascii ''hi''"
  by (simp add: ascii_def byte_of_def)

lemma demo_chars: "char_of (104 :: nat) = CHR ''h''" "char_of (105 :: nat) = CHR ''i''"
  by (code_simp, code_simp)

lemma demo_runes: "runes ''hi'' = [104, 105]" "valid_utf8 ''hi''" "rune_count ''hi'' = 2"
  using runes_ascii [OF demo_ascii] segments_ascii [OF demo_ascii]
  by (simp_all add: valid_utf8_def rune_count_def string_of_runes_def encode_rune_def encode_bytes_def valid_rune_def byte_of_def demo_chars)

lemma demo_trimmed: "trim_space ''ann'' = ''ann''" "trim_space ''b'' = ''b''" "trim_space ''hi'' = ''hi''"
  by (simp_all add: trim_graphic graphic_def byte_of_def)

theorem indexing_carried_through_witness:
  "\<exists>w' cs. process_index_task_now plain_sha 4 ''t1'' (demo_kx DocPending (demo_work IndexWork ItPending) []) = (Inr (), w') \<and>
     chunk_markdown plain_sha ''d1'' ''hi'' default_options = Some cs \<and>
     doc_phase ''d1'' (kx_store w') = Live DocReady \<and> task_phase ''t1'' (kx_store w') = Queued IndexWork ItSucceeded 1"
proof -
  let ?t = "demo_work IndexWork ItPending" let ?w = "demo_kx DocPending ?t []"
  note trimmed = demo_trimmed
  have "kx_healthy ?w" by (simp add: kx_healthy_def demo_kx_defs kb_wf_def kb_healthy_def)
  moreover have "indexable ?w ?t demo_base (demo_document ''d1'' DocPending) ''hi''"
    using demo_runes trimmed by (simp add: indexable_def demo_kx_defs live_base_def live_doc_def is_space_def)
  ultimately show ?thesis
    using indexing_carried_through [of ?w ?t demo_base "demo_document ''d1'' DocPending" "''hi''" 4 plain_sha]
    by (simp add: demo_work_def demo_itask_def demo_document_def) blast
qed

theorem deletion_is_final_witness:
  "doc_phase ''d1'' (kx_store (snd (svc_run demo_env [WorkerTurn PollTick, ReqUpload ''ann'' ''b'' \<lparr>up_name = ''a.md'', up_size = 2,
     up_content_type = [], up_bytes = ''hi''\<rparr> True, ReqDelete ''ann'' ''b''] (demo_kx DocDeleting (demo_work IndexWork ItPending) []))))
   \<in> {Live DocDeleting, Removed}" (is "doc_phase _ (kx_store (snd (svc_run _ ?xs ?w))) \<in> _")
proof -
  have "kb_wf (kx_store ?w)" "doc_phase ''d1'' (kx_store ?w) \<in> {Live DocDeleting, Removed}"
    by (simp_all add: demo_kx_defs kb_wf_def doc_phase_def phase_of_doc_def live_doc_def)
  then show ?thesis using deletion_is_final [of ?w "''d1''" demo_env ?xs] by (metis surjective_pairing)
qed

theorem retrieval_owned_witness:
  "\<exists>q w'. retrieve ''ann'' [''b'', ''b''] ''hi'' 50 (demo_kx DocReady (demo_work IndexWork ItSucceeded) []) = (Inr q, w') \<and>
     rv_top q \<le> 20 \<and> set (rv_bases q) = {''b''} \<and> rv_query q = trim_space ''hi''"
proof -
  let ?w = "demo_kx DocReady (demo_work IndexWork ItSucceeded) []"
  note trimmed = demo_trimmed
  have base: "owned_base ''ann'' ''b'' ?w = (Inr demo_base, ?w)"
    using trimmed by (simp add: owned_base_def bind_guard_eval map_err_def store_quiet demo_kx_def get_knowledge_base_def kb_database_def bindE_def
        gets_eval guard_eval kb_first_def kb_select_def kb_statement_def ret_eval demo_base_def live_base_def)
  have ids: "owned_ids ''ann'' [''b'', ''b''] [] [] ?w = (Inr [''b''], ?w)"
    by (simp add: bindE_Inr [where m = "owned_base ''ann'' ''b''", OF base] demo_base_def bind_guard_eval ret_eval)
  have run: "retrieve ''ann'' [''b'', ''b''] ''hi'' 50 ?w = (Inr \<lparr>rv_user = ''ann'', rv_bases = [''b''], rv_top = 20, rv_query = ''hi''\<rparr>, ?w)"
    using trimmed demo_runes(2,3)
    by (simp add: bindE_Inr [where m = "owned_ids ''ann'' [''b'', ''b''] [] []", OF ids] retrieve_def Let_def bind_guard_eval max_search_query_runes_def ret_eval del: owned_ids.simps)
  then show ?thesis using retrieval_owned [OF run] trimmed(3) by (simp add: demo_kx_def)
qed


end
