(* ===== verification/Slots.thy ===== *)
theory Slots
  imports Main
begin

text \<open>
  The contract of a pool of slots with a release function per slot: the cost guard and the hub of
  voice connections both promise it. A slot has a key; a key is charged to some counters; some
  counters have a cap. The lemmas of the locale hold for every interleaving of entries and releases.
\<close>

datatype 'k slot_event = Enters 'k | Leaves nat

locale slot_pool =
  fixes live :: "'s \<Rightarrow> (nat \<times> 'k) list"
    and level :: "'s \<Rightarrow> 'c \<Rightarrow> int"
    and charges :: "'k \<Rightarrow> 'c \<Rightarrow> bool"
    and cap :: "'s \<Rightarrow> 'c \<Rightarrow> int option"
    and enter :: "'k \<Rightarrow> 's \<Rightarrow> (nat \<times> 's) option"
    and leave :: "nat \<Rightarrow> 's \<Rightarrow> 's"
    and known :: "'s \<Rightarrow> nat"
  assumes enter_live: "enter k s = Some (i, t) \<Longrightarrow> live t = live s @ [(i, k)]"
    and enter_known: "enter k s = Some (i, t) \<Longrightarrow> known s \<le> i \<and> i < known t"
    and enter_level: "enter k s = Some (i, t) \<Longrightarrow> level t c = level s c + (if charges k c then 1 else 0)"
    and enter_room: "enter k s = Some (i, t) \<Longrightarrow> charges k c \<Longrightarrow> cap s c = Some m \<Longrightarrow> level s c < m"
    and enter_cap: "enter k s = Some (i, t) \<Longrightarrow> cap t = cap s"
    and leave_unknown: "i \<notin> fst ` set (live s) \<Longrightarrow> leave i s = s"
    and leave_live: "live (leave i s) = filter (\<lambda>x. fst x \<noteq> i) (live s)"
    and leave_level: "distinct (map fst (live s)) \<Longrightarrow> (i, k) \<in> set (live s) \<Longrightarrow> (\<And>c. charges k c \<Longrightarrow> 0 < level s c) \<Longrightarrow>
      level (leave i s) c = level s c - (if charges k c then 1 else 0)"
    and leave_cap: "cap (leave i s) = cap s"
    and leave_known: "known (leave i s) = known s"
begin

definition charged :: "'c \<Rightarrow> (nat \<times> 'k) list \<Rightarrow> int" where
  "charged c xs = int (length (filter (\<lambda>x. charges (snd x) c) xs))"

text \<open>Every counter counts the slots that are out, no cap is exceeded, and slots have numbers of their own.\<close>

definition sound :: "'s \<Rightarrow> bool" where
  "sound s \<longleftrightarrow> (\<forall>c. level s c = charged c (live s)) \<and> (\<forall>c m. cap s c = Some m \<longrightarrow> level s c \<le> m) \<and>
     distinct (map fst (live s)) \<and> (\<forall>x \<in> set (live s). fst x < known s)"

definition event :: "'k slot_event \<Rightarrow> 's \<Rightarrow> 's" where
  "event e s = (case e of Enters k \<Rightarrow> (case enter k s of None \<Rightarrow> s | Some (i, t) \<Rightarrow> t) | Leaves i \<Rightarrow> leave i s)"

lemma charged_without:
  "distinct (map fst xs) \<Longrightarrow> (i, k) \<in> set xs \<Longrightarrow>
    charged c xs = charged c (filter (\<lambda>x. fst x \<noteq> i) xs) + (if charges k c then 1 else 0)"
proof (induction xs)
  case (Cons x xs)
  have absent: "i \<notin> fst ` set ys \<Longrightarrow> filter (\<lambda>x. fst x \<noteq> i) ys = ys" for ys :: "(nat \<times> 'k) list"
    by (induction ys) auto
  show ?case
  proof (cases "x = (i, k)")
    case True
    then show ?thesis using Cons.prems absent [of xs] by (simp add: charged_def)
  next
    case False
    then have "(i, k) \<in> set xs" "fst x \<noteq> i" using Cons.prems by (auto intro: rev_image_eqI)
    then show ?thesis using Cons by (cases "charges k c"; simp add: charged_def)
  qed
qed simp

lemma leave_sound:
  assumes "sound s"
  shows "sound (leave i s)"
proof (cases "i \<in> fst ` set (live s)")
  case False
  then show ?thesis using assms leave_unknown by simp
next
  case True
  then obtain k where k: "(i, k) \<in> set (live s)" by auto
  have d: "distinct (map fst (live s))" "\<And>c. level s c = charged c (live s)" using assms by (simp_all add: sound_def)
  note split = charged_without [OF d(1) k]
  have pos: "charges k c \<Longrightarrow> 0 < level s c" for c using d(2) [of c] split [of c] by (simp add: charged_def)
  have lev: "level (leave i s) c = charged c (live (leave i s))" for c
    using leave_level [OF d(1) k pos] split [of c] d(2) [of c] by (simp add: leave_live)
  have "level (leave i s) c \<le> level s c" for c using leave_level [OF d(1) k pos] by simp
  then have "\<forall>c m. cap (leave i s) c = Some m \<longrightarrow> level (leave i s) c \<le> m"
    using assms unfolding leave_cap sound_def by (meson order_trans)
  then show ?thesis using lev assms by (auto simp: sound_def leave_live leave_known distinct_map_filter)
qed

lemma enter_sound:
  assumes "sound s" "enter k s = Some (i, t)"
  shows "sound t"
proof -
  note new = enter_live [OF assms(2)] enter_known [OF assms(2)] enter_level [OF assms(2)] enter_cap [OF assms(2)]
  have "level t c = charged c (live t)" for c using assms(1) new by (simp add: sound_def charged_def)
  moreover have "level t c \<le> m" if "cap t c = Some m" for c m
  proof -
    have "cap s c = Some m" using that new by simp
    then have "level s c \<le> m" "charges k c \<Longrightarrow> level s c < m"
      using assms(1) enter_room [OF assms(2)] unfolding sound_def by blast+
    then show ?thesis using new(3) [of c] by auto
  qed
  moreover have "distinct (map fst (live t))" "\<forall>x \<in> set (live t). fst x < known t"
    using assms(1) new by (fastforce simp: sound_def)+
  ultimately show ?thesis by (simp add: sound_def)
qed

lemma event_sound: "sound s \<Longrightarrow> sound (event e s)"
  by (auto simp: event_def leave_sound enter_sound split: slot_event.split option.split)

lemma run_sound: "sound s \<Longrightarrow> sound (fold event es s)"
  by (induction es arbitrary: s) (simp_all add: event_sound)

lemma leave_twice: "leave i (leave i s) = leave i s"
  by (rule leave_unknown) (auto simp: leave_live)

lemma all_left: "sound s \<Longrightarrow> live s = [] \<Longrightarrow> level s c = 0"
  by (simp add: sound_def charged_def)

end

end
