(* ===== verification/CostGuard.thy ===== *)
theory CostGuard
  imports Slots GoNumbers "HOL-Library.AList"
begin

text \<open>
  \<open>src/middleware/costguard/guard.go\<close>, \<open>src/common/redis/rate_limit.go\<close> and \<open>src/common/redis/key.go\<close>:
  the guard of expensive endpoints. A request reserves quota in Redis by a script, then a slot of
  the process, then its body is read within a bound; the slot is given back by a release function.
  The script runs in one step. Hashing and \<open>net.ParseIP\<close> are parameters; durations are nanoseconds.
\<close>

section \<open>Configuration\<close>

datatype action = ActionChat | ActionVoice | ActionRAG | ActionMCP | ActionAgent | ActionImage

record guard_config =
  gc_json_max_bytes :: int
  gc_window :: int
  gc_requests_per_window :: int
  gc_action_limits :: "action \<Rightarrow> int"
  gc_user_in_flight :: int
  gc_global_in_flight :: int
  gc_image_in_flight :: int
  gc_retry_after :: int

definition default_action_limit :: "action \<Rightarrow> int" where
  "default_action_limit a = (case a of ActionChat \<Rightarrow> 20 | ActionVoice \<Rightarrow> 10 | ActionRAG \<Rightarrow> 10 | ActionMCP \<Rightarrow> 30
     | ActionAgent \<Rightarrow> 10 | ActionImage \<Rightarrow> 10)"

definition default_config :: guard_config where
  "default_config = \<lparr>gc_json_max_bytes = 1048576, gc_window = 60 * second, gc_requests_per_window = 60,
     gc_action_limits = default_action_limit, gc_user_in_flight = 2, gc_global_in_flight = 32, gc_image_in_flight = 1,
     gc_retry_after = second\<rparr>"

text \<open>An override that is missing, malformed or not positive leaves the value as it was.\<close>

definition apply_positive_int :: "(string \<Rightarrow> string option) \<Rightarrow> string \<Rightarrow> int \<Rightarrow> int" where
  "apply_positive_int env name v = (case env name of None \<Rightarrow> v
     | Some raw \<Rightarrow> (case parse_int64 (trim_space raw) of None \<Rightarrow> v | Some n \<Rightarrow> if n \<le> 0 then v else n))"

definition apply_positive_seconds :: "(string \<Rightarrow> string option) \<Rightarrow> string \<Rightarrow> int \<Rightarrow> int" where
  "apply_positive_seconds env name v = (case env name of None \<Rightarrow> v
     | Some raw \<Rightarrow> (case parse_int64 (trim_space raw) of None \<Rightarrow> v
       | Some n \<Rightarrow> if n \<le> 0 \<or> (2 ^ 63 - 1) div second < n then v else n * second))"

definition action_variable :: "action \<Rightarrow> string" where
  "action_variable a = (case a of
       ActionChat \<Rightarrow> ''GOPHERAI_COST_GUARD_CHAT_REQUESTS'' | ActionVoice \<Rightarrow> ''GOPHERAI_COST_GUARD_VOICE_REQUESTS''
     | ActionRAG \<Rightarrow> ''GOPHERAI_COST_GUARD_RAG_REQUESTS'' | ActionMCP \<Rightarrow> ''GOPHERAI_COST_GUARD_MCP_REQUESTS''
     | ActionAgent \<Rightarrow> ''GOPHERAI_COST_GUARD_AGENT_REQUESTS'' | ActionImage \<Rightarrow> ''GOPHERAI_COST_GUARD_IMAGE_REQUESTS'')"

definition config_from_environment :: "(string \<Rightarrow> string option) \<Rightarrow> guard_config" where
  "config_from_environment env = (let c = default_config in
     \<lparr>gc_json_max_bytes = apply_positive_int env ''GOPHERAI_COST_GUARD_JSON_MAX_BYTES'' (gc_json_max_bytes c),
      gc_window = apply_positive_seconds env ''GOPHERAI_COST_GUARD_WINDOW_SECONDS'' (gc_window c),
      gc_requests_per_window = apply_positive_int env ''GOPHERAI_COST_GUARD_REQUESTS_PER_WINDOW'' (gc_requests_per_window c),
      gc_action_limits = (\<lambda>a. apply_positive_int env (action_variable a) (gc_action_limits c a)),
      gc_user_in_flight = apply_positive_int env ''GOPHERAI_COST_GUARD_USER_INFLIGHT'' (gc_user_in_flight c),
      gc_global_in_flight = apply_positive_int env ''GOPHERAI_COST_GUARD_GLOBAL_INFLIGHT'' (gc_global_in_flight c),
      gc_image_in_flight = apply_positive_int env ''GOPHERAI_COST_GUARD_IMAGE_INFLIGHT'' (gc_image_in_flight c),
      gc_retry_after = apply_positive_seconds env ''GOPHERAI_COST_GUARD_RETRY_AFTER_SECONDS'' (gc_retry_after c)\<rparr>)"

definition or_default :: "int \<Rightarrow> int \<Rightarrow> int" where
  "or_default v d = (if v \<le> 0 then d else v)"

definition normalize_config :: "guard_config \<Rightarrow> guard_config" where
  "normalize_config c = (let d = default_config in
     \<lparr>gc_json_max_bytes = or_default (gc_json_max_bytes c) (gc_json_max_bytes d), gc_window = or_default (gc_window c) (gc_window d),
      gc_requests_per_window = or_default (gc_requests_per_window c) (gc_requests_per_window d),
      gc_action_limits = (\<lambda>a. or_default (gc_action_limits c a) (gc_action_limits d a)),
      gc_user_in_flight = or_default (gc_user_in_flight c) (gc_user_in_flight d),
      gc_global_in_flight = or_default (gc_global_in_flight c) (gc_global_in_flight d),
      gc_image_in_flight = or_default (gc_image_in_flight c) (gc_image_in_flight d),
      gc_retry_after = or_default (gc_retry_after c) (gc_retry_after d)\<rparr>)"

section \<open>Quota in Redis\<close>

text \<open>A counter and the time it expires, if it does; times are milliseconds.\<close>

record counters =
  cn_now :: int
  cn_rows :: "(string \<times> (int \<times> int option)) list"

definition row_at :: "string \<Rightarrow> counters \<Rightarrow> (int \<times> int option) option" where
  "row_at k r = (case map_of (cn_rows r) k of
     None \<Rightarrow> None
   | Some (n, e) \<Rightarrow> (case e of None \<Rightarrow> Some (n, None) | Some d \<Rightarrow> if d \<le> cn_now r then None else Some (n, Some d)))"

definition redis_get :: "string \<Rightarrow> counters \<Rightarrow> int" where
  "redis_get k r = (case row_at k r of None \<Rightarrow> 0 | Some (n, e) \<Rightarrow> n)"

definition redis_pttl :: "string \<Rightarrow> counters \<Rightarrow> int" where
  "redis_pttl k r = (case row_at k r of None \<Rightarrow> - 2 | Some (n, None) \<Rightarrow> - 1 | Some (n, Some d) \<Rightarrow> d - cn_now r)"

definition redis_pexpire :: "string \<Rightarrow> int \<Rightarrow> counters \<Rightarrow> counters" where
  "redis_pexpire k ms r = (case row_at k r of None \<Rightarrow> r
     | Some (n, e) \<Rightarrow> if ms \<le> 0 then r\<lparr>cn_rows := AList.delete k (cn_rows r)\<rparr>
         else r\<lparr>cn_rows := AList.update k (n, Some (cn_now r + ms)) (cn_rows r)\<rparr>)"

definition redis_incr :: "string \<Rightarrow> counters \<Rightarrow> counters" where
  "redis_incr k r = (case row_at k r of
     None \<Rightarrow> r\<lparr>cn_rows := AList.update k (1, None) (cn_rows r)\<rparr>
   | Some (n, e) \<Rightarrow> r\<lparr>cn_rows := AList.update k (n + 1, e) (cn_rows r)\<rparr>)"

text \<open>The two loops of the script over keys with their limits and windows.\<close>

fun script_retry :: "(string \<times> int \<times> int) list \<Rightarrow> int \<Rightarrow> counters \<Rightarrow> int \<times> counters" where
  "script_retry [] retry r = (retry, r)"
| "script_retry ((k, limit, window) # rules) retry r =
     (if limit \<le> redis_get k r then
        let ttl = redis_pttl k r in
        if ttl \<le> 0 then script_retry rules (if retry < window then window else retry) (redis_pexpire k window r)
        else script_retry rules (if retry < ttl then ttl else retry) r
      else script_retry rules retry r)"

fun script_reserve :: "(string \<times> int \<times> int) list \<Rightarrow> counters \<Rightarrow> counters" where
  "script_reserve [] r = r"
| "script_reserve ((k, limit, window) # rules) r =
     (let r1 = redis_incr k r in script_reserve rules (if redis_get k r1 = 1 then redis_pexpire k window r1 else r1))"

definition reserve_rate_limit_script :: "(string \<times> int \<times> int) list \<Rightarrow> counters \<Rightarrow> (bool \<times> int) \<times> counters" where
  "reserve_rate_limit_script rules r = (let (retry, r1) = script_retry rules 0 r in
     if 0 < retry then ((False, retry), r1) else ((True, 0), script_reserve rules r1))"

record rate_limit_rule =
  rr_action :: string
  rr_dimension :: string
  rr_identifier :: string
  rr_limit :: int
  rr_window :: int

definition identifier_digest :: "(string \<Rightarrow> string) \<Rightarrow> string \<Rightarrow> string" where
  "identifier_digest sha s = take 32 (sha (trim_space (to_lower s)))"

definition rate_limit_key :: "(string \<Rightarrow> string) \<Rightarrow> (string \<Rightarrow> string option) \<Rightarrow> string \<Rightarrow> string \<Rightarrow> string \<Rightarrow> string" where
  "rate_limit_key sha parse_ip action dimension identifier0 =
     (let identifier1 = trim_space (to_lower identifier0);
          identifier = (if dimension = ''ip'' then (case parse_ip identifier1 of None \<Rightarrow> identifier1 | Some s \<Rightarrow> s) else identifier1)
      in ''rate_limit:'' @ action @ '':'' @ dimension @ '':'' @ identifier_digest sha identifier)"

definition valid_rule :: "rate_limit_rule \<Rightarrow> bool" where
  "valid_rule x \<longleftrightarrow> rr_action x \<noteq> [] \<and> rr_dimension x \<noteq> [] \<and> rr_identifier x \<noteq> [] \<and> 0 < rr_limit x \<and> 0 < rr_window x"

definition script_rule :: "(string \<Rightarrow> string) \<Rightarrow> (string \<Rightarrow> string option) \<Rightarrow> rate_limit_rule \<Rightarrow> string \<times> int \<times> int" where
  "script_rule sha parse_ip x = (rate_limit_key sha parse_ip (rr_action x) (rr_dimension x) (rr_identifier x), rr_limit x, rr_window x div 1000000)"

text \<open>
  \<open>Inl ()\<close> is an error; \<open>up\<close> tells whether Redis is initialised, \<open>fails\<close> whether the evaluation of
  the script returns an error (it has then changed nothing). The retry time is in nanoseconds.
\<close>

definition allow_rate_limits :: "(string \<Rightarrow> string) \<Rightarrow> (string \<Rightarrow> string option) \<Rightarrow> bool \<Rightarrow> bool \<Rightarrow> rate_limit_rule list \<Rightarrow> counters \<Rightarrow>
    (unit + bool \<times> int) \<times> counters" where
  "allow_rate_limits sha parse_ip up fails rules r =
     (if \<not> up then (Inl (), r)
      else if rules = [] then (Inr (True, 0), r)
      else if \<not> list_all valid_rule rules then (Inl (), r)
      else if fails then (Inl (), r)
      else let ((allowed, retryMillis), r1) = reserve_rate_limit_script (map (script_rule sha parse_ip) rules) r
        in (Inr (allowed, retryMillis * 1000000), r1))"

definition reset_rate_limits :: "(string \<Rightarrow> string) \<Rightarrow> (string \<Rightarrow> string option) \<Rightarrow> bool \<Rightarrow> rate_limit_rule list \<Rightarrow> counters \<Rightarrow>
    (unit + unit) \<times> counters" where
  "reset_rate_limits sha parse_ip up rules r =
     (if \<not> up then (Inl (), r)
      else let ks = map (\<lambda>x. rate_limit_key sha parse_ip (rr_action x) (rr_dimension x) (rr_identifier x))
             (filter (\<lambda>x. rr_action x \<noteq> [] \<and> rr_dimension x \<noteq> [] \<and> rr_identifier x \<noteq> []) rules)
        in (Inr (), r\<lparr>cn_rows := fold AList.delete ks (cn_rows r)\<rparr>))"

section \<open>Slots of the process\<close>

text \<open>\<open>gd_out\<close> are the release functions that have not run yet, each with what it closes over.\<close>

record guard =
  gd_config :: guard_config
  gd_in_flight :: int
  gd_by_user :: "(string \<times> int) list"
  gd_by_action :: "(action \<times> int) list"
  gd_out :: "(nat \<times> (string \<times> action)) list"
  gd_next :: nat

definition new_guard :: "guard_config \<Rightarrow> guard" where
  "new_guard c = \<lparr>gd_config = normalize_config c, gd_in_flight = 0, gd_by_user = [], gd_by_action = [], gd_out = [], gd_next = 0\<rparr>"

text \<open>A Go map of counters: a missing key reads as zero; a counter that comes to zero is removed.\<close>

definition count_in :: "('k \<times> int) list \<Rightarrow> 'k \<Rightarrow> int" where
  "count_in m k = (case map_of m k of None \<Rightarrow> 0 | Some n \<Rightarrow> n)"

definition count_up :: "'k \<Rightarrow> ('k \<times> int) list \<Rightarrow> ('k \<times> int) list" where
  "count_up k m = AList.update k (count_in m k + 1) m"

definition count_down :: "'k \<Rightarrow> ('k \<times> int) list \<Rightarrow> ('k \<times> int) list" where
  "count_down k m = (let m1 = AList.update k (count_in m k - 1) m in if count_in m1 k = 0 then AList.delete k m1 else m1)"

definition acquire :: "string \<times> action \<Rightarrow> guard \<Rightarrow> (nat \<times> guard) option" where
  "acquire = (\<lambda>(userName, action) g.
     let imageSaturated = (action = ActionImage \<and> gc_image_in_flight (gd_config g) \<le> count_in (gd_by_action g) ActionImage) in
     if gc_global_in_flight (gd_config g) \<le> gd_in_flight g \<or> gc_user_in_flight (gd_config g) \<le> count_in (gd_by_user g) userName \<or> imageSaturated
     then None
     else Some (gd_next g, g\<lparr>gd_in_flight := gd_in_flight g + 1, gd_by_user := count_up userName (gd_by_user g),
       gd_by_action := count_up action (gd_by_action g), gd_out := gd_out g @ [(gd_next g, (userName, action))], gd_next := Suc (gd_next g)\<rparr>))"

text \<open>\<open>sync.Once\<close>: a release function that has run does nothing.\<close>

definition release :: "nat \<Rightarrow> guard \<Rightarrow> guard" where
  "release i g = (case map_of (gd_out g) i of
     None \<Rightarrow> g
   | Some (userName, action) \<Rightarrow> g\<lparr>gd_in_flight := gd_in_flight g - 1, gd_by_user := count_down userName (gd_by_user g),
       gd_by_action := count_down action (gd_by_action g), gd_out := filter (\<lambda>x. fst x \<noteq> i) (gd_out g)\<rparr>)"

section \<open>A request\<close>

text \<open>A body announces a length (negative when unknown) and is read to its bytes, or not at all.\<close>

datatype body = NoBody | Body int "string option"

datatype response = Unauthorized | ServiceUnavailable | TooManyRequests int | TooLarge | BadRequest | Admitted nat body

definition retry_seconds :: "int \<Rightarrow> int" where
  "retry_seconds d = (let s = d div second; s1 = (if d mod second \<noteq> 0 then s + 1 else s) in if s1 < 1 then 1 else s1)"

definition wrap64 :: "int \<Rightarrow> int" where
  "wrap64 n = (n + 2 ^ 63) mod 2 ^ 64 - 2 ^ 63"

definition limit_body :: "guard_config \<Rightarrow> body \<Rightarrow> response + body" where
  "limit_body c b = (case b of
     NoBody \<Rightarrow> Inr NoBody
   | Body announced content \<Rightarrow>
       if gc_json_max_bytes c < announced then Inl TooLarge
       else let m = gc_json_max_bytes c; readLimit = (if wrap64 (m + 1) \<le> m then m else wrap64 (m + 1)) in
         (case content of
            None \<Rightarrow> Inl BadRequest
          | Some bytes \<Rightarrow> let payload = take (nat readLimit) bytes in
              if m < int (length payload) then Inl TooLarge else Inr (Body (int (length payload)) (Some payload))))"

record protected_request =
  pr_user :: string
  pr_action :: action
  pr_json :: bool
  pr_body :: body

definition guard_rules :: "guard_config \<Rightarrow> string \<Rightarrow> action \<Rightarrow> (action \<Rightarrow> string) \<Rightarrow> rate_limit_rule list" where
  "guard_rules c userName action name =
     (let actionLimit = (if gc_action_limits c action \<le> 0 then gc_requests_per_window c else gc_action_limits c action) in
      [\<lparr>rr_action = ''cost-guard'', rr_dimension = ''all'', rr_identifier = userName, rr_limit = gc_requests_per_window c, rr_window = gc_window c\<rparr>,
       \<lparr>rr_action = ''cost-guard'', rr_dimension = name action, rr_identifier = userName, rr_limit = actionLimit, rr_window = gc_window c\<rparr>])"

definition action_name :: "action \<Rightarrow> string" where
  "action_name a = (case a of ActionChat \<Rightarrow> ''chat'' | ActionVoice \<Rightarrow> ''voice'' | ActionRAG \<Rightarrow> ''rag'' | ActionMCP \<Rightarrow> ''mcp''
     | ActionAgent \<Rightarrow> ''agent'' | ActionImage \<Rightarrow> ''image'')"

text \<open>
  The request up to its handler; \<open>limiter\<close> is the injected limiter. An admitted request holds the
  slot it names until its handler returns, or panics, and the deferred release runs.
\<close>

definition protect :: "(rate_limit_rule list \<Rightarrow> 'r \<Rightarrow> (unit + bool \<times> int) \<times> 'r) \<Rightarrow> protected_request \<Rightarrow> guard \<times> 'r \<Rightarrow> response \<times> guard \<times> 'r" where
  "protect limiter q = (\<lambda>(g, r).
     let userName = to_lower (trim_space (pr_user q)) in
     if userName = [] then (Unauthorized, g, r)
     else case limiter (guard_rules (gd_config g) userName (pr_action q) action_name) r of
       (Inl e, r1) \<Rightarrow> (ServiceUnavailable, g, r1)
     | (Inr (allowed, retryAfter), r1) \<Rightarrow>
         if \<not> allowed then (TooManyRequests (retry_seconds retryAfter), g, r1)
         else (case acquire (userName, pr_action q) g of
            None \<Rightarrow> (TooManyRequests (retry_seconds (gc_retry_after (gd_config g))), g, r1)
          | Some (i, g1) \<Rightarrow>
              if pr_json q then
                (case limit_body (gd_config g) (pr_body q) of
                   Inl x \<Rightarrow> (x, release i g1, r1)
                 | Inr b \<Rightarrow> (Admitted i b, g1, r1))
              else (Admitted i (pr_body q), g1, r1)))"

end
