(* ===== verification/GuardSafety.thy ===== *)
theory GuardSafety
  imports CostGuard
begin

text \<open>
  The slots of the guard of \<open>CostGuard\<close> keep the contract of \<open>Slots\<close>: the interpretation \<open>gs\<close>. From
  it: what any interleaving of protected requests and of their ends leaves in the guard.
\<close>

section \<open>Counters of a Go map\<close>

lemma count_in_up [simp]: "count_in (count_up k m) l = count_in m l + (if l = k then 1 else 0)"
  by (simp add: count_up_def count_in_def update_conv')

lemma count_in_down [simp]: "count_in (count_down k m) l = count_in m l - (if l = k then 1 else 0)"
  by (simp add: count_down_def Let_def count_in_def update_conv' delete_conv' split: option.splits)

text \<open>A map without a zero has exactly the keys that are counted.\<close>

definition no_zero :: "('k \<times> int) list \<Rightarrow> bool" where
  "no_zero m \<longleftrightarrow> (\<forall>k. map_of m k \<noteq> Some 0)"

lemma no_zero_up: "no_zero m \<Longrightarrow> 0 \<le> count_in m k \<Longrightarrow> no_zero (count_up k m)"
  by (auto simp: no_zero_def count_up_def update_conv')

lemma no_zero_down: "no_zero m \<Longrightarrow> no_zero (count_down k m)"
  by (auto simp: no_zero_def count_down_def Let_def count_in_def update_conv' delete_conv' split: option.splits)

lemma no_zero_key: "no_zero m \<Longrightarrow> map_of m k = (if count_in m k = 0 then None else Some (count_in m k))"
  by (auto simp: no_zero_def count_in_def split: option.splits)

section \<open>The contract\<close>

datatype guard_counter = AllRequests | OfUser string | OfAction action

definition guard_level :: "guard \<Rightarrow> guard_counter \<Rightarrow> int" where
  "guard_level g c = (case c of AllRequests \<Rightarrow> gd_in_flight g | OfUser u \<Rightarrow> count_in (gd_by_user g) u | OfAction a \<Rightarrow> count_in (gd_by_action g) a)"

definition guard_charges :: "string \<times> action \<Rightarrow> guard_counter \<Rightarrow> bool" where
  "guard_charges k c = (case c of AllRequests \<Rightarrow> True | OfUser u \<Rightarrow> u = fst k | OfAction a \<Rightarrow> a = snd k)"

definition guard_cap :: "guard \<Rightarrow> guard_counter \<Rightarrow> int option" where
  "guard_cap g c = (case c of AllRequests \<Rightarrow> Some (gc_global_in_flight (gd_config g)) | OfUser u \<Rightarrow> Some (gc_user_in_flight (gd_config g))
     | OfAction a \<Rightarrow> if a = ActionImage then Some (gc_image_in_flight (gd_config g)) else None)"

lemma guard_cap_config: "gd_config h = gd_config g \<Longrightarrow> guard_cap h = guard_cap g"
  by (rule ext) (simp add: guard_cap_def split: guard_counter.split)

lemma acquire_some:
  assumes "acquire k g = Some (i, h)"
  shows "i = gd_next g" "h = g\<lparr>gd_in_flight := gd_in_flight g + 1, gd_by_user := count_up (fst k) (gd_by_user g),
      gd_by_action := count_up (snd k) (gd_by_action g), gd_out := gd_out g @ [(gd_next g, k)], gd_next := Suc (gd_next g)\<rparr>"
    "gd_in_flight g < gc_global_in_flight (gd_config g)" "count_in (gd_by_user g) (fst k) < gc_user_in_flight (gd_config g)"
    "snd k = ActionImage \<Longrightarrow> count_in (gd_by_action g) ActionImage < gc_image_in_flight (gd_config g)"
  using assms by (auto simp: acquire_def Let_def split: prod.splits if_splits)

lemma filter_free: "i \<notin> fst ` set xs \<Longrightarrow> filter (\<lambda>x. fst x \<noteq> i) xs = xs"
  by (induction xs) auto

lemma release_some:
  assumes "distinct (map fst (gd_out g))" "(i, k) \<in> set (gd_out g)"
  shows "release i g = g\<lparr>gd_in_flight := gd_in_flight g - 1, gd_by_user := count_down (fst k) (gd_by_user g),
    gd_by_action := count_down (snd k) (gd_by_action g), gd_out := filter (\<lambda>x. fst x \<noteq> i) (gd_out g)\<rparr>"
  using assms by (simp add: release_def split: prod.split)

interpretation gs: slot_pool gd_out guard_level guard_charges guard_cap acquire release gd_next
proof unfold_locales
  fix k g i h c m
  assume a: "acquire k g = Some (i, h)"
  note b = acquire_some [OF a]
  show "gd_out h = gd_out g @ [(i, k)]" "gd_next g \<le> i \<and> i < gd_next h"
    by (simp_all add: b(1) b(2))
  show "guard_cap h = guard_cap g" by (rule guard_cap_config) (simp add: b(2))
  show "guard_level h c = guard_level g c + (if guard_charges k c then 1 else 0)"
    by (simp add: b(2) guard_level_def guard_charges_def split: guard_counter.split)
  show "guard_level g c < m" if "guard_charges k c" "guard_cap g c = Some m"
    using that b(3-5) by (auto simp: guard_level_def guard_charges_def guard_cap_def split: guard_counter.splits if_splits)
next
  fix i k g c
  show "release i g = g" if "i \<notin> fst ` set (gd_out g)"
    using that by (simp add: release_def map_of_eq_None_iff [THEN iffD2])
  show "gd_out (release i g) = filter (\<lambda>x. fst x \<noteq> i) (gd_out g)"
  proof (cases "map_of (gd_out g) i")
    case None
    then have "i \<notin> fst ` set (gd_out g)" by (simp add: map_of_eq_None_iff)
    then show ?thesis using filter_free [of i "gd_out g"] None by (simp add: release_def)
  qed (simp add: release_def split: prod.split)
  show "guard_cap (release i g) = guard_cap g"
    by (rule guard_cap_config) (simp add: release_def split: option.split prod.split)
  show "gd_next (release i g) = gd_next g"
    by (simp add: release_def split: option.split prod.split)
  show "guard_level (release i g) c = guard_level g c - (if guard_charges k c then 1 else 0)"
    if "distinct (map fst (gd_out g))" "(i, k) \<in> set (gd_out g)"
    by (simp add: release_some [OF that] guard_level_def guard_charges_def split: guard_counter.split)
qed

section \<open>Requests\<close>

datatype request_event = Arrives protected_request | Finishes nat

definition serve :: "(rate_limit_rule list \<Rightarrow> 'r \<Rightarrow> (unit + bool \<times> int) \<times> 'r) \<Rightarrow> request_event \<Rightarrow> guard \<times> 'r \<Rightarrow> guard \<times> 'r" where
  "serve limiter e s = (case e of Arrives q \<Rightarrow> snd (protect limiter q s) | Finishes i \<Rightarrow> (release i (fst s), snd s))"

definition guard_sound :: "guard \<Rightarrow> bool" where
  "guard_sound g \<longleftrightarrow> gs.sound g \<and> no_zero (gd_by_user g) \<and> no_zero (gd_by_action g)"

text \<open>Whatever the configuration given to \<open>New\<close>, every limit of the guard is positive.\<close>

lemma normalized_positive:
  "0 < gc_json_max_bytes (normalize_config c)" "0 < gc_window (normalize_config c)" "0 < gc_requests_per_window (normalize_config c)"
  "0 < gc_action_limits (normalize_config c) a" "0 < gc_user_in_flight (normalize_config c)"
  "0 < gc_global_in_flight (normalize_config c)" "0 < gc_image_in_flight (normalize_config c)" "0 < gc_retry_after (normalize_config c)"
  by (simp_all add: normalize_config_def Let_def or_default_def default_config_def second_def default_action_limit_def split: action.split)

lemma guard_sound_new: "guard_sound (new_guard c)"
proof -
  have "guard_cap (new_guard c) d = Some m \<Longrightarrow> 0 \<le> m" for d m
    using normalized_positive(5-7) [of c] by (auto simp: guard_cap_def new_guard_def split: guard_counter.splits if_splits)
  moreover have "guard_level (new_guard c) d = 0" "gd_out (new_guard c) = []" for d
    by (auto simp: guard_level_def new_guard_def count_in_def split: guard_counter.split)
  moreover have "no_zero (gd_by_user (new_guard c))" "no_zero (gd_by_action (new_guard c))" by (simp_all add: new_guard_def no_zero_def)
  ultimately show ?thesis by (simp add: guard_sound_def gs.sound_def gs.charged_def)
qed

lemma level_nonneg: "gs.sound g \<Longrightarrow> 0 \<le> guard_level g c"
  by (simp add: gs.sound_def gs.charged_def)

lemma guard_sound_acquire:
  assumes "guard_sound g" "acquire k g = Some (i, h)"
  shows "guard_sound h"
proof -
  have s: "gs.sound g" using assms(1) by (simp add: guard_sound_def)
  have "0 \<le> count_in (gd_by_user g) (fst k)" "0 \<le> count_in (gd_by_action g) (snd k)"
    using level_nonneg [OF s, of "OfUser (fst k)"] level_nonneg [OF s, of "OfAction (snd k)"] by (simp_all add: guard_level_def)
  then show ?thesis using assms gs.enter_sound [OF s assms(2)] acquire_some(2) [OF assms(2)]
    by (simp add: guard_sound_def no_zero_up)
qed

lemma guard_sound_release:
  assumes "guard_sound g"
  shows "guard_sound (release i g)"
proof -
  have "no_zero (gd_by_user (release i g))" "no_zero (gd_by_action (release i g))"
    using assms by (auto simp: guard_sound_def no_zero_down release_def split: option.split)
  then show ?thesis using assms gs.leave_sound by (simp add: guard_sound_def)
qed

text \<open>What a request can do to the guard.\<close>

lemma protect_guard:
  "protect limiter q (g, r) = (x, h, r1) \<Longrightarrow> h = g \<or>
    (\<exists>i g1. acquire (to_lower (trim_space (pr_user q)), pr_action q) g = Some (i, g1) \<and>
      (h = release i g1 \<or> (h = g1 \<and> (\<exists>b. x = Admitted i b))))"
  by (auto simp: protect_def Let_def split: prod.splits sum.splits option.splits if_splits)

lemma guard_sound_serve:
  assumes "guard_sound (fst s)"
  shows "guard_sound (fst (serve limiter e s))"
proof (cases e)
  case (Arrives q)
  obtain g r where s: "s = (g, r)" by (cases s)
  obtain x h r1 where p: "protect limiter q (g, r) = (x, h, r1)" by (metis prod_cases3)
  then have "guard_sound h" using protect_guard [OF p] assms
    by (auto simp: s intro: guard_sound_acquire guard_sound_release)
  then show ?thesis by (simp add: serve_def Arrives s p)
qed (use assms in \<open>simp add: serve_def guard_sound_release\<close>)

lemma guard_sound_run: "guard_sound (fst s) \<Longrightarrow> guard_sound (fst (fold (serve limiter) es s))"
  by (induction es arbitrary: s) (simp_all add: guard_sound_serve)

lemma guard_soundD:
  assumes "guard_sound g"
  shows "gd_in_flight g = int (length (gd_out g))"
    "map_of (gd_by_user g) u = (let n = int (length (filter (\<lambda>x. fst (snd x) = u) (gd_out g))) in if n = 0 then None else Some n)"
    "map_of (gd_by_action g) a = (let n = int (length (filter (\<lambda>x. snd (snd x) = a) (gd_out g))) in if n = 0 then None else Some n)"
    "gd_in_flight g \<le> gc_global_in_flight (gd_config g)"
    "length (filter (\<lambda>x. fst (snd x) = u) (gd_out g)) \<le> nat (gc_user_in_flight (gd_config g))"
    "length (filter (\<lambda>x. snd (snd x) = ActionImage) (gd_out g)) \<le> nat (gc_image_in_flight (gd_config g))"
    "distinct (map fst (gd_out g))"
proof -
  have s: "gs.sound g" and z: "no_zero (gd_by_user g)" "no_zero (gd_by_action g)" using assms by (simp_all add: guard_sound_def)
  have lev: "guard_level g c = gs.charged c (gd_out g)" and cap: "guard_cap g c = Some m \<Longrightarrow> guard_level g c \<le> m" for c m
    using s unfolding gs.sound_def by blast+
  have u: "count_in (gd_by_user g) v = int (length (filter (\<lambda>x. fst (snd x) = v) (gd_out g)))" for v
    using lev [of "OfUser v"] by (simp add: guard_level_def gs.charged_def guard_charges_def eq_commute)
  have a: "count_in (gd_by_action g) b = int (length (filter (\<lambda>x. snd (snd x) = b) (gd_out g)))" for b
    using lev [of "OfAction b"] by (simp add: guard_level_def gs.charged_def guard_charges_def eq_commute)
  show "gd_in_flight g = int (length (gd_out g))"
    using lev [of AllRequests] by (simp add: guard_level_def gs.charged_def guard_charges_def)
  show "map_of (gd_by_user g) u = (let n = int (length (filter (\<lambda>x. fst (snd x) = u) (gd_out g))) in if n = 0 then None else Some n)"
    using no_zero_key [OF z(1), of u] u [of u] by (simp add: Let_def)
  show "map_of (gd_by_action g) a = (let n = int (length (filter (\<lambda>x. snd (snd x) = a) (gd_out g))) in if n = 0 then None else Some n)"
    using no_zero_key [OF z(2), of a] a [of a] by (simp add: Let_def)
  show "gd_in_flight g \<le> gc_global_in_flight (gd_config g)" using cap [of AllRequests] by (simp add: guard_level_def guard_cap_def)
  show "length (filter (\<lambda>x. fst (snd x) = u) (gd_out g)) \<le> nat (gc_user_in_flight (gd_config g))"
    using cap [of "OfUser u"] u [of u] by (simp add: guard_level_def guard_cap_def)
  show "length (filter (\<lambda>x. snd (snd x) = ActionImage) (gd_out g)) \<le> nat (gc_image_in_flight (gd_config g))"
    using cap [of "OfAction ActionImage"] a [of ActionImage] by (simp add: guard_level_def guard_cap_def)
  show "distinct (map fst (gd_out g))" using s by (simp add: gs.sound_def)
qed

lemma serve_config: "gd_config (fst (serve limiter e s)) = gd_config (fst s)"
proof (cases e)
  case (Arrives q)
  obtain g r where s: "s = (g, r)" by (cases s)
  obtain x h r1 where p: "protect limiter q (g, r) = (x, h, r1)" by (metis prod_cases3)
  have rel: "gd_config (release i g) = gd_config g" for i g by (simp add: release_def split: option.split prod.split)
  then have "gd_config h = gd_config g" using protect_guard [OF p] acquire_some(2) by fastforce
  then show ?thesis by (simp add: serve_def Arrives s p)
qed (simp add: serve_def release_def split: option.split prod.split)

lemma run_config: "gd_config (fst (fold (serve limiter) es s)) = gd_config (fst s)"
  by (induction es arbitrary: s) (simp_all add: serve_config)

text \<open>C37: the guard never loses a slot and never gives one too many. Whatever requests arrive and
  finish, in whatever order, whatever the limiter answers and however often a release function runs: the
  count of requests is the number of slots that are out, the maps per user and per action hold exactly
  the keys that have slots out, with their number, and none of the three caps is exceeded; every limit is positive.\<close>

theorem guard_capacity:
  "let g = fst (fold (serve limiter) es (new_guard c, r)); slots = (\<lambda>p. length (filter (p \<circ> snd) (gd_out g))) in
    gd_in_flight g = int (length (gd_out g)) \<and> gd_in_flight g \<le> gc_global_in_flight (gd_config g) \<and>
    map_of (gd_by_user g) u = (if slots (\<lambda>k. fst k = u) = 0 then None else Some (int (slots (\<lambda>k. fst k = u)))) \<and>
    map_of (gd_by_action g) a = (if slots (\<lambda>k. snd k = a) = 0 then None else Some (int (slots (\<lambda>k. snd k = a)))) \<and>
    int (slots (\<lambda>k. fst k = u)) \<le> gc_user_in_flight (gd_config g) \<and>
    int (slots (\<lambda>k. snd k = ActionImage)) \<le> gc_image_in_flight (gd_config g) \<and>
    distinct (map fst (gd_out g)) \<and> release i (release i g) = release i g \<and>
    gd_config g = normalize_config c \<and> 0 < gc_user_in_flight (gd_config g) \<and> 0 < gc_action_limits (gd_config g) a"
proof -
  define g where "g = fst (fold (serve limiter) es (new_guard c, r))"
  have "guard_sound g" unfolding g_def by (rule guard_sound_run) (simp add: guard_sound_new)
  note facts = guard_soundD [OF this]
  have c: "gd_config g = normalize_config c" by (simp add: g_def run_config new_guard_def)
  have caps: "int (length (filter (\<lambda>x. fst (snd x) = u) (gd_out g))) \<le> gc_user_in_flight (gd_config g)"
    "int (length (filter (\<lambda>x. snd (snd x) = ActionImage) (gd_out g))) \<le> gc_image_in_flight (gd_config g)"
    using facts(5) [of u] facts(6) normalized_positive(5,7) [of c] by (simp_all add: c)
  show ?thesis
    unfolding Let_def g_def [symmetric] comp_def
    using facts(1-4,7) caps normalized_positive(4,5) [of c] gs.leave_twice [of i g]
    by (simp add: c Let_def)
qed

end
