(* ===== verification/QuotaSafety.thy ===== *)
theory QuotaSafety
  imports GuardSafety
begin

text \<open>
  The quota of \<open>rate_limit.go\<close>: what the script does to a counter, the times of the requests that a
  counter has let through, and what follows for the requests that the guard admits.
\<close>

section \<open>The commands\<close>

lemma commands_now [simp]: "cn_now (redis_incr k r) = cn_now r" "cn_now (redis_pexpire k ms r) = cn_now r"
  by (simp_all add: redis_incr_def redis_pexpire_def split: option.split prod.split)

lemma row_at_later: "row_at k r = Some (n, Some d) \<Longrightarrow> cn_now r < d"
  by (auto simp: row_at_def split: option.splits prod.splits if_splits)

lemma row_at_incr:
  "row_at l (redis_incr k r) = (if l = k then (case row_at k r of None \<Rightarrow> Some (1, None) | Some (n, e) \<Rightarrow> Some (n + 1, e)) else row_at l r)"
  by (auto simp: redis_incr_def row_at_def update_conv' split: option.splits prod.splits if_splits)

lemma row_at_pexpire:
  "0 < ms \<Longrightarrow> row_at l (redis_pexpire k ms r) =
    (if l = k then map_option (\<lambda>x. (fst x, Some (cn_now r + ms))) (row_at k r) else row_at l r)"
  by (auto simp: redis_pexpire_def row_at_def update_conv' split: option.splits prod.splits if_splits)

definition at_time :: "int \<Rightarrow> counters \<Rightarrow> counters" where
  "at_time t r = r\<lparr>cn_now := t\<rparr>"

lemma at_time_now [simp]: "cn_now (at_time t r) = t"
  by (simp add: at_time_def)

lemma row_at_time:
  "cn_now r \<le> t \<Longrightarrow> row_at k (at_time t r) =
    (case row_at k r of Some (n, Some d) \<Rightarrow> if d \<le> t then None else Some (n, Some d) | x \<Rightarrow> x)"
  by (auto simp: row_at_def at_time_def split: option.splits prod.splits if_splits)

section \<open>The script\<close>

abbreviation keys_of :: "(string \<times> int \<times> int) list \<Rightarrow> string list" where
  "keys_of rules \<equiv> map fst rules"

definition proper_rules :: "(string \<times> int \<times> int) list \<Rightarrow> bool" where
  "proper_rules rules \<longleftrightarrow> distinct (keys_of rules) \<and> (\<forall>x \<in> set rules. 0 < fst (snd x) \<and> 0 < snd (snd x))"

definition room :: "(string \<times> int \<times> int) list \<Rightarrow> counters \<Rightarrow> bool" where
  "room rules r \<longleftrightarrow> (\<forall>(k, limit, window) \<in> set rules. redis_get k r < limit)"

lemma retry_room: "room rules r \<Longrightarrow> script_retry rules retry r = (retry, r)"
  by (induction rules) (auto simp: room_def)

lemma longer: "(if a < b then b else a) = max a b" for a b :: int
  by (simp add: max_def)

lemma retry_time:
  "script_retry rules retry r = (m, s) \<Longrightarrow> proper_rules rules \<Longrightarrow>
    retry \<le> m \<and> cn_now s = cn_now r \<and> (\<forall>k. redis_get k s = redis_get k r) \<and>
    (\<forall>k. (k \<notin> set (keys_of rules) \<or> (\<forall>n. row_at k r \<noteq> Some (n, None))) \<longrightarrow> row_at k s = row_at k r) \<and>
    (\<forall>k limit window. (k, limit, window) \<in> set rules \<longrightarrow> limit \<le> redis_get k r \<longrightarrow>
      (\<exists>n d. row_at k s = Some (n, Some d) \<and> d \<le> cn_now r + m))"
proof (induction rules arbitrary: retry r)
  case (Cons x rules)
  obtain k limit window where x: "x = (k, limit, window)" by (cases x)
  have w: "0 < window" "0 < limit" and p: "proper_rules rules" and fresh: "k \<notin> set (keys_of rules)"
    using Cons.prems(2) by (auto simp: proper_rules_def x)
  show ?case
  proof (cases "limit \<le> redis_get k r")
    case False
    then show ?thesis using Cons.IH [OF _ p] Cons.prems(1) by (auto simp: x)
  next
    case True
    then obtain n e where row: "row_at k r = Some (n, e)" using w by (auto simp: redis_get_def split: option.splits)
    show ?thesis
    proof (cases e)
      case None
      let ?r = "redis_pexpire k window r"
      have "script_retry rules (max retry window) ?r = (m, s)"
        using Cons.prems(1) True row None by (auto simp: x redis_pttl_def max_def split: if_splits)
      note ih = Cons.IH [OF this p]
      have now: "row_at k s = Some (n, Some (cn_now r + window))" using ih fresh w row by (simp add: row_at_pexpire)
      have other: "row_at l ?r = row_at l r" if "l \<noteq> k" for l using that w by (simp add: row_at_pexpire)
      have get: "redis_get l ?r = redis_get l r" for l
        using row w by (cases "l = k") (simp_all add: redis_get_def row_at_pexpire)
      have "\<exists>n d. row_at l s = Some (n, Some d) \<and> d \<le> cn_now r + m" if "(l, lim, win) \<in> set (x # rules)" "lim \<le> redis_get l r" for l lim win
      proof (cases "l = k")
        case True
        then show ?thesis using now ih by auto
      next
        case False
        then have l: "(l, lim, win) \<in> set rules" "lim \<le> redis_get l ?r" using that get by (auto simp: x)
        have "\<forall>k limit window. (k, limit, window) \<in> set rules \<longrightarrow> limit \<le> redis_get k ?r \<longrightarrow>
            (\<exists>n d. row_at k s = Some (n, Some d) \<and> d \<le> cn_now r + m)" using ih by simp
        then show ?thesis using l by blast
      qed
      moreover have "row_at l s = row_at l r" if "l \<notin> set (keys_of (x # rules)) \<or> (\<forall>n. row_at l r \<noteq> Some (n, None))" for l
      proof -
        have "l \<noteq> k" using that row None by (auto simp: x)
        then show ?thesis using that ih other [of l] by (auto simp: x)
      qed
      moreover have "retry \<le> m" "cn_now s = cn_now r" "\<forall>k. redis_get k s = redis_get k r" using ih get by simp_all
      ultimately show ?thesis by blast
    next
      case (Some d)
      have later: "cn_now r < d" using row Some row_at_later by simp
      from True Cons.prems(1) row Some later have "script_retry rules (max retry (d - cn_now r)) r = (m, s)"
        by (simp add: x redis_pttl_def Let_def longer)
      note ih = Cons.IH [OF this p]
      have "row_at k s = Some (n, Some d)" using ih row Some by auto
      then have "\<exists>n d. row_at l s = Some (n, Some d) \<and> d \<le> cn_now r + m" if "(l, lim, win) \<in> set (x # rules)" "lim \<le> redis_get l r" for l lim win
      proof (cases "l = k")
        case True
        then show ?thesis using ih \<open>row_at k s = Some (n, Some d)\<close> by auto
      next
        case False
        then have "(l, lim, win) \<in> set rules" using that by (auto simp: x)
        moreover have "\<forall>k limit window. (k, limit, window) \<in> set rules \<longrightarrow> limit \<le> redis_get k r \<longrightarrow>
            (\<exists>n d. row_at k s = Some (n, Some d) \<and> d \<le> cn_now r + m)" using ih by simp
        ultimately show ?thesis using that by blast
      qed
      moreover have "row_at l s = row_at l r" if "l \<notin> set (keys_of (x # rules)) \<or> (\<forall>n. row_at l r \<noteq> Some (n, None))" for l
        using that ih by (auto simp: x)
      moreover have "retry \<le> m" "cn_now s = cn_now r" "\<forall>k. redis_get k s = redis_get k r" using ih by simp_all
      ultimately show ?thesis by blast
    qed
  qed
qed auto

lemma retry_positive:
  assumes "proper_rules rules" "script_retry rules 0 r = (m, s)"
  shows "0 < m \<longleftrightarrow> \<not> room rules r"
proof
  assume "\<not> room rules r"
  then obtain k limit window where k: "(k, limit, window) \<in> set rules" "limit \<le> redis_get k r" by (auto simp: room_def)
  then obtain n d where "row_at k s = Some (n, Some d)" "d \<le> cn_now r + m" "cn_now s = cn_now r"
    using retry_time [OF assms(2,1)] by blast
  then show "0 < m" using row_at_later [of k s n d] by simp
qed (use assms(2) retry_room [of rules r 0] in auto)

lemma reserve_row:
  "proper_rules rules \<Longrightarrow> cn_now (script_reserve rules r) = cn_now r \<and>
    (k \<notin> set (keys_of rules) \<longrightarrow> row_at k (script_reserve rules r) = row_at k r) \<and>
    ((k, limit, window) \<in> set rules \<longrightarrow> row_at k (script_reserve rules r) =
      (case row_at k r of None \<Rightarrow> Some (1, Some (cn_now r + window))
       | Some (n, e) \<Rightarrow> Some (n + 1, if n = 0 then Some (cn_now r + window) else e)))"
proof (induction rules arbitrary: r)
  case (Cons x rules)
  obtain l lim win where x: "x = (l, lim, win)" by (cases x)
  have w: "0 < win" and p: "proper_rules rules" and fresh: "l \<notin> set (keys_of rules)"
    using Cons.prems by (auto simp: proper_rules_def x)
  define t where "t = (let r1 = redis_incr l r in if redis_get l r1 = 1 then redis_pexpire l win r1 else r1)"
  have step: "script_reserve (x # rules) r = script_reserve rules t" by (simp add: x t_def Let_def)
  have now: "cn_now t = cn_now r" by (simp add: t_def Let_def)
  have self: "row_at l t = (case row_at l r of None \<Rightarrow> Some (1, Some (cn_now r + win))
      | Some (n, e) \<Rightarrow> Some (n + 1, if n = 0 then Some (cn_now r + win) else e))"
    using w by (auto simp: t_def Let_def redis_get_def row_at_incr row_at_pexpire split: option.splits)
  have other: "row_at k t = row_at k r" if "k \<noteq> l" using that w by (simp add: t_def Let_def row_at_incr row_at_pexpire)
  note ih = Cons.IH [OF p, of t, unfolded now]
  show ?case
  proof (cases "k = l")
    case True
    then have "(k, limit, window) \<in> set (x # rules) \<Longrightarrow> window = win" using fresh by (force simp: x)
    then show ?thesis using ih self fresh True unfolding step by (auto simp: x)
  next
    case False
    then show ?thesis using ih other unfolding step by (auto simp: x)
  qed
qed simp

text \<open>The script as a whole: it grants when every rule has room, and otherwise consumes nothing.\<close>

lemma script_granted:
  assumes "proper_rules rules"
  shows "room rules r \<Longrightarrow> reserve_rate_limit_script rules r = ((True, 0), script_reserve rules r)"
    "\<not> room rules r \<Longrightarrow> \<exists>m s. reserve_rate_limit_script rules r = ((False, m), s) \<and> script_retry rules 0 r = (m, s) \<and> 0 < m"
proof -
  obtain m s where ms: "script_retry rules 0 r = (m, s)" by (cases "script_retry rules 0 r")
  note pos = retry_positive [OF assms ms]
  show "room rules r \<Longrightarrow> reserve_rate_limit_script rules r = ((True, 0), script_reserve rules r)"
    using retry_room [of rules r 0] by (simp add: reserve_rate_limit_script_def)
  show "\<not> room rules r \<Longrightarrow> \<exists>m s. reserve_rate_limit_script rules r = ((False, m), s) \<and> script_retry rules 0 r = (m, s) \<and> 0 < m"
    using ms pos by (simp add: reserve_rate_limit_script_def)
qed

lemma script_later:
  assumes "proper_rules rules" "reserve_rate_limit_script rules r = ((False, m), s)" "cn_now r + m \<le> t"
  shows "\<exists>u. reserve_rate_limit_script rules (at_time t s) = ((True, 0), u)"
proof -
  have "\<not> room rules r" using script_granted(1) [OF assms(1)] assms(2) by auto
  then have ms: "script_retry rules 0 r = (m, s)" "0 < m" using script_granted(2) [OF assms(1), of r] assms(2) by simp_all
  note facts = retry_time [OF ms(1) assms(1)]
  have now: "cn_now s \<le> t" using facts assms(3) ms(2) by simp
  have "redis_get k (at_time t s) < limit" if rule: "(k, limit, window) \<in> set rules" for k limit window
  proof (cases "limit \<le> redis_get k r")
    case True
    then obtain n d where "row_at k s = Some (n, Some d)" "d \<le> cn_now r + m"
      using facts rule by blast
    then have "redis_get k (at_time t s) = 0" using assms(3) now by (simp add: redis_get_def row_at_time)
    then show ?thesis using assms(1) rule by (auto simp: proper_rules_def)
  next
    case False
    have "redis_get k (at_time t s) = redis_get k s \<or> redis_get k (at_time t s) = 0"
      using now by (auto simp: redis_get_def row_at_time split: option.splits)
    then show ?thesis using False facts assms(1) rule by (auto simp: proper_rules_def)
  qed
  then have "room rules (at_time t s)" by (auto simp: room_def)
  then show ?thesis using script_granted(1) [OF assms(1)] by blast
qed

section \<open>The requests a counter lets through\<close>

text \<open>
  \<open>J\<close> below: \<open>ps\<close> are the grants so far, each with the start of the window it was counted in. Windows
  of a counter are disjoint, hold at most \<open>L\<close> grants, and the counter of the last one is exact.
\<close>

definition grants_at :: "int \<Rightarrow> (int \<times> int) list \<Rightarrow> nat" where
  "grants_at s ps = length (filter (\<lambda>p. fst p = s) ps)"

definition windows :: "int \<Rightarrow> int \<Rightarrow> (int \<times> int) list \<Rightarrow> bool" where
  "windows L W ps \<longleftrightarrow> (\<forall>p \<in> set ps. fst p \<le> snd p \<and> snd p < fst p + W) \<and> (\<forall>s. int (grants_at s ps) \<le> L) \<and>
     (\<forall>p \<in> set ps. \<forall>q \<in> set ps. fst p = fst q \<or> fst p + W \<le> fst q \<or> fst q + W \<le> fst p)"

definition counted :: "string \<Rightarrow> int \<Rightarrow> counters \<Rightarrow> (int \<times> int) list \<Rightarrow> bool" where
  "counted k W r ps = (case row_at k r of
     None \<Rightarrow> \<forall>p \<in> set ps. fst p + W \<le> cn_now r
   | Some (n, None) \<Rightarrow> False
   | Some (n, Some d) \<Rightarrow> d \<le> cn_now r + W \<and> 1 \<le> n \<and> n = int (grants_at (d - W) ps) \<and>
       (\<forall>p \<in> set ps. fst p = d - W \<or> fst p + W \<le> d - W))"

lemma counted_time:
  assumes "counted k W r ps" "cn_now r \<le> t"
  shows "counted k W (at_time t r) ps"
  using assms by (fastforce simp: counted_def row_at_time split: option.splits)

lemma counted_same: "counted k W r ps \<Longrightarrow> row_at k s = row_at k r \<Longrightarrow> cn_now s = cn_now r \<Longrightarrow> counted k W s ps"
  by (auto simp: counted_def split: option.splits)

lemma counted_timed: "counted k W r ps \<Longrightarrow> row_at k r = None \<or> (\<exists>n d. row_at k r = Some (n, Some d))"
  by (auto simp: counted_def split: option.splits)

lemma grant_counted:
  assumes "windows L W ps" "counted k W r ps" "redis_get k r < L" "0 < W" "0 < L" "cn_now s = cn_now r"
    and row: "row_at k s = (case row_at k r of None \<Rightarrow> Some (1, Some (cn_now r + W))
      | Some (n, e) \<Rightarrow> Some (n + 1, if n = 0 then Some (cn_now r + W) else e))"
  shows "\<exists>a. windows L W (ps @ [(a, cn_now r)]) \<and> counted k W s (ps @ [(a, cn_now r)])"
proof (cases "row_at k r")
  case None
  then have past: "\<forall>p \<in> set ps. fst p + W \<le> cn_now r" using assms(2) by (simp add: counted_def)
  then have "grants_at (cn_now r) ps = 0" using assms(4) by (fastforce simp: grants_at_def filter_empty_conv)
  then have "windows L W (ps @ [(cn_now r, cn_now r)])" "counted k W s (ps @ [(cn_now r, cn_now r)])"
    using assms(1,4-6) past row None by (auto simp: windows_def counted_def grants_at_def)
  then show ?thesis by blast
next
  case (Some x)
  then obtain n d where x: "row_at k r = Some (n, Some d)" using counted_timed [OF assms(2)] by auto
  have d: "d \<le> cn_now r + W" "1 \<le> n" "n = int (grants_at (d - W) ps)" "\<forall>p \<in> set ps. fst p = d - W \<or> fst p + W \<le> d - W" "cn_now r < d"
    using assms(2) x row_at_later [OF x] by (simp_all add: counted_def)
  have "n < L" using assms(3) x by (simp add: redis_get_def)
  then have "windows L W (ps @ [(d - W, cn_now r)])"
    using assms(1) d by (auto simp: windows_def grants_at_def)
  moreover have "row_at k s = Some (n + 1, Some d)" using row x d(2) by simp
  then have "counted k W s (ps @ [(d - W, cn_now r)])"
    using assms(6) d(1,2,4) by (simp add: counted_def d(3) grants_at_def)
  ultimately show ?thesis by blast
qed

text \<open>A step of the script, for one of its counters or for a counter it does not touch.\<close>

lemma script_counted:
  assumes "windows L W ps" "counted k W r ps" "proper_rules rules"
    and rule: "\<And>limit window. (k, limit, window) \<in> set rules \<Longrightarrow> limit = L \<and> window = W"
    and run: "reserve_rate_limit_script rules r = ((granted, m), s)"
  shows "cn_now s = cn_now r \<and> (if granted \<and> k \<in> set (keys_of rules)
    then \<exists>a. windows L W (ps @ [(a, cn_now r)]) \<and> counted k W s (ps @ [(a, cn_now r)]) else counted k W s ps)"
proof (cases "room rules r")
  case True
  then have s: "granted" "s = script_reserve rules r" using script_granted(1) [OF assms(3)] run by auto
  note facts = reserve_row [OF assms(3), of r k L W]
  show ?thesis
  proof (cases "k \<in> set (keys_of rules)")
    case False
    then show ?thesis using facts counted_same [OF assms(2)] s by simp
  next
    case True
    then have r: "(k, L, W) \<in> set rules" using rule by force
    then have pos: "0 < W" "0 < L" "redis_get k r < L"
      using assms(3) \<open>room rules r\<close> by (auto simp: proper_rules_def room_def)
    show ?thesis using grant_counted [OF assms(1,2) pos(3,1,2), of s] facts r s True by simp
  qed
next
  case False
  then have s: "\<not> granted" "script_retry rules 0 r = (m, s)"
    using script_granted(2) [OF assms(3), of r] run by auto
  note facts = retry_time [OF s(2) assms(3)]
  have "row_at k s = row_at k r" using facts counted_timed [OF assms(2)] by auto
  then show ?thesis using counted_same [OF assms(2)] facts s by simp
qed

text \<open>An interval as long as a window meets at most two windows.\<close>

lemma one_window:
  assumes "windows L W ps" "\<And>p q. p \<in> set ps \<Longrightarrow> q \<in> set ps \<Longrightarrow> Q p \<Longrightarrow> Q q \<Longrightarrow> fst p < fst q + W"
  shows "int (length (filter Q ps)) \<le> max 0 L"
proof (cases "\<exists>p \<in> set ps. Q p")
  case False
  then have "filter Q ps = []" by (simp add: filter_empty_conv)
  then show ?thesis by simp
next
  case True
  then obtain p where p: "p \<in> set ps" "Q p" by blast
  have "fst q = fst p" if "q \<in> set ps" "Q q" for q
    using assms(1) assms(2) [OF p(1) that(1) p(2) that(2)] assms(2) [OF that(1) p(1) that(2) p(2)] p(1) that(1)
    by (fastforce simp: windows_def)
  then have "filter Q ps = filter Q (filter (\<lambda>q. fst q = fst p) ps)" by (auto intro!: filter_cong)
  then have "length (filter Q ps) \<le> grants_at (fst p) ps" unfolding grants_at_def by (metis length_filter_le)
  moreover have "int (grants_at (fst p) ps) \<le> L" using assms(1) by (simp add: windows_def)
  ultimately show ?thesis by simp
qed

lemma two_windows:
  assumes "windows L W ps" "0 \<le> L"
  shows "int (length (filter (\<lambda>t. a \<le> t \<and> t < a + W) (map snd ps))) \<le> 2 * L"
proof -
  let ?in = "\<lambda>p. a \<le> snd p \<and> snd p < a + W"
  have b: "fst p \<le> snd p \<and> snd p < fst p + W" if "p \<in> set ps" for p using assms(1) that by (auto simp: windows_def)
  have "int (length (filter (\<lambda>p. ?in p \<and> fst p \<le> a) ps)) \<le> L"
    using one_window [OF assms(1), of "\<lambda>p. ?in p \<and> fst p \<le> a"] b assms(2) by fastforce
  moreover have "int (length (filter (\<lambda>p. ?in p \<and> \<not> fst p \<le> a) ps)) \<le> L"
    using one_window [OF assms(1), of "\<lambda>p. ?in p \<and> \<not> fst p \<le> a"] b assms(2) by fastforce
  moreover have "length (filter ?in ps) = length (filter (\<lambda>p. ?in p \<and> fst p \<le> a) ps) + length (filter (\<lambda>p. ?in p \<and> \<not> fst p \<le> a) ps)"
    using sum_length_filter_compl [of "\<lambda>p. fst p \<le> a" "filter ?in ps"] by (simp add: conj_commute)
  ultimately show ?thesis by (simp add: filter_map comp_def)
qed

section \<open>The requests the guard admits\<close>

text \<open>A configuration whose limits are positive and whose window is at least a second.\<close>

definition usable_config :: "guard_config \<Rightarrow> bool" where
  "usable_config c \<longleftrightarrow> second \<le> gc_window c \<and> 0 < gc_requests_per_window c \<and> (\<forall>a. 0 < gc_action_limits c a)"

lemma apply_positive_int: "0 < v \<Longrightarrow> 0 < apply_positive_int env name v"
  by (simp add: apply_positive_int_def split: option.split)

lemma apply_positive_seconds: "second \<le> v \<Longrightarrow> second \<le> apply_positive_seconds env name v"
  by (simp add: apply_positive_seconds_def second_def split: option.split)

lemma environment_usable: "usable_config (config_from_environment env)"
  by (simp add: usable_config_def config_from_environment_def Let_def apply_positive_int apply_positive_seconds
    default_config_def default_action_limit_def second_def [symmetric] split: action.split)
    (rule apply_positive_seconds, simp add: second_def)

lemma normalize_usable: "usable_config c \<Longrightarrow> usable_config (normalize_config c)"
  by (auto simp: usable_config_def normalize_config_def Let_def or_default_def second_def not_le) (metis not_less)

lemma guard_rules_proper:
  assumes "usable_config c" "userName \<noteq> []"
  shows "list_all valid_rule (guard_rules c userName a action_name)"
    "proper_rules (map (script_rule sha parse_ip) (guard_rules c userName a action_name))"
proof -
  have "0 < gc_action_limits c a" using assms(1) by (simp add: usable_config_def)
  then show "list_all valid_rule (guard_rules c userName a action_name)"
    using assms by (cases a) (simp_all add: guard_rules_def Let_def valid_rule_def usable_config_def action_name_def second_def)
  show "proper_rules (map (script_rule sha parse_ip) (guard_rules c userName a action_name))"
    using assms \<open>0 < gc_action_limits c a\<close>
    by (cases a) (simp_all add: guard_rules_def Let_def proper_rules_def script_rule_def rate_limit_key_def action_name_def
      usable_config_def second_def pos_imp_zdiv_pos_iff)
qed

abbreviation user_key :: "(string \<Rightarrow> string) \<Rightarrow> (string \<Rightarrow> string option) \<Rightarrow> string \<Rightarrow> string" where
  "user_key sha parse_ip u \<equiv> rate_limit_key sha parse_ip ''cost-guard'' ''all'' u"

lemma guard_rules_key:
  "u = v \<Longrightarrow> user_key sha parse_ip u \<in> set (keys_of (map (script_rule sha parse_ip) (guard_rules c v a action_name)))"
  "(user_key sha parse_ip u, limit, window) \<in> set (map (script_rule sha parse_ip) (guard_rules c v a action_name)) \<Longrightarrow>
    limit = gc_requests_per_window c \<and> window = gc_window c div 1000000"
  by (simp_all add: guard_rules_def Let_def script_rule_def)
    (cases a; auto simp: rate_limit_key_def Let_def action_name_def)

lemma allow_rules:
  assumes "list_all valid_rule rules" "rules \<noteq> []" "allow_rate_limits sha parse_ip up fails rules r = (y, s)"
  shows "(y = Inl () \<and> s = r) \<or> (\<exists>granted m. y = Inr (granted, m * 1000000) \<and>
    reserve_rate_limit_script (map (script_rule sha parse_ip) rules) r = ((granted, m), s))"
  using assms by (auto simp: allow_rate_limits_def split: if_splits prod.splits)

definition admitted :: "response \<Rightarrow> bool" where
  "admitted x = (case x of Admitted i b \<Rightarrow> True | _ \<Rightarrow> False)"

lemma protect_limiter:
  assumes "protect limiter q (g, r) = (x, g1, r1)" "userName = to_lower (trim_space (pr_user q))"
  shows "(userName = [] \<and> r1 = r \<and> \<not> admitted x) \<or>
    (\<exists>y. userName \<noteq> [] \<and> limiter (guard_rules (gd_config g) userName (pr_action q) action_name) r = (y, r1) \<and>
      (admitted x \<longrightarrow> (\<exists>d. y = Inr (True, d))))"
  using assms by (auto simp: protect_def Let_def admitted_def limit_body_def split: prod.splits sum.splits option.splits if_splits body.splits)

lemma protect_counted:
  assumes p: "protect (allow_rate_limits sha parse_ip up fails) q (g, r) = (x, g1, r1)" and c: "usable_config (gd_config g)"
    and L: "L = gc_requests_per_window (gd_config g)" and W: "W = gc_window (gd_config g) div 1000000"
    and inv: "windows L W ps" "counted (user_key sha parse_ip u) W r ps"
  shows "cn_now r1 = cn_now r \<and> (\<exists>qs. windows L W qs \<and> counted (user_key sha parse_ip u) W r1 qs \<and>
    (qs = ps \<and> \<not> (admitted x \<and> to_lower (trim_space (pr_user q)) = u) \<or> (\<exists>a. qs = ps @ [(a, cn_now r)])))"
proof -
  define v where "v = to_lower (trim_space (pr_user q))"
  let ?rules = "guard_rules (gd_config g) v (pr_action q) action_name"
  let ?k = "user_key sha parse_ip u"
  consider "r1 = r" "\<not> admitted x" | y where "v \<noteq> []" "allow_rate_limits sha parse_ip up fails ?rules r = (y, r1)"
    "admitted x \<longrightarrow> (\<exists>d. y = Inr (True, d))"
    using protect_limiter [OF p v_def] by blast
  then show ?thesis
  proof cases
    case 1
    then show ?thesis using inv by blast
  next
    case 2
    note proper = guard_rules_proper [OF c 2(1), where a = "pr_action q"]
    have "?rules \<noteq> []" by (simp add: guard_rules_def)
    then consider "y = Inl ()" "r1 = r" | granted m where "y = Inr (granted, m * 1000000)"
      "reserve_rate_limit_script (map (script_rule sha parse_ip) ?rules) r = ((granted, m), r1)"
      using allow_rules [OF proper(1) _ 2(2)] by blast
    then show ?thesis
    proof cases
      case 1
      then show ?thesis using inv 2(3) by blast
    next
      case run: 2
      note step = script_counted [OF inv proper(2) _ run(2)]
      have "limit = L \<and> window = W" if "(?k, limit, window) \<in> set (map (script_rule sha parse_ip) ?rules)" for limit window
        using guard_rules_key(2) [OF that] by (simp add: L W)
      note step = step [OF this]
      have "granted \<and> ?k \<in> set (keys_of (map (script_rule sha parse_ip) ?rules))" if "admitted x" "v = u"
        using guard_rules_key(1) [of u v] that 2(3) run(1) by auto
      then show ?thesis using step inv(1) unfolding v_def [symmetric] by (metis (no_types, lifting))
    qed
  qed
qed

definition admit_at :: "(string \<Rightarrow> string) \<Rightarrow> (string \<Rightarrow> string option) \<Rightarrow> string \<Rightarrow> nat \<times> bool \<times> bool \<times> request_event \<Rightarrow>
    (guard \<times> counters) \<times> int list \<Rightarrow> (guard \<times> counters) \<times> int list" where
  "admit_at sha parse_ip u = (\<lambda>(dt, up, fails, e) ((g, r), log).
     let r0 = at_time (cn_now r + int dt) r in
     case e of Finishes i \<Rightarrow> ((release i g, r0), log)
     | Arrives q \<Rightarrow> (case protect (allow_rate_limits sha parse_ip up fails) q (g, r0) of (x, s) \<Rightarrow>
         (s, if admitted x \<and> to_lower (trim_space (pr_user q)) = u then log @ [cn_now r0] else log)))"

definition quota_kept :: "guard_config \<Rightarrow> string \<Rightarrow> (guard \<times> counters) \<times> int list \<Rightarrow> bool" where
  "quota_kept c k = (\<lambda>((g, r), log). gd_config g = c \<and>
     (\<exists>ps. windows (gc_requests_per_window c) (gc_window c div 1000000) ps \<and> counted k (gc_window c div 1000000) r ps \<and>
       (\<forall>P. length (filter P log) \<le> length (filter P (map snd ps)))))"

lemma admit_quota:
  assumes c: "usable_config c" and inv: "quota_kept c (user_key sha parse_ip u) s"
  shows "quota_kept c (user_key sha parse_ip u) (admit_at sha parse_ip u e s)"
proof -
  obtain g r log where s: "s = ((g, r), log)" by (metis prod.exhaust)
  obtain dt up fails ev where e: "e = (dt, up, fails, ev)" by (metis prod.exhaust)
  let ?k = "user_key sha parse_ip u"
  let ?L = "gc_requests_per_window c"
  let ?W = "gc_window c div 1000000"
  define t where "t = at_time (cn_now r + int dt) r"
  obtain ps where ps: "gd_config g = c" "windows ?L ?W ps" "counted ?k ?W t ps"
    "\<And>P. length (filter P log) \<le> length (filter P (map snd ps))"
    using inv counted_time [where r = r and t = "cn_now r + int dt"] by (auto simp: quota_kept_def s t_def)
  show ?thesis
  proof (cases ev)
    case (Finishes i)
    then have "admit_at sha parse_ip u e s = ((release i g, t), log)" by (simp add: admit_at_def s e t_def)
    moreover have "gd_config (release i g) = c" using ps(1) by (simp add: release_def split: option.split prod.split)
    ultimately show ?thesis using ps by (auto simp: quota_kept_def)
  next
    case (Arrives q)
    let ?user = "to_lower (trim_space (pr_user q))"
    let ?lim = "allow_rate_limits sha parse_ip up fails"
    obtain x h t1 where p: "protect ?lim q (g, t) = (x, h, t1)" by (metis prod_cases3)
    have cfg: "gd_config h = c" using serve_config [of ?lim "Arrives q" "(g, t)"] p ps(1) by (simp add: serve_def)
    obtain qs where qs: "windows ?L ?W qs" "counted ?k ?W t1 qs"
      "qs = ps \<and> \<not> (admitted x \<and> ?user = u) \<or> (\<exists>a. qs = ps @ [(a, cn_now t)])"
      using protect_counted [OF p _ refl refl, of ps u] ps c by auto
    define now where "now = (if admitted x \<and> ?user = u then log @ [cn_now t] else log)"
    have run: "admit_at sha parse_ip u e s = ((h, t1), now)"
      using p by (simp add: admit_at_def s e t_def Arrives Let_def now_def)
    have "length (filter P now) \<le> length (filter P (map snd qs))" for P
      using ps(4) [of P] qs(3) by (auto simp: now_def split: if_splits intro: le_SucI)
    then show ?thesis using qs(1,2) cfg unfolding run quota_kept_def prod.case by blast
  qed
qed

text \<open>C38: the quota of a user bounds what the guard admits. From an empty Redis, whatever requests of
  whatever users arrive and finish, and whenever Redis fails: in any stretch of time as long as the
  configured window, at most twice the configured number of requests of a user is admitted (the window is
  a fixed one, so the two it can meet bound it).\<close>

theorem window_quota:
  "let c = config_from_environment env;
       ((g, r), log) = fold (admit_at sha parse_ip u) es ((new_guard c, \<lparr>cn_now = t, cn_rows = []\<rparr>), [])
   in int (length (filter (\<lambda>s. a \<le> s \<and> s < a + gc_window (gd_config g) div 1000000) log)) \<le> 2 * gc_requests_per_window (gd_config g)"
proof -
  define c where "c = normalize_config (config_from_environment env)"
  have c: "usable_config c" unfolding c_def by (rule normalize_usable [OF environment_usable])
  let ?k = "user_key sha parse_ip u"
  define s where "s = ((new_guard (config_from_environment env), \<lparr>cn_now = t, cn_rows = []\<rparr>), [] :: int list)"
  have "quota_kept c ?k s"
    using c by (auto simp: quota_kept_def s_def new_guard_def c_def windows_def grants_at_def counted_def row_at_def usable_config_def
      intro!: exI [of _ "[]"])
  then have "quota_kept c ?k (fold (admit_at sha parse_ip u) es s)"
    by (induction es arbitrary: s) (simp_all add: admit_quota [OF c])
  moreover obtain g r log where run: "fold (admit_at sha parse_ip u) es s = ((g, r), log)" by (metis prod.exhaust)
  ultimately obtain ps where ps: "gd_config g = c" "windows (gc_requests_per_window c) (gc_window c div 1000000) ps"
    "\<And>P. length (filter P log) \<le> length (filter P (map snd ps))"
    by (auto simp: quota_kept_def)
  have "int (length (filter (\<lambda>s. a \<le> s \<and> s < a + gc_window c div 1000000) log)) \<le> 2 * gc_requests_per_window c"
    using two_windows [OF ps(2), of a] ps(3) [of "\<lambda>s. a \<le> s \<and> s < a + gc_window c div 1000000"] c
    by (simp add: usable_config_def)
  then show ?thesis using run ps(1) by (simp add: s_def Let_def)
qed

lemma retry_seconds_enough: "m \<le> 1000 * retry_seconds (m * 1000000)"
proof -
  define s where "s = m * 1000000 div 1000000000"
  define e where "e = m * 1000000 mod 1000000000"
  have "1000000000 * s + e = m * 1000000" unfolding s_def e_def by (rule mult_div_mod_eq)
  moreover have "0 \<le> e" "e < 1000000000" by (simp_all add: e_def)
  moreover have "(if e \<noteq> 0 then s + 1 else s) \<le> retry_seconds (m * 1000000)"
    by (simp add: retry_seconds_def Let_def second_def s_def e_def)
  ultimately show ?thesis by (auto split: if_splits)
qed

text \<open>C39: a client that waits as long as the guard tells it is let through. When the quota refuses a
  request, nothing is consumed, and once the announced number of seconds has passed without another
  request on the same counters, the same request finds room.\<close>

theorem retry_after_sufficient:
  assumes "c = normalize_config (config_from_environment env)" "u \<noteq> []"
    and "allow_rate_limits sha parse_ip up fails (guard_rules c u a action_name) r = (Inr (False, d), s)"
    and "cn_now r + 1000 * retry_seconds d \<le> t"
  shows "(\<forall>k. redis_get k s = redis_get k r) \<and>
    fst (allow_rate_limits sha parse_ip True False (guard_rules c u a action_name) (at_time t s)) = Inr (True, 0)"
proof -
  have c: "usable_config c" unfolding assms(1) by (rule normalize_usable [OF environment_usable])
  note proper = guard_rules_proper(1) [OF c assms(2), where a = a]
    guard_rules_proper(2) [OF c assms(2), where a = a and sha = sha and parse_ip = parse_ip]
  let ?rules = "map (script_rule sha parse_ip) (guard_rules c u a action_name)"
  have some: "guard_rules c u a action_name \<noteq> []" by (simp add: guard_rules_def)
  obtain m where m: "d = m * 1000000" "reserve_rate_limit_script ?rules r = ((False, m), s)"
    using allow_rules [OF proper(1) some assms(3)] by auto
  have "\<not> room ?rules r" using script_granted(1) [OF proper(2), where r = r] m(2) by auto
  then have "script_retry ?rules 0 r = (m, s)" using script_granted(2) [OF proper(2), where r = r] m(2) by auto
  then have same: "redis_get k s = redis_get k r" for k using retry_time [OF _ proper(2)] by blast
  have "m \<le> 1000 * retry_seconds d" unfolding m(1) by (rule retry_seconds_enough)
  then have "cn_now r + m \<le> t" using assms(4) by simp
  then obtain v where "reserve_rate_limit_script ?rules (at_time t s) = ((True, 0), v)"
    using script_later [OF proper(2) m(2)] by blast
  then show ?thesis using same proper(1) some by (simp add: allow_rate_limits_def)
qed

definition full_counters :: counters where
  "full_counters = \<lparr>cn_now = 0, cn_rows = [(''rate_limit:cost-guard:chat:ann'', (20, Some 29500))]\<rparr>"

lemma example_keys:
  "trim_space (to_lower ''ann'') = ''ann''" "trim_space ''ann'' = ''ann''" "to_lower ''ann'' = ''ann''"
  by code_simp+

lemma example_rules:
  "guard_rules (normalize_config (config_from_environment (\<lambda>s. None))) ''ann'' ActionChat action_name =
    [\<lparr>rr_action = ''cost-guard'', rr_dimension = ''all'', rr_identifier = ''ann'', rr_limit = 60, rr_window = 60000000000\<rparr>,
     \<lparr>rr_action = ''cost-guard'', rr_dimension = ''chat'', rr_identifier = ''ann'', rr_limit = 20, rr_window = 60000000000\<rparr>]"
  by (simp add: guard_rules_def Let_def normalize_config_def config_from_environment_def default_config_def or_default_def
    apply_positive_int_def apply_positive_seconds_def second_def default_action_limit_def action_name_def)

lemma full_counters_refuse:
  "allow_rate_limits (\<lambda>s. s) (\<lambda>s. None) True False
    (guard_rules (normalize_config (config_from_environment (\<lambda>s. None))) ''ann'' ActionChat action_name) full_counters =
    (Inr (False, 29500000000), full_counters)"
  unfolding example_rules
  by (simp add: allow_rate_limits_def valid_rule_def script_rule_def rate_limit_key_def identifier_digest_def example_keys
    reserve_rate_limit_script_def redis_get_def row_at_def full_counters_def redis_pttl_def)

theorem retry_after_sufficient_witness:
  "fst (allow_rate_limits (\<lambda>s. s) (\<lambda>s. None) True False
    (guard_rules (normalize_config (config_from_environment (\<lambda>s. None))) ''ann'' ActionChat action_name)
    (at_time 30000 full_counters)) = Inr (True, 0)"
  using retry_after_sufficient [OF refl _ full_counters_refuse, of 30000]
  by (simp add: full_counters_def retry_seconds_def second_def)

end
