(* ===== verification/VoiceHub.thy ===== *)
theory VoiceHub
  imports GuardSafety
begin

text \<open>
  \<open>src/service/voiceconversation/hub.go\<close>: the live realtime connections of the process, their caps, and
  the drain at shutdown. A connection is a slot, as a request of the guard is: the interpretation \<open>hs\<close>.
\<close>

section \<open>The hub\<close>

text \<open>
  \<open>hb_cancels\<close> are the registered connections, in the order they registered, each with the user its
  release function closes over; \<open>hb_empty\<close> tells whether the channel of the current generation is
  closed; \<open>hb_cancelled\<close> are the connections whose callback has run; \<open>hb_panicked\<close> records a close of a
  closed channel. Numbers do not wrap.
\<close>

record hub =
  hb_draining :: bool
  hb_max_global :: int
  hb_max_per_user :: int
  hb_by_user :: "(string \<times> int) list"
  hb_cancels :: "(nat \<times> string) list"
  hb_next_id :: nat
  hb_empty :: bool
  hb_cancelled :: "nat list"
  hb_panicked :: bool

definition new_hub :: "int \<Rightarrow> int \<Rightarrow> hub" where
  "new_hub maxGlobal maxPerUser =
     \<lparr>hb_draining = False, hb_max_global = (if maxGlobal < 1 then 32 else maxGlobal),
      hb_max_per_user = (if maxPerUser < 1 then 1 else maxPerUser), hb_by_user = [], hb_cancels = [], hb_next_id = 0,
      hb_empty = True, hb_cancelled = [], hb_panicked = False\<rparr>"

definition default_hub :: hub where
  "default_hub = new_hub 32 1"

definition accepting :: "hub \<Rightarrow> bool" where
  "accepting h \<longleftrightarrow> \<not> hb_draining h"

datatype voice_hub_error = HubDraining | HubCapacity

text \<open>The part of \<open>Register\<close> under the lock, for a trimmed user, and the whole of it.\<close>

definition enter_hub :: "string \<Rightarrow> hub \<Rightarrow> (nat \<times> hub) option" where
  "enter_hub userName h =
     (if hb_draining h \<or> hb_max_global h \<le> int (length (hb_cancels h)) \<or> hb_max_per_user h \<le> count_in (hb_by_user h) userName then None
      else let i = Suc (hb_next_id h) in
        Some (i, h\<lparr>hb_empty := (if hb_cancels h = [] then False else hb_empty h), hb_next_id := i,
          hb_cancels := hb_cancels h @ [(i, userName)], hb_by_user := count_up userName (hb_by_user h)\<rparr>))"

definition register_hub :: "string \<Rightarrow> bool \<Rightarrow> hub \<Rightarrow> voice_hub_error + nat \<times> hub" where
  "register_hub userName0 has_cancel h =
     (let userName = trim_space userName0 in
      if userName = [] \<or> \<not> has_cancel then Inl HubCapacity
      else if hb_draining h then Inl HubDraining
      else case enter_hub userName h of None \<Rightarrow> Inl HubCapacity | Some x \<Rightarrow> Inr x)"

definition leave_hub :: "nat \<Rightarrow> hub \<Rightarrow> hub" where
  "leave_hub i h = (case map_of (hb_cancels h) i of
     None \<Rightarrow> h
   | Some userName \<Rightarrow>
       let rest = filter (\<lambda>x. fst x \<noteq> i) (hb_cancels h); m = AList.update userName (count_in (hb_by_user h) userName - 1) (hb_by_user h) in
       h\<lparr>hb_cancels := rest, hb_by_user := (if count_in m userName \<le> 0 then AList.delete userName m else m),
         hb_empty := (if rest = [] then True else hb_empty h), hb_panicked := (hb_panicked h \<or> (rest = [] \<and> hb_empty h))\<rparr>)"

definition begin_drain :: "hub \<Rightarrow> hub" where
  "begin_drain h = (if hb_draining h then h
     else h\<lparr>hb_draining := True, hb_cancelled := hb_cancelled h @ map fst (hb_cancels h)\<rparr>)"

text \<open>\<open>Wait\<close> returns without an error when the channel is closed; \<open>done_first\<close> tells whether the context ends before.\<close>

definition wait_hub :: "bool \<Rightarrow> hub \<Rightarrow> bool" where
  "wait_hub done_first h \<longleftrightarrow> hb_empty h \<and> \<not> done_first"

section \<open>The contract\<close>

definition hub_level :: "hub \<Rightarrow> string option \<Rightarrow> int" where
  "hub_level h c = (case c of None \<Rightarrow> int (length (hb_cancels h)) | Some u \<Rightarrow> count_in (hb_by_user h) u)"

definition hub_charges :: "string \<Rightarrow> string option \<Rightarrow> bool" where
  "hub_charges u c = (case c of None \<Rightarrow> True | Some v \<Rightarrow> v = u)"

definition hub_cap :: "hub \<Rightarrow> string option \<Rightarrow> int option" where
  "hub_cap h c = Some (case c of None \<Rightarrow> hb_max_global h | Some u \<Rightarrow> hb_max_per_user h)"

lemma enter_hub_some:
  assumes "enter_hub u h = Some (i, g)"
  shows "i = Suc (hb_next_id h)" "g = h\<lparr>hb_empty := (if hb_cancels h = [] then False else hb_empty h), hb_next_id := i,
      hb_cancels := hb_cancels h @ [(i, u)], hb_by_user := count_up u (hb_by_user h)\<rparr>"
    "\<not> hb_draining h" "int (length (hb_cancels h)) < hb_max_global h" "count_in (hb_by_user h) u < hb_max_per_user h"
  using assms by (auto simp: enter_hub_def Let_def split: if_splits)

lemma hub_cap_config: "hb_max_global h = hb_max_global g \<Longrightarrow> hb_max_per_user h = hb_max_per_user g \<Longrightarrow> hub_cap h = hub_cap g"
  by (rule ext) (simp add: hub_cap_def split: option.split)

lemma leave_hub_fields:
  "hb_cancels (leave_hub i h) = filter (\<lambda>x. fst x \<noteq> i) (hb_cancels h)" "hb_max_global (leave_hub i h) = hb_max_global h"
  "hb_max_per_user (leave_hub i h) = hb_max_per_user h" "hb_next_id (leave_hub i h) = hb_next_id h"
  "hb_draining (leave_hub i h) = hb_draining h" "hb_cancelled (leave_hub i h) = hb_cancelled h"
proof -
  have "filter (\<lambda>x. fst x \<noteq> i) (hb_cancels h) = hb_cancels h" if "map_of (hb_cancels h) i = None"
    using that filter_free by (metis map_of_eq_None_iff)
  then show "hb_cancels (leave_hub i h) = filter (\<lambda>x. fst x \<noteq> i) (hb_cancels h)"
    by (cases "map_of (hb_cancels h) i") (simp_all add: leave_hub_def Let_def)
qed (simp_all add: leave_hub_def Let_def split: option.split)

lemma length_without: "distinct (map fst xs) \<Longrightarrow> (i, k) \<in> set xs \<Longrightarrow> int (length (filter (\<lambda>x. fst x \<noteq> i) xs)) = int (length xs) - 1"
proof (induction xs)
  case (Cons x xs)
  then show ?case using filter_free [of i xs] by (cases "fst x = i") (force simp: rev_image_eqI)+
qed simp

lemma leave_hub_user:
  assumes "distinct (map fst (hb_cancels h))" "(i, u) \<in> set (hb_cancels h)" "0 < count_in (hb_by_user h) u"
  shows "count_in (hb_by_user (leave_hub i h)) v = count_in (hb_by_user h) v - (if v = u then 1 else 0)"
  using assms by (auto simp: leave_hub_def Let_def count_in_def update_conv' delete_conv' split: option.splits)

interpretation hs: slot_pool hb_cancels hub_level hub_charges hub_cap enter_hub leave_hub "\<lambda>h. Suc (hb_next_id h)"
proof unfold_locales
  fix u h i g c m
  assume a: "enter_hub u h = Some (i, g)"
  note b = enter_hub_some [OF a]
  show "hb_cancels g = hb_cancels h @ [(i, u)]" "Suc (hb_next_id h) \<le> i \<and> i < Suc (hb_next_id g)"
    by (simp_all add: b(1) b(2))
  show "hub_cap g = hub_cap h" by (rule hub_cap_config) (simp_all add: b(2))
  show "hub_level g c = hub_level h c + (if hub_charges u c then 1 else 0)"
    by (simp add: b(2) hub_level_def hub_charges_def split: option.split)
  show "hub_level h c < m" if "hub_charges u c" "hub_cap h c = Some m"
    using that b(4,5) by (auto simp: hub_level_def hub_charges_def hub_cap_def split: option.splits)
next
  fix i u h c
  show "leave_hub i h = h" if "i \<notin> fst ` set (hb_cancels h)"
    using that by (simp add: leave_hub_def map_of_eq_None_iff [THEN iffD2])
  show "hb_cancels (leave_hub i h) = filter (\<lambda>x. fst x \<noteq> i) (hb_cancels h)" by (rule leave_hub_fields)
  show "hub_cap (leave_hub i h) = hub_cap h" by (rule hub_cap_config) (simp_all add: leave_hub_fields)
  show "Suc (hb_next_id (leave_hub i h)) = Suc (hb_next_id h)" by (simp add: leave_hub_fields)
  show "hub_level (leave_hub i h) c = hub_level h c - (if hub_charges u c then 1 else 0)"
    if "distinct (map fst (hb_cancels h))" "(i, u) \<in> set (hb_cancels h)" "\<And>c. hub_charges u c \<Longrightarrow> 0 < hub_level h c"
    using that(1,2) that(3) [of "Some u"]
    by (auto simp: hub_level_def hub_charges_def leave_hub_fields length_without leave_hub_user split: option.split)
qed

section \<open>Connections that come and go\<close>

datatype hub_event = Connects string bool | Disconnects nat | Drains

definition hub_step :: "hub_event \<Rightarrow> hub \<Rightarrow> hub" where
  "hub_step e h = (case e of
     Connects u has_cancel \<Rightarrow> (case register_hub u has_cancel h of Inl x \<Rightarrow> h | Inr (i, g) \<Rightarrow> g)
   | Disconnects i \<Rightarrow> leave_hub i h
   | Drains \<Rightarrow> begin_drain h)"

text \<open>The channel is open exactly while there is a connection; what is connected while the hub drains has been cancelled.\<close>

definition hub_sound :: "hub \<Rightarrow> bool" where
  "hub_sound h \<longleftrightarrow> hs.sound h \<and> (hb_empty h \<longleftrightarrow> hb_cancels h = []) \<and> \<not> hb_panicked h \<and>
     (hb_draining h \<longrightarrow> fst ` set (hb_cancels h) \<subseteq> set (hb_cancelled h))"

lemma hub_sound_new: "hub_sound (new_hub m n)"
  by (auto simp: hub_sound_def hs.sound_def hs.charged_def new_hub_def hub_level_def hub_cap_def count_in_def split: option.splits)

lemma register_some: "register_hub u b h = Inr (i, g) \<Longrightarrow> enter_hub (trim_space u) h = Some (i, g) \<and> \<not> hb_draining h"
  by (auto simp: register_hub_def Let_def split: if_splits option.splits)

lemma hub_sound_enter:
  assumes "hub_sound h" "enter_hub u h = Some (i, g)"
  shows "hub_sound g"
  using assms(1) hs.enter_sound [OF _ assms(2)] enter_hub_some(2,3) [OF assms(2)] by (auto simp: hub_sound_def)

lemma hub_sound_leave:
  assumes "hub_sound h"
  shows "hub_sound (leave_hub i h)"
proof -
  have "hb_empty (leave_hub i h) = (hb_cancels (leave_hub i h) = []) \<and> \<not> hb_panicked (leave_hub i h)"
    using assms by (cases "map_of (hb_cancels h) i") (auto simp: hub_sound_def leave_hub_def Let_def)
  then show ?thesis using assms hs.leave_sound by (auto simp: hub_sound_def leave_hub_fields)
qed

lemma begin_drain_fields:
  "hub_level (begin_drain h) = hub_level h" "hub_cap (begin_drain h) = hub_cap h" "hb_cancels (begin_drain h) = hb_cancels h"
  "hb_next_id (begin_drain h) = hb_next_id h" "hb_empty (begin_drain h) = hb_empty h" "hb_panicked (begin_drain h) = hb_panicked h"
  by (simp_all add: begin_drain_def hub_level_def [abs_def] hub_cap_def [abs_def] cong: option.case_cong)

lemma hub_sound_drain: "hub_sound h \<Longrightarrow> hub_sound (begin_drain h)"
  by (auto simp: hub_sound_def hs.sound_def begin_drain_fields) (force simp: begin_drain_def split: if_splits)+

lemma hub_sound_step: "hub_sound h \<Longrightarrow> hub_sound (hub_step e h)"
  by (auto simp: hub_step_def hub_sound_leave hub_sound_drain split: hub_event.split sum.split
    dest: register_some intro: hub_sound_enter)

lemma hub_sound_run: "hub_sound h \<Longrightarrow> hub_sound (fold hub_step es h)"
  by (induction es arbitrary: h) (simp_all add: hub_sound_step)

lemma hub_caps_step: "hb_max_global (hub_step e h) = hb_max_global h \<and> hb_max_per_user (hub_step e h) = hb_max_per_user h"
  by (auto simp: hub_step_def begin_drain_def leave_hub_fields split: hub_event.split sum.split dest!: register_some enter_hub_some(2))

lemma hub_caps_run: "hb_max_global (fold hub_step es h) = hb_max_global h \<and> hb_max_per_user (fold hub_step es h) = hb_max_per_user h"
  by (induction es arbitrary: h) (simp_all add: hub_caps_step)

lemma drained_step: "hb_draining h \<Longrightarrow> hb_draining (hub_step e h) \<and> set (hb_cancels (hub_step e h)) \<subseteq> set (hb_cancels h)"
  by (auto simp: hub_step_def begin_drain_def leave_hub_fields split: hub_event.split sum.split dest: register_some)

lemma drained_run:
  "hb_draining h \<Longrightarrow> hb_draining (fold hub_step es h) \<and> set (hb_cancels (fold hub_step es h)) \<subseteq> set (hb_cancels h)"
proof (induction es arbitrary: h)
  case (Cons e es)
  then show ?case using drained_step [OF Cons.prems, of e] Cons.IH [of "hub_step e h"] by auto
qed simp

text \<open>C40: the hub of voice connections keeps its caps and drains. After any connections, disconnections
  (repeated ones too) and drains: neither cap is exceeded, the channel that \<open>Wait\<close> watches is closed
  exactly when nothing is connected, and is never closed twice. From a drain on, nothing new connects
  (so once nothing is connected that stays so) and everything still connected has been cancelled.\<close>

theorem hub_drains:
  "let h = fold hub_step es (new_hub m n); d = begin_drain h; g = fold hub_step fs d in
    int (length (hb_cancels h)) \<le> (if m < 1 then 32 else m) \<and>
    int (length (filter (\<lambda>x. snd x = u) (hb_cancels h))) \<le> (if n < 1 then 1 else n) \<and>
    wait_hub False h = (hb_cancels h = []) \<and> \<not> hb_panicked h \<and> \<not> hb_panicked g \<and> \<not> accepting g \<and>
    set (hb_cancels g) \<subseteq> set (hb_cancels h) \<and> fst ` set (hb_cancels g) \<subseteq> set (hb_cancelled g) \<and>
    wait_hub False g = (hb_cancels g = [])"
proof -
  define h where "h = fold hub_step es (new_hub m n)"
  define d where "d = begin_drain h"
  define g where "g = fold hub_step fs d"
  have h: "hub_sound h" and c: "hb_max_global h = (if m < 1 then 32 else m)" "hb_max_per_user h = (if n < 1 then 1 else n)"
    unfolding h_def using hub_sound_run [OF hub_sound_new] hub_caps_run by (simp_all add: new_hub_def)
  have d: "hub_sound d" "hb_draining d" "hb_cancels d = hb_cancels h"
    using hub_sound_drain [OF h] by (simp_all add: d_def begin_drain_def)
  have g: "hub_sound g" "hb_draining g" "set (hb_cancels g) \<subseteq> set (hb_cancels h)"
    using hub_sound_run [OF d(1)] drained_run [OF d(2), of fs] d(3) by (simp_all add: g_def)
  have lev: "hub_level h k = hs.charged k (hb_cancels h)" "hub_cap h k = Some b \<Longrightarrow> hub_level h k \<le> b" for k b
    using h unfolding hub_sound_def hs.sound_def by blast+
  have "int (length (hb_cancels h)) \<le> hb_max_global h" using lev(2) [of None] by (simp add: hub_level_def hub_cap_def)
  moreover have "int (length (filter (\<lambda>x. snd x = u) (hb_cancels h))) \<le> hb_max_per_user h"
    using lev [of "Some u"] by (simp add: hub_cap_def hs.charged_def hub_charges_def eq_commute)
  ultimately show ?thesis
    using h g d(1,3) unfolding h_def [symmetric] d_def [symmetric] g_def [symmetric] Let_def
    by (auto simp: hub_sound_def wait_hub_def accepting_def c)
qed

end
