(* ===== verification/Spec2Isabelle.thy ===== *)
theory Spec2Isabelle
  imports AgentWorkerCalls AgentGuarantees AgentRefinement AgentOutcomes AgentRecovery AgentData McpGuarantees
    RagChunk KbExamples QuotaSafety VoiceHub
begin

text \<open>
  A verification development for haruka-ai, a chat and agent server written in Go. It models the parts
  that carry the server's own logic: the durable Agent (store, service, graph, worker), the hub through
  which tools of MCP servers are called, the catalog of models, the knowledge base (store, service,
  worker, chunking, index in Redis), the guard of expensive endpoints and the hub of voice connections.

  Foundations. \<open>Prelude\<close>: a Go call is a function from a state to \<open>(error + result) \<times> state\<close>; sequencing
  \<open>bindE\<close>, handling \<open>tryE\<close>; the locale \<open>state_preorder\<close> lifts a relation that single calls keep to composed
  calls. \<open>GoStrings\<close>, \<open>GoTrim\<close>, \<open>GoNumbers\<close>, \<open>Regex\<close>, \<open>Replace\<close>, \<open>Json\<close>: what the code uses of Go's library;
  a Go string is a list of bytes. \<open>Database\<close>: two tables as lists of rows, SQL statements as operations on
  them, each of which may fail by a schedule of faults; a transaction restores the tables when it fails.
  The schedules are lists that run out into success, so every statement has an outcome.

  The durable Agent. \<open>AgentModel\<close> and \<open>AgentStore\<close>, \<open>AgentTransitions\<close> translate \<open>src/model/agent.go\<close> and
  \<open>src/dao/agent/agent.go\<close> operation by operation (claims, leases, fencing tokens, plans, approvals,
  cancellation, resumption, crash recovery, checkpoints). \<open>AgentSteps\<close> is the abstract specification, a
  transition system on single rows; \<open>AgentRefinement\<close> proves that every operation of the code refines it;
  \<open>AgentRelations\<close> and \<open>AgentColumns\<close> carry that proof. \<open>AgentSafety\<close>, \<open>AgentFencing\<close>, \<open>AgentGuarantees\<close>,
  \<open>AgentOutcomes\<close>, \<open>AgentRecovery\<close>, \<open>AgentData\<close> state what follows: who approved what, what an outdated token can
  do, what recovery restores, what users see of each other. \<open>AgentService\<close>, \<open>AgentPlan\<close>, \<open>AgentGraph\<close>, \<open>AgentApi\<close>
  and \<open>AgentWorker\<close> translate \<open>src/service/agent\<close> (\<open>service.go\<close>, \<open>plan.go\<close>, \<open>graph.go\<close>, \<open>worker.go\<close>) on top of the
  store; \<open>AgentGraphSafety\<close>, \<open>AgentToolCalls\<close>, \<open>AgentPlanning\<close>, \<open>AgentWorkerSafety\<close>, \<open>AgentWorkerCalls\<close> prove what the
  graph and the worker may ask of the MCP gateway and what becomes of a call whose outcome is uncertain.
  The engine that runs the graph is third-party code: the worker is proved for every engine that runs
  nodes, saves checkpoints and restores the graph's local state (\<open>engine_step\<close>).

  The MCP hub. \<open>McpSchema\<close> (\<open>schema.go\<close>), \<open>McpConfig\<close> (\<open>config.go\<close>, \<open>types.go\<close>), \<open>McpApproval\<close> (\<open>approval.go\<close>,
  \<open>redact.go\<close>), \<open>McpRegistry\<close> (\<open>registry.go\<close>, \<open>protocol.go\<close>) of \<open>src/common/mcphub\<close>; \<open>McpSafety\<close> and
  \<open>McpGuarantees\<close> show the invariant over all operations, what authorises a request that reaches a server,
  and the audit trail. The transport is a schedule of replies.

  The model catalog: \<open>ModelCatalog\<close> (\<open>src/common/modelgateway/catalog.go\<close>).

  The knowledge base. \<open>KbStore\<close> (\<open>src/dao/knowledgebase\<close>), \<open>KbLifecycle\<close> (the machines of a document and of a
  task, the abstract specification), \<open>KbSafety\<close> (the store refines them, with the phase of a row as
  abstraction), \<open>KbFencing\<close> (attempts), \<open>KbRecovery\<close>, \<open>RagChunk\<close> (\<open>src/common/rag/chunk.go\<close>), \<open>KbIndex\<close> (the part of
  \<open>rag.go\<close> that writes and deletes hashes), \<open>KbWorker\<close> and \<open>KbService\<close> (\<open>src/service/knowledgebase\<close>),
  \<open>KbWorkerSafety\<close>, \<open>KbIndexing\<close>, \<open>KbServiceSafety\<close>, \<open>KbExamples\<close>. Between two calls of the worker or the service
  other processes may run any operations of the store: a schedule in the state says which.

  Slots. \<open>Slots\<close> is the contract of a pool with a release function per slot; \<open>CostGuard\<close>
  (\<open>src/middleware/costguard/guard.go\<close>, \<open>src/common/redis/rate_limit.go\<close>) and \<open>VoiceHub\<close>
  (\<open>src/service/voiceconversation/hub.go\<close>) provide it. \<open>GuardSafety\<close> and \<open>QuotaSafety\<close> show the capacity and the
  quota over every interleaving of requests.

  Bounds. The chunking loop is a \<open>partial_function\<close>: \<open>None\<close> is a run that does not end, and
  \<open>chunking_terminates_iff\<close> says when that is. Recovery runs at most twenty batches of fifty as the code
  does. Every other loop is a total function; regular
  expressions are matched by derivatives. Identifiers, attempts and
  versions are unbounded: the code's 64-bit counters are not brought to their ends; times are integers.

  Not modelled: the HTTP controllers, routers and middleware other than the guard, the command-line
  programs, and the migrations, which bind and forward; the chat side (\<open>aihelper\<close>, sessions, messages,
  RabbitMQ), retrieval and ranking in \<open>rag\<close>, and the clients of speech, image and mail providers, whose
  behaviour is that of libraries, models and services outside the repository; authentication cookies and
  tokens; metrics. Within the modelled parts, log lines, contexts that are cancelled in the middle of a
  statement, goroutine scheduling inside one locked section and the wiring of process-wide instances are
  left out; SHA-256, URL and address parsing, embedding and language models are parameters.
\<close>

end
